(* ===== verification/LOS_Prelude.thy ===== *)
theory LOS_Prelude
  imports Main "HOL-Library.AList" "HOL-Library.List_Lexorder" "HOL-Library.Char_ord"
begin

text \<open>
  Shared vocabulary of the development: the JavaScript values the modelled TypeScript uses.

  \<^item> A JavaScript string is a \<^typ>\<open>string\<close>; one \<^typ>\<open>char\<close> is one UTF-16 code unit
    below 256, and the order on strings is the code-unit order of \<open><\<close>.
  \<^item> A number that holds a time stamp, a count or a length is an \<^typ>\<open>int\<close> or
    \<^typ>\<open>nat\<close>: the code uses only safe integers there.
  \<^item> A \<open>Map\<close> is an association list in insertion order: \<open>set\<close> on a present key keeps its
    position, \<open>set\<close> on an absent key appends, \<open>delete\<close> removes.
  \<^item> \<open>undefined\<close> and \<open>null\<close> are \<^term>\<open>None\<close>; a thrown \<open>Error\<close> is an \<^term>\<open>Inl\<close>.
  \<^item> \<open>Array.prototype.sort\<close> is stable, as \<^const>\<open>sort_key\<close> is.
\<close>

section \<open>Hint collections\<close>

named_theorems jsmap_simps \<open>rewrite rules of the insertion-ordered map\<close>
named_theorems step_inv \<open>one preservation lemma per operation\<close>

section \<open>Errors\<close>

datatype js_error =
    Error string
  | BrokenTeamChainError string string

type_synonym 'a outcome = "js_error + 'a"

section \<open>Strings\<close>

type_synonym ms = int

definition js_ws :: "char \<Rightarrow> bool" where
  "js_ws c \<longleftrightarrow> (of_char c :: nat) \<in> {9, 10, 11, 12, 13, 32, 160}"

definition js_trimEnd :: "string \<Rightarrow> string" where
  "js_trimEnd s = rev (dropWhile js_ws (rev s))"

definition js_trim :: "string \<Rightarrow> string" where
  "js_trim s = js_trimEnd (dropWhile js_ws s)"

definition js_lower_char :: "char \<Rightarrow> char" where
  "js_lower_char c =
     (let n = (of_char c :: nat)
      in if (65 \<le> n \<and> n \<le> 90) \<or> (192 \<le> n \<and> n \<le> 222 \<and> n \<noteq> 215) then char_of (n + 32) else c)"

definition js_toLowerCase :: "string \<Rightarrow> string" where
  "js_toLowerCase s = map js_lower_char s"

definition js_startsWith :: "string \<Rightarrow> string \<Rightarrow> bool" where
  "js_startsWith s p \<longleftrightarrow> take (length p) s = p"

definition js_endsWith :: "string \<Rightarrow> string \<Rightarrow> bool" where
  "js_endsWith s p \<longleftrightarrow> js_startsWith (rev s) (rev p)"

text \<open>\<open>s.indexOf(c)\<close> for a single character; \<^term>\<open>None\<close> is the result \<open>-1\<close>.\<close>

fun js_indexOf :: "string \<Rightarrow> char \<Rightarrow> nat option" where
  "js_indexOf [] c = None"
| "js_indexOf (x # xs) c = (if x = c then Some 0 else map_option Suc (js_indexOf xs c))"

text \<open>\<open>s.split(c)\<close> for a single character.\<close>

fun js_split :: "string \<Rightarrow> char \<Rightarrow> string list" where
  "js_split [] c = [[]]"
| "js_split (x # xs) c =
     (if x = c then [] # js_split xs c
      else (case js_split xs c of [] \<Rightarrow> [[x]] | w # ws \<Rightarrow> (x # w) # ws))"

text \<open>\<open>ws.join(sep)\<close>.\<close>

fun js_join :: "string \<Rightarrow> string list \<Rightarrow> string" where
  "js_join sep [] = []"
| "js_join sep [w] = w"
| "js_join sep (w # v # ws) = w @ sep @ js_join sep (v # ws)"

text \<open>The decimal rendering of a natural number in a template literal.\<close>

fun js_of_nat :: "nat \<Rightarrow> string" where
  "js_of_nat n =
     (if n < 10 then [char_of (48 + n)] else js_of_nat (n div 10) @ [char_of (48 + n mod 10)])"

declare js_of_nat.simps [simp del]

text \<open>The truth value of an optional string: absent and empty are both falsy.\<close>

definition truthy :: "string option \<Rightarrow> bool" where
  "truthy x = (case x of None \<Rightarrow> False | Some s \<Rightarrow> s \<noteq> [])"

text \<open>\<open>xs.slice(-n)\<close> for \<open>n > 0\<close>: the last \<open>n\<close> elements; \<open>slice(-0)\<close> is the whole array.\<close>

definition slice_last :: "int \<Rightarrow> 'a list \<Rightarrow> 'a list" where
  "slice_last n xs =
     (if n \<le> 0 then drop (nat (- n)) xs else drop (length xs - nat n) xs)"

lemma js_trim_Nil [simp]: "js_trim [] = []"
  by (simp add: js_trim_def js_trimEnd_def)

lemma truthy_simps [simp]: "truthy None = False" "truthy (Some s) = (s \<noteq> [])"
  by (simp_all add: truthy_def)

lemma js_startsWith_append [simp]: "js_startsWith (p @ s) p"
  by (simp add: js_startsWith_def)

lemma js_startsWith_iff: "js_startsWith s p \<longleftrightarrow> (\<exists>r. s = p @ r)"
  by (metis append_take_drop_id js_startsWith_append js_startsWith_def)

lemma js_indexOf_None [simp]: "js_indexOf s c = None \<longleftrightarrow> c \<notin> set s"
  by (induction s) auto

lemma js_indexOf_append: "c \<notin> set s \<Longrightarrow> js_indexOf (s @ c # r) c = Some (length s)"
  by (induction s) auto

lemma js_indexOf_Some:
  "js_indexOf s c = Some i \<Longrightarrow> i < length s \<and> s ! i = c \<and> c \<notin> set (take i s)"
proof (induction s arbitrary: i)
  case Nil
  then show ?case by simp
next
  case (Cons x xs)
  then show ?case by (cases i) (auto split: if_splits)
qed

lemma js_split_nonempty [simp]: "js_split s c \<noteq> []"
  by (induction s) (auto split: list.splits)

lemma js_join_Cons_char: "js_join sep ((x # w) # ws) = x # js_join sep (w # ws)"
  by (cases ws) simp_all

lemma js_join_split: "js_join [c] (js_split s c) = s"
proof (induction s)
  case Nil
  then show ?case by simp
next
  case (Cons x xs)
  obtain w ws where "js_split xs c = w # ws"
    using js_split_nonempty by (meson neq_Nil_conv)
  with Cons.IH show ?case by (simp add: js_join_Cons_char)
qed

lemma js_split_append: "js_split (a @ c # b) c = js_split a c @ js_split b c"
proof (induction a)
  case (Cons x a)
  show ?case
  proof (cases "x = c")
    case False
    obtain w ws where "js_split a c = w # ws"
      using js_split_nonempty by (meson neq_Nil_conv)
    then show ?thesis
      using Cons.IH False by simp
  qed (simp add: Cons.IH)
qed simp

lemma js_split_no_sep: "c \<notin> set a \<Longrightarrow> js_split a c = [a]"
  by (induction a) auto

lemma js_of_nat_digits: "c \<in> set (js_of_nat n) \<Longrightarrow> (of_char c :: nat) \<in> {48..57}"
proof (induction n rule: js_of_nat.induct)
  case (1 n)
  have "(48 + k) mod 256 = 48 + k" if "k < 10" for k :: nat
    using that by simp
  with 1 show ?case
    by (subst (asm) (2) js_of_nat.simps) (auto split: if_splits)
qed

lemma js_of_nat_nonempty [simp]: "js_of_nat n \<noteq> []"
  by (subst js_of_nat.simps) simp

lemma js_of_nat_no_colon: "CHR '':'' \<notin> set (js_of_nat n)"
  using js_of_nat_digits [of "CHR '':''" n] by auto

definition digits_value :: "string \<Rightarrow> nat" where
  "digits_value s = foldl (\<lambda>a c. 10 * a + (of_char c - 48)) 0 s"

lemma digits_value_js_of_nat [simp]: "digits_value (js_of_nat n) = n"
proof (induction n rule: js_of_nat.induct)
  case (1 n)
  have "(48 + k) mod 256 = 48 + k" if "k < 10" for k :: nat
    using that by simp
  with 1 show ?case
    by (subst js_of_nat.simps) (auto simp: digits_value_def)
qed

lemma js_of_nat_inject [simp]: "js_of_nat m = js_of_nat n \<longleftrightarrow> m = n"
  by (metis digits_value_js_of_nat)

text \<open>The decimal rendering of an integer.\<close>

definition js_of_int :: "int \<Rightarrow> string" where
  "js_of_int n = (if n < 0 then CHR ''-'' # js_of_nat (nat (- n)) else js_of_nat (nat n))"

lemma js_of_nat_not_negative: "js_of_nat k \<noteq> CHR ''-'' # u"
proof
  assume "js_of_nat k = CHR ''-'' # u"
  then show False
    using js_of_nat_digits [of "CHR ''-''" k] by simp
qed

lemma js_of_int_inject [simp]: "js_of_int m = js_of_int n \<longleftrightarrow> m = n"
  using js_of_nat_not_negative js_of_nat_not_negative [symmetric] unfolding js_of_int_def by (auto simp: nat_eq_iff)

text \<open>The last occurrence of a separator splits a string in one way.\<close>

lemma append_sep_inject:
  assumes "c \<notin> set u" "c \<notin> set v"
  shows "a @ c # u = b @ c # v \<longleftrightarrow> a = b \<and> u = v"
  using assms
  by (auto simp: append_eq_append_conv2 append_eq_Cons_conv Cons_eq_append_conv)

lemma slice_last_subset: "set (slice_last n xs) \<subseteq> set xs"
  by (auto simp: slice_last_def dest: in_set_dropD)

lemma length_slice_last: "0 < n \<Longrightarrow> length (slice_last n xs) = min (nat n) (length xs)"
  by (simp add: slice_last_def)

section \<open>Insertion-ordered maps\<close>

type_synonym ('k, 'v) jsmap = "('k \<times> 'v) list"

abbreviation map_get :: "('k, 'v) jsmap \<Rightarrow> 'k \<Rightarrow> 'v option" where
  "map_get m k \<equiv> map_of m k"

abbreviation map_set :: "'k \<Rightarrow> 'v \<Rightarrow> ('k, 'v) jsmap \<Rightarrow> ('k, 'v) jsmap" where
  "map_set \<equiv> AList.update"

abbreviation map_delete :: "'k \<Rightarrow> ('k, 'v) jsmap \<Rightarrow> ('k, 'v) jsmap" where
  "map_delete \<equiv> AList.delete"

abbreviation map_values :: "('k, 'v) jsmap \<Rightarrow> 'v list" where
  "map_values m \<equiv> map snd m"

abbreviation map_keys :: "('k, 'v) jsmap \<Rightarrow> 'k list" where
  "map_keys m \<equiv> map fst m"

abbreviation map_has :: "('k, 'v) jsmap \<Rightarrow> 'k \<Rightarrow> bool" where
  "map_has m k \<equiv> map_of m k \<noteq> None"

definition map_wf :: "('k, 'v) jsmap \<Rightarrow> bool" where
  "map_wf m \<longleftrightarrow> distinct (map fst m)"

lemma map_wf_Nil [simp, jsmap_simps]: "map_wf []"
  by (simp add: map_wf_def)

lemma map_wf_set [simp, jsmap_simps]: "map_wf m \<Longrightarrow> map_wf (map_set k v m)"
  by (simp add: map_wf_def distinct_update)

lemma map_wf_delete [simp, jsmap_simps]: "map_wf m \<Longrightarrow> map_wf (map_delete k m)"
  by (simp add: map_wf_def distinct_delete)

lemma map_get_set [simp, jsmap_simps]:
  "map_get (map_set k v m) k' = (if k' = k then Some v else map_get m k')"
  by (simp add: update_conv')

lemma map_get_delete [simp, jsmap_simps]:
  "map_get (map_delete k m) k' = (if k' = k then None else map_get m k')"
  by (simp add: delete_conv')

lemma map_get_in_values: "map_get m k = Some v \<Longrightarrow> v \<in> set (map_values m)"
  by (force dest: map_of_SomeD)

lemma map_wf_get_iff: "map_wf m \<Longrightarrow> (k, v) \<in> set m \<longleftrightarrow> map_get m k = Some v"
  by (auto simp: map_wf_def dest: map_of_SomeD)

lemma map_wf_value_get:
  "map_wf m \<Longrightarrow> v \<in> set (map_values m) \<Longrightarrow> \<exists>k. map_get m k = Some v"
  by (auto simp: map_wf_get_iff)

lemma values_map_set_subset: "set (map_values (map_set k v m)) \<subseteq> insert v (set (map_values m))"
  by (induction m) auto

lemma values_map_delete_subset: "set (map_values (map_delete k m)) \<subseteq> set (map_values m)"
  by (auto simp: AList.delete_eq)

text \<open>Every stored value satisfies a predicate: kept by \<open>set\<close> of a good value and by \<open>delete\<close>.\<close>

definition map_all :: "('k \<Rightarrow> 'v \<Rightarrow> bool) \<Rightarrow> ('k, 'v) jsmap \<Rightarrow> bool" where
  "map_all P m \<longleftrightarrow> (\<forall>k v. map_get m k = Some v \<longrightarrow> P k v)"

lemma map_allI: "(\<And>k v. map_get m k = Some v \<Longrightarrow> P k v) \<Longrightarrow> map_all P m"
  by (simp add: map_all_def)

lemma map_allD: "map_all P m \<Longrightarrow> map_get m k = Some v \<Longrightarrow> P k v"
  by (simp add: map_all_def)

lemma map_all_Nil [simp]: "map_all P []"
  by (simp add: map_all_def)

lemma map_all_set [intro]: "map_all P m \<Longrightarrow> P k v \<Longrightarrow> map_all P (map_set k v m)"
  by (auto simp: map_all_def)

lemma map_all_delete [intro]: "map_all P m \<Longrightarrow> map_all P (map_delete k m)"
  by (auto simp: map_all_def)

section \<open>Lists as JavaScript arrays and sets\<close>

text \<open>\<open>[...new Set(xs)]\<close>: the first occurrences, in order.\<close>

fun dedup_from :: "'a list \<Rightarrow> 'a list \<Rightarrow> 'a list" where
  "dedup_from seen [] = []"
| "dedup_from seen (x # xs) =
     (if x \<in> set seen then dedup_from seen xs else x # dedup_from (x # seen) xs)"

definition js_dedup :: "'a list \<Rightarrow> 'a list" where
  "js_dedup xs = dedup_from [] xs"

lemma set_dedup_from: "set (dedup_from seen xs) = set xs - set seen"
  by (induction xs arbitrary: seen) auto

lemma distinct_dedup_from: "distinct (dedup_from seen xs)"
  by (induction xs arbitrary: seen) (auto simp: set_dedup_from)

lemma set_js_dedup [simp]: "set (js_dedup xs) = set xs"
  by (simp add: js_dedup_def set_dedup_from)

lemma distinct_js_dedup [simp]: "distinct (js_dedup xs)"
  by (simp add: js_dedup_def distinct_dedup_from)

lemma dedup_from_fresh: "distinct xs \<Longrightarrow> set xs \<inter> set seen = {} \<Longrightarrow> dedup_from seen xs = xs"
  by (induction xs arbitrary: seen) auto

lemma js_dedup_id [simp]: "distinct xs \<Longrightarrow> js_dedup xs = xs"
  by (simp add: js_dedup_def dedup_from_fresh)

text \<open>Generic facts about first-match search, used by every rule list.\<close>

lemma find_append:
  "List.find P (xs @ ys) = (case List.find P xs of None \<Rightarrow> List.find P ys | Some x \<Rightarrow> Some x)"
  by (induction xs) auto

lemma find_SomeD: "List.find P xs = Some x \<Longrightarrow> x \<in> set xs \<and> P x"
  by (induction xs) (auto split: if_splits)

lemma find_NoneD: "List.find P xs = None \<Longrightarrow> x \<in> set xs \<Longrightarrow> \<not> P x"
  by (induction xs) (auto split: if_splits)

section \<open>Sorting with a comparator\<close>

text \<open>\<open>xs.sort(cmp)\<close> is a stable sort; for a consistent comparator every stable sort gives this list.\<close>

fun insort_cmp :: "('a \<Rightarrow> 'a \<Rightarrow> int) \<Rightarrow> 'a \<Rightarrow> 'a list \<Rightarrow> 'a list" where
  "insort_cmp cmp x [] = [x]"
| "insort_cmp cmp x (y # ys) = (if cmp x y \<le> 0 then x # y # ys else y # insort_cmp cmp x ys)"

definition js_sort :: "('a \<Rightarrow> 'a \<Rightarrow> int) \<Rightarrow> 'a list \<Rightarrow> 'a list" where
  "js_sort cmp xs = foldr (insort_cmp cmp) xs []"

lemma set_insort_cmp [simp]: "set (insort_cmp cmp x ys) = insert x (set ys)"
  by (induction ys) auto

lemma length_insort_cmp [simp]: "length (insort_cmp cmp x ys) = Suc (length ys)"
  by (induction ys) auto

lemma set_js_sort [simp]: "set (js_sort cmp xs) = set xs"
  by (induction xs) (simp_all add: js_sort_def)

lemma length_js_sort [simp]: "length (js_sort cmp xs) = length xs"
  by (induction xs) (simp_all add: js_sort_def)

lemma distinct_insort_cmp [simp]: "distinct (insort_cmp cmp x ys) \<longleftrightarrow> x \<notin> set ys \<and> distinct ys"
  by (induction ys) auto

lemma distinct_js_sort [simp]: "distinct (js_sort cmp xs) = distinct xs"
  by (induction xs) (simp_all add: js_sort_def, simp add: js_sort_def [symmetric])

lemma distinct_map_insort_cmp [simp]:
  "distinct (map f (insort_cmp cmp x ys)) \<longleftrightarrow> f x \<notin> f ` set ys \<and> distinct (map f ys)"
  by (induction ys) auto

lemma distinct_map_js_sort [simp]: "distinct (map f (js_sort cmp xs)) = distinct (map f xs)"
  by (induction xs) (simp_all add: js_sort_def, simp add: js_sort_def [symmetric])

lemma sorted_insort_cmp:
  assumes "transp_on (insert x (set ys)) (\<lambda>a b. cmp a b \<le> 0)"
    and "\<And>y. y \<in> set ys \<Longrightarrow> \<not> cmp x y \<le> 0 \<Longrightarrow> cmp y x \<le> 0"
    and "sorted_wrt (\<lambda>a b. cmp a b \<le> 0) ys"
  shows "sorted_wrt (\<lambda>a b. cmp a b \<le> 0) (insort_cmp cmp x ys)"
  using assms
proof (induction ys)
  case (Cons y ys)
  have tr: "transp_on (insert x (set ys)) (\<lambda>a b. cmp a b \<le> 0)"
    using Cons.prems(1) by (rule transp_on_subset) auto
  show ?case
  proof (cases "cmp x y \<le> 0")
    case True
    have "cmp x z \<le> 0" if "z \<in> set ys" for z
      using Cons.prems(1,3) True that unfolding transp_on_def by (metis insertI1 insertI2 list.set_intros sorted_wrt.simps(2))
    then show ?thesis
      using True Cons.prems(3) by simp
  next
    case False
    then show ?thesis
      using Cons.IH [OF tr] Cons.prems(2,3) by auto
  qed
qed simp

lemma sorted_js_sort:
  assumes "transp_on (set xs) (\<lambda>a b. cmp a b \<le> 0)"
    and "\<And>a b. a \<in> set xs \<Longrightarrow> b \<in> set xs \<Longrightarrow> cmp a b \<le> 0 \<or> cmp b a \<le> 0"
  shows "sorted_wrt (\<lambda>a b. cmp a b \<le> 0) (js_sort cmp xs)"
  using assms
proof (induction xs)
  case (Cons x xs)
  have "sorted_wrt (\<lambda>a b. cmp a b \<le> 0) (js_sort cmp xs)"
    by (rule Cons.IH) (use Cons.prems in \<open>auto intro: transp_on_subset\<close>)
  then show ?case
    using Cons.prems sorted_insort_cmp [of x "js_sort cmp xs" cmp] by (auto simp: js_sort_def [of _ "x # xs"] js_sort_def [symmetric])
qed (simp add: js_sort_def)

section \<open>Untyped values\<close>

text \<open>A value of type \<open>unknown\<close>, as JSON gives it; \<open>undefined\<close> reads like null.\<close>

datatype js_value =
    JNull
  | JBool bool
  | JNum int
  | JStr string
  | JArr "js_value list"
  | JObj "(string \<times> js_value) list"

text \<open>\<open>(v as {k?: unknown} | null)?.k\<close>.\<close>

definition js_prop :: "js_value \<Rightarrow> string \<Rightarrow> js_value option" where
  "js_prop v k = (case v of JObj fs \<Rightarrow> map_of fs k | _ \<Rightarrow> None)"

section \<open>More strings\<close>

text \<open>\<open>s.split(sep)\<close> for a non-empty separator, scanning from the left.\<close>

function js_split_on :: "string \<Rightarrow> string \<Rightarrow> string list" where
  "js_split_on sep s =
     (if sep = [] then [s]
      else if js_startsWith s sep then [] # js_split_on sep (drop (length sep) s)
      else (case s of
              [] \<Rightarrow> [[]]
            | c # cs \<Rightarrow> (case js_split_on sep cs of [] \<Rightarrow> [[c]] | w # ws \<Rightarrow> (c # w) # ws)))"
  by pat_completeness auto
termination
  by (relation "measure (\<lambda>(sep, s). length s)") (auto simp: js_startsWith_iff)

declare js_split_on.simps [simp del]

text \<open>\<open>s.replace(/\s+/g, " ")\<close>.\<close>

fun js_collapse_ws :: "bool \<Rightarrow> string \<Rightarrow> string" where
  "js_collapse_ws inside [] = []"
| "js_collapse_ws inside (c # cs) =
     (if js_ws c then (if inside then js_collapse_ws True cs else CHR '' '' # js_collapse_ws True cs)
      else c # js_collapse_ws False cs)"

end
