(* ===== verification/Core_Types.thy ===== *)
theory Core_Types
  imports LOS_Prelude
begin

text \<open>
  The shared data of \<open>src/src/types.ts\<close> that several components use (principals, scope ids),
  person identity (\<open>directory/person.ts\<close>) and typed resource references
  (\<open>acl/resource-ref.ts\<close>). A lookup that may reject is an outcome; \<open>.catch(() => d)\<close> is
  \<open>caught d\<close>.
\<close>

definition caught :: "'a \<Rightarrow> 'a outcome \<Rightarrow> 'a" where
  "caught d x = (case x of Inl _ \<Rightarrow> d | Inr v \<Rightarrow> v)"

definition obind :: "'a outcome \<Rightarrow> ('a \<Rightarrow> 'b outcome) \<Rightarrow> 'b outcome" where
  "obind x f = (case x of Inl e \<Rightarrow> Inl e | Inr v \<Rightarrow> f v)"

lemma caught_simps [simp]: "caught d (Inl e) = d" "caught d (Inr v) = v"
  by (simp_all add: caught_def)

lemma obind_simps [simp]: "obind (Inl e) f = Inl e" "obind (Inr v) f = f v"
  by (simp_all add: obind_def)

lemma obind_Inr_iff: "obind x f = Inr y \<longleftrightarrow> (\<exists>v. x = Inr v \<and> f v = Inr y)"
  by (cases x) auto

text \<open>\<open>errMessage\<close> of \<open>util/errors.ts\<close>.\<close>

fun errMessage :: "js_error \<Rightarrow> string" where
  "errMessage (Error m) = m"
| "errMessage (BrokenTeamChainError teamId missing) = ''team '' @ teamId @ '' has unknown parent '' @ missing"

section \<open>Principals and scopes\<close>

datatype principal_type = Internal | Guest

record principal =
  p_id :: string
  p_type :: principal_type
  p_teamIds :: "string list option"
  p_displayName :: "string option"

datatype scope_kind = Personal | Channel | Team | Org | Group

definition SCOPE_KINDS :: "scope_kind list" where
  "SCOPE_KINDS = [Personal, Channel, Team, Org, Group]"

fun scope_kind_name :: "scope_kind \<Rightarrow> string" where
  "scope_kind_name Personal = ''personal''"
| "scope_kind_name Channel = ''channel''"
| "scope_kind_name Team = ''team''"
| "scope_kind_name Org = ''org''"
| "scope_kind_name Group = ''group''"

text \<open>\<open>isScopeKind\<close>, returning the kind it recognises.\<close>

definition isScopeKind :: "string \<Rightarrow> scope_kind option" where
  "isScopeKind s = List.find (\<lambda>k. scope_kind_name k = s) SCOPE_KINDS"

type_synonym scope_id = string

definition scopeId :: "scope_kind \<Rightarrow> string \<Rightarrow> scope_id" where
  "scopeId k r = scope_kind_name k @ '':'' @ r"

definition personalScope :: "string \<Rightarrow> scope_id" where
  "personalScope principalId = scopeId Personal principalId"

definition parseScopeId :: "scope_id \<Rightarrow> scope_kind option \<times> string" where
  "parseScopeId sid =
     (case js_indexOf sid (CHR '':'') of
        None \<Rightarrow> (None, [])
      | Some sep \<Rightarrow> (isScopeKind (take sep sid), drop (Suc sep) sid))"

definition isManageableCreationScope :: "scope_id option \<Rightarrow> bool" where
  "isManageableCreationScope sid =
     (if \<not> truthy sid then False
      else fst (parseScopeId (the sid)) \<in> {Some Channel, Some Team})"

definition isSharedScope :: "scope_id option \<Rightarrow> bool" where
  "isSharedScope sid =
     (if \<not> truthy sid then False
      else fst (parseScopeId (the sid)) \<in> {Some Channel, Some Group})"

lemma isScopeKind_name [simp]: "isScopeKind (scope_kind_name k) = Some k"
  by (cases k) (simp_all add: isScopeKind_def SCOPE_KINDS_def)

lemma isScopeKind_SomeD: "isScopeKind s = Some k \<Longrightarrow> s = scope_kind_name k"
  by (auto simp: isScopeKind_def dest: find_SomeD)

lemma scope_kind_name_no_colon: "CHR '':'' \<notin> set (scope_kind_name k)"
  by (cases k) simp_all

lemma scope_kind_name_nonempty [simp]: "scope_kind_name k \<noteq> []"
  by (cases k) simp_all

lemma parse_scopeId [simp]: "parseScopeId (scopeId k r) = (Some k, r)"
  using js_indexOf_append [OF scope_kind_name_no_colon, of k r]
  by (simp add: parseScopeId_def scopeId_def)

lemma parseScopeId_SomeD: "parseScopeId sid = (Some k, r) \<Longrightarrow> sid = scopeId k r"
  by (auto simp: parseScopeId_def scopeId_def split: option.splits dest!: isScopeKind_SomeD js_indexOf_Some)
     (metis id_take_nth_drop)

lemma scopeId_inject [simp]: "scopeId k r = scopeId k' r' \<longleftrightarrow> k = k' \<and> r = r'"
  by (metis parse_scopeId prod.inject option.inject)

lemma scopeId_nonempty [simp]: "scopeId k r \<noteq> []"
  by (simp add: scopeId_def)

section \<open>Person identity\<close>

definition personKey :: "string option \<Rightarrow> string" where
  "personKey pid =
     (let s = js_trim (case pid of None \<Rightarrow> [] | Some i \<Rightarrow> i)
      in if CHR ''@'' \<in> set s then js_toLowerCase s else s)"

definition samePerson :: "string option \<Rightarrow> string option \<Rightarrow> bool" where
  "samePerson a b = (personKey a \<noteq> [] \<and> personKey a = personKey b)"

record roster_person =
  rp_principalId :: "string option"
  rp_slackId :: "string option"

text \<open>The set is built in the order the ids are listed; \<open>js_dedup\<close> is \<open>new Set\<close>.\<close>

definition personKeys :: "roster_person option \<Rightarrow> string \<Rightarrow> string list" where
  "personKeys m rawId =
     js_dedup (filter (\<lambda>k. k \<noteq> [])
       (map personKey [Some rawId, Option.bind m rp_principalId, Option.bind m rp_slackId]))"

text \<open>\<open>dir\<close> is \<open>directory.get\<close>; a rejected lookup counts as no row.\<close>

definition samePersonInDirectory :: "(string \<Rightarrow> roster_person option outcome) \<Rightarrow> string \<Rightarrow> string \<Rightarrow> bool" where
  "samePersonInDirectory dir a b =
     (if samePerson (Some a) (Some b) then True
      else if personKey (Some a) = [] \<or> personKey (Some b) = [] then False
      else (let ma = caught None (dir a); mb = caught None (dir b); bKeys = personKeys mb b
            in list_ex (\<lambda>k. k \<in> set bKeys) (personKeys ma a)))"

definition samePersonMatcher :: "(string \<Rightarrow> roster_person option outcome) \<Rightarrow> string \<Rightarrow> string \<Rightarrow> bool" where
  "samePersonMatcher dir actorId other =
     (let row = caught None (dir actorId); keys = personKeys row actorId
      in if personKey (Some other) \<in> set keys then True
         else if row \<noteq> None then False
         else samePersonInDirectory dir other actorId)"

lemma personKeys_nonempty: "k \<in> set (personKeys m r) \<Longrightarrow> k \<noteq> []"
  by (auto simp: personKeys_def simp del: filter.simps)

lemma personKey_in_keys: "personKey (Some r) \<noteq> [] \<Longrightarrow> personKey (Some r) \<in> set (personKeys m r)"
  by (auto simp: personKeys_def)

lemma samePerson_sym: "samePerson a b \<Longrightarrow> samePerson b a"
  by (auto simp: samePerson_def)

lemma samePerson_trans: "samePerson a b \<Longrightarrow> samePerson b c \<Longrightarrow> samePerson a c"
  by (auto simp: samePerson_def)

lemma samePersonInDirectory_iff:
  "samePersonInDirectory dir a b \<longleftrightarrow>
     personKey (Some a) \<noteq> [] \<and> personKey (Some b) \<noteq> [] \<and>
     set (personKeys (caught None (dir a)) a) \<inter> set (personKeys (caught None (dir b)) b) \<noteq> {}"
proof (cases "samePerson (Some a) (Some b)")
  case True
  then have "personKey (Some a) \<noteq> []" and eq: "personKey (Some a) = personKey (Some b)"
    by (auto simp: samePerson_def)
  then have "personKey (Some a) \<in> set (personKeys m a)" "personKey (Some a) \<in> set (personKeys m' b)" for m m'
    using personKey_in_keys [of a] personKey_in_keys [of b] by simp_all
  with True show ?thesis
    by (auto simp: samePersonInDirectory_def samePerson_def)
next
  case False
  then show ?thesis
    by (auto simp: samePersonInDirectory_def Let_def list_ex_iff)
qed

lemma samePersonInDirectory_sym:
  "samePersonInDirectory dir a b \<Longrightarrow> samePersonInDirectory dir b a"
  by (auto simp: samePersonInDirectory_iff)

section \<open>Resource references\<close>

datatype resource_kind = KFile | KSkill | KDeploy | KCron | KServiceCred

record resource_ref =
  rr_kind :: resource_kind
  rr_id :: string

text \<open>The prefix table, in the order of \<open>RESOURCE_KINDS\<close> without \<open>file\<close>.\<close>

definition PREFIX :: "(resource_kind \<times> string) list" where
  "PREFIX = [(KSkill, ''skill:''), (KDeploy, ''deployment:''), (KCron, ''cron:''),
             (KServiceCred, ''service-cred:'')]"

definition refPrefix :: "resource_kind \<Rightarrow> string" where
  "refPrefix k = (case map_of PREFIX k of None \<Rightarrow> [] | Some p \<Rightarrow> p)"

definition encodeRef :: "resource_ref \<Rightarrow> string" where
  "encodeRef r = (if rr_kind r = KFile then rr_id r else refPrefix (rr_kind r) @ rr_id r)"

definition parseRef :: "string \<Rightarrow> resource_ref" where
  "parseRef s =
     (case List.find (\<lambda>(k, p). js_startsWith s p) PREFIX of
        Some (k, p) \<Rightarrow> \<lparr>rr_kind = k, rr_id = drop (length p) s\<rparr>
      | None \<Rightarrow> \<lparr>rr_kind = KFile, rr_id = s\<rparr>)"

lemma encode_parseRef: "encodeRef (parseRef s) = s"
  by (auto simp: parseRef_def encodeRef_def PREFIX_def refPrefix_def js_startsWith_iff
           split: if_splits)

lemma parse_encodeRef_typed: "rr_kind r \<noteq> KFile \<Longrightarrow> parseRef (encodeRef r) = r"
  by (cases "rr_kind r"; cases r)
     (simp_all add: parseRef_def encodeRef_def PREFIX_def refPrefix_def js_startsWith_def)

lemma parse_encodeRef_file:
  "rr_kind r = KFile \<Longrightarrow> parseRef (encodeRef r) = r \<longleftrightarrow>
     (\<forall>p \<in> snd ` set PREFIX. \<not> js_startsWith (rr_id r) p)"
  by (cases r) (auto simp: parseRef_def encodeRef_def PREFIX_def)

section \<open>Turn results\<close>

record grant_modes =
  gm_session :: bool
  gm_always :: bool

record attachment =
  at_name :: string
  at_mimetype :: string
  at_sizeBytes :: nat
  at_blobId :: string
  at_artifactId :: "string option"
  at_artifactViewerId :: "string option"

record pending_approval =
  pa_requestId :: string
  pa_command :: string
  pa_reason :: string
  pa_matched :: "string option"
  pa_purpose :: "string option"
  pa_summary :: "string option"
  pa_approvalKey :: "string option"
  pa_grantModes :: "grant_modes option"
  pa_blocksInput :: bool
  pa_kind_approval :: bool

datatype turn_status = OkT | Refused | FailedT | PendingApproval | Queued | Silent | React

record turn_result =
  tr_status :: turn_status
  tr_sessionId :: "string option"
  tr_reply :: "string option"
  tr_reactions :: "string list option"
  tr_reason :: "string option"
  tr_securityQuarantine :: bool
  tr_adminUrl :: "string option"
  tr_runId :: "string option"
  tr_steered :: bool
  tr_stopped :: bool
  tr_pendingApprovals :: "pending_approval list option"
  tr_attachments :: "attachment list option"
  tr_sourceUserSeq :: "nat option"
  tr_sourceAssistantEntrySeq :: "nat option"

text \<open>A result with a status and every optional field absent.\<close>

definition turn_result_of :: "turn_status \<Rightarrow> turn_result" where
  "turn_result_of st =
     \<lparr>tr_status = st, tr_sessionId = None, tr_reply = None, tr_reactions = None, tr_reason = None,
      tr_securityQuarantine = False, tr_adminUrl = None, tr_runId = None, tr_steered = False,
      tr_stopped = False, tr_pendingApprovals = None, tr_attachments = None,
      tr_sourceUserSeq = None, tr_sourceAssistantEntrySeq = None\<rparr>"

end
