(* ===== verification/Run_Store.thy ===== *)
theory Run_Store
  imports Core_Types
begin

text \<open>
  The run queue: \<open>runs/run-store.ts\<close> and the in-memory store of \<open>runs/memory-run-store.ts\<close>.
  A run is leased to one worker at a time by a random token; every operation that ends or extends
  a lease presents the token. \<open>randomUUID()\<close> and \<open>Date.now()\<close> are arguments; the listeners and
  the event emitter of \<open>settle\<close> are the log \<open>rs_settled\<close> of the runs they were called with.
  The memory store's operations have no \<open>await\<close> inside, so each runs as one step.
\<close>

section \<open>Runs\<close>

datatype run_status = Pending | Running | Done | Failed

record reap_event =
  re_runId :: string
  re_sessionId :: string
  re_workerId :: "string option"
  re_attempts :: nat
  re_errorAttempts :: nat
  re_requeued :: bool

record 'q run =
  run_id :: string
  run_sessionId :: string
  run_status :: run_status
  run_request :: 'q
  run_result :: "turn_result option"
  run_deliveryState :: "string option option"
  run_dedupKey :: "string option"
  run_attempts :: nat
  run_errorAttempts :: nat
  run_maxAttempts :: nat
  run_leaseToken :: "string option"
  run_leaseExpiresAt :: "ms option"
  run_workerId :: "string option"
  run_createdAt :: ms
  run_startedAt :: "ms option"
  run_finishedAt :: "ms option"

definition isTerminal :: "run_status \<Rightarrow> bool" where
  "isTerminal st \<longleftrightarrow> st \<in> {Done, Failed}"

text \<open>\<open>maxClaims\<close> is absent when the store was made without a bound.\<close>

definition overClaimed :: "nat option \<Rightarrow> nat \<Rightarrow> bool" where
  "overClaimed maxClaims attempts = (case maxClaims of None \<Rightarrow> False | Some m \<Rightarrow> m \<le> attempts)"

definition errorParks :: "'q run \<Rightarrow> nat option \<Rightarrow> bool" where
  "errorParks r maxClaims \<longleftrightarrow>
     run_errorAttempts r + 1 \<ge> run_maxAttempts r \<or> overClaimed maxClaims (run_attempts r)"

definition leaseLapsed :: "'q run \<Rightarrow> ms \<Rightarrow> bool" where
  "leaseLapsed r asOf \<longleftrightarrow>
     run_status r = Running \<and> (case run_leaseExpiresAt r of None \<Rightarrow> False | Some t \<Rightarrow> t \<le> asOf)"

section \<open>The store and its operations\<close>

record 'q run_store =
  rs_runs :: "(string, 'q run) jsmap"
  rs_byKey :: "(string, string) jsmap"
  rs_settled :: "'q run list"

definition empty_run_store :: "'q run_store" where
  "empty_run_store = \<lparr>rs_runs = [], rs_byKey = [], rs_settled = []\<rparr>"

text \<open>A field assignment on the run object that the map holds under its id.\<close>

definition put_run :: "'q run \<Rightarrow> 'q run_store \<Rightarrow> 'q run_store" where
  "put_run r s = s\<lparr>rs_runs := map_set (run_id r) r (rs_runs s)\<rparr>"

definition get_run :: "'q run_store \<Rightarrow> string \<Rightarrow> 'q run option" where
  "get_run s i = map_get (rs_runs s) i"

definition sessionHasRunning :: "'q run_store \<Rightarrow> string \<Rightarrow> string option \<Rightarrow> bool" where
  "sessionHasRunning s sid exceptId =
     list_ex (\<lambda>r. run_sessionId r = sid \<and> run_status r = Running \<and> Some (run_id r) \<noteq> exceptId)
       (map_values (rs_runs s))"

definition settle :: "'q run \<Rightarrow> 'q run_store \<Rightarrow> 'q run_store" where
  "settle r s = (if isTerminal (run_status r) then s\<lparr>rs_settled := rs_settled s @ [r]\<rparr> else s)"

definition new_run :: "string \<Rightarrow> string \<Rightarrow> 'q \<Rightarrow> string option \<Rightarrow> nat option \<Rightarrow> ms \<Rightarrow> 'q run" where
  "new_run uuid sid req dedupKey maxAttempts now =
     \<lparr>run_id = uuid, run_sessionId = sid, run_status = Pending, run_request = req,
      run_result = None, run_deliveryState = None, run_dedupKey = dedupKey,
      run_attempts = 0, run_errorAttempts = 0,
      run_maxAttempts = (case maxAttempts of None \<Rightarrow> 3 | Some m \<Rightarrow> m),
      run_leaseToken = None, run_leaseExpiresAt = None, run_workerId = None,
      run_createdAt = now, run_startedAt = None, run_finishedAt = None\<rparr>"

definition existing_for_key :: "'q run_store \<Rightarrow> string option \<Rightarrow> 'q run option" where
  "existing_for_key s dedupKey =
     (if truthy dedupKey then
        (case map_get (rs_byKey s) (the dedupKey) of
           None \<Rightarrow> None
         | Some i \<Rightarrow> if i = [] then None else get_run s i)
      else None)"

definition enqueue ::
  "string \<Rightarrow> 'q \<Rightarrow> string option \<Rightarrow> nat option \<Rightarrow> string \<Rightarrow> ms \<Rightarrow> 'q run_store \<Rightarrow>
   'q run_store \<times> 'q run \<times> bool" where
  "enqueue sid req dedupKey maxAttempts uuid now s =
     (case existing_for_key s dedupKey of
        Some r \<Rightarrow> (s, r, True)
      | None \<Rightarrow>
          (let r = new_run uuid sid req dedupKey maxAttempts now;
               s1 = put_run r s;
               s2 = (if truthy dedupKey then s1\<lparr>rs_byKey := map_set (the dedupKey) uuid (rs_byKey s1)\<rparr> else s1)
           in (s2, r, False)))"

definition leased :: "'q run \<Rightarrow> string \<Rightarrow> string \<Rightarrow> ms \<Rightarrow> ms \<Rightarrow> 'q run" where
  "leased r workerId token ttlMs now =
     r\<lparr>run_status := Running, run_leaseToken := Some token, run_leaseExpiresAt := Some (now + ttlMs),
       run_workerId := Some workerId, run_attempts := run_attempts r + 1,
       run_startedAt := (case run_startedAt r of None \<Rightarrow> Some now | Some t \<Rightarrow> Some t)\<rparr>"

definition lease :: "'q run \<Rightarrow> string \<Rightarrow> string \<Rightarrow> ms \<Rightarrow> ms \<Rightarrow> 'q run_store \<Rightarrow> 'q run_store \<times> 'q run option" where
  "lease r workerId token ttlMs now s =
     (let r' = leased r workerId token ttlMs now in (put_run r' s, Some r'))"

definition claimable :: "'q run_store \<Rightarrow> 'q run list" where
  "claimable s =
     sort_key run_createdAt
       (filter (\<lambda>r. run_status r = Pending \<and> \<not> sessionHasRunning s (run_sessionId r) None) (map_values (rs_runs s)))"

definition claim :: "string \<Rightarrow> string \<Rightarrow> ms \<Rightarrow> ms \<Rightarrow> 'q run_store \<Rightarrow> 'q run_store \<times> 'q run option" where
  "claim workerId token ttlMs now s =
     (case claimable s of [] \<Rightarrow> (s, None) | r # _ \<Rightarrow> lease r workerId token ttlMs now s)"

definition claimById ::
  "string \<Rightarrow> string \<Rightarrow> string \<Rightarrow> ms \<Rightarrow> ms \<Rightarrow> 'q run_store \<Rightarrow> 'q run_store \<times> 'q run option" where
  "claimById runId workerId token ttlMs now s =
     (case get_run s runId of
        None \<Rightarrow> (s, None)
      | Some r \<Rightarrow>
          if run_status r \<noteq> Pending \<or> sessionHasRunning s (run_sessionId r) None then (s, None)
          else lease r workerId token ttlMs now s)"

definition heartbeat :: "string \<Rightarrow> string \<Rightarrow> ms \<Rightarrow> ms \<Rightarrow> 'q run_store \<Rightarrow> 'q run_store \<times> bool" where
  "heartbeat runId token ttlMs now s =
     (case get_run s runId of
        None \<Rightarrow> (s, False)
      | Some r \<Rightarrow>
          if run_status r \<noteq> Running \<or> run_leaseToken r \<noteq> Some token then (s, False)
          else (put_run (r\<lparr>run_leaseExpiresAt := Some (now + ttlMs)\<rparr>) s, True))"

definition releaseLease :: "string \<Rightarrow> string \<Rightarrow> 'q run_store \<Rightarrow> 'q run_store \<times> bool" where
  "releaseLease runId token s =
     (case get_run s runId of
        None \<Rightarrow> (s, False)
      | Some r \<Rightarrow>
          if run_status r \<noteq> Running \<or> run_leaseToken r \<noteq> Some token then (s, False)
          else (put_run (r\<lparr>run_status := Pending, run_leaseToken := None, run_leaseExpiresAt := None,
                           run_workerId := None\<rparr>) s, True))"

definition complete :: "string \<Rightarrow> string \<Rightarrow> turn_result \<Rightarrow> ms \<Rightarrow> 'q run_store \<Rightarrow> 'q run_store \<times> bool" where
  "complete runId token res now s =
     (case get_run s runId of
        None \<Rightarrow> (s, False)
      | Some r \<Rightarrow>
          if run_leaseToken r \<noteq> Some token then (s, False)
          else (let r' = r\<lparr>run_status := Done, run_result := Some res, run_leaseToken := None,
                           run_leaseExpiresAt := None, run_finishedAt := Some now\<rparr>
                in (settle r' (put_run r' s), True)))"

text \<open>
  \<open>retire\<close>: \<open>ifExpiredAt\<close> is the reaper's guard, \<open>countsAsError\<close> charges the run with an error.
  The second component is \<open>requeued\<close>, the third \<open>applied\<close>.
\<close>

definition crash_loop_reason :: "nat \<Rightarrow> string" where
  "crash_loop_reason n = ''run parked after '' @ js_of_nat n @ '' claims without completing (suspected crash loop)''"

definition failed_result :: "string \<Rightarrow> string \<Rightarrow> turn_result" where
  "failed_result sid reason = (turn_result_of FailedT)\<lparr>tr_sessionId := Some sid, tr_reason := Some reason\<rparr>"

definition retire_guard :: "'q run \<Rightarrow> ms option \<Rightarrow> bool" where
  "retire_guard r ifExpiredAt \<longleftrightarrow>
     run_status r = Running \<and>
     (case ifExpiredAt of
        None \<Rightarrow> True
      | Some t \<Rightarrow> (case run_leaseExpiresAt r of None \<Rightarrow> False | Some e \<Rightarrow> e \<le> t))"

definition retire ::
  "nat option \<Rightarrow> 'q run \<Rightarrow> string \<Rightarrow> bool \<Rightarrow> ms option \<Rightarrow> bool \<Rightarrow> ms \<Rightarrow> 'q run_store \<Rightarrow>
   'q run_store \<times> bool \<times> bool" where
  "retire maxClaims r err retry ifExpiredAt countsAsError now s =
     (if \<not> retire_guard r ifExpiredAt then (s, False, False)
      else
        (let r1 = r\<lparr>run_leaseToken := None, run_leaseExpiresAt := None, run_workerId := None,
                     run_errorAttempts := run_errorAttempts r + (if countsAsError then 1 else 0)\<rparr>;
             over = overClaimed maxClaims (run_attempts r1);
             within = (run_errorAttempts r1 < run_maxAttempts r1)
         in if retry \<and> within \<and> \<not> over
            then (put_run (r1\<lparr>run_status := Pending\<rparr>) s, True, True)
            else
              (let reason = (if \<not> countsAsError \<and> over \<and> retry \<and> within
                             then crash_loop_reason (run_attempts r1) else err);
                   r2 = r1\<lparr>run_status := Failed,
                            run_result := Some (failed_result (run_sessionId r1) reason),
                            run_finishedAt := Some now\<rparr>
               in (settle r2 (put_run r2 s), False, True))))"

text \<open>\<open>fail\<close>; the result is \<open>requeued\<close>.\<close>

definition fail_run ::
  "nat option \<Rightarrow> string \<Rightarrow> string \<Rightarrow> string \<Rightarrow> bool \<Rightarrow> ms \<Rightarrow> 'q run_store \<Rightarrow> 'q run_store \<times> bool" where
  "fail_run maxClaims runId token err retry now s =
     (case get_run s runId of
        None \<Rightarrow> (s, False)
      | Some r \<Rightarrow>
          if run_leaseToken r \<noteq> Some token then (s, False)
          else (case retire maxClaims r err retry None True now s of (s', requeued, _) \<Rightarrow> (s', requeued)))"

definition setDeliveryState ::
  "string \<Rightarrow> string option \<Rightarrow> string option \<Rightarrow> 'q run_store \<Rightarrow> 'q run_store \<times> bool" where
  "setDeliveryState runId token st s =
     (case get_run s runId of
        None \<Rightarrow> (s, False)
      | Some r \<Rightarrow>
          if token \<noteq> None \<and> run_leaseToken r \<noteq> token then (s, False)
          else (put_run (r\<lparr>run_deliveryState := Some st\<rparr>) s, True))"

definition activeForThread :: "string \<Rightarrow> 'q run_store \<Rightarrow> 'q run option" where
  "activeForThread sid s =
     (case sort_key (\<lambda>r. - run_createdAt r)
             (filter (\<lambda>r. run_sessionId r = sid \<and> \<not> isTerminal (run_status r)) (map_values (rs_runs s))) of
        [] \<Rightarrow> None | r # _ \<Rightarrow> Some r)"

definition activeSessionIds :: "'q run_store \<Rightarrow> string list" where
  "activeSessionIds s =
     js_dedup (map run_sessionId (filter (\<lambda>r. \<not> isTerminal (run_status r)) (map_values (rs_runs s))))"

definition list_runs :: "nat option \<Rightarrow> 'q run_store \<Rightarrow> 'q run list" where
  "list_runs limit s =
     take (case limit of None \<Rightarrow> 200 | Some n \<Rightarrow> n) (sort_key (\<lambda>r. - run_createdAt r) (map_values (rs_runs s)))"

text \<open>
  One round of the reaper's loop. The snapshot lists run objects; the round reads the live one.
  The accumulator is the store, the two counts, the sessions of retired runs and the events.
\<close>

type_synonym 'q reap_acc = "'q run_store \<times> nat \<times> nat \<times> string list \<times> reap_event list"

definition reap_tooOld :: "ms option \<Rightarrow> ms \<Rightarrow> 'q run \<Rightarrow> bool" where
  "reap_tooOld maxAgeMs now r =
     (case (maxAgeMs, run_startedAt r) of
        (Some age, Some t) \<Rightarrow> now - t > age
      | _ \<Rightarrow> False)"

definition reap_reason :: "bool \<Rightarrow> string" where
  "reap_reason tooOld = (if tooOld then ''run exceeded max age (reaped)'' else ''lease expired (reaped)'')"

definition reap_one :: "nat option \<Rightarrow> ms option \<Rightarrow> ms \<Rightarrow> string \<Rightarrow> 'q reap_acc \<Rightarrow> 'q reap_acc" where
  "reap_one maxClaims maxAgeMs now runId acc =
     (case acc of (s, requeued, parked, sids, evs) \<Rightarrow>
        (case get_run s runId of
           None \<Rightarrow> acc
         | Some r \<Rightarrow>
             (let tooOld = reap_tooOld maxAgeMs now r in
              (case retire maxClaims r (reap_reason tooOld) (\<not> tooOld) (Some now) False now s of
                 (s', rq, applied) \<Rightarrow>
                   if \<not> applied then (s', requeued, parked, sids, evs)
                   else (s', requeued + (if rq then 1 else 0), parked + (if rq then 0 else 1),
                         sids @ [run_sessionId r],
                         evs @ [\<lparr>re_runId = run_id r, re_sessionId = run_sessionId r,
                                  re_workerId = run_workerId r, re_attempts = run_attempts r,
                                  re_errorAttempts = run_errorAttempts r, re_requeued = rq\<rparr>])))))"

definition reapExpired :: "nat option \<Rightarrow> ms option \<Rightarrow> ms \<Rightarrow> 'q run_store \<Rightarrow> 'q reap_acc" where
  "reapExpired maxClaims maxAgeMs now s =
     fold (reap_one maxClaims maxAgeMs now)
       (map run_id (filter (\<lambda>r. leaseLapsed r now) (map_values (rs_runs s)))) (s, 0, 0, [], [])"

text \<open>\<open>waitFor\<close> answers at once for a finished run; otherwise it waits for \<open>settle\<close>.\<close>

definition waitFor_now :: "string \<Rightarrow> 'q run_store \<Rightarrow> 'q run option" where
  "waitFor_now runId s =
     (case get_run s runId of
        None \<Rightarrow> None
      | Some r \<Rightarrow> if isTerminal (run_status r) then Some r else None)"

section \<open>The tool ledger\<close>

definition ledger_key :: "string \<Rightarrow> nat \<Rightarrow> nat \<Rightarrow> string" where
  "ledger_key runId attempt callIndex = runId @ '':'' @ js_of_nat attempt @ '':'' @ js_of_nat callIndex"

definition ledger_begin ::
  "(string, 'o) jsmap \<Rightarrow> string \<Rightarrow> nat \<Rightarrow> nat \<Rightarrow> 'o option" where
  "ledger_begin m runId attempt callIndex = map_get m (ledger_key runId attempt callIndex)"

definition ledger_record ::
  "string \<Rightarrow> nat \<Rightarrow> nat \<Rightarrow> 'o \<Rightarrow> (string, 'o) jsmap \<Rightarrow> (string, 'o) jsmap" where
  "ledger_record runId attempt callIndex output m = map_set (ledger_key runId attempt callIndex) output m"

lemma ledger_key_split:
  "ledger_key r a c = (r @ CHR '':'' # js_of_nat a) @ CHR '':'' # js_of_nat c"
  by (simp add: ledger_key_def)

lemma ledger_key_inject [simp]:
  "ledger_key r a c = ledger_key r' a' c' \<longleftrightarrow> r = r' \<and> a = a' \<and> c = c'"
  unfolding ledger_key_split append_sep_inject [OF js_of_nat_no_colon js_of_nat_no_colon] js_of_nat_inject
  by blast

end
