(* ===== verification/Run_Invariant.thy ===== *)
theory Run_Invariant
  imports Run_Store
begin

text \<open>
  The invariant of the run queue and its preservation by every operation of the memory store,
  the transition system of the store's operations, and what reachable stores guarantee: one
  running run per session, one lease per run, fencing of stale tokens, finished runs stay finished.
\<close>

section \<open>The invariant\<close>

definition run_ok :: "string \<Rightarrow> 'q run \<Rightarrow> bool" where
  "run_ok k r \<longleftrightarrow>
     run_id r = k \<and> k \<noteq> [] \<and>
     (run_leaseToken r \<noteq> None \<longleftrightarrow> run_status r = Running) \<and>
     (run_leaseExpiresAt r \<noteq> None \<longleftrightarrow> run_status r = Running) \<and>
     (run_result r \<noteq> None \<longleftrightarrow> isTerminal (run_status r)) \<and>
     (run_finishedAt r \<noteq> None \<longleftrightarrow> isTerminal (run_status r)) \<and>
     (run_status r = Running \<longrightarrow> run_workerId r \<noteq> None) \<and>
     (run_status r \<noteq> Pending \<longrightarrow> run_startedAt r \<noteq> None \<and> 0 < run_attempts r) \<and>
     (isTerminal (run_status r) \<or> run_errorAttempts r = 0 \<or> run_errorAttempts r < run_maxAttempts r)"

definition exclusive :: "'q run_store \<Rightarrow> bool" where
  "exclusive s \<longleftrightarrow>
     (\<forall>i j r q. get_run s i = Some r \<and> get_run s j = Some q \<and> run_status r = Running \<and>
        run_status q = Running \<and> run_sessionId r = run_sessionId q \<longrightarrow> i = j)"

definition tokens_distinct :: "'q run_store \<Rightarrow> bool" where
  "tokens_distinct s \<longleftrightarrow>
     (\<forall>i j r q. get_run s i = Some r \<and> get_run s j = Some q \<and> run_leaseToken r \<noteq> None \<and>
        run_leaseToken r = run_leaseToken q \<longrightarrow> i = j)"

definition keys_ok :: "'q run_store \<Rightarrow> bool" where
  "keys_ok s \<longleftrightarrow>
     (\<forall>key i. map_get (rs_byKey s) key = Some i \<longrightarrow>
        (\<exists>r. get_run s i = Some r \<and> run_dedupKey r = Some key)) \<and>
     (\<forall>i r key. get_run s i = Some r \<and> run_dedupKey r = Some key \<and> key \<noteq> [] \<longrightarrow>
        map_get (rs_byKey s) key = Some i)"

definition settled_ok :: "'q run_store \<Rightarrow> bool" where
  "settled_ok s \<longleftrightarrow>
     distinct (map run_id (rs_settled s)) \<and>
     (\<forall>i. i \<in> run_id ` set (rs_settled s) \<longleftrightarrow>
        (\<exists>r. get_run s i = Some r \<and> isTerminal (run_status r)))"

definition run_inv :: "'q run_store \<Rightarrow> bool" where
  "run_inv s \<longleftrightarrow>
     map_wf (rs_runs s) \<and> map_all run_ok (rs_runs s) \<and> exclusive s \<and> tokens_distinct s \<and>
     keys_ok s \<and> settled_ok s"

lemma run_inv_empty [simp]: "run_inv empty_run_store"
  by (simp add: run_inv_def empty_run_store_def exclusive_def tokens_distinct_def keys_ok_def
                settled_ok_def get_run_def)

lemma run_invD:
  assumes "run_inv s"
  shows "map_wf (rs_runs s)" "map_all run_ok (rs_runs s)" "exclusive s" "tokens_distinct s"
    "keys_ok s" "settled_ok s"
  using assms by (simp_all add: run_inv_def)

lemma run_inv_ok: "run_inv s \<Longrightarrow> get_run s i = Some r \<Longrightarrow> run_ok i r"
  using map_allD [of run_ok "rs_runs s"] by (simp add: run_inv_def get_run_def)

lemma run_inv_id: "run_inv s \<Longrightarrow> get_run s i = Some r \<Longrightarrow> run_id r = i"
  by (auto dest: run_inv_ok simp: run_ok_def)

lemma run_inv_token: "run_inv s \<Longrightarrow> get_run s i = Some r \<Longrightarrow> run_leaseToken r = Some t \<Longrightarrow> run_status r = Running"
  by (drule (1) run_inv_ok) (auto simp: run_ok_def)

lemma isTerminal_simps [simp]:
  "isTerminal Done" "isTerminal Failed" "\<not> isTerminal Pending" "\<not> isTerminal Running"
  by (simp_all add: isTerminal_def)

section \<open>Reading and writing runs\<close>

lemma get_put_run [simp]: "get_run (put_run r s) i = (if i = run_id r then Some r else get_run s i)"
  by (simp add: get_run_def put_run_def)

lemma put_run_simps [simp]:
  "rs_byKey (put_run r s) = rs_byKey s" "rs_settled (put_run r s) = rs_settled s"
  by (simp_all add: put_run_def)

lemma get_settle [simp]: "get_run (settle r s) i = get_run s i"
  by (simp add: settle_def get_run_def)

lemma settle_simps [simp]:
  "rs_runs (settle r s) = rs_runs s" "rs_byKey (settle r s) = rs_byKey s"
  "\<not> isTerminal (run_status r) \<Longrightarrow> settle r s = s"
  "isTerminal (run_status r) \<Longrightarrow> rs_settled (settle r s) = rs_settled s @ [r]"
  by (simp_all add: settle_def)

lemma settle_views [simp]:
  "exclusive (settle r s) = exclusive s" "tokens_distinct (settle r s) = tokens_distinct s"
  "keys_ok (settle r s) = keys_ok s"
  by (simp_all only: exclusive_def tokens_distinct_def keys_ok_def get_settle settle_simps)

lemma in_values_iff:
  "run_inv s \<Longrightarrow> r \<in> set (map_values (rs_runs s)) \<longleftrightarrow> get_run s (run_id r) = Some r"
  using map_wf_value_get [of "rs_runs s" r] map_get_in_values [of "rs_runs s"] run_inv_id [of s]
  by (auto simp: get_run_def run_inv_def)

lemma sessionHasRunning_iff:
  "run_inv s \<Longrightarrow> sessionHasRunning s sid None \<longleftrightarrow>
     (\<exists>i r. get_run s i = Some r \<and> run_sessionId r = sid \<and> run_status r = Running)"
  unfolding sessionHasRunning_def list_ex_iff
  by (metis in_values_iff option.distinct(1) run_inv_id)

text \<open>Replacing a stored run keeps the invariant when the new object is well formed.\<close>

definition run_change :: "'q run_store \<Rightarrow> 'q run \<Rightarrow> 'q run \<Rightarrow> bool" where
  "run_change s r r' \<longleftrightarrow>
     run_id r' = run_id r \<and> run_sessionId r' = run_sessionId r \<and> run_dedupKey r' = run_dedupKey r \<and>
     (run_status r' = Running \<longrightarrow>
        run_status r = Running \<or> \<not> sessionHasRunning s (run_sessionId r) None) \<and>
     (run_leaseToken r' = None \<or> run_leaseToken r' = run_leaseToken r \<or>
        (\<forall>i q. get_run s i = Some q \<longrightarrow> run_leaseToken q \<noteq> run_leaseToken r'))"

lemma put_run_core:
  assumes inv: "run_inv s" and r: "get_run s i = Some r" and ok: "run_ok i r'"
    and ch: "run_change s r r'"
  shows "map_wf (rs_runs (put_run r' s))" "map_all run_ok (rs_runs (put_run r' s))"
    "exclusive (put_run r' s)" "tokens_distinct (put_run r' s)" "keys_ok (put_run r' s)"
proof -
  have id: "run_id r' = i" "run_id r = i"
    using ch run_inv_id [OF inv r] by (simp_all add: run_change_def)
  show "map_wf (rs_runs (put_run r' s))" "map_all run_ok (rs_runs (put_run r' s))"
    using run_invD [OF inv] ok id by (auto simp: put_run_def)
  show "exclusive (put_run r' s)"
    using run_invD(3) [OF inv] ch r id
    unfolding exclusive_def run_change_def sessionHasRunning_iff [OF inv]
    by (metis get_put_run option.inject)
  show "tokens_distinct (put_run r' s)"
    using run_invD(4) [OF inv] ch r id unfolding tokens_distinct_def run_change_def
    by (metis get_put_run option.inject)
  show "keys_ok (put_run r' s)"
  proof -
    have same: "run_dedupKey r' = run_dedupKey r"
      using ch by (simp add: run_change_def)
    show ?thesis
      using run_invD(5) [OF inv] r id same
      by (auto simp: keys_ok_def split: if_splits)
         (metis option.inject)
  qed
qed

lemma put_run_inv:
  assumes inv: "run_inv s" and r: "get_run s i = Some r" and ok: "run_ok i r'"
    and ch: "run_change s r r'" and st: "isTerminal (run_status r') = isTerminal (run_status r)"
  shows "run_inv (put_run r' s)"
proof -
  have "settled_ok (put_run r' s)"
    using run_invD(6) [OF inv] r ch st run_inv_id [OF inv r]
    unfolding settled_ok_def run_change_def by auto
  then show ?thesis
    using put_run_core [OF inv r ok ch] by (simp add: run_inv_def)
qed

lemma finish_run_inv:
  assumes inv: "run_inv s" and r: "get_run s i = Some r" and ok: "run_ok i r'"
    and ch: "run_change s r r'" and st: "isTerminal (run_status r')" "\<not> isTerminal (run_status r)"
  shows "run_inv (settle r' (put_run r' s))"
proof -
  have id: "run_id r' = i" "run_id r = i"
    using ch run_inv_id [OF inv r] by (simp_all add: run_change_def)
  have "i \<notin> run_id ` set (rs_settled s)"
    using run_invD(6) [OF inv] r st by (auto simp: settled_ok_def)
  then have "distinct (map run_id (rs_settled s @ [r']))"
    using run_invD(6) [OF inv] id by (simp add: settled_ok_def)
  moreover have "j \<in> run_id ` set (rs_settled s @ [r']) \<longleftrightarrow>
      (\<exists>q. get_run (put_run r' s) j = Some q \<and> isTerminal (run_status q))" for j
    using run_invD(6) [OF inv] st id by (simp add: settled_ok_def)
  ultimately have "settled_ok (settle r' (put_run r' s))"
    unfolding settled_ok_def using st by simp
  then show ?thesis
    using put_run_core [OF inv r ok ch] by (simp add: run_inv_def)
qed

section \<open>Every operation keeps the invariant\<close>

definition fresh_id :: "string \<Rightarrow> 'q run_store \<Rightarrow> bool" where
  "fresh_id uuid s \<longleftrightarrow> uuid \<noteq> [] \<and> get_run s uuid = None"

definition fresh_token :: "string \<Rightarrow> 'q run_store \<Rightarrow> bool" where
  "fresh_token t s \<longleftrightarrow> (\<forall>i q. get_run s i = Some q \<longrightarrow> run_leaseToken q \<noteq> Some t)"

lemma new_run_simps [simp]:
  "run_id (new_run u sid q k m now) = u" "run_sessionId (new_run u sid q k m now) = sid"
  "run_status (new_run u sid q k m now) = Pending" "run_leaseToken (new_run u sid q k m now) = None"
  "run_dedupKey (new_run u sid q k m now) = k" "run_attempts (new_run u sid q k m now) = 0"
  "run_errorAttempts (new_run u sid q k m now) = 0" "run_createdAt (new_run u sid q k m now) = now"
  by (simp_all add: new_run_def)

lemma new_run_ok: "u \<noteq> [] \<Longrightarrow> run_ok u (new_run u sid q k m now)"
  by (simp add: run_ok_def new_run_def)

lemma existing_for_key_Some_iff:
  assumes "run_inv s"
  shows "existing_for_key s k = Some r \<longleftrightarrow>
           (\<exists>key. k = Some key \<and> key \<noteq> [] \<and> run_dedupKey r = k \<and> get_run s (run_id r) = Some r)"
proof -
  have ids: "i \<noteq> [] \<and> run_id q = i" if "get_run s i = Some q" for i q
    using run_inv_ok [OF assms that] by (simp add: run_ok_def)
  show ?thesis
    using run_invD(5) [OF assms] unfolding existing_for_key_def keys_ok_def truthy_def
    by (auto split: option.splits dest: ids) (metis ids option.inject)+
qed

lemma existing_for_key_None:
  assumes "run_inv s" "existing_for_key s (Some key) = None" "key \<noteq> []"
  shows "get_run s i = Some r \<Longrightarrow> run_dedupKey r \<noteq> Some key"
  using existing_for_key_Some_iff [OF assms(1), of "Some key" r] assms run_inv_id [OF assms(1)] by auto

lemma enqueue_inv [step_inv]:
  assumes inv: "run_inv s" and fresh: "fresh_id uuid s"
  shows "run_inv (fst (enqueue sid q k m uuid now s))"
proof (cases "existing_for_key s k")
  case None
  let ?r = "new_run uuid sid q k m now"
  let ?s = "fst (enqueue sid q k m uuid now s)"
  have u: "uuid \<noteq> []" "get_run s uuid = None"
    using fresh by (simp_all add: fresh_id_def)
  have get: "get_run ?s i = (if i = uuid then Some ?r else get_run s i)" for i
    using None by (simp add: enqueue_def Let_def get_run_def put_run_def)
  have runs: "rs_runs ?s = map_set uuid ?r (rs_runs s)" and st: "rs_settled ?s = rs_settled s"
    and keys: "rs_byKey ?s = (if truthy k then map_set (the k) uuid (rs_byKey s) else rs_byKey s)"
    using None by (simp_all add: enqueue_def Let_def put_run_def)
  have 1: "map_wf (rs_runs ?s)" "map_all run_ok (rs_runs ?s)"
    using run_invD [OF inv] new_run_ok [OF u(1)] unfolding runs by (auto intro!: map_all_set)
  have 2: "exclusive ?s"
    using run_invD(3) [OF inv] unfolding exclusive_def get
    by (metis new_run_simps(3) option.inject run_status.distinct(1))
  have 3: "tokens_distinct ?s"
    using run_invD(4) [OF inv] unfolding tokens_distinct_def get
    by (metis new_run_simps(4) option.inject)
  have nokey: "run_dedupKey r \<noteq> Some key" if "get_run s i = Some r" "k = Some key" "key \<noteq> []" for i r key
    using existing_for_key_None [OF inv] None that by auto
  have old: "map_get (rs_byKey s) key \<noteq> Some uuid" for key
    using run_invD(5) [OF inv] u by (fastforce simp: keys_ok_def)
  have 4: "keys_ok ?s"
    using run_invD(5) [OF inv] u nokey old unfolding keys_ok_def get keys
    by (cases k) (auto split: if_splits)
  have 5: "settled_ok ?s"
    using run_invD(6) [OF inv] u unfolding settled_ok_def st get by auto
  show ?thesis
    using 1 2 3 4 5 by (simp add: run_inv_def)
qed (simp add: enqueue_def inv)

lemma leased_simps [simp]:
  "run_id (leased r w t ttl now) = run_id r" "run_status (leased r w t ttl now) = Running"
  "run_leaseToken (leased r w t ttl now) = Some t"
  "run_sessionId (leased r w t ttl now) = run_sessionId r"
  "run_attempts (leased r w t ttl now) = Suc (run_attempts r)"
  by (simp_all add: leased_def)

lemma lease_inv:
  assumes inv: "run_inv s" and r: "get_run s i = Some r" and p: "run_status r = Pending"
    and free: "\<not> sessionHasRunning s (run_sessionId r) None" and tok: "fresh_token t s"
  shows "run_inv (fst (lease r w t ttl now s))"
  unfolding lease_def Let_def fst_conv
proof (rule put_run_inv [OF inv r])
  show "run_ok i (leased r w t ttl now)"
    using run_inv_ok [OF inv r] p by (auto simp: run_ok_def leased_def split: option.split)
  show "run_change s r (leased r w t ttl now)"
    using free tok by (simp add: run_change_def leased_def fresh_token_def)
qed (simp add: leased_def p)

lemma claim_Some:
  assumes "claimable s = r # rs"
  shows "claim w t ttl now s = lease r w t ttl now s"
  using assms by (simp add: claim_def)

lemma claimable_member:
  assumes "run_inv s" "r \<in> set (claimable s)"
  shows "get_run s (run_id r) = Some r" "run_status r = Pending"
    "\<not> sessionHasRunning s (run_sessionId r) None"
  using assms in_values_iff [OF assms(1), of r] by (auto simp: claimable_def)

lemma claim_inv [step_inv]:
  assumes inv: "run_inv s" and tok: "fresh_token t s"
  shows "run_inv (fst (claim w t ttl now s))"
proof (cases "claimable s")
  case (Cons r rs)
  then have "r \<in> set (claimable s)"
    by simp
  with Cons show ?thesis
    using claimable_member [OF inv, of r] by (auto simp: claim_Some intro: lease_inv [OF inv _ _ _ tok])
qed (simp add: claim_def inv)

lemma claimById_inv [step_inv]:
  "run_inv s \<Longrightarrow> fresh_token t s \<Longrightarrow> run_inv (fst (claimById i w t ttl now s))"
  by (auto simp: claimById_def split: option.split intro!: lease_inv)

lemma heartbeat_inv [step_inv]: "run_inv s \<Longrightarrow> run_inv (fst (heartbeat i t ttl now s))"
  by (auto simp: heartbeat_def split: option.split intro!: put_run_inv)
     (auto simp: run_change_def run_ok_def dest: run_inv_ok)

lemma releaseLease_inv [step_inv]: "run_inv s \<Longrightarrow> run_inv (fst (releaseLease i t s))"
  by (auto simp: releaseLease_def split: option.split intro!: put_run_inv)
     (auto simp: run_change_def run_ok_def dest: run_inv_ok)

lemma complete_inv [step_inv]:
  assumes "run_inv s" shows "run_inv (fst (complete i t res now s))"
proof (cases "\<exists>r. get_run s i = Some r \<and> run_leaseToken r = Some t")
  case True
  then obtain r where r: "get_run s i = Some r" "run_leaseToken r = Some t"
    by blast
  let ?r = "r\<lparr>run_status := Done, run_result := Some res, run_leaseToken := None,
              run_leaseExpiresAt := None, run_finishedAt := Some now\<rparr>"
  have run: "run_status r = Running"
    using run_inv_token [OF assms r] .
  have "run_inv (settle ?r (put_run ?r s))"
    using run_inv_ok [OF assms r(1)] run
    by (intro finish_run_inv [OF assms r(1)]) (auto simp: run_ok_def run_change_def)
  then show ?thesis
    using r by (simp add: complete_def Let_def)
next
  case False
  then show ?thesis
    using assms by (auto simp: complete_def split: option.split)
qed

lemma retire_inv:
  assumes inv: "run_inv s" and r: "get_run s i = Some r"
  shows "run_inv (fst (retire mc r err retry ifx cae now s))"
proof (cases "retire_guard r ifx")
  case True
  then have run: "run_status r = Running"
    by (simp add: retire_guard_def)
  note ok = run_inv_ok [OF inv r]
  show ?thesis
    unfolding retire_def Let_def using True run ok
    by (auto simp: run_ok_def run_change_def intro!: put_run_inv [OF inv r] finish_run_inv [OF inv r])
qed (simp add: retire_def inv)

lemma fail_inv [step_inv]: "run_inv s \<Longrightarrow> run_inv (fst (fail_run mc i t err retry now s))"
  using retire_inv [of s i _ mc err retry None True now]
  by (fastforce simp: fail_run_def split: option.split prod.split)

lemma setDeliveryState_inv [step_inv]: "run_inv s \<Longrightarrow> run_inv (fst (setDeliveryState i t st s))"
  by (auto simp: setDeliveryState_def split: option.split intro!: put_run_inv)
     (auto simp: run_change_def run_ok_def dest: run_inv_ok)

lemma reap_one_inv:
  assumes "run_inv (fst acc)" shows "run_inv (fst (reap_one mc age now i acc))"
  using assms retire_inv [of "fst acc" i]
  by (cases acc) (auto simp: reap_one_def Let_def split: option.split prod.split; metis fst_conv)

lemma reap_fold_inv: "run_inv (fst acc) \<Longrightarrow> run_inv (fst (fold (reap_one mc age now) ids acc))"
  by (induction ids arbitrary: acc) (simp_all add: reap_one_inv)

lemma reapExpired_inv [step_inv]: "run_inv s \<Longrightarrow> run_inv (fst (reapExpired mc age now s))"
  by (simp add: reapExpired_def reap_fold_inv)

section \<open>What each operation does to one run\<close>

definition holds_lease :: "'q run_store \<Rightarrow> string \<Rightarrow> string \<Rightarrow> bool" where
  "holds_lease s i t \<longleftrightarrow> (\<exists>r. get_run s i = Some r \<and> run_leaseToken r = Some t)"

lemma holds_leaseE:
  assumes "run_inv s" "holds_lease s i t"
  obtains r where "get_run s i = Some r" "run_leaseToken r = Some t" "run_status r = Running" "run_id r = i"
  using assms run_inv_token [OF assms(1)] run_inv_id [OF assms(1)] unfolding holds_lease_def by blast

text \<open>An operation that presents a token the run does not have leaves the store as it is.\<close>

lemma refused_ops:
  assumes "\<not> holds_lease s i t"
  shows "heartbeat i t ttl now s = (s, False)" "releaseLease i t s = (s, False)"
    "complete i t res now s = (s, False)" "fail_run mc i t err retry now s = (s, False)"
  using assms
  by (auto simp: holds_lease_def heartbeat_def releaseLease_def complete_def fail_run_def split: option.split)

lemma get_heartbeat:
  assumes "run_inv s" "get_run s i = Some r" "run_leaseToken r = Some t"
  shows "get_run (fst (heartbeat i t ttl now s)) j =
           (if j = i then Some (r\<lparr>run_leaseExpiresAt := Some (now + ttl)\<rparr>) else get_run s j)"
    "snd (heartbeat i t ttl now s)"
  using assms run_inv_token [OF assms] run_inv_id [OF assms(1,2)] by (simp_all add: heartbeat_def)

lemma get_releaseLease:
  assumes "run_inv s" "get_run s i = Some r" "run_leaseToken r = Some t"
  shows "get_run (fst (releaseLease i t s)) j =
           (if j = i then Some (r\<lparr>run_status := Pending, run_leaseToken := None,
                                run_leaseExpiresAt := None, run_workerId := None\<rparr>)
            else get_run s j)"
    "snd (releaseLease i t s)"
  using assms run_inv_token [OF assms] run_inv_id [OF assms(1,2)] by (simp_all add: releaseLease_def)

lemma get_complete:
  assumes "run_inv s" "get_run s i = Some r" "run_leaseToken r = Some t"
  shows "get_run (fst (complete i t res now s)) j =
           (if j = i then Some (r\<lparr>run_status := Done, run_result := Some res, run_leaseToken := None,
                                run_leaseExpiresAt := None, run_finishedAt := Some now\<rparr>)
            else get_run s j)"
    "snd (complete i t res now s)"
  using assms run_inv_id [OF assms(1,2)] by (simp_all add: complete_def Let_def)

text \<open>The run a retirement leaves behind.\<close>

definition retired ::
  "nat option \<Rightarrow> 'q run \<Rightarrow> string \<Rightarrow> bool \<Rightarrow> bool \<Rightarrow> ms \<Rightarrow> 'q run" where
  "retired mc r err retry cae now =
     (let r1 = r\<lparr>run_leaseToken := None, run_leaseExpiresAt := None, run_workerId := None,
                  run_errorAttempts := run_errorAttempts r + (if cae then 1 else 0)\<rparr>;
          over = overClaimed mc (run_attempts r1);
          within = (run_errorAttempts r1 < run_maxAttempts r1)
      in if retry \<and> within \<and> \<not> over then r1\<lparr>run_status := Pending\<rparr>
         else r1\<lparr>run_status := Failed,
                 run_result := Some (failed_result (run_sessionId r)
                   (if \<not> cae \<and> over \<and> retry \<and> within then crash_loop_reason (run_attempts r) else err)),
                 run_finishedAt := Some now\<rparr>)"

lemma retired_simps [simp]:
  "run_id (retired mc r err retry cae now) = run_id r"
  "run_sessionId (retired mc r err retry cae now) = run_sessionId r"
  "run_attempts (retired mc r err retry cae now) = run_attempts r"
  "run_leaseToken (retired mc r err retry cae now) = None"
  "run_leaseExpiresAt (retired mc r err retry cae now) = None"
  "run_status (retired mc r err retry cae now) =
     (if retry \<and> run_errorAttempts r + (if cae then 1 else 0) < run_maxAttempts r \<and>
         \<not> overClaimed mc (run_attempts r) then Pending else Failed)"
  by (simp_all add: retired_def Let_def)

lemma retire_eq:
  assumes "retire_guard r ifx"
  shows "fst (retire mc r err retry ifx cae now s) =
           settle (retired mc r err retry cae now) (put_run (retired mc r err retry cae now) s)"
  by (cases "retry \<and> run_errorAttempts r + (if cae then 1 else 0) < run_maxAttempts r \<and>
         \<not> overClaimed mc (run_attempts r)")
     (simp_all add: assms retire_def retired_def Let_def del: de_Morgan_conj)

lemma retire_get:
  assumes "retire_guard r ifx" "run_id r = i"
  shows "get_run (fst (retire mc r err retry ifx cae now s)) j =
           (if j = i then Some (retired mc r err retry cae now) else get_run s j)"
  using assms(2) by (simp add: retire_eq [OF assms(1)])

lemma retire_flags:
  assumes "retire_guard r ifx"
  shows "snd (retire mc r err retry ifx cae now s) =
           (run_status (retired mc r err retry cae now) = Pending, True)"
  using assms by (simp add: retire_def Let_def)

lemma get_fail:
  assumes "run_inv s" "get_run s i = Some r" "run_leaseToken r = Some t"
  shows "get_run (fst (fail_run mc i t err retry now s)) j =
           (if j = i then Some (retired mc r err retry True now) else get_run s j)"
    "snd (fail_run mc i t err retry now s) \<longleftrightarrow> retry \<and> \<not> errorParks r mc"
proof -
  have g: "retire_guard r None"
    using run_inv_token [OF assms] by (simp add: retire_guard_def)
  have f: "fail_run mc i t err retry now s =
      (fst (retire mc r err retry None True now s), fst (snd (retire mc r err retry None True now s)))"
    using assms by (simp add: fail_run_def split: prod.split)
  show "get_run (fst (fail_run mc i t err retry now s)) j =
           (if j = i then Some (retired mc r err retry True now) else get_run s j)"
    unfolding f by (simp add: retire_get [OF g run_inv_id [OF assms(1,2)]])
  show "snd (fail_run mc i t err retry now s) \<longleftrightarrow> retry \<and> \<not> errorParks r mc"
    unfolding f by (auto simp: retire_flags [OF g] errorParks_def)
qed

section \<open>The lease as an interface\<close>

text \<open>
  What a lease holder relies on: a beat keeps every lease, an ending operation with the right token
  succeeds and takes that lease away, one with a wrong token does nothing. The worker and the
  drain path are clients of this contract and of nothing else in the store.
\<close>

locale run_lease =
  fixes inv :: "'s \<Rightarrow> bool"
    and holds :: "'s \<Rightarrow> string \<Rightarrow> string \<Rightarrow> bool"
    and beat :: "string \<Rightarrow> string \<Rightarrow> 's \<Rightarrow> 's \<times> bool"
    and finish :: "string \<Rightarrow> string \<Rightarrow> 'r \<Rightarrow> 's \<Rightarrow> 's \<times> bool"
    and hand_back :: "string \<Rightarrow> string \<Rightarrow> 's \<Rightarrow> 's \<times> bool"
  assumes one_holder: "inv s \<Longrightarrow> holds s i t \<Longrightarrow> holds s i u \<Longrightarrow> t = u"
    and beat_inv: "inv s \<Longrightarrow> inv (fst (beat i t s))"
    and beat_result: "inv s \<Longrightarrow> snd (beat i t s) = holds s i t"
    and beat_holds: "inv s \<Longrightarrow> holds (fst (beat i t s)) j u = holds s j u"
    and finish_inv: "inv s \<Longrightarrow> inv (fst (finish i t x s))"
    and finish_result: "inv s \<Longrightarrow> snd (finish i t x s) = holds s i t"
    and finish_holds: "inv s \<Longrightarrow> holds (fst (finish i t x s)) j u = (holds s j u \<and> \<not> (holds s i t \<and> j = i))"
    and hand_back_inv: "inv s \<Longrightarrow> inv (fst (hand_back i t s))"
    and hand_back_result: "inv s \<Longrightarrow> snd (hand_back i t s) = holds s i t"
    and hand_back_holds: "inv s \<Longrightarrow> holds (fst (hand_back i t s)) j u = (holds s j u \<and> \<not> (holds s i t \<and> j = i))"
begin

lemma finish_once:
  "inv s \<Longrightarrow> snd (finish i t x s) \<Longrightarrow> \<not> snd (finish i u y (fst (finish i t x s)))"
  by (simp add: finish_result finish_inv finish_holds)

lemma finish_after_hand_back:
  "inv s \<Longrightarrow> \<not> snd (finish i t x (fst (hand_back i t s)))"
  by (simp add: finish_result hand_back_inv hand_back_holds)

lemma beats_keep:
  "inv s \<Longrightarrow> inv (fold (\<lambda>(j, u) st. fst (beat j u st)) bs s) \<and>
     holds (fold (\<lambda>(j, u) st. fst (beat j u st)) bs s) i t = holds s i t"
  by (induction bs arbitrary: s) (auto simp: beat_inv beat_holds split: prod.split)

lemma finish_after_beats:
  "inv s \<Longrightarrow> holds s i t \<Longrightarrow> snd (finish i t x (fold (\<lambda>(j, u) st. fst (beat j u st)) bs s))"
  using beats_keep [of s bs i t] by (simp add: finish_result)

lemma rival_refused:
  "inv s \<Longrightarrow> holds s i t \<Longrightarrow> u \<noteq> t \<Longrightarrow> \<not> snd (beat i u s) \<and> \<not> snd (finish i u x s) \<and> \<not> snd (hand_back i u s)"
  using one_holder by (auto simp: beat_result finish_result hand_back_result)

end

lemma holds_leaseD: "holds_lease s i t \<Longrightarrow> \<exists>r. get_run s i = Some r \<and> run_leaseToken r = Some t"
  by (simp add: holds_lease_def)

lemma snd_heartbeat: "run_inv s \<Longrightarrow> snd (heartbeat i t ttl now s) = holds_lease s i t"
  by (cases "holds_lease s i t") (auto simp: refused_ops get_heartbeat dest: holds_leaseD)

lemma snd_complete: "run_inv s \<Longrightarrow> snd (complete i t res now s) = holds_lease s i t"
  by (cases "holds_lease s i t") (auto simp: refused_ops get_complete dest: holds_leaseD)

lemma snd_releaseLease: "run_inv s \<Longrightarrow> snd (releaseLease i t s) = holds_lease s i t"
  by (cases "holds_lease s i t") (auto simp: refused_ops get_releaseLease dest: holds_leaseD)

lemma holds_heartbeat:
  assumes inv: "run_inv s"
  shows "holds_lease (fst (heartbeat i t ttl now s)) j u = holds_lease s j u"
proof (cases "holds_lease s i t")
  case True
  then obtain r where r: "get_run s i = Some r" "run_leaseToken r = Some t"
    by (auto simp: holds_lease_def)
  show ?thesis
    using r by (auto simp: holds_lease_def get_heartbeat [OF inv r])
qed (simp add: refused_ops)

lemma holds_complete:
  assumes inv: "run_inv s"
  shows "holds_lease (fst (complete i t res now s)) j u \<longleftrightarrow>
           holds_lease s j u \<and> \<not> (holds_lease s i t \<and> j = i)"
proof (cases "holds_lease s i t")
  case True
  then obtain r where r: "get_run s i = Some r" "run_leaseToken r = Some t"
    by (auto simp: holds_lease_def)
  show ?thesis
    using r True by (auto simp: holds_lease_def get_complete [OF inv r])
qed (simp add: refused_ops)

lemma holds_releaseLease:
  assumes inv: "run_inv s"
  shows "holds_lease (fst (releaseLease i t s)) j u \<longleftrightarrow>
           holds_lease s j u \<and> \<not> (holds_lease s i t \<and> j = i)"
proof (cases "holds_lease s i t")
  case True
  then obtain r where r: "get_run s i = Some r" "run_leaseToken r = Some t"
    by (auto simp: holds_lease_def)
  show ?thesis
    using r True by (auto simp: holds_lease_def get_releaseLease [OF inv r])
qed (simp add: refused_ops)

interpretation mem_lease: run_lease run_inv holds_lease "\<lambda>i t. heartbeat i t ttl now"
  "\<lambda>i t x. complete i t (fst x) (snd x)" releaseLease
  for ttl now
  by unfold_locales
     (simp_all add: snd_heartbeat snd_complete snd_releaseLease holds_heartbeat holds_complete
        holds_releaseLease heartbeat_inv complete_inv releaseLease_inv, auto simp: holds_lease_def)

end
