(* ===== verification/Run_Queue.thy ===== *)
theory Run_Queue
  imports Run_Invariant
begin

text \<open>
  The run queue as a transition system and the properties of its reachable stores. A step is one
  store operation with any arguments; identifiers and lease tokens are fresh, as \<open>randomUUID\<close>
  makes them, and \<open>T\<close> collects the tokens handed out so far. Time may take any value.
\<close>

section \<open>Steps\<close>

inductive run_step :: "nat option \<Rightarrow> 'q run_store \<times> string list \<Rightarrow> 'q run_store \<times> string list \<Rightarrow> bool"
  for mc :: "nat option" where
  step_enqueue: "fresh_id uuid s \<Longrightarrow> run_step mc (s, T) (fst (enqueue sid q k m uuid now s), T)"
| step_claim: "t \<notin> set T \<Longrightarrow> run_step mc (s, T) (fst (claim w t ttl now s), t # T)"
| step_claimById: "t \<notin> set T \<Longrightarrow> run_step mc (s, T) (fst (claimById i w t ttl now s), t # T)"
| step_heartbeat: "run_step mc (s, T) (fst (heartbeat i t ttl now s), T)"
| step_release: "run_step mc (s, T) (fst (releaseLease i t s), T)"
| step_complete: "run_step mc (s, T) (fst (complete i t res now s), T)"
| step_fail: "run_step mc (s, T) (fst (fail_run mc i t err retry now s), T)"
| step_delivery: "run_step mc (s, T) (fst (setDeliveryState i ot st s), T)"
| step_reap: "run_step mc (s, T) (fst (reapExpired mc age now s), T)"

inductive_cases run_stepE: "run_step mc (s, T) w"

definition run_world_ok :: "'q run_store \<times> string list \<Rightarrow> bool" where
  "run_world_ok w \<longleftrightarrow>
     run_inv (fst w) \<and>
     (\<forall>i r t. get_run (fst w) i = Some r \<and> run_leaseToken r = Some t \<longrightarrow> t \<in> set (snd w))"

definition run_reach :: "nat option \<Rightarrow> 'q run_store \<times> string list \<Rightarrow> bool" where
  "run_reach mc w \<longleftrightarrow> (run_step mc)\<^sup>*\<^sup>* (empty_run_store, []) w"

lemma run_world_okD: "run_world_ok (s, T) \<Longrightarrow> run_inv s"
  by (simp add: run_world_ok_def)

lemma run_world_token: "run_world_ok (s, T) \<Longrightarrow> holds_lease s i t \<Longrightarrow> t \<in> set T"
  by (auto simp: run_world_ok_def holds_lease_def)

lemma run_world_fresh: "run_world_ok (s, T) \<Longrightarrow> t \<notin> set T \<Longrightarrow> fresh_token t s"
  by (auto simp: run_world_ok_def fresh_token_def)

section \<open>What one step can do to a run\<close>

text \<open>
  The observable change of one run under any operation: nothing but its delivery state, a fresh
  lease of a pending run, or the end or extension of a live lease.
\<close>

inductive run_effect :: "nat option \<Rightarrow> string set \<Rightarrow> 'q run \<Rightarrow> 'q run \<Rightarrow> bool"
  for mc N where
  eff_same: "run_effect mc N r r"
| eff_delivery: "run_effect mc N r (r\<lparr>run_deliveryState := st\<rparr>)"
| eff_lease: "run_status r = Pending \<Longrightarrow> t \<in> N \<Longrightarrow> run_effect mc N r (leased r w t ttl now)"
| eff_beat: "run_status r = Running \<Longrightarrow> run_effect mc N r (r\<lparr>run_leaseExpiresAt := Some e\<rparr>)"
| eff_release: "run_status r = Running \<Longrightarrow>
    run_effect mc N r (r\<lparr>run_status := Pending, run_leaseToken := None, run_leaseExpiresAt := None,
                         run_workerId := None\<rparr>)"
| eff_complete: "run_status r = Running \<Longrightarrow>
    run_effect mc N r (r\<lparr>run_status := Done, run_result := Some res, run_leaseToken := None,
                         run_leaseExpiresAt := None, run_finishedAt := Some now\<rparr>)"
| eff_retire: "run_status r = Running \<Longrightarrow> run_effect mc N r (retired mc r err retry cae now)"

inductive_cases run_effectE: "run_effect mc N r r'"

lemma effect_terminal:
  "run_effect mc N r r' \<Longrightarrow> isTerminal (run_status r) \<Longrightarrow> r' = r \<or> (\<exists>st. r' = r\<lparr>run_deliveryState := st\<rparr>)"
  by (cases rule: run_effect.cases) (auto simp: isTerminal_def)

lemma effects_terminal:
  "(run_effect mc N)\<^sup>*\<^sup>* r r' \<Longrightarrow> isTerminal (run_status r) \<Longrightarrow>
     \<exists>st. r' = r\<lparr>run_deliveryState := st\<rparr>"
proof (induction rule: rtranclp_induct)
  case base
  then show ?case by (metis run.surjective run.update_convs(6))
next
  case (step y z)
  then obtain st where "y = r\<lparr>run_deliveryState := st\<rparr>" by blast
  with effect_terminal [OF step(2)] step.prems show ?case by fastforce
qed

lemma effect_token:
  "run_effect mc N r r' \<Longrightarrow> run_leaseToken r' = Some t \<Longrightarrow> run_leaseToken r = Some t \<or> t \<in> N"
  by (cases rule: run_effect.cases) (auto simp: leased_def)

lemma effects_token:
  "(run_effect mc N)\<^sup>*\<^sup>* r r' \<Longrightarrow> run_leaseToken r' = Some t \<Longrightarrow> run_leaseToken r = Some t \<or> t \<in> N"
  by (induction rule: rtranclp_induct) (auto dest: effect_token)

lemma effect_keeps:
  "run_effect mc N r r' \<Longrightarrow>
     run_id r' = run_id r \<and> run_sessionId r' = run_sessionId r \<and> run_dedupKey r' = run_dedupKey r"
  by (cases rule: run_effect.cases) (auto simp: leased_def retired_def Let_def)

lemma effects_keep:
  "(run_effect mc N)\<^sup>*\<^sup>* r r' \<Longrightarrow>
     run_id r' = run_id r \<and> run_sessionId r' = run_sessionId r \<and> run_dedupKey r' = run_dedupKey r"
  by (induction rule: rtranclp_induct) (auto dest: effect_keeps)

text \<open>Every stored run survives each operation and changes by such an effect.\<close>

definition effects :: "nat option \<Rightarrow> string set \<Rightarrow> 'q run_store \<Rightarrow> 'q run_store \<Rightarrow> bool" where
  "effects mc N s s' \<longleftrightarrow>
     (\<forall>i r. get_run s i = Some r \<longrightarrow> (\<exists>r'. get_run s' i = Some r' \<and> (run_effect mc N)\<^sup>*\<^sup>* r r')) \<and>
     (\<forall>i r'. get_run s i = None \<and> get_run s' i = Some r' \<longrightarrow>
        (\<exists>r. run_status r = Pending \<and> run_leaseToken r = None \<and> (run_effect mc N)\<^sup>*\<^sup>* r r'))"

lemma effects_refl [intro]: "effects mc N s s"
  by (auto simp: effects_def)

lemma effects_trans:
  assumes 1: "effects mc N s s'" and 2: "effects mc N s' s''"
  shows "effects mc N s s''"
  unfolding effects_def
proof (intro conjI allI impI)
  fix i r assume "get_run s i = Some r"
  with 1 obtain q where q: "get_run s' i = Some q" "(run_effect mc N)\<^sup>*\<^sup>* r q"
    unfolding effects_def by blast
  with 2 show "\<exists>r'. get_run s'' i = Some r' \<and> (run_effect mc N)\<^sup>*\<^sup>* r r'"
    unfolding effects_def by (meson rtranclp_trans)
next
  fix i r' assume new: "get_run s i = None \<and> get_run s'' i = Some r'"
  show "\<exists>r. run_status r = Pending \<and> run_leaseToken r = None \<and> (run_effect mc N)\<^sup>*\<^sup>* r r'"
  proof (cases "get_run s' i")
    case (Some q)
    with 2 new have "(run_effect mc N)\<^sup>*\<^sup>* q r'"
      unfolding effects_def by (metis option.inject)
    with 1 new Some show ?thesis
      unfolding effects_def by (meson rtranclp_trans)
  qed (use 2 new in \<open>unfold effects_def, blast\<close>)
qed

lemma effects_put:
  assumes "get_run s i = Some r" "run_effect mc N r r'"
    and "\<And>j. get_run s' j = (if j = i then Some r' else get_run s j)"
  shows "effects mc N s s'"
  using assms unfolding effects_def by auto

lemma effects_source:
  assumes "effects mc N s s'" "get_run s' i = Some r'"
  shows "\<exists>r. (run_effect mc N)\<^sup>*\<^sup>* r r' \<and> (get_run s i = Some r \<or> run_leaseToken r = None)"
proof (cases "get_run s i")
  case (Some r)
  with assms(1) obtain q where "get_run s' i = Some q" "(run_effect mc N)\<^sup>*\<^sup>* r q"
    unfolding effects_def by blast
  with Some assms(2) show ?thesis by auto
next
  case None
  with assms show ?thesis unfolding effects_def by blast
qed

lemma enqueue_effects: "fresh_id uuid s \<Longrightarrow> effects mc N s (fst (enqueue sid q k m uuid now s))"
  by (auto simp: effects_def enqueue_def Let_def fresh_id_def get_run_def put_run_def
           split: option.split intro!: exI [of _ "new_run uuid sid q k m now"])

lemma lease_effects:
  assumes "run_inv s" "get_run s i = Some r" "run_status r = Pending" "t \<in> N"
  shows "effects mc N s (fst (lease r w t ttl now s))"
  by (rule effects_put [OF assms(2) eff_lease [OF assms(3,4)]])
     (simp add: lease_def Let_def run_inv_id [OF assms(1,2)])

lemma claim_effects:
  assumes "run_inv s" "t \<in> N" shows "effects mc N s (fst (claim w t ttl now s))"
proof (cases "claimable s")
  case (Cons r rs)
  then have "r \<in> set (claimable s)" by simp
  with Cons show ?thesis
    using claimable_member [OF assms(1), of r] assms by (auto simp: claim_Some intro: lease_effects)
qed (auto simp: claim_def)

lemma claimById_effects:
  "run_inv s \<Longrightarrow> t \<in> N \<Longrightarrow> effects mc N s (fst (claimById i w t ttl now s))"
  by (auto simp: claimById_def split: option.split intro: lease_effects)

lemma heartbeat_effects:
  assumes "run_inv s" shows "effects mc N s (fst (heartbeat i t ttl now s))"
proof (cases "holds_lease s i t")
  case True
  obtain r where r: "get_run s i = Some r" "run_leaseToken r = Some t" "run_status r = Running"
    by (rule holds_leaseE [OF assms True])
  show ?thesis
    by (rule effects_put [OF r(1) eff_beat [OF r(3)]]) (rule get_heartbeat(1) [OF assms r(1,2)])
qed (auto simp: refused_ops)

lemma release_effects:
  assumes "run_inv s" shows "effects mc N s (fst (releaseLease i t s))"
proof (cases "holds_lease s i t")
  case True
  obtain r where r: "get_run s i = Some r" "run_leaseToken r = Some t" "run_status r = Running"
    by (rule holds_leaseE [OF assms True])
  show ?thesis
    by (rule effects_put [OF r(1) eff_release [OF r(3)]]) (rule get_releaseLease(1) [OF assms r(1,2)])
qed (auto simp: refused_ops)

lemma complete_effects:
  assumes "run_inv s" shows "effects mc N s (fst (complete i t res now s))"
proof (cases "holds_lease s i t")
  case True
  obtain r where r: "get_run s i = Some r" "run_leaseToken r = Some t" "run_status r = Running"
    by (rule holds_leaseE [OF assms True])
  show ?thesis
    by (rule effects_put [OF r(1) eff_complete [OF r(3)]]) (rule get_complete(1) [OF assms r(1,2)])
qed (auto simp: refused_ops)

lemma fail_effects:
  assumes "run_inv s" shows "effects mc N s (fst (fail_run mc i t err retry now s))"
proof (cases "holds_lease s i t")
  case True
  obtain r where r: "get_run s i = Some r" "run_leaseToken r = Some t" "run_status r = Running"
    by (rule holds_leaseE [OF assms True])
  show ?thesis
    by (rule effects_put [OF r(1) eff_retire [OF r(3)]]) (rule get_fail(1) [OF assms r(1,2)])
qed (auto simp: refused_ops)

lemma delivery_effects:
  assumes "run_inv s" shows "effects mc N s (fst (setDeliveryState i ot st s))"
proof (cases "get_run s i")
  case (Some r)
  have "effects mc N s (put_run (r\<lparr>run_deliveryState := Some st\<rparr>) s)"
    by (rule effects_put [OF Some eff_delivery]) (simp add: run_inv_id [OF assms Some])
  then show ?thesis
    by (auto simp: setDeliveryState_def Some)
qed (auto simp: setDeliveryState_def)

text \<open>The reaper retires the runs of its snapshot whose lease has lapsed, and no other.\<close>

lemma leaseLapsed_guard:
  "run_ok k r \<Longrightarrow> retire_guard r (Some now) \<longleftrightarrow> leaseLapsed r now"
  by (auto simp: retire_guard_def leaseLapsed_def)

lemma reap_one_get:
  assumes "run_inv s" "get_run s i = Some r" "leaseLapsed r now"
  shows "fst (reap_one mc age now i (s, a)) =
           settle (retired mc r (reap_reason (reap_tooOld age now r)) (\<not> reap_tooOld age now r) False now)
             (put_run (retired mc r (reap_reason (reap_tooOld age now r)) (\<not> reap_tooOld age now r) False now) s)"
proof -
  have g: "retire_guard r (Some now)"
    using leaseLapsed_guard [OF run_inv_ok [OF assms(1,2)]] assms(3) by simp
  show ?thesis
    using assms(2) by (simp add: reap_one_def Let_def retire_eq [OF g, symmetric] split: prod.split)
qed

lemma reap_one_other:
  assumes "run_inv s" "get_run s i = Some r" "\<not> leaseLapsed r now"
  shows "reap_one mc age now i (s, a) = (s, a)"
  using assms leaseLapsed_guard [OF run_inv_ok [OF assms(1,2)], of now]
  by (simp add: reap_one_def Let_def retire_def split: prod.split)

lemma reap_one_effects:
  assumes inv: "run_inv s" shows "effects mc N s (fst (reap_one mc age now i (s, a)))"
proof (cases "get_run s i")
  case (Some r)
  show ?thesis
  proof (cases "leaseLapsed r now")
    case True
    then have run: "run_status r = Running"
      by (simp add: leaseLapsed_def)
    show ?thesis
      unfolding reap_one_get [OF inv Some True]
      by (rule effects_put [OF Some eff_retire [OF run]]) (simp add: run_inv_id [OF inv Some])
  qed (simp add: reap_one_other [OF inv Some] effects_refl)
qed (simp add: reap_one_def effects_refl split: prod.split)

lemma reap_fold_effects:
  "run_inv (fst acc) \<Longrightarrow> effects mc N (fst acc) (fst (fold (reap_one mc age now) ids acc))"
proof (induction ids arbitrary: acc)
  case (Cons i ids)
  then have "effects mc N (fst acc) (fst (reap_one mc age now i acc))"
    using reap_one_effects [of "fst acc" mc N age now i "snd acc"] by simp
  with Cons.IH [of "reap_one mc age now i acc"] reap_one_inv [OF Cons.prems] show ?case
    by (auto intro: effects_trans)
qed (simp add: effects_refl)

lemma reap_effects: "run_inv s \<Longrightarrow> effects mc N s (fst (reapExpired mc age now s))"
  using reap_fold_effects [of "(s, 0, 0, [], [])"] by (simp add: reapExpired_def)

lemmas op_effects = enqueue_effects claim_effects claimById_effects heartbeat_effects release_effects
  complete_effects fail_effects delivery_effects reap_effects

lemma step_effects:
  assumes "run_step mc (s, T) (s', T')" "run_inv s"
  shows "effects mc (set T' - set T) s s'"
  using assms by (auto elim!: run_stepE intro: op_effects)

section \<open>Invariant of the reachable stores\<close>

lemma step_tokens: "run_step mc (s, T) (s', T') \<Longrightarrow> set T \<subseteq> set T'"
  by (auto elim!: run_stepE)

lemma step_ok:
  assumes "run_step mc (s, T) (s', T')" "run_world_ok (s, T)"
  shows "run_world_ok (s', T')"
proof -
  note inv = run_world_okD [OF assms(2)]
  have "run_inv s'"
    using assms(1) inv run_world_fresh [OF assms(2)] by (auto elim!: run_stepE intro: step_inv)
  moreover have "t \<in> set T'" if now: "get_run s' i = Some r'" "run_leaseToken r' = Some t" for i r' t
  proof -
    obtain r where r: "(run_effect mc (set T' - set T))\<^sup>*\<^sup>* r r'" "get_run s i = Some r \<or> run_leaseToken r = None"
      using effects_source [OF step_effects [OF assms(1) inv] now(1)] by blast
    show ?thesis
      using effects_token [OF r(1) now(2)] r(2) assms(2) step_tokens [OF assms(1)]
      by (auto simp: run_world_ok_def)
  qed
  ultimately show ?thesis
    unfolding run_world_ok_def fst_conv snd_conv by blast
qed

lemma steps_ok: "(run_step mc)\<^sup>*\<^sup>* w w' \<Longrightarrow> run_world_ok w \<Longrightarrow> run_world_ok w'"
  by (induction rule: rtranclp_induct) (auto dest: step_ok)

lemma reach_ok: "run_reach mc w \<Longrightarrow> run_world_ok w"
  unfolding run_reach_def
  by (erule steps_ok) (simp add: run_world_ok_def, simp add: empty_run_store_def get_run_def)

lemma reach_inv: "run_reach mc (s, T) \<Longrightarrow> run_inv s"
  by (rule run_world_okD [OF reach_ok])

lemma reach_steps: "run_reach mc w \<Longrightarrow> (run_step mc)\<^sup>*\<^sup>* w w' \<Longrightarrow> run_reach mc w'"
  unfolding run_reach_def by (rule rtranclp_trans)

text \<open>A property of one run that every effect keeps holds along every sequence of steps.\<close>

lemma steps_run:
  assumes "(run_step mc)\<^sup>*\<^sup>* w w'" "run_world_ok w" "get_run (fst w) i = Some r" "P r"
    and "\<And>N r r'. run_effect mc N r r' \<Longrightarrow> P r \<Longrightarrow> P r'"
  shows "\<exists>r'. get_run (fst w') i = Some r' \<and> P r'"
  using assms(1-4)
proof (induction rule: rtranclp_induct)
  case (step y z)
  then obtain q where q: "get_run (fst y) i = Some q" "P q" by blast
  have "run_inv (fst y)"
    using steps_ok [OF step(1)] step.prems by (simp add: run_world_ok_def)
  then obtain N q' where q': "get_run (fst z) i = Some q'" "(run_effect mc N)\<^sup>*\<^sup>* q q'"
    using step_effects [of mc "fst y" "snd y" "fst z" "snd z"] step(2) q(1)
    unfolding effects_def prod.collapse by blast
  from q'(2) have "P q'"
    by (induction rule: rtranclp_induct) (auto intro: q(2) assms(5))
  with q'(1) show ?case by blast
qed auto

section \<open>Properties of the queue\<close>

lemma reach_intros:
  "run_reach mc (empty_run_store, [])"
  "run_reach mc w \<Longrightarrow> run_step mc w w' \<Longrightarrow> run_reach mc w'"
  by (auto simp: run_reach_def)

text \<open>C1: In every reachable store a session has at most one running run, and a run holds a lease
  token exactly while it is running.\<close>

theorem run_session_exclusive:
  assumes "run_reach mc (s, T)" "get_run s i = Some r" "get_run s j = Some q"
    and "run_status r = Running" "run_status q = Running" "run_sessionId r = run_sessionId q"
  shows "i = j \<and> run_leaseToken r \<noteq> None \<and> run_leaseExpiresAt r \<noteq> None \<and> run_workerId r \<noteq> None"
  using run_invD(3) [OF reach_inv [OF assms(1)]] run_inv_ok [OF reach_inv [OF assms(1)] assms(2)] assms(2-6)
  unfolding exclusive_def run_ok_def by blast

definition sample_queue :: "nat run_store" where
  "sample_queue =
     fst (claim ''w1'' ''t1'' 1000 20 (fst (enqueue ''S'' 7 (Some ''k'') None ''r1'' 10 empty_run_store)))"

lemma sample_reach: "run_reach mc (sample_queue, [''t1''])"
proof -
  have "fresh_id ''r1'' (empty_run_store :: nat run_store)"
    by (simp add: fresh_id_def empty_run_store_def get_run_def)
  then show ?thesis
    unfolding sample_queue_def
    by (rule reach_intros(2) [OF reach_intros(2) [OF reach_intros(1) step_enqueue] step_claim]) simp_all
qed

definition sample_run :: "nat run" where
  "sample_run = leased (new_run ''r1'' ''S'' 7 (Some ''k'') None 10) ''w1'' ''t1'' 1000 20"

lemma sample_get_all: "get_run sample_queue i = (if i = ''r1'' then Some sample_run else None)"
  by (simp add: sample_queue_def sample_run_def enqueue_def existing_for_key_def empty_run_store_def
      put_run_def claim_def claimable_def sessionHasRunning_def lease_def get_run_def new_run_def
      leased_def Let_def)

lemma sample_get: "get_run sample_queue ''r1'' = Some sample_run"
  by (simp add: sample_get_all)

lemma sample_run_simps [simp]:
  "run_status sample_run = Running" "run_leaseToken sample_run = Some ''t1''"
  "run_sessionId sample_run = ''S''" "run_id sample_run = ''r1''"
  "run_leaseExpiresAt sample_run = Some 1020" "run_errorAttempts sample_run = 0"
  "run_maxAttempts sample_run = 3" "run_attempts sample_run = 1"
  by (simp_all add: sample_run_def leased_def new_run_def)

lemma run_session_exclusive_witness:
  "run_leaseToken sample_run \<noteq> None \<and> run_workerId sample_run \<noteq> None"
  using run_session_exclusive [OF sample_reach sample_get sample_get] by simp

text \<open>C3: A finished run stays finished: whatever operations follow, its status, result, counters and
  finish time never change; only its delivery state may.\<close>

theorem run_finished_stays:
  assumes "run_reach mc (s, T)" "get_run s i = Some r" "isTerminal (run_status r)"
    and "(run_step mc)\<^sup>*\<^sup>* (s, T) (s', T')"
  shows "\<exists>st. get_run s' i = Some (r\<lparr>run_deliveryState := st\<rparr>)"
proof -
  have "\<exists>r'. get_run (fst (s', T')) i = Some r' \<and>
      (isTerminal (run_status r') \<and> (\<exists>st. r' = r\<lparr>run_deliveryState := st\<rparr>))"
  proof (rule steps_run [OF assms(4) reach_ok [OF assms(1)]])
    show "get_run (fst (s, T)) i = Some r" using assms(2) by simp
    have "r = r\<lparr>run_deliveryState := run_deliveryState r\<rparr>" by simp
    then show "isTerminal (run_status r) \<and> (\<exists>st. r = r\<lparr>run_deliveryState := st\<rparr>)"
      using assms(3) by blast
  next
    fix N q q'
    assume "run_effect mc N q q'" and "isTerminal (run_status q) \<and> (\<exists>st. q = r\<lparr>run_deliveryState := st\<rparr>)"
    then show "isTerminal (run_status q') \<and> (\<exists>st. q' = r\<lparr>run_deliveryState := st\<rparr>)"
      using effect_terminal [of mc N q q'] by fastforce
  qed
  then show ?thesis by auto
qed

definition sample_enqueue :: "nat run_store \<times> nat run \<times> bool" where
  "sample_enqueue = enqueue ''S'' 7 (Some ''k'') None ''r1'' 10 empty_run_store"

lemma sample_enqueue_eq:
  "sample_enqueue = (fst sample_enqueue, new_run ''r1'' ''S'' 7 (Some ''k'') None 10, False)"
  by (simp add: sample_enqueue_def enqueue_def existing_for_key_def empty_run_store_def Let_def)

definition sample_result :: turn_result where
  "sample_result = (turn_result_of OkT)\<lparr>tr_reply := Some ''hi''\<rparr>"

definition sample_done :: "nat run_store" where
  "sample_done = fst (complete ''r1'' ''t1'' sample_result 30 sample_queue)"

definition sample_done_run :: "nat run" where
  "sample_done_run = sample_run\<lparr>run_status := Done, run_result := Some sample_result, run_leaseToken := None,
     run_leaseExpiresAt := None, run_finishedAt := Some 30\<rparr>"

lemma sample_done_reach: "run_reach mc (sample_done, [''t1''])"
  unfolding sample_done_def by (intro reach_intros(2) [OF sample_reach] step_complete)

lemma sample_done_get_all:
  "get_run sample_done i = (if i = ''r1'' then Some sample_done_run else None)"
  unfolding sample_done_def sample_done_run_def
    get_complete(1) [OF reach_inv [OF sample_reach] sample_get sample_run_simps(2)]
  by (simp add: sample_get_all)

lemma sample_done_get: "get_run sample_done ''r1'' = Some sample_done_run"
  by (simp add: sample_done_get_all)

lemma run_finished_stays_witness:
  "\<exists>st. get_run (fst (reapExpired None None 5000 sample_done)) ''r1'' =
     Some (sample_done_run\<lparr>run_deliveryState := st\<rparr>)"
  using run_finished_stays [of None, OF sample_done_reach sample_done_get _ r_into_rtranclp [of "run_step None", OF step_reap]]
  by (simp add: sample_done_run_def)

lemma dead_token:
  assumes "(run_step mc)\<^sup>*\<^sup>* (s, T) w" "run_world_ok (s, T)" "t \<in> set T" "\<forall>i. \<not> holds_lease s i t"
  shows "t \<in> set (snd w) \<and> (\<forall>i. \<not> holds_lease (fst w) i t)"
  using assms(1)
proof (induction rule: rtranclp_induct)
  case base
  then show ?case using assms by simp
next
  case (step y z)
  obtain a A b B where yz: "y = (a, A)" "z = (b, B)" by fastforce
  have inv: "run_inv a"
    using steps_ok [OF step(1) assms(2)] yz by (simp add: run_world_ok_def)
  have eff: "effects mc (set B - set A) a b"
    using step_effects [OF _ inv] step(2) yz by simp
  have "\<not> holds_lease b i t" for i
  proof
    assume "holds_lease b i t"
    then obtain q where q: "get_run b i = Some q" "run_leaseToken q = Some t"
      by (auto simp: holds_lease_def)
    obtain r where "(run_effect mc (set B - set A))\<^sup>*\<^sup>* r q" "get_run a i = Some r \<or> run_leaseToken r = None"
      using effects_source [OF eff q(1)] by blast
    then show False
      using effects_token q(2) step.IH yz by (fastforce simp: holds_lease_def)
  qed
  then show ?case
    using step_tokens [of mc a A b B] step(2) step.IH yz by auto
qed

text \<open>C2: A lease token that no run holds any more is dead for good: after any further operations,
  a beat, a completion, a failure or a hand-back that presents it is refused and changes nothing.\<close>

theorem run_token_fenced:
  assumes "run_reach mc (s, T)" "t \<in> set T" "\<forall>i. \<not> holds_lease s i t"
    and "(run_step mc)\<^sup>*\<^sup>* (s, T) (s', T')"
  shows "heartbeat i t ttl now s' = (s', False) \<and> releaseLease i t s' = (s', False) \<and>
    complete i t res now s' = (s', False) \<and> fail_run mc i t err retry now s' = (s', False)"
  using dead_token [OF assms(4) reach_ok [OF assms(1)] assms(2,3)] by (simp_all add: refused_ops)

lemma run_token_fenced_witness:
  "complete ''r1'' ''t1'' sample_result 40 sample_done = (sample_done, False)"
  using run_token_fenced [OF sample_done_reach [of None] _ _ rtranclp.rtrancl_refl, of "''t1''"]
  by (simp add: holds_lease_def sample_done_get_all sample_done_run_def)

definition claim_eligible :: "'q run_store \<Rightarrow> 'q run \<Rightarrow> bool" where
  "claim_eligible s r \<longleftrightarrow>
     get_run s (run_id r) = Some r \<and> run_status r = Pending \<and>
     (\<forall>q j. get_run s j = Some q \<and> run_status q = Running \<longrightarrow> run_sessionId q \<noteq> run_sessionId r)"

lemma set_claimable: "run_inv s \<Longrightarrow> r \<in> set (claimable s) \<longleftrightarrow> claim_eligible s r"
  unfolding claimable_def claim_eligible_def set_sort set_filter mem_Collect_eq
  by (simp only: in_values_iff sessionHasRunning_iff) blast

text \<open>\<open>claim\<close> leases the oldest pending run of a session with no running run, and answers null
  exactly when there is none.\<close>

theorem run_claim_oldest:
  assumes "run_inv s"
  shows "case snd (claim w t ttl now s) of
           None \<Rightarrow> (\<forall>r. \<not> claim_eligible s r) \<and> fst (claim w t ttl now s) = s
         | Some r' \<Rightarrow>
             (\<exists>r. claim_eligible s r \<and> r' = leased r w t ttl now \<and>
               (\<forall>q. claim_eligible s q \<longrightarrow> run_createdAt r \<le> run_createdAt q) \<and>
               get_run (fst (claim w t ttl now s)) (run_id r) = Some r')"
proof (cases "claimable s")
  case Nil
  then show ?thesis
    using set_claimable [OF assms] by (auto simp: claim_def)
next
  case (Cons r rs)
  have "sorted (map run_createdAt (claimable s))"
    by (simp add: claimable_def)
  then have "claim_eligible s q \<Longrightarrow> run_createdAt r \<le> run_createdAt q" for q
    using set_claimable [OF assms, of q] Cons by auto
  moreover have "claim_eligible s r"
    using set_claimable [OF assms, of r] Cons by simp
  ultimately show ?thesis
    using Cons by (auto simp: claim_Some lease_def Let_def)
qed

lemma run_claim_oldest_witness:
  "\<exists>r. claim_eligible (fst sample_enqueue) r \<and>
     get_run (fst (claim ''w1'' ''t1'' 1000 20 (fst sample_enqueue))) (run_id r) = Some (leased r ''w1'' ''t1'' 1000 20)"
proof -
  have "fresh_id ''r1'' (empty_run_store :: nat run_store)"
    by (simp add: fresh_id_def empty_run_store_def get_run_def)
  then have "run_inv (fst sample_enqueue)"
    unfolding sample_enqueue_def by (simp add: enqueue_inv)
  moreover have "snd (claim ''w1'' ''t1'' 1000 20 (fst sample_enqueue)) = Some sample_run"
    by (simp add: sample_enqueue_def sample_run_def enqueue_def existing_for_key_def empty_run_store_def
        put_run_def claim_def claimable_def sessionHasRunning_def lease_def new_run_def leased_def Let_def)
  ultimately show ?thesis
    using run_claim_oldest [of "fst sample_enqueue" "''w1''" "''t1''" 1000 20] by auto
qed

text \<open>Enqueueing is idempotent by key: once a run was enqueued under a non-empty key, every later
  enqueue with that key returns the same run and changes nothing, whatever happened to the run in
  between.\<close>

theorem run_enqueue_idempotent:
  assumes "run_reach mc (s, T)" "fresh_id uuid s" "key \<noteq> []"
    and "enqueue sid q (Some key) m uuid now s = (s1, r, d)"
    and "(run_step mc)\<^sup>*\<^sup>* (s1, T) (s2, T')"
  shows "\<exists>r'. enqueue sid' q' (Some key) m' uuid' now' s2 = (s2, r', True) \<and>
           run_id r' = run_id r \<and> run_dedupKey r' = Some key"
proof -
  have s1: "s1 = fst (enqueue sid q (Some key) m uuid now s)"
    using assms(4) by simp
  have reach1: "run_reach mc (s1, T)"
    unfolding s1 by (rule reach_intros(2) [OF assms(1) step_enqueue [OF assms(2)]])
  note inv = reach_inv [OF assms(1)]
  have "get_run s1 (run_id r) = Some r \<and> run_dedupKey r = Some key"
  proof (cases "existing_for_key s (Some key)")
    case None
    then show ?thesis
      using assms(3,4) by (auto simp: enqueue_def Let_def get_run_def put_run_def)
  next
    case (Some q)
    moreover have "r = q" "s1 = s"
      using assms(4) Some by (simp_all add: enqueue_def)
    ultimately show ?thesis
      using existing_for_key_Some_iff [OF inv, of "Some key" q] by simp
  qed
  then obtain r' where r': "get_run s2 (run_id r) = Some r'" "run_id r' = run_id r" "run_dedupKey r' = Some key"
    using steps_run [OF assms(5) reach_ok [OF reach1], of "run_id r" r
        "\<lambda>x. run_id x = run_id r \<and> run_dedupKey x = Some key"] effect_keeps by fastforce
  moreover have "existing_for_key s2 (Some key) = Some r'"
    using existing_for_key_Some_iff [OF reach_inv [OF reach_steps [OF reach1 assms(5)]]] r' assms(3) by simp
  ultimately show ?thesis
    by (simp add: enqueue_def)
qed

lemma empty_reach: "run_reach mc (empty_run_store, [])"
  by (rule reach_intros(1))

lemma run_enqueue_idempotent_witness:
  "\<exists>r'. enqueue ''S'' 8 (Some ''k'') None ''r2'' 50 (fst sample_enqueue) = (fst sample_enqueue, r', True) \<and>
     run_id r' = ''r1''"
proof -
  have "fresh_id ''r1'' (empty_run_store :: nat run_store)"
    by (simp add: fresh_id_def empty_run_store_def get_run_def)
  then show ?thesis
    using run_enqueue_idempotent [OF empty_reach [of None] _ _ sample_enqueue_eq [unfolded sample_enqueue_def]
        rtranclp.rtrancl_refl, of "''S''" 8 None "''r2''" 50]
    by (fastforce simp: sample_enqueue_def)
qed

text \<open>\<open>fail\<close> by the lease holder puts the run back in the queue exactly when a retry was asked for
  and \<open>errorParks\<close> does not hold; otherwise the run is failed with the given error. Either way the
  error is counted, the lease is gone, and no other run changes.\<close>

theorem run_fail_outcome:
  assumes "run_inv s" "get_run s i = Some r" "run_leaseToken r = Some t"
  shows "snd (fail_run mc i t err retry now s) = (retry \<and> \<not> errorParks r mc) \<and>
    (\<exists>r'. get_run (fst (fail_run mc i t err retry now s)) i = Some r' \<and>
       run_errorAttempts r' = Suc (run_errorAttempts r) \<and> run_leaseToken r' = None \<and>
       run_attempts r' = run_attempts r \<and>
       (if retry \<and> \<not> errorParks r mc then run_status r' = Pending \<and> run_result r' = run_result r
        else run_status r' = Failed \<and> run_finishedAt r' = Some now \<and>
             run_result r' = Some (failed_result (run_sessionId r) err))) \<and>
    (\<forall>j. j \<noteq> i \<longrightarrow> get_run (fst (fail_run mc i t err retry now s)) j = get_run s j)"
  unfolding get_fail [OF assms]
  by (auto simp: retired_def Let_def errorParks_def)

lemma run_fail_outcome_witness: "snd (fail_run None ''r1'' ''t1'' ''boom'' True 40 sample_queue)"
  using run_fail_outcome [OF reach_inv [OF sample_reach] sample_get, of "''t1''" None "''boom''" True 40]
  by (simp add: errorParks_def overClaimed_def)

text \<open>What the reaper makes of a lapsed run.\<close>

definition reaped :: "nat option \<Rightarrow> ms option \<Rightarrow> ms \<Rightarrow> 'q run \<Rightarrow> 'q run" where
  "reaped mc age now r =
     retired mc r (reap_reason (reap_tooOld age now r)) (\<not> reap_tooOld age now r) False now"

lemma reaped_status:
  "run_leaseToken (reaped mc age now r) = None"
  "run_errorAttempts (reaped mc age now r) = run_errorAttempts r"
  "run_status (reaped mc age now r) =
     (if \<not> reap_tooOld age now r \<and> run_errorAttempts r < run_maxAttempts r \<and> \<not> overClaimed mc (run_attempts r)
      then Pending else Failed)"
  by (simp_all add: reaped_def) (simp add: retired_def Let_def)

lemma reap_one_acc:
  assumes "run_inv s" "get_run s i = Some r" "leaseLapsed r now"
  shows "\<exists>s' rq' pk' e. reap_one mc age now i (s, rq, pk, sids, evs) = (s', rq', pk', sids @ [run_sessionId r], evs @ [e]) \<and>
           rq' + pk' = Suc (rq + pk) \<and>
           (\<forall>j. get_run s' j = (if j = i then Some (reaped mc age now r) else get_run s j))"
proof -
  have g: "retire_guard r (Some now)"
    using leaseLapsed_guard [OF run_inv_ok [OF assms(1,2)]] assms(3) by simp
  obtain s' q where ret: "retire mc r (reap_reason (reap_tooOld age now r)) (\<not> reap_tooOld age now r)
      (Some now) False now s = (s', q, True)"
    using retire_flags [OF g] by (metis prod.collapse snd_conv)
  have "get_run s' j = (if j = i then Some (reaped mc age now r) else get_run s j)" for j
    using retire_get [OF g run_inv_id [OF assms(1,2)]] unfolding reaped_def by (metis ret fst_conv)
  then show ?thesis
    using assms(2) by (simp add: reap_one_def Let_def ret)
qed

lemma reap_fold:
  assumes "run_inv s" "distinct ids" "\<forall>i \<in> set ids. \<exists>r. get_run s i = Some r \<and> leaseLapsed r now"
    and "fold (reap_one mc age now) ids (s, rq, pk, sids, evs) = (s', rq', pk', sids', evs')"
  shows "rq' + pk' = rq + pk + length ids \<and>
    sids' = sids @ map (\<lambda>i. run_sessionId (the (get_run s i))) ids \<and>
    (\<forall>j. get_run s' j = (if j \<in> set ids then map_option (reaped mc age now) (get_run s j) else get_run s j))"
  using assms
proof (induction ids arbitrary: s rq pk sids evs)
  case (Cons i ids)
  obtain r where r: "get_run s i = Some r" "leaseLapsed r now"
    using Cons.prems(3) by auto
  obtain s1 rq1 pk1 e where one:
    "reap_one mc age now i (s, rq, pk, sids, evs) = (s1, rq1, pk1, sids @ [run_sessionId r], evs @ [e])"
    "rq1 + pk1 = Suc (rq + pk)"
    and get: "\<And>j. get_run s1 j = (if j = i then Some (reaped mc age now r) else get_run s j)"
    using reap_one_acc [OF Cons.prems(1) r] by blast
  have inv: "run_inv s1"
    using reap_one_inv [of "(s, rq, pk, sids, evs)" mc age now i] Cons.prems(1) one by simp
  have rest: "\<forall>i \<in> set ids. \<exists>r. get_run s1 i = Some r \<and> leaseLapsed r now" "i \<notin> set ids"
    using Cons.prems(2,3) get by auto
  have same: "map (\<lambda>i. run_sessionId (the (get_run s1 i))) ids = map (\<lambda>i. run_sessionId (the (get_run s i))) ids"
    using rest(2) get by auto
  show ?case
    using Cons.IH [OF inv _ rest(1), of rq1 pk1 "sids @ [run_sessionId r]" "evs @ [e]"] Cons.prems(2,4)
    unfolding same by (auto simp: one get r rest(2))
qed simp

lemma run_reap_expired_facts:
  assumes "run_inv s" "reapExpired mc age now s = (s', requeued, parked, sids, evs)"
  shows "requeued + parked = length (filter (\<lambda>r. leaseLapsed r now) (map_values (rs_runs s))) \<and>
    sids = map run_sessionId (filter (\<lambda>r. leaseLapsed r now) (map_values (rs_runs s))) \<and>
    (\<forall>i r. get_run s i = Some r \<longrightarrow>
       (\<exists>r'. get_run s' i = Some r' \<and>
          (if leaseLapsed r now
           then run_leaseToken r' = None \<and> run_errorAttempts r' = run_errorAttempts r \<and>
             (if \<not> reap_tooOld age now r \<and> run_errorAttempts r < run_maxAttempts r \<and> \<not> overClaimed mc (run_attempts r)
              then run_status r' = Pending else run_status r' = Failed)
           else r' = r)))"
proof -
  let ?lapsed = "filter (\<lambda>r. leaseLapsed r now) (map_values (rs_runs s))"
  let ?ids = "map run_id ?lapsed"
  note wf = run_invD(1) [OF assms(1)]
  have val: "get_run s (run_id r) = Some r" if "r \<in> set (map_values (rs_runs s))" for r
    using that in_values_iff [OF assms(1)] by blast
  have "map run_id (map_values (rs_runs s)) = map_keys (rs_runs s)"
  proof -
    have "run_id v = k" if "(k, v) \<in> set (rs_runs s)" for k v
      using that map_wf_get_iff [OF wf] run_inv_id [OF assms(1)] by (simp add: get_run_def)
    then show ?thesis by auto
  qed
  then have dist: "distinct ?ids"
    using wf unfolding map_wf_def by (metis distinct_map_filter)
  have all: "\<forall>i \<in> set ?ids. \<exists>r. get_run s i = Some r \<and> leaseLapsed r now"
    using val by auto
  have sess: "map (\<lambda>i. run_sessionId (the (get_run s i))) ?ids = map run_sessionId ?lapsed"
    using val by (auto simp: comp_def)
  have mem: "i \<in> set ?ids \<longleftrightarrow> leaseLapsed r now" if "get_run s i = Some r" for i r
  proof -
    have r: "run_id r = i" "r \<in> set (map_values (rs_runs s))"
      using that run_inv_id [OF assms(1) that] map_get_in_values [of "rs_runs s" i r]
      by (simp_all add: get_run_def)
    then have "i \<in> set ?ids" if "leaseLapsed r now"
      using that unfolding set_map set_filter [of _ "map snd (rs_runs s)"] by blast
    moreover have "leaseLapsed r now" if "i \<in> set ?ids"
      using that all \<open>get_run s i = Some r\<close> by (metis option.inject)
    ultimately show ?thesis by blast
  qed
  have res: "requeued + parked = 0 + 0 + length ?ids \<and> sids = [] @ map run_sessionId ?lapsed \<and>
    (\<forall>j. get_run s' j = (if j \<in> set ?ids then map_option (reaped mc age now) (get_run s j) else get_run s j))"
    using reap_fold [OF assms(1) dist all assms(2) [unfolded reapExpired_def]] unfolding sess by simp
  have "get_run s' i = Some (if leaseLapsed r now then reaped mc age now r else r)" if "get_run s i = Some r" for i r
    using res mem [OF that] that by simp
  then show ?thesis
    using res by (simp add: reaped_status)
qed

text \<open>C4: A reaping pass retires every run whose lease has lapsed and no other: it is requeued while it
  is young enough, has error budget and is within the claim bound, and parked as failed otherwise; the
  counts add up to the lapsed runs and their sessions are the ones reported.\<close>

theorem run_reap_expired:
  assumes "run_inv s" "reapExpired mc age now s = (s', requeued, parked, sids, evs)"
  shows "requeued + parked = length (filter (\<lambda>r. leaseLapsed r now) (map_values (rs_runs s))) \<and>
    sids = map run_sessionId (filter (\<lambda>r. leaseLapsed r now) (map_values (rs_runs s))) \<and>
    (\<forall>i r. get_run s i = Some r \<longrightarrow>
       (\<exists>r'. get_run s' i = Some r' \<and>
          (if leaseLapsed r now
           then run_leaseToken r' = None \<and> run_errorAttempts r' = run_errorAttempts r \<and>
             (if \<not> reap_tooOld age now r \<and> run_errorAttempts r < run_maxAttempts r \<and> \<not> overClaimed mc (run_attempts r)
              then run_status r' = Pending else run_status r' = Failed)
           else r' = r)))"
  by (rule run_reap_expired_facts [OF assms])

lemma run_reap_expired_witness:
  "fst (snd (reapExpired (Some 20) None 5000 sample_queue)) + fst (snd (snd (reapExpired (Some 20) None 5000 sample_queue))) =
     length (filter (\<lambda>r. leaseLapsed r 5000) (map_values (rs_runs sample_queue)))"
  using run_reap_expired [OF reach_inv [OF sample_reach], of "Some 20" None 5000] by (metis prod.collapse)

end
