(* ===== verification/Run_Worker.thy ===== *)
theory Run_Worker
  imports Run_Invariant
begin

text \<open>
  The background worker of \<open>runs/worker.ts\<close>: the heartbeat loop that cancels a turn whose lease is
  lost, \<open>processRun\<close>, and the claim loop. The orchestrator's turn is a parameter: it runs while other
  workers and the reaper act on the store, so it maps the store before to the store after.
\<close>

section \<open>Heartbeats\<close>

definition LEASE_LOST_CONSECUTIVE :: nat where
  "LEASE_LOST_CONSECUTIVE = 3"

definition CLAIM_FAIL_CRASH_CONSECUTIVE :: nat where
  "CLAIM_FAIL_CRASH_CONSECUTIVE = 20"

definition beat_interval :: "ms option \<Rightarrow> ms \<Rightarrow> ms" where
  "beat_interval heartbeatIntervalMs leaseTtlMs =
     (case heartbeatIntervalMs of Some i \<Rightarrow> i | None \<Rightarrow> max 1000 (leaseTtlMs div 3))"

text \<open>The settled promise of one beat: resolved to a boolean, or rejected.\<close>

datatype beat_answer = BeatAlive | BeatRefused | BeatRejected

record beat_state =
  bs_consecutiveLost :: nat
  bs_leaseLost :: bool

definition beat_start :: beat_state where
  "beat_start = \<lparr>bs_consecutiveLost = 0, bs_leaseLost = False\<rparr>"

definition beat_step :: "beat_answer \<Rightarrow> beat_state \<Rightarrow> beat_state" where
  "beat_step a b =
     (case a of
        BeatAlive \<Rightarrow> b\<lparr>bs_consecutiveLost := 0\<rparr>
      | BeatRejected \<Rightarrow> b\<lparr>bs_consecutiveLost := 0\<rparr>
      | BeatRefused \<Rightarrow>
          (let lost = bs_consecutiveLost b + 1 in
           if lost \<ge> LEASE_LOST_CONSECUTIVE \<and> \<not> bs_leaseLost b
           then \<lparr>bs_consecutiveLost = lost, bs_leaseLost = True\<rparr>
           else b\<lparr>bs_consecutiveLost := lost\<rparr>))"

text \<open>The turn is cancelled exactly when the lease was declared lost.\<close>

definition turn_cancelled :: "beat_answer list \<Rightarrow> bool" where
  "turn_cancelled as = bs_leaseLost (fold beat_step as beat_start)"

fun trailing_refusals :: "beat_answer list \<Rightarrow> nat" where
  "trailing_refusals [] = 0"
| "trailing_refusals (a # as) = (if a = BeatRefused then Suc (trailing_refusals as) else 0)"

lemma beat_fold:
  "bs_consecutiveLost (fold beat_step as beat_start) = trailing_refusals (rev as) \<and>
   (bs_leaseLost (fold beat_step as beat_start) \<longleftrightarrow>
      (\<exists>pre post. as = pre @ replicate 3 BeatRefused @ post))"
proof (induction as rule: rev_induct)
  case Nil
  then show ?case by (simp add: beat_start_def numeral_3_eq_3)
next
  case (snoc a as)
  let ?b = "fold beat_step as beat_start"
  have split: "(\<exists>pre post. as @ [a] = pre @ replicate 3 BeatRefused @ post) \<longleftrightarrow>
     (\<exists>pre post. as = pre @ replicate 3 BeatRefused @ post) \<or>
     (\<exists>pre. as @ [a] = pre @ replicate 3 BeatRefused)" (is "?L \<longleftrightarrow> ?R")
  proof
    assume ?L
    then obtain pre post where e: "as @ [a] = pre @ replicate 3 BeatRefused @ post" by blast
    show ?R
    proof (cases post rule: rev_cases)
      case (snoc ys y)
      with e have "as = pre @ replicate 3 BeatRefused @ ys" by simp
      then show ?thesis by blast
    qed (use e in auto)
  qed (metis append.assoc append_Nil2)
  have tail: "(\<exists>pre. as @ [a] = pre @ replicate 3 BeatRefused) \<longleftrightarrow> 3 \<le> trailing_refusals (rev (as @ [a]))"
  proof -
    have pre: "(\<exists>ys. xs = replicate n BeatRefused @ ys) \<longleftrightarrow> n \<le> trailing_refusals xs" for n xs
    proof (induction n arbitrary: xs)
      case (Suc n)
      then show ?case by (cases xs) auto
    qed simp
    have "(\<exists>p. as @ [a] = p @ replicate 3 BeatRefused) \<longleftrightarrow> (\<exists>ys. rev (as @ [a]) = replicate 3 BeatRefused @ ys)"
      by (metis rev_append rev_replicate rev_rev_ident)
    then show ?thesis by (simp only: pre)
  qed
  show ?case
    unfolding split tail using snoc.IH
    by (cases a) (auto simp: beat_step_def Let_def LEASE_LOST_CONSECUTIVE_def)
qed

section \<open>Processing one run\<close>

text \<open>What \<open>handleTurn\<close> rejects with; only \<open>NonRetryableTurnError\<close> is told apart.\<close>

record turn_error =
  te_message :: string
  te_nonRetryable :: bool

record ('q, 'o) turn_call =
  tc_request :: 'q
  tc_origin :: 'o
  tc_runId :: string
  tc_attempt :: nat
  tc_finalAttempt :: bool
  tc_background :: bool
  tc_queueMs :: "ms option"

definition queue_ms :: "'q run \<Rightarrow> ms option" where
  "queue_ms r = map_option (\<lambda>t. max 0 (t - run_createdAt r)) (run_startedAt r)"

definition turn_call_of :: "('q \<Rightarrow> 'o) \<Rightarrow> nat option \<Rightarrow> 'q run \<Rightarrow> bool \<Rightarrow> ('q, 'o) turn_call" where
  "turn_call_of resolveTurnOrigin mc r background =
     \<lparr>tc_request = run_request r, tc_origin = resolveTurnOrigin (run_request r), tc_runId = run_id r,
      tc_attempt = run_attempts r, tc_finalAttempt = errorParks r mc, tc_background = background,
      tc_queueMs = queue_ms r\<rparr>"

definition unleased_error :: "string \<Rightarrow> turn_error" where
  "unleased_error i = \<lparr>te_message = ''processRun called with an unleased run '' @ i, te_nonRetryable = False\<rparr>"

definition processRun ::
  "('q \<Rightarrow> 'o) \<Rightarrow> nat option \<Rightarrow> (('q, 'o) turn_call \<Rightarrow> 'q run_store \<Rightarrow> 'q run_store \<times> (turn_error + turn_result)) \<Rightarrow>
   'q run \<Rightarrow> bool \<Rightarrow> ms \<Rightarrow> 'q run_store \<Rightarrow> 'q run_store \<times> (turn_error + turn_result)" where
  "processRun resolveTurnOrigin mc handleTurn r background now s =
     (case run_leaseToken r of
        None \<Rightarrow> (s, Inl (unleased_error (run_id r)))
      | Some token \<Rightarrow>
          (case handleTurn (turn_call_of resolveTurnOrigin mc r background) s of
             (s1, Inr result) \<Rightarrow> (fst (complete (run_id r) token result now s1), Inr result)
           | (s1, Inl err) \<Rightarrow>
               (fst (fail_run mc (run_id r) token (te_message err) (\<not> te_nonRetryable err) now s1), Inl err)))"

section \<open>The claim loop\<close>

record in_flight =
  if_runId :: string
  if_leaseToken :: string
  if_threadRef :: string

record worker_state =
  wk_stopped :: bool
  wk_claimFailures :: nat
  wk_inFlight :: "in_flight option"

datatype worker_next = Sleep ms | Continue | ExitLoop | CrashLoop

definition claim_backoff :: "ms \<Rightarrow> nat \<Rightarrow> ms" where
  "claim_backoff pollMs claimFailures = min (pollMs * 2 ^ min claimFailures 5) 5000"

definition in_flight_of :: "'q run \<Rightarrow> in_flight option" where
  "in_flight_of r =
     map_option (\<lambda>t. \<lparr>if_runId = run_id r, if_leaseToken = t, if_threadRef = run_sessionId r\<rparr>) (run_leaseToken r)"

text \<open>What follows the awaited \<open>claim\<close>: \<open>None\<close> is a rejection, \<open>stopped_now\<close> the flag read after it.\<close>

definition after_claim ::
  "ms \<Rightarrow> 'q run option option \<Rightarrow> bool \<Rightarrow> ('q run \<Rightarrow> 'q run_store \<Rightarrow> 'q run_store \<times> (turn_error + turn_result)) \<Rightarrow>
   worker_state \<Rightarrow> 'q run_store \<Rightarrow> worker_state \<times> 'q run_store \<times> worker_next" where
  "after_claim pollMs claimed stopped_now process w s =
     (case claimed of
        None \<Rightarrow>
          (let cf = wk_claimFailures w + 1; w' = w\<lparr>wk_claimFailures := cf\<rparr> in
           if cf \<ge> CLAIM_FAIL_CRASH_CONSECUTIVE then (w', s, CrashLoop)
           else (w', s, Sleep (claim_backoff pollMs cf)))
      | Some None \<Rightarrow> (w\<lparr>wk_claimFailures := 0\<rparr>, s, Sleep pollMs)
      | Some (Some r) \<Rightarrow>
          (let w' = w\<lparr>wk_claimFailures := 0\<rparr> in
           if stopped_now
           then (w', (case run_leaseToken r of None \<Rightarrow> s | Some t \<Rightarrow> fst (releaseLease (run_id r) t s)), ExitLoop)
           else (w'\<lparr>wk_inFlight := None\<rparr>, fst (process r s), Continue)))"

definition loop_iteration ::
  "string \<Rightarrow> ms \<Rightarrow> ms \<Rightarrow> bool \<Rightarrow> bool \<Rightarrow> string \<Rightarrow> ms \<Rightarrow> bool \<Rightarrow>
   ('q run \<Rightarrow> 'q run_store \<Rightarrow> 'q run_store \<times> (turn_error + turn_result)) \<Rightarrow>
   worker_state \<Rightarrow> 'q run_store \<Rightarrow> worker_state \<times> 'q run_store \<times> worker_next" where
  "loop_iteration workerId pollMs ttlMs canClaim claimFails token now stopped_now process w s =
     (if wk_stopped w then (w, s, ExitLoop)
      else if \<not> canClaim then (w, s, Sleep pollMs)
      else if claimFails then after_claim pollMs None stopped_now process w s
      else (case claim workerId token ttlMs now s of
              (s', r) \<Rightarrow> after_claim pollMs (Some r) stopped_now process w s'))"

definition busy :: "worker_state \<Rightarrow> bool" where
  "busy w \<longleftrightarrow> wk_inFlight w \<noteq> None"

text \<open>The state while \<open>processRun\<close> is awaited.\<close>

definition working :: "'q run \<Rightarrow> worker_state \<Rightarrow> worker_state" where
  "working r w = w\<lparr>wk_inFlight := in_flight_of r\<rparr>"

section \<open>Properties\<close>

text \<open>The turn is cancelled exactly when three heartbeats in a row were refused; an accepted or a
  rejected beat starts the count again.\<close>

theorem cancelled_after_three_refusals:
  "turn_cancelled as = (\<exists>pre post. as = pre @ [BeatRefused, BeatRefused, BeatRefused] @ post)"
  using beat_fold [of as] by (simp add: turn_cancelled_def numeral_3_eq_3)

text \<open>C5: \<open>processRun\<close> settles its run if and only if the worker still holds the lease when the turn
  ends: with the lease a result makes it done and an error requeues or parks it as \<open>errorParks\<close> says;
  without the lease the store is left as the turn left it. The caller gets the turn's outcome.\<close>

theorem processRun_settles:
  assumes "run_leaseToken r = Some t" "handleTurn (turn_call_of ro mc r bg) s = (s1, out)" "run_inv s1"
    and "processRun ro mc handleTurn r bg now s = (s2, out')"
  shows "out' = out \<and> run_inv s2 \<and>
    (if holds_lease s1 (run_id r) t
     then \<not> holds_lease s2 (run_id r) t \<and>
       (\<exists>q q'. get_run s1 (run_id r) = Some q \<and> get_run s2 (run_id r) = Some q' \<and>
         (case out of
            Inr res \<Rightarrow> run_status q' = Done \<and> run_result q' = Some res
          | Inl e \<Rightarrow> run_errorAttempts q' = Suc (run_errorAttempts q) \<and>
              run_status q' = (if \<not> te_nonRetryable e \<and> \<not> errorParks q mc then Pending else Failed)))
     else s2 = s1)"
proof (cases "holds_lease s1 (run_id r) t")
  case True
  then obtain q where q: "get_run s1 (run_id r) = Some q" "run_leaseToken q = Some t"
    by (auto simp: holds_lease_def)
  show ?thesis
  proof (cases out)
    case (Inr res)
    then have "out' = out" "s2 = fst (complete (run_id r) t res now s1)"
      using assms by (auto simp: processRun_def)
    then show ?thesis
      using complete_inv [OF assms(3)] True Inr q
      by (simp add: holds_lease_def get_complete [OF assms(3) q])
  next
    case (Inl e)
    then have "out' = out" "s2 = fst (fail_run mc (run_id r) t (te_message e) (\<not> te_nonRetryable e) now s1)"
      using assms by (auto simp: processRun_def)
    then show ?thesis
      using fail_inv [OF assms(3)] True Inl q
      by (simp add: holds_lease_def get_fail [OF assms(3) q])
         (auto simp: retired_def Let_def errorParks_def)
  qed
next
  case False
  then show ?thesis
    using assms by (auto simp: processRun_def refused_ops split: sum.splits)
qed

definition demo_run :: "nat run" where
  "demo_run = leased (new_run ''r1'' ''S'' 7 None None 10) ''w1'' ''t1'' 1000 20"

definition demo_store :: "nat run_store" where
  "demo_store = \<lparr>rs_runs = [(''r1'', demo_run)], rs_byKey = [], rs_settled = []\<rparr>"

lemma demo_inv: "run_inv demo_store"
  by (simp add: run_inv_def demo_store_def map_wf_def map_all_def run_ok_def exclusive_def
      tokens_distinct_def keys_ok_def settled_ok_def get_run_def demo_run_def leased_def new_run_def)

lemma processRun_settles_witness:
  "snd (processRun id None (\<lambda>_ s. (s, Inl \<lparr>te_message = ''bad'', te_nonRetryable = False\<rparr>)) demo_run True 50 demo_store)
     = Inl \<lparr>te_message = ''bad'', te_nonRetryable = False\<rparr>"
proof -
  have "run_leaseToken demo_run = Some ''t1''"
    by (simp add: demo_run_def leased_def)
  then show ?thesis
    using processRun_settles [of demo_run "''t1''" "\<lambda>_ s. (s, Inl \<lparr>te_message = ''bad'', te_nonRetryable = False\<rparr>)"
        id None True demo_store demo_store _ 50, OF _ _ demo_inv prod.collapse [symmetric]] by auto
qed

text \<open>A worker stopped while its claim was in flight hands the claimed run back: the run is pending
  again without a lease, only its claim count has grown, and no other run has changed.\<close>

theorem stopped_claim_handed_back:
  assumes "run_inv s" "fresh_token token s" "\<not> wk_stopped w"
    and "loop_iteration wid poll ttl True False token now True process w s = (w', s', nxt)"
    and "snd (claim wid token ttl now s) = Some r"
  shows "nxt = ExitLoop \<and> \<not> holds_lease s' (run_id r) token \<and>
    (\<exists>q q'. get_run s (run_id r) = Some q \<and> run_status q = Pending \<and> get_run s' (run_id r) = Some q' \<and>
       run_status q' = Pending \<and> run_attempts q' = Suc (run_attempts q) \<and>
       run_errorAttempts q' = run_errorAttempts q) \<and>
    (\<forall>j. j \<noteq> run_id r \<longrightarrow> get_run s' j = get_run s j)"
proof -
  obtain q rs where c: "claimable s = q # rs"
    using assms(5) by (cases "claimable s") (auto simp: claim_def)
  have q: "get_run s (run_id q) = Some q" "run_status q = Pending"
    using claimable_member [OF assms(1), of q] c by simp_all
  let ?r = "leased q wid token ttl now"
  have claim: "claim wid token ttl now s = (put_run ?r s, Some ?r)"
    using c by (simp add: claim_Some lease_def Let_def)
  have r: "r = ?r" "run_id r = run_id q" "run_leaseToken ?r = Some token"
    using assms(5) unfolding claim by auto
  have inv: "run_inv (put_run ?r s)"
    using claim_inv [OF assms(1,2), of wid ttl now] claim by simp
  have get: "get_run (put_run ?r s) (run_id q) = Some ?r"
    by simp
  have res: "nxt = ExitLoop" "s' = fst (releaseLease (run_id q) token (put_run ?r s))"
    using assms(3,4) claim r by (simp_all add: loop_iteration_def after_claim_def)
  show ?thesis
    unfolding res holds_lease_def get_releaseLease [OF inv get r(3)] r(2)
    using q by (auto simp: leased_def)
qed

definition demo_pending :: "nat run_store" where
  "demo_pending = \<lparr>rs_runs = [(''r1'', new_run ''r1'' ''S'' 7 None None 10)], rs_byKey = [], rs_settled = []\<rparr>"

lemma stopped_claim_handed_back_witness:
  "snd (snd (loop_iteration ''w1'' 50 1000 True False ''t1'' 20 True (\<lambda>r s. (s, Inr (turn_result_of OkT)))
      \<lparr>wk_stopped = False, wk_claimFailures = 0, wk_inFlight = None\<rparr> demo_pending)) = ExitLoop"
proof -
  have inv: "run_inv demo_pending"
    by (simp add: run_inv_def demo_pending_def map_wf_def map_all_def run_ok_def exclusive_def
        tokens_distinct_def keys_ok_def settled_ok_def get_run_def new_run_def)
  have tok: "fresh_token ''t1'' demo_pending"
    by (simp add: fresh_token_def demo_pending_def get_run_def new_run_def)
  have cl: "snd (claim ''w1'' ''t1'' 1000 20 demo_pending) = Some demo_run"
    by (simp add: claim_def claimable_def demo_pending_def sessionHasRunning_def lease_def demo_run_def new_run_def Let_def)
  show ?thesis
    using stopped_claim_handed_back [OF inv tok _ _ cl] by (metis prod.collapse worker_state.select_convs(1))
qed

text \<open>Claim failures back off exponentially, never longer than five seconds, and crash the loop at
  exactly the twentieth failure in a row; a claim that answers resets the count.\<close>

theorem claim_failures_crash:
  assumes "wk_claimFailures w = n" "\<not> wk_stopped w"
  shows "loop_iteration wid poll ttl True True token now st process w s =
      (w\<lparr>wk_claimFailures := Suc n\<rparr>, s,
       if 19 \<le> n then CrashLoop else Sleep (min (poll * 2 ^ min (Suc n) 5) 5000)) \<and>
    wk_claimFailures (fst (loop_iteration wid poll ttl True False token now st process w s)) = 0"
  using assms
  by (auto simp: loop_iteration_def after_claim_def CLAIM_FAIL_CRASH_CONSECUTIVE_def claim_backoff_def Let_def
           split: prod.split option.split)

lemma claim_failures_crash_witness:
  "snd (snd (loop_iteration ''w'' 50 1000 True True ''t'' 0 False (\<lambda>r s. (s, Inr (turn_result_of OkT)))
     \<lparr>wk_stopped = False, wk_claimFailures = 3, wk_inFlight = None\<rparr> demo_pending)) = Sleep 800"
  using claim_failures_crash [of "\<lparr>wk_stopped = False, wk_claimFailures = 3, wk_inFlight = None\<rparr>" 3 "''w''" 50 1000 "''t''" 0 False
      "\<lambda>r s. (s, Inr (turn_result_of OkT))" demo_pending] by simp

end
