(* ===== verification/Session_Types.thy ===== *)
theory Session_Types
  imports Core_Types Complex_Main
begin

text \<open>
  The data of \<open>sessions/session-store.ts\<close> and of the sessions in \<open>types.ts\<close>, and the pure helpers of
  that file: origins and cron ids of thread references, message previews, transcript windows.
\<close>

section \<open>Sessions and entries\<close>

datatype session_type = TDm | TChannel | TGroup

record session =
  se_id :: string
  se_type :: session_type
  se_scopeId :: scope_id
  se_threadRef :: string
  se_surface :: "string option"
  se_createdAt :: ms
  se_channelName :: "string option"
  se_title :: "string option"
  se_archived :: bool
  se_pinned :: bool
  se_color :: "string option"
  se_lastActivityAt :: "ms option"
  se_hasEntries :: "bool option"

datatype entry_type =
    EUser | EAssistant | EThinking | EText | EToolCall | EToolResult | ESoul | ESystem | EDelivery
  | EApprovalRequest | EApprovalResolved

record new_entry =
  ne_type :: entry_type
  ne_payload :: js_value
  ne_scopeLabel :: scope_id

record session_entry =
  en_sessionId :: string
  en_seq :: nat
  en_parentSeq :: "nat option"
  en_type :: entry_type
  en_payload :: js_value
  en_scopeLabel :: scope_id
  en_createdAt :: ms

datatype lease_holder = HTurn | HCompaction | HFork | HBackfill

record lease_ref =
  lr_sessionId :: string
  lr_token :: string

record lease_attempt =
  la_lease :: "lease_ref option"
  la_heldBy :: "lease_holder option"
  la_heldSince :: "ms option"
  la_heldUntil :: "ms option"

record view_patch =
  vp_title :: "string option option"
  vp_archived :: "bool option"
  vp_pinned :: "bool option"
  vp_color :: "string option option"

datatype tape_kind = TMessage | TContextEvent | TAnnotation

record tape_meta =
  tm_bareText :: "string option"
  tm_ts :: "string option"
  tm_changeTime :: "string option"
  tm_hidden :: bool
  tm_overheard :: bool
  tm_author :: "string option"

record new_tape_record =
  tp_kind :: tape_kind
  tp_payload :: js_value
  tp_scopeLabel :: scope_id
  tp_harness :: "string option"
  tp_meta :: "tape_meta option"
  tp_entrySeq :: "int option"
  tp_coversEntrySeq :: "int option"

record tape_record = new_tape_record +
  tp_sessionId :: string
  tp_seq :: nat
  tp_createdAt :: ms

record seq_window =
  sw_sinceSeq :: "nat option"
  sw_limit :: "int option"

record llm_usage =
  lu_input :: nat
  lu_output :: nat
  lu_cacheRead :: nat
  lu_cacheWrite :: nat
  lu_totalTokens :: nat
  lu_costUsd :: rat

text \<open>The remaining measurements (gap phases, transport) are opaque values.\<close>

record llm_request =
  lq_id :: string
  lq_sessionId :: string
  lq_turnSeq :: "nat option"
  lq_step :: nat
  lq_model :: string
  lq_scopeLabel :: scope_id
  lq_createdAt :: ms
  lq_request :: js_value
  lq_truncated :: bool
  lq_ttftMs :: "int option"
  lq_durationMs :: "int option"
  lq_stepGapMs :: "int option"
  lq_toolWallMs :: "int list option"
  lq_gapPhases :: "js_value option"
  lq_usage :: "llm_usage option"
  lq_transport :: "js_value option"

record new_llm_request =
  nl_turnSeq :: "nat option"
  nl_step :: nat
  nl_model :: string
  nl_scopeLabel :: scope_id
  nl_request :: js_value
  nl_truncated :: "bool option"
  nl_ttftMs :: "int option"
  nl_durationMs :: "int option"
  nl_stepGapMs :: "int option"
  nl_toolWallMs :: "int list option"
  nl_gapPhases :: "js_value option"
  nl_usage :: "llm_usage option"
  nl_transport :: "js_value option"

record list_llm_options =
  lo_turnSeqs :: "nat list option"
  lo_orphans :: bool
  lo_omitRequest :: bool

section \<open>Origins\<close>

datatype session_origin = OConversation | OCron | OWebhook | OMonitor

datatype origin_filter = OriginIs session_origin | OtherBackground

datatype session_category = CConversation | CBackground

text \<open>The alternation \<open>(cron|webhook|monitor)\<close> of the patterns, in order.\<close>

definition ORIGIN_ALTERNATION :: "(string \<times> session_origin) list" where
  "ORIGIN_ALTERNATION = [(''cron'', OCron), (''webhook'', OWebhook), (''monitor'', OMonitor)]"

text \<open>\<open>^agent:main:W:([^:]+)$\<close>; the result is the group.\<close>

definition stable_group :: "string \<Rightarrow> string \<Rightarrow> string option" where
  "stable_group w s =
     (let p = ''agent:main:'' @ w @ '':''; rest = drop (length p) s
      in if js_startsWith s p \<and> rest \<noteq> [] \<and> CHR '':'' \<notin> set rest then Some rest else None)"

text \<open>\<open>^W:([^:]+)(:.+)?$\<close>; the dot matches no line terminator.\<close>

definition line_terminator :: "char \<Rightarrow> bool" where
  "line_terminator c \<longleftrightarrow> (of_char c :: nat) \<in> {10, 13}"

definition legacy_group :: "string \<Rightarrow> string \<Rightarrow> string option" where
  "legacy_group w s =
     (let p = w @ '':''; rest = drop (length p) s;
          g = takeWhile (\<lambda>c. c \<noteq> CHR '':'') rest; tl = dropWhile (\<lambda>c. c \<noteq> CHR '':'') rest
      in if js_startsWith s p \<and> g \<noteq> [] \<and>
            (tl = [] \<or> (drop 1 tl \<noteq> [] \<and> list_all (\<lambda>c. \<not> line_terminator c) (drop 1 tl)))
         then Some g else None)"

definition sessionOrigin :: "string option \<Rightarrow> session_origin" where
  "sessionOrigin threadRef =
     (let s = (case threadRef of None \<Rightarrow> [] | Some t \<Rightarrow> t) in
      case List.find (\<lambda>(w, _). stable_group w s \<noteq> None) ORIGIN_ALTERNATION of
        Some (_, oo) \<Rightarrow> oo
      | None \<Rightarrow>
          (case List.find (\<lambda>(w, _). legacy_group w s \<noteq> None) ORIGIN_ALTERNATION of
             Some (_, oo) \<Rightarrow> oo
           | None \<Rightarrow> OConversation))"

definition sessionCategory :: "session_origin \<Rightarrow> session_category" where
  "sessionCategory oo = (if oo = OConversation then CConversation else CBackground)"

definition cronIdOf :: "string option \<Rightarrow> string option" where
  "cronIdOf threadRef =
     (let s = (case threadRef of None \<Rightarrow> [] | Some t \<Rightarrow> t) in
      case stable_group ''cron'' s of Some g \<Rightarrow> Some g | None \<Rightarrow> legacy_group ''cron'' s)"

fun origin_name :: "session_origin \<Rightarrow> string" where
  "origin_name OConversation = ''conversation''"
| "origin_name OCron = ''cron''"
| "origin_name OWebhook = ''webhook''"
| "origin_name OMonitor = ''monitor''"

fun session_type_name :: "session_type \<Rightarrow> string" where
  "session_type_name TDm = ''dm''"
| "session_type_name TChannel = ''channel''"
| "session_type_name TGroup = ''group''"

definition sessionBucket :: "session_origin \<Rightarrow> session_type \<Rightarrow> string" where
  "sessionBucket oo ty = (if oo = OConversation then session_type_name ty else origin_name oo)"

lemma stable_group_prefix: "stable_group w s = Some g \<longleftrightarrow>
    s = ''agent:main:'' @ w @ '':'' @ g \<and> g \<noteq> [] \<and> CHR '':'' \<notin> set g"
  by (auto simp: stable_group_def Let_def js_startsWith_iff)

section \<open>Message previews\<close>

text \<open>A preview: the whole line, or a cut line that the code ends with an ellipsis (U+2026).\<close>

datatype preview = Whole string | Ellipsis string

definition payload_text :: "js_value \<Rightarrow> string" where
  "payload_text p =
     (case p of
        JStr s \<Rightarrow> s
      | _ \<Rightarrow> (case js_prop p ''text'' of Some (JStr s) \<Rightarrow> s | _ \<Rightarrow> []))"

definition bracket_paragraph :: "string \<Rightarrow> bool" where
  "bracket_paragraph p \<longleftrightarrow> (case dropWhile js_ws p of [] \<Rightarrow> False | c # _ \<Rightarrow> c = CHR ''['')"

definition NL :: char where
  "NL = CHR 0x0A"

definition userMessagePreview :: "js_value \<Rightarrow> nat \<Rightarrow> preview" where
  "userMessagePreview payload maxLen =
     (let text = payload_text payload;
          joined = js_trim (js_join [NL, NL] (filter (\<lambda>p. \<not> bracket_paragraph p) (js_split_on [NL, NL] text)));
          kept = (if joined \<noteq> [] then joined else js_trim text);
          oneLine = js_trim (js_collapse_ws False kept)
      in if length oneLine > maxLen then Ellipsis (take (maxLen - 1) oneLine) else Whole oneLine)"

fun preview_length :: "preview \<Rightarrow> nat" where
  "preview_length (Whole s) = length s"
| "preview_length (Ellipsis s) = Suc (length s)"

lemma preview_bounded: "0 < maxLen \<Longrightarrow> preview_length (userMessagePreview p maxLen) \<le> maxLen"
  by (simp add: userMessagePreview_def Let_def)

section \<open>Transcripts\<close>

definition transcriptEntries :: "session_entry list \<Rightarrow> session_entry list" where
  "transcriptEntries es = filter (\<lambda>e. en_type e \<noteq> ESoul) es"

definition isOverheardEntry :: "session_entry \<Rightarrow> bool" where
  "isOverheardEntry e \<longleftrightarrow> en_type e = EUser \<and> js_prop (en_payload e) ''overheard'' = Some (JBool True)"

record transcript_window =
  tw_tailTurns :: "int option"
  tw_sinceSeq :: "nat option"
  tw_beforeSeq :: "nat option"

text \<open>\<open>findIndex(e => e.seq >= k)\<close>, with the length of the list for \<open>-1\<close>.\<close>

fun first_at :: "nat \<Rightarrow> session_entry list \<Rightarrow> nat" where
  "first_at k [] = 0"
| "first_at k (e # es) = (if en_seq e \<ge> k then 0 else Suc (first_at k es))"

text \<open>
  The backward loop over the entries from index \<open>i - 1\<close> down to 0, with the user turns still
  wanted; the result is the cut, 0 when the loop runs out.
\<close>

fun tail_cut :: "session_entry list \<Rightarrow> nat \<Rightarrow> nat \<Rightarrow> nat" where
  "tail_cut es 0 wanted = 0"
| "tail_cut es (Suc i) wanted =
     (if en_type (es ! i) \<noteq> EUser then tail_cut es i wanted
      else if wanted = 1 then i
      else tail_cut es i (wanted - 1))"

definition windowedTranscript ::
  "session_entry list \<Rightarrow> transcript_window option \<Rightarrow> session_entry list \<times> nat" where
  "windowedTranscript entries window =
     (let es = (case Option.bind window tw_beforeSeq of
                  None \<Rightarrow> entries | Some b \<Rightarrow> take (first_at b entries) entries);
          cut = (case Option.bind window tw_sinceSeq of
                   Some k \<Rightarrow> first_at k es
                 | None \<Rightarrow>
                     (case Option.bind window tw_tailTurns of
                        Some n \<Rightarrow> if n > 0 then tail_cut es (length es) (nat n) else 0
                      | None \<Rightarrow> 0))
      in (if cut > 0 then drop cut es else es, cut))"

lemma tail_cut_le: "tail_cut es i n \<le> i"
  by (induction es i n rule: tail_cut.induct) (auto intro: le_SucI)

lemma first_at_le: "first_at k es \<le> length es"
  by (induction es) auto

text \<open>The user entries from the cut on number at most the turns asked for.\<close>

definition user_turns :: "session_entry list \<Rightarrow> nat" where
  "user_turns es = length (filter (\<lambda>e. en_type e = EUser) es)"

lemma user_turns_append [simp]: "user_turns (xs @ ys) = user_turns xs + user_turns ys"
  by (simp add: user_turns_def)

lemma take_Suc_user:
  "i < length es \<Longrightarrow> user_turns (take (Suc i) es) =
     user_turns (take i es) + (if en_type (es ! i) = EUser then 1 else 0)"
  by (simp add: take_Suc_conv_app_nth) (simp add: user_turns_def)

lemma tail_cut_turns:
  assumes "i \<le> length es" "0 < n"
  shows "user_turns (drop (tail_cut es i n) (take i es)) = min n (user_turns (take i es)) \<and>
         (tail_cut es i n \<noteq> 0 \<longrightarrow> en_type (es ! tail_cut es i n) = EUser)"
  using assms
proof (induction es i n rule: tail_cut.induct)
  case (2 es i n)
  let ?c = "tail_cut es i n"
  have step: "user_turns (drop k (take (Suc i) es)) = user_turns (drop k (take i es)) +
      (if en_type (es ! i) = EUser then 1 else 0)" if "k \<le> i" for k
    using 2(3) that by (simp add: take_Suc_conv_app_nth) (simp add: user_turns_def)
  have one: "user_turns (drop i (take (Suc i) es)) = (if en_type (es ! i) = EUser then 1 else 0)"
    using step [of i] 2(3) by (simp add: user_turns_def)
  show ?case
    using 2 step [OF tail_cut_le] one take_Suc_user [of i es] by auto
qed (simp add: user_turns_def)

end
