(* ===== verification/Session_Store.thy ===== *)
theory Session_Store
  imports Session_Types
begin

text \<open>
  The in-memory session store of \<open>sessions/memory-session-store.ts\<close>: its maps as one record and its
  operations in the order of the file. Each method runs without an \<open>await\<close>, so it is one step; the
  readings of the clock inside one method are one argument, and fresh ids and tokens are arguments.
\<close>

section \<open>State\<close>

record part_window =
  pw_validFrom :: ms
  pw_validTo :: "ms option"
  pw_validFromSeq :: nat
  pw_validToSeq :: "nat option"
  pw_title :: "string option"
  pw_archived :: bool
  pw_pinned :: bool
  pw_color :: "string option"

record session_lease =
  sl_token :: string
  sl_expiresAt :: ms
  sl_acquiredAt :: ms
  sl_holder :: "lease_holder option"

record session_store =
  ss_sessions :: "(string, session) jsmap"
  ss_entries :: "(string, session_entry list) jsmap"
  ss_tape :: "(string, tape_record list) jsmap"
  ss_llm :: "(string, llm_request list) jsmap"
  ss_byThread :: "(string, string) jsmap"
  ss_participants :: "(string, string list) jsmap"
  ss_windows :: "(string, (string, part_window) jsmap) jsmap"
  ss_leases :: "(string, session_lease) jsmap"

definition empty_session_store :: session_store where
  "empty_session_store =
     \<lparr>ss_sessions = [], ss_entries = [], ss_tape = [], ss_llm = [], ss_byThread = [],
      ss_participants = [], ss_windows = [], ss_leases = []\<rparr>"

definition or_empty :: "'a list option \<Rightarrow> 'a list" where
  "or_empty x = (case x of None \<Rightarrow> [] | Some l \<Rightarrow> l)"

lemma or_empty_simps [simp]: "or_empty None = []" "or_empty (Some l) = l"
  by (simp_all add: or_empty_def)

abbreviation entries_of :: "session_store \<Rightarrow> string \<Rightarrow> session_entry list" where
  "entries_of s i \<equiv> or_empty (map_get (ss_entries s) i)"

abbreviation windows_of :: "session_store \<Rightarrow> string \<Rightarrow> (string, part_window) jsmap" where
  "windows_of s i \<equiv> or_empty (map_get (ss_windows s) i)"

section \<open>Sessions\<close>

definition new_session ::
  "string \<Rightarrow> string \<Rightarrow> session_type \<Rightarrow> scope_id \<Rightarrow> string option \<Rightarrow> string option \<Rightarrow> ms \<Rightarrow> session" where
  "new_session uuid threadRef ty scope channelName surface now =
     \<lparr>se_id = uuid, se_type = ty, se_scopeId = scope, se_threadRef = threadRef,
      se_surface = (if truthy surface then surface else None), se_createdAt = now,
      se_channelName = (if truthy channelName then channelName else None), se_title = None,
      se_archived = False, se_pinned = False, se_color = None, se_lastActivityAt = None,
      se_hasEntries = None\<rparr>"

text \<open>\<open>if (id) \<dots> sessions.get(id)\<close>: an empty id counts as none.\<close>

definition session_by_thread :: "session_store \<Rightarrow> string \<Rightarrow> session option" where
  "session_by_thread s threadRef =
     (case map_get (ss_byThread s) threadRef of
        None \<Rightarrow> None
      | Some i \<Rightarrow> if i = [] then None else map_get (ss_sessions s) i)"

definition touch_session :: "string option \<Rightarrow> string option \<Rightarrow> session \<Rightarrow> session" where
  "touch_session channelName surface x =
     (let x1 = (if truthy channelName \<and> se_channelName x \<noteq> channelName then x\<lparr>se_channelName := channelName\<rparr> else x)
      in if truthy surface \<and> \<not> truthy (se_surface x1) then x1\<lparr>se_surface := surface\<rparr> else x1)"

definition getOrCreateByThread ::
  "string \<Rightarrow> session_type \<Rightarrow> scope_id \<Rightarrow> string option \<Rightarrow> string option \<Rightarrow> string \<Rightarrow> ms \<Rightarrow>
   session_store \<Rightarrow> session_store \<times> session" where
  "getOrCreateByThread threadRef ty scope channelName surface uuid now s =
     (case session_by_thread s threadRef of
        Some x \<Rightarrow>
          (let x' = touch_session channelName surface x
           in (s\<lparr>ss_sessions := map_set (the (map_get (ss_byThread s) threadRef)) x' (ss_sessions s)\<rparr>, x'))
      | None \<Rightarrow>
          (let x = new_session uuid threadRef ty scope channelName surface now
           in (s\<lparr>ss_sessions := map_set uuid x (ss_sessions s), ss_entries := map_set uuid [] (ss_entries s),
                 ss_byThread := map_set threadRef uuid (ss_byThread s)\<rparr>, x)))"

definition getByThread :: "string \<Rightarrow> session_store \<Rightarrow> session option" where
  "getByThread threadRef s = session_by_thread s threadRef"

definition get_session :: "string \<Rightarrow> session_store \<Rightarrow> session option" where
  "get_session i s = map_get (ss_sessions s) i"

definition updateTitle :: "string \<Rightarrow> string \<Rightarrow> session_store \<Rightarrow> session_store" where
  "updateTitle i title s =
     (case map_get (ss_sessions s) i of
        None \<Rightarrow> s
      | Some x \<Rightarrow> s\<lparr>ss_sessions := map_set i (x\<lparr>se_title := Some title\<rparr>) (ss_sessions s)\<rparr>)"

section \<open>Leases\<close>

definition acquireLease ::
  "ms \<Rightarrow> string \<Rightarrow> lease_holder option \<Rightarrow> string \<Rightarrow> ms \<Rightarrow> session_store \<Rightarrow> session_store \<times> lease_attempt" where
  "acquireLease ttlMs i holder token now s =
     (case map_get (ss_leases s) i of
        Some held \<Rightarrow>
          if now < sl_expiresAt held
          then (s, \<lparr>la_lease = None, la_heldBy = sl_holder held, la_heldSince = Some (sl_acquiredAt held),
                   la_heldUntil = Some (sl_expiresAt held)\<rparr>)
          else (s\<lparr>ss_leases := map_set i \<lparr>sl_token = token, sl_expiresAt = now + ttlMs, sl_acquiredAt = now,
                                          sl_holder = holder\<rparr> (ss_leases s)\<rparr>,
                \<lparr>la_lease = Some \<lparr>lr_sessionId = i, lr_token = token\<rparr>, la_heldBy = None,
                 la_heldSince = None, la_heldUntil = None\<rparr>)
      | None \<Rightarrow>
          (s\<lparr>ss_leases := map_set i \<lparr>sl_token = token, sl_expiresAt = now + ttlMs, sl_acquiredAt = now,
                                     sl_holder = holder\<rparr> (ss_leases s)\<rparr>,
           \<lparr>la_lease = Some \<lparr>lr_sessionId = i, lr_token = token\<rparr>, la_heldBy = None,
            la_heldSince = None, la_heldUntil = None\<rparr>))"

definition lease_token :: "session_store \<Rightarrow> string \<Rightarrow> string option" where
  "lease_token s i = map_option sl_token (map_get (ss_leases s) i)"

definition release_session_lease :: "lease_ref \<Rightarrow> session_store \<Rightarrow> session_store" where
  "release_session_lease l s =
     (if lease_token s (lr_sessionId l) = Some (lr_token l)
      then s\<lparr>ss_leases := map_delete (lr_sessionId l) (ss_leases s)\<rparr> else s)"

definition forceReleaseLease :: "string \<Rightarrow> session_store \<Rightarrow> session_store" where
  "forceReleaseLease i s = s\<lparr>ss_leases := map_delete i (ss_leases s)\<rparr>"

text \<open>\<open>participants.get(p)?.delete(id)\<close> for every principal with a window on the session.\<close>

definition forget_session :: "string \<Rightarrow> string list \<Rightarrow> (string, string list) jsmap \<Rightarrow> (string, string list) jsmap" where
  "forget_session i ps m =
     fold (\<lambda>p m. case map_get m p of None \<Rightarrow> m | Some xs \<Rightarrow> map_set p (filter (\<lambda>x. x \<noteq> i) xs) m) ps m"

definition deleteSession :: "string \<Rightarrow> session_store \<Rightarrow> session_store" where
  "deleteSession i s =
     (let byThread = (case map_get (ss_sessions s) i of
                        None \<Rightarrow> ss_byThread s | Some x \<Rightarrow> map_delete (se_threadRef x) (ss_byThread s))
      in s\<lparr>ss_byThread := byThread,
           ss_participants := forget_session i (map_keys (windows_of s i)) (ss_participants s),
           ss_sessions := map_delete i (ss_sessions s), ss_entries := map_delete i (ss_entries s),
           ss_tape := map_delete i (ss_tape s), ss_llm := map_delete i (ss_llm s),
           ss_windows := map_delete i (ss_windows s), ss_leases := map_delete i (ss_leases s)\<rparr>)"

section \<open>The elog and the tape\<close>

text \<open>The guard of both appends; a success extends the lease before anything else is checked.\<close>

definition extend_lease :: "ms \<Rightarrow> lease_ref \<Rightarrow> ms \<Rightarrow> session_store \<Rightarrow> session_store option" where
  "extend_lease ttlMs l now s =
     (case map_get (ss_leases s) (lr_sessionId l) of
        None \<Rightarrow> None
      | Some held \<Rightarrow>
          if sl_token held \<noteq> lr_token l then None
          else Some (s\<lparr>ss_leases := map_set (lr_sessionId l) (held\<lparr>sl_expiresAt := now + ttlMs\<rparr>) (ss_leases s)\<rparr>))"

definition entry_at :: "string \<Rightarrow> nat \<Rightarrow> new_entry \<Rightarrow> ms \<Rightarrow> session_entry" where
  "entry_at i seq e now =
     \<lparr>en_sessionId = i, en_seq = seq, en_parentSeq = (if seq = 0 then None else Some (seq - 1)),
      en_type = ne_type e, en_payload = ne_payload e, en_scopeLabel = ne_scopeLabel e, en_createdAt = now\<rparr>"

definition append_entry ::
  "ms \<Rightarrow> lease_ref \<Rightarrow> new_entry \<Rightarrow> ms \<Rightarrow> session_store \<Rightarrow> session_store \<times> session_entry outcome" where
  "append_entry ttlMs l e now s =
     (case extend_lease ttlMs l now s of
        None \<Rightarrow> (s, Inl (Error ''append without a valid session lease''))
      | Some s1 \<Rightarrow>
          (case map_get (ss_entries s1) (lr_sessionId l) of
             None \<Rightarrow> (s1, Inl (Error (''unknown session: '' @ lr_sessionId l)))
           | Some elog \<Rightarrow>
               (let full = entry_at (lr_sessionId l) (length elog) e now
                in (s1\<lparr>ss_entries := map_set (lr_sessionId l) (elog @ [full]) (ss_entries s1)\<rparr>, Inr full))))"

definition getEntries :: "string \<Rightarrow> seq_window option \<Rightarrow> session_store \<Rightarrow> session_entry list" where
  "getEntries i opts s =
     (let since = (case Option.bind opts sw_sinceSeq of None \<Rightarrow> 0 | Some n \<Rightarrow> n);
          filtered = filter (\<lambda>e. en_seq e \<ge> since) (entries_of s i)
      in case Option.bind opts sw_limit of None \<Rightarrow> filtered | Some n \<Rightarrow> slice_last n filtered)"

definition tape_at :: "string \<Rightarrow> nat \<Rightarrow> new_tape_record \<Rightarrow> ms \<Rightarrow> tape_record" where
  "tape_at i seq r now = new_tape_record.extend r (tape_record.fields i seq now)"

definition appendTape ::
  "ms \<Rightarrow> lease_ref \<Rightarrow> new_tape_record \<Rightarrow> ms \<Rightarrow> session_store \<Rightarrow> session_store \<times> tape_record outcome" where
  "appendTape ttlMs l r now s =
     (case extend_lease ttlMs l now s of
        None \<Rightarrow> (s, Inl (Error ''tape append without a valid session lease''))
      | Some s1 \<Rightarrow>
          (let elog = or_empty (map_get (ss_tape s1) (lr_sessionId l));
               full = tape_at (lr_sessionId l) (length elog) r now
           in (s1\<lparr>ss_tape := map_set (lr_sessionId l) (elog @ [full]) (ss_tape s1)\<rparr>, Inr full)))"

definition getTape :: "string \<Rightarrow> seq_window option \<Rightarrow> session_store \<Rightarrow> tape_record list" where
  "getTape i opts s =
     (let elog = or_empty (map_get (ss_tape s) i);
          filtered = (case Option.bind opts sw_sinceSeq of
                        None \<Rightarrow> elog | Some n \<Rightarrow> filter (\<lambda>r. tp_seq r > n) elog)
      in case Option.bind opts sw_limit of None \<Rightarrow> filtered | Some n \<Rightarrow> slice_last n filtered)"

definition record_coverage :: "tape_record \<Rightarrow> int" where
  "record_coverage r =
     max (if tp_kind r = TAnnotation \<and> js_prop (tp_payload r) ''turnEnd'' = Some (JBool True)
          then (case tp_entrySeq r of None \<Rightarrow> -1 | Some n \<Rightarrow> n) else -1)
         (if tp_kind r = TContextEvent \<and> js_prop (tp_payload r) ''event'' = Some (JStr ''legacy_import'')
          then (case tp_coversEntrySeq r of None \<Rightarrow> -1 | Some n \<Rightarrow> n) else -1)"

definition tapeCoverage :: "string \<Rightarrow> session_store \<Rightarrow> int" where
  "tapeCoverage i s = foldl (\<lambda>m r. max m (record_coverage r)) (-1) (or_empty (map_get (ss_tape s) i))"

definition recordLlmRequest ::
  "string \<Rightarrow> new_llm_request \<Rightarrow> string \<Rightarrow> ms \<Rightarrow> session_store \<Rightarrow> session_store \<times> llm_request" where
  "recordLlmRequest i r uuid now s =
     (let full = \<lparr>lq_id = uuid, lq_sessionId = i, lq_turnSeq = nl_turnSeq r, lq_step = nl_step r,
                  lq_model = nl_model r, lq_scopeLabel = nl_scopeLabel r, lq_createdAt = now,
                  lq_request = nl_request r, lq_truncated = (nl_truncated r = Some True),
                  lq_ttftMs = nl_ttftMs r, lq_durationMs = nl_durationMs r, lq_stepGapMs = nl_stepGapMs r,
                  lq_toolWallMs = nl_toolWallMs r, lq_gapPhases = nl_gapPhases r, lq_usage = nl_usage r,
                  lq_transport = nl_transport r\<rparr>
      in (s\<lparr>ss_llm := map_set i (or_empty (map_get (ss_llm s) i) @ [full]) (ss_llm s)\<rparr>, full))"

definition listLlmRequests :: "string \<Rightarrow> list_llm_options option \<Rightarrow> session_store \<Rightarrow> llm_request list" where
  "listLlmRequests i opts s =
     (let all = or_empty (map_get (ss_llm s) i);
          want = Option.bind opts lo_turnSeqs;
          orphans = (case opts of None \<Rightarrow> False | Some oo \<Rightarrow> lo_orphans oo);
          omit = (case opts of None \<Rightarrow> False | Some oo \<Rightarrow> lo_omitRequest oo);
          filtered = (if want \<noteq> None \<or> orphans
                      then filter (\<lambda>r. (want \<noteq> None \<and> lq_turnSeq r \<noteq> None \<and> the (lq_turnSeq r) \<in> set (the want)) \<or>
                                       (orphans \<and> lq_turnSeq r = None)) all
                      else all)
      in map (\<lambda>r. if omit then r\<lparr>lq_request := JNull\<rparr> else r) filtered)"

section \<open>Participants\<close>

definition reopened_window ::
  "bool \<Rightarrow> string option \<Rightarrow> part_window option \<Rightarrow> nat \<Rightarrow> ms \<Rightarrow> part_window" where
  "reopened_window includeHistory title existing len now =
     \<lparr>pw_validFrom = (if includeHistory then 0 else now), pw_validTo = None,
      pw_validFromSeq = (if includeHistory then 0 else len), pw_validToSeq = None,
      pw_title = (if title \<noteq> None then title else Option.bind existing pw_title),
      pw_archived = (case existing of None \<Rightarrow> False | Some w \<Rightarrow> pw_archived w),
      pw_pinned = (case existing of None \<Rightarrow> False | Some w \<Rightarrow> pw_pinned w),
      pw_color = Option.bind existing pw_color\<rparr>"

definition set_window :: "string \<Rightarrow> string \<Rightarrow> part_window \<Rightarrow> session_store \<Rightarrow> session_store" where
  "set_window i p w s = s\<lparr>ss_windows := map_set i (map_set p w (windows_of s i)) (ss_windows s)\<rparr>"

text \<open>A closed or missing window is opened anew; an open one keeps its start unless history is shared.\<close>

definition added_window ::
  "bool \<Rightarrow> string option \<Rightarrow> part_window option \<Rightarrow> nat \<Rightarrow> ms \<Rightarrow> part_window" where
  "added_window includeHistory title existing len now =
     (case existing of
        None \<Rightarrow> reopened_window includeHistory title None len now
      | Some w \<Rightarrow>
          if pw_validTo w \<noteq> None then reopened_window includeHistory title existing len now
          else
            (let w1 = (if includeHistory then w\<lparr>pw_validFrom := 0, pw_validFromSeq := 0\<rparr> else w)
             in if title \<noteq> None then w1\<lparr>pw_title := title\<rparr> else w1))"

definition addParticipant ::
  "string \<Rightarrow> string \<Rightarrow> string option \<Rightarrow> bool \<Rightarrow> ms \<Rightarrow> session_store \<Rightarrow> session_store" where
  "addParticipant i p title includeHistory now s =
     (let ids = or_empty (map_get (ss_participants s) p);
          s1 = s\<lparr>ss_participants := map_set p (if i \<in> set ids then ids else ids @ [i]) (ss_participants s)\<rparr>
      in set_window i p
           (added_window includeHistory title (map_get (windows_of s i) p) (length (entries_of s i)) now) s1)"

definition removeParticipant :: "string \<Rightarrow> string \<Rightarrow> ms \<Rightarrow> session_store \<Rightarrow> session_store" where
  "removeParticipant i p now s =
     (case map_get (windows_of s i) p of
        None \<Rightarrow> s
      | Some w \<Rightarrow>
          if pw_validTo w \<noteq> None then s
          else set_window i p (w\<lparr>pw_validTo := Some now, pw_validToSeq := Some (length (entries_of s i))\<rparr>) s)"

definition in_window :: "part_window \<Rightarrow> session_entry \<Rightarrow> bool" where
  "in_window w e \<longleftrightarrow>
     pw_validFromSeq w \<le> en_seq e \<and> (case pw_validToSeq w of None \<Rightarrow> True | Some t \<Rightarrow> en_seq e < t)"

definition last_activity :: "session \<Rightarrow> session_entry list \<Rightarrow> ms" where
  "last_activity x elog = fold max (map en_createdAt elog) (se_createdAt x)"

definition participant_view :: "session_store \<Rightarrow> string \<Rightarrow> string \<Rightarrow> session \<Rightarrow> session" where
  "participant_view s p i x =
     (let view = map_get (windows_of s i) p;
          all = entries_of s i;
          elog = filter (\<lambda>e. en_type e = EUser) all;
          visible = (case view of None \<Rightarrow> False | Some w \<Rightarrow> list_ex (in_window w) all)
      in x\<lparr>se_title := (case Option.bind view pw_title of None \<Rightarrow> se_title x | Some t \<Rightarrow> Some t),
           se_archived := (se_archived x \<or> (case view of None \<Rightarrow> False | Some w \<Rightarrow> pw_archived w)),
           se_pinned := (se_pinned x \<or> (case view of None \<Rightarrow> False | Some w \<Rightarrow> pw_pinned w)),
           se_color := (case Option.bind view pw_color of None \<Rightarrow> se_color x | Some c \<Rightarrow> Some c),
           se_lastActivityAt := Some (last_activity x elog), se_hasEntries := Some visible\<rparr>)"

definition listByParticipant :: "string \<Rightarrow> session_store \<Rightarrow> session list" where
  "listByParticipant p s =
     (case map_get (ss_participants s) p of
        None \<Rightarrow> []
      | Some ids \<Rightarrow> List.map_filter (\<lambda>i. map_option (participant_view s p i) (map_get (ss_sessions s) i)) ids)"

definition updateParticipantView :: "string \<Rightarrow> string \<Rightarrow> view_patch \<Rightarrow> session_store \<Rightarrow> session_store" where
  "updateParticipantView i p patch s =
     (case map_get (windows_of s i) p of
        None \<Rightarrow> s
      | Some w \<Rightarrow>
          set_window i p
            (w\<lparr>pw_title := (case vp_title patch of None \<Rightarrow> pw_title w | Some t \<Rightarrow> t),
               pw_archived := (case vp_archived patch of None \<Rightarrow> pw_archived w | Some b \<Rightarrow> b),
               pw_pinned := (case vp_pinned patch of None \<Rightarrow> pw_pinned w | Some b \<Rightarrow> b),
               pw_color := (case vp_color patch of None \<Rightarrow> pw_color w | Some c \<Rightarrow> c)\<rparr>) s)"

definition visibleEntries :: "string \<Rightarrow> string \<Rightarrow> session_store \<Rightarrow> session_entry list" where
  "visibleEntries i p s =
     (case map_get (windows_of s i) p of None \<Rightarrow> [] | Some w \<Rightarrow> filter (in_window w) (entries_of s i))"

end
