(* ===== verification/Session_Queries.thy ===== *)
theory Session_Queries
  imports Session_Store
begin

text \<open>
  The read-only queries of \<open>sessions/memory-session-store.ts\<close>: listings, summaries and their pages,
  cron groups, statistics, attributed turns and participants.
\<close>

section \<open>Listings\<close>

definition listAll :: "session_store \<Rightarrow> session list" where
  "listAll s = map_values (ss_sessions s)"

record session_ref =
  sr_id :: string
  sr_threadRef :: string
  sr_scopeId :: scope_id
  sr_type :: session_type
  sr_title :: "string option"

definition sessionsByThreadRefs :: "string list \<Rightarrow> session_store \<Rightarrow> session_ref list" where
  "sessionsByThreadRefs threadRefs s =
     map (\<lambda>x. \<lparr>sr_id = se_id x, sr_threadRef = se_threadRef x, sr_scopeId = se_scopeId x,
               sr_type = se_type x, sr_title = se_title x\<rparr>)
       (filter (\<lambda>x. se_threadRef x \<in> set threadRefs) (map_values (ss_sessions s)))"

text \<open>One round of the loop of \<open>distinctScopes\<close>: the first scope name that is not empty is kept.\<close>

definition note_scope :: "session \<Rightarrow> (scope_id, string option) jsmap \<Rightarrow> (scope_id, string option) jsmap" where
  "note_scope x m =
     (case map_get m (se_scopeId x) of
        None \<Rightarrow> map_set (se_scopeId x) (se_channelName x) m
      | Some prev \<Rightarrow>
          if truthy (se_channelName x) \<and> \<not> truthy prev then map_set (se_scopeId x) (se_channelName x) m else m)"

definition distinctScopes :: "session_store \<Rightarrow> (scope_id \<times> string option) list" where
  "distinctScopes s =
     map (\<lambda>(sc, n). (sc, if truthy n then n else None)) (fold note_scope (map_values (ss_sessions s)) [])"

section \<open>Summaries\<close>

record session_summary =
  sm_id :: string
  sm_type :: session_type
  sm_origin :: session_origin
  sm_scopeId :: scope_id
  sm_threadRef :: string
  sm_turns :: nat
  sm_messages :: nat
  sm_lastActivity :: ms
  sm_createdAt :: ms
  sm_firstMessage :: preview
  sm_lastMessage :: preview

record session_page =
  pg_limit :: nat
  pg_offset :: nat
  pg_before :: "(ms \<times> string) option"
  pg_category :: "session_category option"
  pg_origin :: "origin_filter option"
  pg_cronId :: "string option"

definition idDesc :: "string \<Rightarrow> string \<Rightarrow> int" where
  "idDesc a b = (if a < b then 1 else if a > b then -1 else 0)"

definition origin_skipped :: "origin_filter option \<Rightarrow> session_origin \<Rightarrow> bool" where
  "origin_skipped f oo =
     (case f of
        Some OtherBackground \<Rightarrow> oo = OConversation \<or> oo = OCron
      | Some (OriginIs p) \<Rightarrow> oo \<noteq> p
      | None \<Rightarrow> False)"

text \<open>The \<open>continue\<close> guards that summaries and statistics share, in their order.\<close>

definition session_selected ::
  "session_category option \<Rightarrow> origin_filter option \<Rightarrow> string option \<Rightarrow> session \<Rightarrow> bool" where
  "session_selected category origin cronId x =
     (let oo = sessionOrigin (Some (se_threadRef x)) in
      if category \<noteq> None \<and> Some (sessionCategory oo) \<noteq> category then False
      else if origin_skipped origin oo then False
      else \<not> (truthy cronId \<and> cronIdOf (Some (se_threadRef x)) \<noteq> cronId))"

definition in_scope :: "scope_id \<Rightarrow> bool \<Rightarrow> session \<Rightarrow> bool" where
  "in_scope scope orgWide x \<longleftrightarrow> orgWide \<or> se_scopeId x = scope"

definition user_entries :: "session_entry list \<Rightarrow> session_entry list" where
  "user_entries es = filter (\<lambda>e. en_type e = EUser \<and> \<not> isOverheardEntry e) es"

definition last_entry_time :: "session \<Rightarrow> session_entry list \<Rightarrow> ms" where
  "last_entry_time x es = (if es = [] then se_createdAt x else en_createdAt (last es))"

definition summary_of :: "bool \<Rightarrow> session_store \<Rightarrow> session \<Rightarrow> session_summary" where
  "summary_of includePreviews s x =
     (let elog = entries_of s (se_id x); ue = user_entries elog
      in \<lparr>sm_id = se_id x, sm_type = se_type x, sm_origin = sessionOrigin (Some (se_threadRef x)),
          sm_scopeId = se_scopeId x, sm_threadRef = se_threadRef x, sm_turns = length ue,
          sm_messages = length elog, sm_lastActivity = last_entry_time x elog,
          sm_createdAt = se_createdAt x,
          sm_firstMessage = (if includePreviews \<and> ue \<noteq> [] then userMessagePreview (en_payload (hd ue)) 160 else Whole []),
          sm_lastMessage = (if includePreviews \<and> ue \<noteq> [] then userMessagePreview (en_payload (last ue)) 100 else Whole [])\<rparr>)"

definition summary_cmp :: "session_summary \<Rightarrow> session_summary \<Rightarrow> int" where
  "summary_cmp a b =
     (if sm_lastActivity b - sm_lastActivity a \<noteq> 0 then sm_lastActivity b - sm_lastActivity a
      else idDesc (sm_id a) (sm_id b))"

definition all_summaries ::
  "scope_id \<Rightarrow> bool \<Rightarrow> session_page option \<Rightarrow> bool \<Rightarrow> string list option \<Rightarrow> session_store \<Rightarrow> session_summary list" where
  "all_summaries scope orgWide page includePreviews sessionIds s =
     js_sort summary_cmp
       (map (summary_of includePreviews s)
         (filter (\<lambda>x. in_scope scope orgWide x \<and>
                      (case sessionIds of None \<Rightarrow> True | Some ids \<Rightarrow> se_id x \<in> set ids) \<and>
                      session_selected (Option.bind page pg_category) (Option.bind page pg_origin)
                        (Option.bind page pg_cronId) x)
           (map_values (ss_sessions s))))"

definition before_cursor :: "ms \<times> string \<Rightarrow> session_summary \<Rightarrow> bool" where
  "before_cursor c r \<longleftrightarrow>
     sm_lastActivity r < fst c \<or> (sm_lastActivity r = fst c \<and> sm_id r < snd c)"

definition page_of :: "session_page option \<Rightarrow> session_summary list \<Rightarrow> session_summary list" where
  "page_of page out =
     (case page of
        None \<Rightarrow> out
      | Some p \<Rightarrow>
          (case pg_before p of
             Some c \<Rightarrow> take (pg_limit p) (filter (before_cursor c) out)
           | None \<Rightarrow> take (pg_limit p) (drop (pg_offset p) out)))"

definition scopeSessionSummaries ::
  "scope_id \<Rightarrow> bool \<Rightarrow> session_page option \<Rightarrow> bool \<Rightarrow> string list option \<Rightarrow> session_store \<Rightarrow> session_summary list" where
  "scopeSessionSummaries scope orgWide page includePreviews sessionIds s =
     page_of page (all_summaries scope orgWide page includePreviews sessionIds s)"

definition lastUserMessages :: "string list \<Rightarrow> session_store \<Rightarrow> (string, preview) jsmap" where
  "lastUserMessages ids s =
     fold (\<lambda>i m. let ue = user_entries (entries_of s i) in
             if ue \<noteq> [] then map_set i (userMessagePreview (en_payload (last ue)) 100) m else m) ids []"

section \<open>Cron groups\<close>

record cron_group =
  cg_cronId :: string
  cg_scopeId :: scope_id
  cg_sessions :: nat
  cg_turns :: nat
  cg_messages :: nat
  cg_lastActivity :: ms
  cg_createdAt :: ms

definition cron_group_add :: "session_store \<Rightarrow> session \<Rightarrow> (string, cron_group) jsmap \<Rightarrow> (string, cron_group) jsmap" where
  "cron_group_add s x groups =
     (let cronId = cronIdOf (Some (se_threadRef x)) in
      if \<not> truthy cronId then groups
      else
        (let c = the cronId; elog = entries_of s (se_id x);
             g = (case map_get groups c of
                    Some g \<Rightarrow> g
                  | None \<Rightarrow> \<lparr>cg_cronId = c, cg_scopeId = se_scopeId x, cg_sessions = 0, cg_turns = 0,
                             cg_messages = 0, cg_lastActivity = 0, cg_createdAt = se_createdAt x\<rparr>)
         in map_set c
              (g\<lparr>cg_sessions := cg_sessions g + 1, cg_turns := cg_turns g + length (user_entries elog),
                 cg_messages := cg_messages g + length elog,
                 cg_lastActivity := max (cg_lastActivity g) (last_entry_time x elog),
                 cg_createdAt := min (cg_createdAt g) (se_createdAt x)\<rparr>) groups))"

definition cron_group_cmp :: "cron_group \<Rightarrow> cron_group \<Rightarrow> int" where
  "cron_group_cmp a b =
     (if cg_lastActivity b \<noteq> cg_lastActivity a then cg_lastActivity b - cg_lastActivity a
      else idDesc (cg_cronId a) (cg_cronId b))"

definition scopeCronGroups :: "scope_id \<Rightarrow> bool \<Rightarrow> session_store \<Rightarrow> cron_group list" where
  "scopeCronGroups scope orgWide s =
     js_sort cron_group_cmp
       (map_values (fold (cron_group_add s) (filter (in_scope scope orgWide) (map_values (ss_sessions s))) []))"

section \<open>Statistics\<close>

record session_stats =
  st_total :: nat
  st_turns :: nat
  st_byType :: "(string, nat) jsmap"
  st_byTypeAll :: "(string, nat) jsmap"
  st_conversation :: nat
  st_background :: nat
  st_all :: nat
  st_crons :: nat

definition bump :: "string \<Rightarrow> (string, nat) jsmap \<Rightarrow> (string, nat) jsmap" where
  "bump k m = map_set k ((case map_get m k of None \<Rightarrow> 0 | Some n \<Rightarrow> n) + 1) m"

text \<open>The accumulator also holds the cron ids seen, as the set of the code.\<close>

definition stats_add ::
  "session_category option \<Rightarrow> origin_filter option \<Rightarrow> string option \<Rightarrow> session_store \<Rightarrow> session \<Rightarrow>
   session_stats \<times> string list \<Rightarrow> session_stats \<times> string list" where
  "stats_add category origin cronId s x acc =
     (case acc of (t, crons) \<Rightarrow>
        (let oo = sessionOrigin (Some (se_threadRef x)); cat = sessionCategory oo;
             bucket = sessionBucket oo (se_type x);
             cid = cronIdOf (Some (se_threadRef x));
             crons' = (case cid of None \<Rightarrow> crons | Some c \<Rightarrow> if c \<in> set crons then crons else crons @ [c]);
             t1 = t\<lparr>st_conversation := st_conversation t + (if cat = CConversation then 1 else 0),
                    st_background := st_background t + (if cat = CBackground then 1 else 0),
                    st_all := st_all t + 1, st_byTypeAll := bump bucket (st_byTypeAll t)\<rparr>
         in if \<not> session_selected category origin cronId x then (t1, crons')
            else (t1\<lparr>st_total := st_total t1 + 1,
                     st_turns := st_turns t1 + length (user_entries (entries_of s (se_id x))),
                     st_byType := bump bucket (st_byType t1)\<rparr>, crons')))"

definition empty_stats :: session_stats where
  "empty_stats = \<lparr>st_total = 0, st_turns = 0, st_byType = [], st_byTypeAll = [], st_conversation = 0,
                  st_background = 0, st_all = 0, st_crons = 0\<rparr>"

definition scopeSessionStats ::
  "scope_id \<Rightarrow> bool \<Rightarrow> session_category option \<Rightarrow> origin_filter option \<Rightarrow> string option \<Rightarrow> session_store \<Rightarrow> session_stats" where
  "scopeSessionStats scope orgWide category origin cronId s =
     (case fold (stats_add category origin cronId s)
             (filter (in_scope scope orgWide) (map_values (ss_sessions s))) (empty_stats, []) of
        (t, crons) \<Rightarrow> t\<lparr>st_crons := length crons\<rparr>)"

section \<open>Attributed turns and participants\<close>

record turn_bucket =
  tb_turns :: nat
  tb_firstAt :: ms
  tb_lastAt :: ms

record attributed_turn =
  at_principalId :: string
  at_sessionId :: string
  at_day :: int
  at_bucket :: turn_bucket

definition DAY :: ms where
  "DAY = 86400000"

definition bucket_add :: "part_window \<Rightarrow> session_entry \<Rightarrow> (int, turn_bucket) jsmap \<Rightarrow> (int, turn_bucket) jsmap" where
  "bucket_add w e m =
     (if \<not> in_window w e then m
      else
        (let t = en_createdAt e; day = t div DAY in
         case map_get m day of
           Some b \<Rightarrow> map_set day \<lparr>tb_turns = tb_turns b + 1, tb_firstAt = min t (tb_firstAt b),
                                  tb_lastAt = max t (tb_lastAt b)\<rparr> m
         | None \<Rightarrow> map_set day \<lparr>tb_turns = 1, tb_firstAt = t, tb_lastAt = t\<rparr> m))"

definition attributedTurns :: "session_store \<Rightarrow> attributed_turn list" where
  "attributedTurns s =
     concat (map (\<lambda>(i, byPrincipal).
       concat (map (\<lambda>(p, w).
         map (\<lambda>(day, b). \<lparr>at_principalId = p, at_sessionId = i, at_day = day, at_bucket = b\<rparr>)
           (fold (bucket_add w) (user_entries (entries_of s i)) [])) byPrincipal)) (ss_windows s))"

record participant_window =
  pt_sessionId :: string
  pt_principalId :: string
  pt_validFrom :: ms
  pt_validTo :: "ms option"

definition listParticipants :: "session_store \<Rightarrow> participant_window list" where
  "listParticipants s =
     concat (map (\<lambda>(i, byPrincipal).
       map (\<lambda>(p, w). \<lparr>pt_sessionId = i, pt_principalId = p, pt_validFrom = pw_validFrom w,
                      pt_validTo = pw_validTo w\<rparr>) byPrincipal) (ss_windows s))"

definition participantsOf :: "string \<Rightarrow> session_store \<Rightarrow> string list" where
  "participantsOf i s = map_keys (windows_of s i)"

end
