(* ===== verification/Session_Props.thy ===== *)
theory Session_Props
  imports Session_Queries
begin

text \<open>
  The session store as a sequence of operations, its invariant, and the properties of reachable
  stores: contiguous logs, one session per thread, fenced appends, participant windows, cursor pages
  and statistics.
\<close>

section \<open>Operations and paths\<close>

datatype session_op =
    SCreate string session_type scope_id "string option" "string option" string ms
  | STitle string string
  | SAcquire string "lease_holder option" string ms
  | SRelease lease_ref
  | SForce string
  | SDelete string
  | SAppend lease_ref new_entry ms
  | STape lease_ref new_tape_record ms
  | SLlm string new_llm_request string ms
  | SAdd string string "string option" bool ms
  | SRemove string string ms
  | SView string string view_patch

fun session_apply :: "ms \<Rightarrow> session_op \<Rightarrow> session_store \<Rightarrow> session_store" where
  "session_apply ttl (SCreate th ty sc cn su uuid now) s = fst (getOrCreateByThread th ty sc cn su uuid now s)"
| "session_apply ttl (STitle i t) s = updateTitle i t s"
| "session_apply ttl (SAcquire i h tok now) s = fst (acquireLease ttl i h tok now s)"
| "session_apply ttl (SRelease l) s = release_session_lease l s"
| "session_apply ttl (SForce i) s = forceReleaseLease i s"
| "session_apply ttl (SDelete i) s = deleteSession i s"
| "session_apply ttl (SAppend l e now) s = fst (append_entry ttl l e now s)"
| "session_apply ttl (STape l r now) s = fst (appendTape ttl l r now s)"
| "session_apply ttl (SLlm i r uuid now) s = fst (recordLlmRequest i r uuid now s)"
| "session_apply ttl (SAdd i p t h now) s = addParticipant i p t h now s"
| "session_apply ttl (SRemove i p now) s = removeParticipant i p now s"
| "session_apply ttl (SView i p v) s = updateParticipantView i p v s"

text \<open>A random id is not empty and names nothing yet.\<close>

fun session_op_ok :: "session_op \<Rightarrow> session_store \<Rightarrow> bool" where
  "session_op_ok (SCreate th ty sc cn su uuid now) s =
     (uuid \<noteq> [] \<and> map_get (ss_sessions s) uuid = None \<and> map_get (ss_windows s) uuid = None)"
| "session_op_ok op s = True"

inductive session_path :: "ms \<Rightarrow> session_op list \<Rightarrow> session_store \<Rightarrow> session_store \<Rightarrow> bool" for ttl where
  path_nil: "session_path ttl [] s s"
| path_cons: "session_op_ok op s \<Longrightarrow> session_path ttl ops (session_apply ttl op s) s' \<Longrightarrow>
    session_path ttl (op # ops) s s'"

inductive_simps session_path_simps: "session_path ttl [] s s'" "session_path ttl (op # ops) s s'"

section \<open>Invariant\<close>

definition log_ok :: "string \<Rightarrow> session_entry list \<Rightarrow> bool" where
  "log_ok i es \<longleftrightarrow>
     (\<forall>k < length es. en_sessionId (es ! k) = i \<and> en_seq (es ! k) = k \<and>
        en_parentSeq (es ! k) = (if k = 0 then None else Some (k - 1)))"

definition tape_ok :: "string \<Rightarrow> tape_record list \<Rightarrow> bool" where
  "tape_ok i rs \<longleftrightarrow> (\<forall>k < length rs. tp_sessionId (rs ! k) = i \<and> tp_seq (rs ! k) = k)"

definition window_ok :: "nat \<Rightarrow> part_window \<Rightarrow> bool" where
  "window_ok n w \<longleftrightarrow>
     (pw_validTo w = None \<longleftrightarrow> pw_validToSeq w = None) \<and> pw_validFromSeq w \<le> n \<and>
     (case pw_validToSeq w of None \<Rightarrow> True | Some t \<Rightarrow> pw_validFromSeq w \<le> t \<and> t \<le> n)"

definition threads_ok :: "session_store \<Rightarrow> bool" where
  "threads_ok s \<longleftrightarrow>
     (\<forall>i x. map_get (ss_sessions s) i = Some x \<longrightarrow>
        se_id x = i \<and> i \<noteq> [] \<and> map_get (ss_byThread s) (se_threadRef x) = Some i) \<and>
     (\<forall>t i. map_get (ss_byThread s) t = Some i \<longrightarrow>
        (\<exists>x. map_get (ss_sessions s) i = Some x \<and> se_threadRef x = t))"

definition logs_ok :: "session_store \<Rightarrow> bool" where
  "logs_ok s \<longleftrightarrow>
     (\<forall>i. map_get (ss_entries s) i = None \<longleftrightarrow> map_get (ss_sessions s) i = None) \<and>
     map_all log_ok (ss_entries s) \<and> map_all tape_ok (ss_tape s)"

definition windows_ok :: "session_store \<Rightarrow> bool" where
  "windows_ok s \<longleftrightarrow>
     (\<forall>i p w. map_get (windows_of s i) p = Some w \<longrightarrow> window_ok (length (entries_of s i)) w)"

definition session_inv :: "session_store \<Rightarrow> bool" where
  "session_inv s \<longleftrightarrow> map_wf (ss_sessions s) \<and> threads_ok s \<and> logs_ok s \<and> windows_ok s"

lemma session_inv_empty: "session_inv empty_session_store"
  by (simp add: session_inv_def empty_session_store_def threads_ok_def logs_ok_def windows_ok_def)

lemma log_ok_Nil [simp]: "log_ok i []"
  by (simp add: log_ok_def)

lemma log_ok_snoc: "log_ok i es \<Longrightarrow> log_ok i (es @ [entry_at i (length es) e now])"
  by (auto simp: log_ok_def entry_at_def nth_append less_Suc_eq)

lemma tape_ok_snoc: "tape_ok i rs \<Longrightarrow> tape_ok i (rs @ [tape_at i (length rs) r now])"
  by (auto simp: tape_ok_def tape_at_def new_tape_record.extend_def tape_record.fields_def nth_append less_Suc_eq)

lemma tape_ok_Nil [simp]: "tape_ok i []"
  by (simp add: tape_ok_def)

lemma window_ok_mono: "window_ok n w \<Longrightarrow> n \<le> m \<Longrightarrow> window_ok m w"
  by (auto simp: window_ok_def split: option.splits)

text \<open>The three parts read disjoint fields; an operation keeps the parts whose fields it leaves alone.\<close>

lemma session_inv_frame:
  assumes "session_inv s" "ss_sessions s' = ss_sessions s" "ss_byThread s' = ss_byThread s"
    "ss_entries s' = ss_entries s" "ss_tape s' = ss_tape s" "ss_windows s' = ss_windows s"
  shows "session_inv s'"
  using assms by (simp add: session_inv_def threads_ok_def logs_ok_def windows_ok_def)

lemma sessionD:
  assumes "session_inv s" "map_get (ss_sessions s) i = Some x"
  shows "se_id x = i" "i \<noteq> []" "map_get (ss_byThread s) (se_threadRef x) = Some i"
  using assms by (simp_all add: session_inv_def threads_ok_def)

lemma threadE:
  assumes "session_inv s" "map_get (ss_byThread s) t = Some i"
  obtains x where "map_get (ss_sessions s) i = Some x" "se_threadRef x = t" "se_id x = i" "i \<noteq> []"
  using assms unfolding session_inv_def threads_ok_def by blast

lemma entriesD:
  assumes "session_inv s"
  shows "map_get (ss_entries s) i = None \<longleftrightarrow> map_get (ss_sessions s) i = None" "log_ok i (entries_of s i)"
  using assms by (auto simp: session_inv_def logs_ok_def or_empty_def dest: map_allD split: option.split)

lemma windowD: "session_inv s \<Longrightarrow> map_get (windows_of s i) p = Some w \<Longrightarrow> window_ok (length (entries_of s i)) w"
  by (simp add: session_inv_def windows_ok_def)

lemma session_by_thread_Some:
  assumes "session_inv s" "session_by_thread s t = Some x"
  shows "map_get (ss_byThread s) t = Some (se_id x)" "map_get (ss_sessions s) (se_id x) = Some x"
    "se_threadRef x = t"
proof -
  obtain i where i: "map_get (ss_byThread s) t = Some i" "map_get (ss_sessions s) i = Some x"
    using assms(2) by (auto simp: session_by_thread_def split: option.splits if_splits)
  then show "map_get (ss_byThread s) t = Some (se_id x)" "map_get (ss_sessions s) (se_id x) = Some x"
    "se_threadRef x = t"
    using sessionD [OF assms(1) i(2)] threadE [OF assms(1) i(1)] by auto
qed

lemma session_by_thread_None:
  assumes "session_inv s" "session_by_thread s t = None"
  shows "map_get (ss_byThread s) t = None"
proof (cases "map_get (ss_byThread s) t")
  case (Some i)
  show ?thesis
    by (rule threadE [OF assms(1) Some]) (use assms(2) Some in \<open>simp add: session_by_thread_def\<close>)
qed simp

lemma update_session_inv:
  assumes inv: "session_inv s" and x: "map_get (ss_sessions s) i = Some x"
    and same: "se_id x' = se_id x" "se_threadRef x' = se_threadRef x"
  shows "session_inv (s\<lparr>ss_sessions := map_set i x' (ss_sessions s)\<rparr>)"
proof -
  let ?s = "s\<lparr>ss_sessions := map_set i x' (ss_sessions s)\<rparr>"
  have "\<exists>y. map_get (ss_sessions ?s) j = Some y \<and> se_threadRef y = t" if "map_get (ss_byThread s) t = Some j" for t j
    using that by (rule threadE [OF inv]) (use x same in auto)
  then have "threads_ok ?s"
    using x same sessionD [OF inv] unfolding threads_ok_def by auto
  then show ?thesis
    using inv x by (auto simp: session_inv_def logs_ok_def windows_ok_def)
qed

lemma touch_session_keeps [simp]:
  "se_id (touch_session c u x) = se_id x" "se_threadRef (touch_session c u x) = se_threadRef x"
  by (simp_all add: touch_session_def Let_def)

lemma create_inv [step_inv]:
  assumes inv: "session_inv s" and ok: "session_op_ok (SCreate th ty sc cn su uuid now) s"
  shows "session_inv (fst (getOrCreateByThread th ty sc cn su uuid now s))"
proof (cases "session_by_thread s th")
  case (Some x)
  then show ?thesis
    using update_session_inv [OF inv session_by_thread_Some(2) [OF inv Some]] session_by_thread_Some [OF inv Some]
    by (simp add: getOrCreateByThread_def Let_def)
next
  case None
  let ?x = "new_session uuid th ty sc cn su now"
  let ?s = "fst (getOrCreateByThread th ty sc cn su uuid now s)"
  have s: "?s = s\<lparr>ss_sessions := map_set uuid ?x (ss_sessions s), ss_entries := map_set uuid [] (ss_entries s),
                 ss_byThread := map_set th uuid (ss_byThread s)\<rparr>"
    using None by (simp add: getOrCreateByThread_def Let_def)
  have x: "se_id ?x = uuid" "se_threadRef ?x = th"
    by (simp_all add: new_session_def)
  note free = session_by_thread_None [OF inv None]
  have u: "uuid \<noteq> []" "map_get (ss_sessions s) uuid = None"
    using ok by simp_all
  have "\<exists>y. map_get (ss_sessions ?s) j = Some y \<and> se_threadRef y = t"
    if "map_get (ss_byThread ?s) t = Some j" for t j
  proof (cases "t = th")
    case True
    with that x show ?thesis unfolding s by simp
  next
    case False
    with that have "map_get (ss_byThread s) t = Some j" unfolding s by simp
    then show ?thesis
      unfolding s by (rule threadE [OF inv]) (use u in auto)
  qed
  moreover have "se_threadRef y \<noteq> th" if "map_get (ss_sessions s) j = Some y" for j y
    using sessionD(3) [OF inv that] free by auto
  ultimately have 1: "threads_ok ?s"
    using u x sessionD [OF inv] unfolding threads_ok_def s by auto
  have 2: "logs_ok ?s"
    using inv ok by (auto simp: session_inv_def logs_ok_def s)
  have 3: "windows_ok ?s"
    using inv ok by (auto simp: session_inv_def windows_ok_def s)
  show ?thesis
    using inv 1 2 3 by (simp add: session_inv_def s)
qed

lemma title_inv [step_inv]: "session_inv s \<Longrightarrow> session_inv (updateTitle i t s)"
  by (auto simp: updateTitle_def split: option.split intro: update_session_inv)

lemma lease_ops_inv [step_inv]:
  assumes "session_inv s"
  shows "session_inv (fst (acquireLease ttl i h tok now s))" "session_inv (release_session_lease l s)"
    "session_inv (forceReleaseLease i s)" "session_inv (fst (recordLlmRequest i r uuid now s))"
  by (rule session_inv_frame [OF assms];
      simp add: acquireLease_def release_session_lease_def forceReleaseLease_def recordLlmRequest_def Let_def
           split: option.split)+

lemma delete_inv [step_inv]:
  assumes inv: "session_inv s" shows "session_inv (deleteSession i s)"
proof -
  let ?bt = "ss_byThread (deleteSession i s)"
  have sess: "map_get (ss_sessions (deleteSession i s)) j = (if j = i then None else map_get (ss_sessions s) j)" for j
    by (simp add: deleteSession_def Let_def)
  have bt: "map_get ?bt t = (if map_get (ss_byThread s) t = Some i then None else map_get (ss_byThread s) t)" for t
  proof (cases "map_get (ss_sessions s) i")
    case None
    then have "map_get (ss_byThread s) t \<noteq> Some i"
      using threadE [OF inv, of t i] by fastforce
    then show ?thesis by (simp add: deleteSession_def Let_def None)
  next
    case (Some x)
    have "map_get (ss_byThread s) t = Some i \<longleftrightarrow> t = se_threadRef x"
      using sessionD(3) [OF inv Some] threadE [OF inv, of t i] Some by fastforce
    then show ?thesis by (simp add: deleteSession_def Let_def Some)
  qed
  have 1: "threads_ok (deleteSession i s)"
    unfolding threads_ok_def
  proof (intro conjI allI impI)
    fix j x assume "map_get (ss_sessions (deleteSession i s)) j = Some x"
    then have x: "map_get (ss_sessions s) j = Some x" "j \<noteq> i"
      by (simp_all add: sess split: if_splits)
    then show "se_id x = j" "j \<noteq> []" "map_get ?bt (se_threadRef x) = Some j"
      using sessionD [OF inv x(1)] by (simp_all add: bt)
  next
    fix t j assume "map_get ?bt t = Some j"
    then have j: "map_get (ss_byThread s) t = Some j" "j \<noteq> i"
      by (simp_all add: bt split: if_splits)
    show "\<exists>x. map_get (ss_sessions (deleteSession i s)) j = Some x \<and> se_threadRef x = t"
      by (rule threadE [OF inv j(1)]) (use j(2) in \<open>simp add: sess\<close>)
  qed
  have 2: "logs_ok (deleteSession i s)"
    using inv by (auto simp: session_inv_def logs_ok_def deleteSession_def Let_def)
  have 3: "windows_ok (deleteSession i s)"
    using inv by (auto simp: session_inv_def windows_ok_def deleteSession_def Let_def)
  show ?thesis
    using inv 1 2 3 by (simp add: session_inv_def deleteSession_def Let_def)
qed

lemma extend_lease_frame:
  assumes "extend_lease ttl l now s = Some s1"
  shows "ss_sessions s1 = ss_sessions s" "ss_byThread s1 = ss_byThread s" "ss_entries s1 = ss_entries s"
    "ss_tape s1 = ss_tape s" "ss_windows s1 = ss_windows s"
  using assms by (auto simp: extend_lease_def split: option.splits if_splits)

lemma append_inv [step_inv]:
  assumes inv: "session_inv s" shows "session_inv (fst (append_entry ttl l e now s))"
proof (cases "extend_lease ttl l now s")
  case (Some s1)
  note fr = extend_lease_frame [OF Some]
  have inv1: "session_inv s1"
    by (rule session_inv_frame [OF inv]) (simp_all add: fr)
  show ?thesis
  proof (cases "map_get (ss_entries s1) (lr_sessionId l)")
    case e: (Some es)
    let ?s = "s1\<lparr>ss_entries := map_set (lr_sessionId l) (es @ [entry_at (lr_sessionId l) (length es) e now]) (ss_entries s1)\<rparr>"
    have "log_ok (lr_sessionId l) es" "map_get (ss_sessions s1) (lr_sessionId l) \<noteq> None"
      using entriesD [OF inv1, of "lr_sessionId l"] e by simp_all
    then have 1: "logs_ok ?s"
      using inv1 log_ok_snoc unfolding session_inv_def logs_ok_def
      by (auto intro!: map_all_set)
    have 2: "windows_ok ?s"
      using inv1 e window_ok_mono unfolding session_inv_def windows_ok_def
      by auto fastforce
    show ?thesis
      using inv1 1 2 by (simp add: append_entry_def Some e Let_def session_inv_def threads_ok_def)
  qed (simp add: append_entry_def Some inv1)
qed (simp add: append_entry_def inv)

lemma tape_inv [step_inv]:
  assumes inv: "session_inv s" shows "session_inv (fst (appendTape ttl l r now s))"
proof (cases "extend_lease ttl l now s")
  case (Some s1)
  have inv1: "session_inv s1"
    by (rule session_inv_frame [OF inv]) (simp_all add: extend_lease_frame [OF Some])
  have "tape_ok (lr_sessionId l) (or_empty (map_get (ss_tape s1) (lr_sessionId l)))"
    using inv1 by (cases "map_get (ss_tape s1) (lr_sessionId l)") (auto simp: session_inv_def logs_ok_def dest: map_allD)
  then show ?thesis
    using inv1 tape_ok_snoc by (auto simp: appendTape_def Some Let_def session_inv_def threads_ok_def logs_ok_def windows_ok_def intro!: map_all_set)
qed (simp add: appendTape_def inv)

lemma set_window_inv:
  assumes "session_inv s" "window_ok (length (entries_of s i)) w"
  shows "session_inv (set_window i p w s)"
  using assms unfolding session_inv_def threads_ok_def logs_ok_def windows_ok_def set_window_def
  by (auto split: if_splits)

lemma reopened_ok: "window_ok n (reopened_window h t e n now)"
  by (simp add: window_ok_def reopened_window_def)

lemma added_ok: "(\<And>w. existing = Some w \<Longrightarrow> window_ok n w) \<Longrightarrow> window_ok n (added_window h t existing n now)"
  by (cases existing) (auto simp: added_window_def reopened_ok Let_def, auto simp: window_ok_def split: option.splits)

lemma add_inv [step_inv]:
  assumes inv: "session_inv s" shows "session_inv (addParticipant i p t h now s)"
proof -
  have inv1: "session_inv (s\<lparr>ss_participants := m\<rparr>)" for m
    by (rule session_inv_frame [OF inv]) simp_all
  show ?thesis
    unfolding addParticipant_def Let_def
    by (rule set_window_inv [OF inv1]) (simp add: added_ok windowD [OF inv])
qed

lemma remove_inv [step_inv]:
  assumes inv: "session_inv s" shows "session_inv (removeParticipant i p now s)"
proof (cases "map_get (windows_of s i) p")
  case (Some w)
  have "window_ok (length (entries_of s i)) (w\<lparr>pw_validTo := Some now, pw_validToSeq := Some (length (entries_of s i))\<rparr>)"
    using windowD [OF inv Some] by (simp add: window_ok_def)
  then show ?thesis
    unfolding removeParticipant_def using Some by (auto intro!: set_window_inv inv)
qed (simp add: removeParticipant_def inv)

lemma view_inv [step_inv]:
  assumes inv: "session_inv s" shows "session_inv (updateParticipantView i p v s)"
proof (cases "map_get (windows_of s i) p")
  case (Some w)
  have "window_ok n (w\<lparr>pw_title := t, pw_archived := a, pw_pinned := b, pw_color := c\<rparr>) = window_ok n w" for n t a b c
    by (simp add: window_ok_def split: option.split)
  then show ?thesis
    unfolding updateParticipantView_def using Some windowD [OF inv Some] by (auto intro!: set_window_inv inv)
qed (simp add: updateParticipantView_def inv)

lemma session_apply_inv: "session_inv s \<Longrightarrow> session_op_ok op s \<Longrightarrow> session_inv (session_apply ttl op s)"
  by (cases op) (auto intro: step_inv)

lemma session_path_inv: "session_path ttl ops s s' \<Longrightarrow> session_inv s \<Longrightarrow> session_inv s'"
  by (induction rule: session_path.induct) (auto intro: session_apply_inv)

section \<open>Logs, threads and leases\<close>

text \<open>C7: In every reachable store a session's log is numbered without gaps from zero, each entry names
  its predecessor as parent, and no two sessions share a thread reference.\<close>

theorem session_log_contiguous:
  assumes "session_path ttl ops empty_session_store s"
  shows "map en_seq (getEntries i None s) = [0..<length (getEntries i None s)] \<and>
    (\<forall>k < length (getEntries i None s).
       en_parentSeq (getEntries i None s ! k) = (if k = 0 then None else Some (k - 1)) \<and>
       en_sessionId (getEntries i None s ! k) = i) \<and>
    (\<forall>j x y. get_session i s = Some x \<and> get_session j s = Some y \<and> se_threadRef x = se_threadRef y \<longrightarrow> i = j)"
proof -
  note inv = session_path_inv [OF assms session_inv_empty]
  have "getEntries i None s = entries_of s i"
    by (simp add: getEntries_def)
  moreover have "map en_seq (entries_of s i) = [0..<length (entries_of s i)]"
    using entriesD(2) [OF inv, of i] by (intro nth_equalityI) (simp_all add: log_ok_def)
  moreover have "i = j" if "get_session i s = Some x" "get_session j s = Some y" "se_threadRef x = se_threadRef y" for j x y
    using sessionD(3) [OF inv] that by (metis get_session_def option.inject)
  ultimately show ?thesis
    using entriesD(2) [OF inv, of i] by (auto simp: log_ok_def)
qed

definition demo_ops :: "session_op list" where
  "demo_ops =
     [SCreate ''th'' TDm ''personal:u'' None None ''s1'' 1, SAcquire ''s1'' None ''tok'' 2,
      SAppend \<lparr>lr_sessionId = ''s1'', lr_token = ''tok''\<rparr> \<lparr>ne_type = EUser, ne_payload = JStr ''hi'', ne_scopeLabel = ''personal:u''\<rparr> 3]"

definition demo_sessions :: session_store where
  "demo_sessions = fold (session_apply 1000) demo_ops empty_session_store"

lemma demo_path: "session_path 1000 demo_ops empty_session_store demo_sessions"
  by (simp add: demo_sessions_def demo_ops_def session_path_simps empty_session_store_def)

lemma session_log_contiguous_witness:
  "map en_seq (getEntries ''s1'' None demo_sessions) = [0..<length (getEntries ''s1'' None demo_sessions)]"
  using session_log_contiguous [OF demo_path, of "''s1''"] by blast

lemma append_result:
  assumes "lease_token s (lr_sessionId l) = Some (lr_token l)" "session_inv s"
    and "get_session (lr_sessionId l) s \<noteq> None"
  shows "snd (append_entry ttl l e now s) = Inr (entry_at (lr_sessionId l) (length (entries_of s (lr_sessionId l))) e now)"
    "entries_of (fst (append_entry ttl l e now s)) (lr_sessionId l) =
       entries_of s (lr_sessionId l) @ [entry_at (lr_sessionId l) (length (entries_of s (lr_sessionId l))) e now]"
proof -
  obtain es where "map_get (ss_entries s) (lr_sessionId l) = Some es"
    using entriesD(1) [OF assms(2)] assms(3) by (fastforce simp: get_session_def)
  then show "snd (append_entry ttl l e now s) = Inr (entry_at (lr_sessionId l) (length (entries_of s (lr_sessionId l))) e now)"
    "entries_of (fst (append_entry ttl l e now s)) (lr_sessionId l) =
       entries_of s (lr_sessionId l) @ [entry_at (lr_sessionId l) (length (entries_of s (lr_sessionId l))) e now]"
    using assms(1) by (auto simp: append_entry_def extend_lease_def lease_token_def Let_def)
qed

lemma append_refused:
  "lease_token s (lr_sessionId l) \<noteq> Some (lr_token l) \<Longrightarrow>
     append_entry ttl l e now s = (s, Inl (Error ''append without a valid session lease''))"
  by (auto simp: append_entry_def extend_lease_def lease_token_def split: option.split)

text \<open>C6: A session lease is granted exactly when none is held or the held one has expired; from then on
  an append with any other token is refused without effect, and the holder's append adds exactly one
  entry with the next number.\<close>

theorem session_lease_fences_append:
  assumes "session_inv s" "get_session i s = Some x" "acquireLease ttl i h tok now s = (s', a)"
  shows "(la_lease a \<noteq> None \<longleftrightarrow>
       (case map_get (ss_leases s) i of None \<Rightarrow> True | Some held \<Rightarrow> sl_expiresAt held \<le> now)) \<and>
    (if la_lease a = None then s' = s
     else la_lease a = Some \<lparr>lr_sessionId = i, lr_token = tok\<rparr> \<and>
       (\<forall>t e n. t \<noteq> tok \<longrightarrow> append_entry ttl \<lparr>lr_sessionId = i, lr_token = t\<rparr> e n s' =
          (s', Inl (Error ''append without a valid session lease''))) \<and>
       (\<forall>e n. getEntries i None (fst (append_entry ttl \<lparr>lr_sessionId = i, lr_token = tok\<rparr> e n s')) =
          getEntries i None s @ [entry_at i (length (getEntries i None s)) e n]))"
proof -
  have a: "a = snd (acquireLease ttl i h tok now s)" and s': "s' = fst (acquireLease ttl i h tok now s)"
    using assms(3) by simp_all
  have granted: "la_lease a \<noteq> None \<longleftrightarrow>
       (case map_get (ss_leases s) i of None \<Rightarrow> True | Some held \<Rightarrow> sl_expiresAt held \<le> now)"
    by (auto simp: a acquireLease_def split: option.split)
  have refused: "la_lease a = None \<Longrightarrow> s' = s"
    by (auto simp: a s' acquireLease_def split: option.splits)
  have ok: "la_lease a = Some \<lparr>lr_sessionId = i, lr_token = tok\<rparr> \<and> lease_token s' i = Some tok \<and>
      ss_entries s' = ss_entries s \<and> ss_sessions s' = ss_sessions s" if "la_lease a \<noteq> None"
    using that by (auto simp: a s' acquireLease_def lease_token_def split: option.splits)
  have inv': "session_inv s'"
    unfolding s' by (rule lease_ops_inv(1) [OF assms(1)])
  show ?thesis
  proof (cases "la_lease a = None")
    case False
    note g = ok [OF False]
    have "getEntries i None (fst (append_entry ttl \<lparr>lr_sessionId = i, lr_token = tok\<rparr> e n s')) =
          getEntries i None s @ [entry_at i (length (getEntries i None s)) e n]" for e n
      using append_result(2) [of s' "\<lparr>lr_sessionId = i, lr_token = tok\<rparr>" ttl e n] g inv' assms(2)
      by (simp add: getEntries_def get_session_def)
    then show ?thesis
      using granted g False append_refused [of s'] by simp
  qed (use granted refused in simp)
qed

lemma session_lease_fences_append_witness:
  "snd (append_entry 1000 \<lparr>lr_sessionId = ''s1'', lr_token = ''tok''\<rparr>
      \<lparr>ne_type = EUser, ne_payload = JNull, ne_scopeLabel = ''personal:u''\<rparr> 6000
      (fst (acquireLease 1000 ''s1'' None ''tok2'' 5000 demo_sessions))) =
    Inl (Error ''append without a valid session lease'')"
proof -
  have "\<exists>x. get_session ''s1'' demo_sessions = Some x"
    by (simp add: demo_sessions_def demo_ops_def empty_session_store_def getOrCreateByThread_def session_by_thread_def
        acquireLease_def append_entry_def extend_lease_def get_session_def Let_def)
  moreover have "map_get (ss_leases demo_sessions) ''s1'' =
      Some \<lparr>sl_token = ''tok'', sl_expiresAt = 1003, sl_acquiredAt = 2, sl_holder = None\<rparr>"
    by (simp add: demo_sessions_def demo_ops_def empty_session_store_def getOrCreateByThread_def session_by_thread_def
        acquireLease_def append_entry_def extend_lease_def Let_def)
  ultimately show ?thesis
    using session_lease_fences_append [OF session_path_inv [OF demo_path session_inv_empty] _ prod.collapse [symmetric],
        of "''s1''" _ 1000 None "''tok2''" 5000]
    by (auto split: if_splits)
qed

section \<open>Participant windows\<close>

fun reopens :: "string \<Rightarrow> string \<Rightarrow> session_op \<Rightarrow> bool" where
  "reopens i p (SAdd j q t h now) = (i = j \<and> p = q)"
| "reopens i p (SDelete j) = (i = j)"
| "reopens i p op = False"

text \<open>The visible part of a closed window, and what no step outside \<open>reopens\<close> changes about it.\<close>

definition closed_view :: "string \<Rightarrow> string \<Rightarrow> session_store \<Rightarrow> nat \<Rightarrow> nat \<Rightarrow> session_entry list \<Rightarrow> bool" where
  "closed_view i p s a b es \<longleftrightarrow>
     (\<exists>w. map_get (windows_of s i) p = Some w \<and> pw_validTo w \<noteq> None \<and> pw_validFromSeq w = a \<and> pw_validToSeq w = Some b) \<and>
     b \<le> length es \<and> (\<exists>ext. entries_of s i = es @ ext)"

lemma closed_view_frame:
  "closed_view i p s a b es \<Longrightarrow> ss_windows s' = ss_windows s \<Longrightarrow> ss_entries s' = ss_entries s \<Longrightarrow>
     closed_view i p s' a b es"
  by (simp add: closed_view_def)

lemma closed_view_set_window:
  assumes "closed_view i p s a b es"
    and "(j, q) = (i, p) \<Longrightarrow> pw_validTo w \<noteq> None \<and> pw_validFromSeq w = a \<and> pw_validToSeq w = Some b"
    and "ss_windows s' = ss_windows s" "ss_entries s' = ss_entries s"
  shows "closed_view i p (set_window j q w s') a b es"
  using assms unfolding closed_view_def set_window_def by auto

lemma closed_view_step:
  assumes "closed_view i p s a b es" "session_op_ok op s" "\<not> reopens i p op"
  shows "closed_view i p (session_apply ttl op s) a b es"
proof (cases op)
  case (SCreate th ty sc cn su uuid now)
  have "map_get (ss_windows s) i \<noteq> None"
    using assms(1) by (auto simp: closed_view_def or_empty_def split: option.splits)
  then have "uuid \<noteq> i"
    using assms(2) SCreate by auto
  then show ?thesis
    using assms(1) SCreate by (auto simp: getOrCreateByThread_def Let_def closed_view_def split: option.split)
next
  case (SDelete j)
  then show ?thesis
    using assms by (auto simp: deleteSession_def Let_def closed_view_def)
next
  case (SAppend l e now)
  show ?thesis
  proof (cases "extend_lease ttl l now s")
    case (Some s1)
    then show ?thesis
      using assms(1) SAppend extend_lease_frame [OF Some]
      by (auto simp: append_entry_def Let_def closed_view_def split: option.split)
  qed (simp add: SAppend append_entry_def assms(1))
next
  case (STape l r now)
  show ?thesis
  proof (cases "extend_lease ttl l now s")
    case (Some s1)
    then show ?thesis
      using assms(1) STape extend_lease_frame [OF Some] by (auto simp: appendTape_def Let_def intro: closed_view_frame)
  qed (simp add: STape appendTape_def assms(1))
next
  case (SAdd j q t h now)
  then show ?thesis
    using assms by (auto simp: addParticipant_def Let_def intro!: closed_view_set_window)
next
  case (SRemove j q now)
  then show ?thesis
    using assms(1) by (auto simp: removeParticipant_def split: option.split intro!: closed_view_set_window)
       (auto simp: closed_view_def)
next
  case (SView j q v)
  then show ?thesis
    using assms(1) by (auto simp: updateParticipantView_def split: option.split intro!: closed_view_set_window)
       (auto simp: closed_view_def)
qed (use assms(1) in \<open>auto simp: updateTitle_def acquireLease_def release_session_lease_def forceReleaseLease_def
       recordLlmRequest_def Let_def split: option.split intro: closed_view_frame\<close>)

lemma closed_view_path:
  "session_path ttl ops s s' \<Longrightarrow> closed_view i p s a b es \<Longrightarrow> \<forall>op \<in> set ops. \<not> reopens i p op \<Longrightarrow>
     closed_view i p s' a b es"
  by (induction rule: session_path.induct) (auto intro: closed_view_step)

lemma closed_view_entries:
  assumes "closed_view i p s a b es" "session_inv s"
  shows "visibleEntries i p s = drop a (take b es)"
proof -
  obtain w ext where w: "map_get (windows_of s i) p = Some w" "pw_validFromSeq w = a" "pw_validToSeq w = Some b"
    "entries_of s i = es @ ext" "b \<le> length es"
    using assms(1) by (auto simp: closed_view_def)
  have "filter (\<lambda>e. a \<le> en_seq e \<and> en_seq e < b) l = drop a (take b l)"
    if "map en_seq l = [0..<length l]" for l
    using that
  proof (induction l rule: rev_induct)
    case (snoc x xs)
    then have "en_seq x = length xs" "map en_seq xs = [0..<length xs]" by simp_all
    then show ?case
      using snoc.IH by (cases "length xs < b"; cases "a \<le> length xs") auto
  qed simp
  moreover have "map en_seq (entries_of s i) = [0..<length (entries_of s i)]"
    using entriesD(2) [OF assms(2), of i] by (intro nth_equalityI) (simp_all add: log_ok_def)
  moreover have "visibleEntries i p s = filter (\<lambda>e. a \<le> en_seq e \<and> en_seq e < b) (entries_of s i)"
    using w(1-3) by (auto simp: visibleEntries_def in_window_def intro!: filter_cong)
  moreover have "take b (entries_of s i) = take b es"
    using w(4,5) by simp
  ultimately show ?thesis by metis
qed


definition demo_part :: session_store where
  "demo_part = session_apply 1000 (SAdd ''s1'' ''u'' None True 4) demo_sessions"


section \<open>Pages\<close>

lemma idDesc_simps: "idDesc a b < 0 \<longleftrightarrow> b < a" "idDesc a b = 0 \<longleftrightarrow> a = b" "idDesc a b \<le> 0 \<longleftrightarrow> b \<le> a"
  by (auto simp: idDesc_def)

lemma summary_cmp_le:
  "summary_cmp a b \<le> 0 \<longleftrightarrow>
     sm_lastActivity b < sm_lastActivity a \<or> (sm_lastActivity b = sm_lastActivity a \<and> sm_id b \<le> sm_id a)"
  by (auto simp: summary_cmp_def idDesc_simps)

definition summary_key :: "session_summary \<Rightarrow> ms \<times> string" where
  "summary_key r = (sm_lastActivity r, sm_id r)"

lemma all_summaries_sorted: "sorted_wrt (\<lambda>a b. summary_cmp a b \<le> 0) (all_summaries scope ow pg ip ids s)"
  unfolding all_summaries_def
  by (rule sorted_js_sort) (auto simp: transp_on_def summary_cmp_le)

lemma all_summaries_ids:
  assumes "session_inv s" shows "distinct (map sm_id (all_summaries scope ow pg ip ids s))"
proof -
  have "map se_id (map_values (ss_sessions s)) = map_keys (ss_sessions s)"
  proof -
    have "se_id x = i" if "(i, x) \<in> set (ss_sessions s)" for i x
      using that sessionD(1) [OF assms] assms map_wf_get_iff by (fastforce simp: session_inv_def)
    then show ?thesis by auto
  qed
  then have "distinct (map se_id (map_values (ss_sessions s)))"
    using assms unfolding session_inv_def map_wf_def by (simp only:)
  then have d: "distinct (map se_id (filter P (map_values (ss_sessions s))))" for P
    by (rule distinct_map_filter)
  have id: "sm_id (summary_of ip s x) = se_id x" for x
    by (simp add: summary_of_def Let_def)
  show ?thesis
    unfolding all_summaries_def distinct_map_js_sort map_map comp_def id using d by simp
qed

lemma filter_before_cursor:
  assumes "sorted_wrt (\<lambda>a b. summary_cmp a b \<le> 0) xs" "distinct (map sm_id xs)" "k < length xs"
  shows "filter (before_cursor (summary_key (xs ! k))) xs = drop (Suc k) xs"
proof -
  have ord: "summary_cmp (xs ! i) (xs ! j) \<le> 0" if "i < j" "j < length xs" for i j
    using assms(1) that by (rule sorted_wrt_nth_less)
  have neq: "sm_id (xs ! i) \<noteq> sm_id (xs ! j)" if "i < length xs" "j < length xs" "i \<noteq> j" for i j
    using assms(2) that by (metis distinct_conv_nth length_map nth_map)
  have before: "before_cursor (summary_key (xs ! k)) (xs ! j) \<longleftrightarrow> k < j" if "j < length xs" for j
  proof (cases "k < j")
    case True
    then show ?thesis
      using ord [OF True that] neq [OF that assms(3)] by (auto simp: before_cursor_def summary_key_def summary_cmp_le)
  next
    case False
    then have "j = k \<or> summary_cmp (xs ! j) (xs ! k) \<le> 0"
      using ord [of j k] assms(3) by force
    then show ?thesis
      using False by (auto simp: before_cursor_def summary_key_def summary_cmp_le)
  qed
  have "filter (before_cursor (summary_key (xs ! k))) (take (Suc k) xs) = []"
    using before assms(3) by (auto simp: filter_empty_conv in_set_conv_nth)
  moreover have "filter (before_cursor (summary_key (xs ! k))) (drop (Suc k) xs) = drop (Suc k) xs"
    using before by (intro filter_True) (auto simp: in_set_conv_nth)
  ultimately show ?thesis
    by (metis append_Nil append_take_drop_id filter_append)
qed

text \<open>Cursor pages and offset pages agree: the page before the k-th summary of the full listing is the
  page at offset k + 1, so following cursors visits every session once.\<close>

theorem session_cursor_page:
  assumes "session_inv s" "k < length (scopeSessionSummaries scope ow (Some (p\<lparr>pg_before := None, pg_offset := 0, pg_limit := n\<rparr>)) ip ids s)"
    and "cur = summary_key (scopeSessionSummaries scope ow (Some (p\<lparr>pg_before := None, pg_offset := 0, pg_limit := n\<rparr>)) ip ids s ! k)"
  shows "scopeSessionSummaries scope ow (Some (p\<lparr>pg_before := Some cur\<rparr>)) ip ids s =
    scopeSessionSummaries scope ow (Some (p\<lparr>pg_before := None, pg_offset := Suc k\<rparr>)) ip ids s"
proof -
  let ?xs = "all_summaries scope ow (Some p) ip ids s"
  have same: "all_summaries scope ow (Some (p\<lparr>pg_before := b, pg_offset := o', pg_limit := l\<rparr>)) ip ids s = ?xs" for b o' l
    by (simp add: all_summaries_def)
  have same2: "all_summaries scope ow (Some (p\<lparr>pg_before := b\<rparr>)) ip ids s = ?xs"
    "all_summaries scope ow (Some (p\<lparr>pg_before := b, pg_offset := o'\<rparr>)) ip ids s = ?xs" for b o'
    by (simp_all add: all_summaries_def)
  have k: "k < length ?xs" "cur = summary_key (?xs ! k)"
    using assms(2,3) by (simp_all add: scopeSessionSummaries_def page_of_def same)
  show ?thesis
    using filter_before_cursor [OF all_summaries_sorted all_summaries_ids [OF assms(1)] k(1)] k(2)
    by (simp add: scopeSessionSummaries_def page_of_def same2)
qed

definition demo_page :: session_page where
  "demo_page = \<lparr>pg_limit = 5, pg_offset = 0, pg_before = None, pg_category = None, pg_origin = None, pg_cronId = None\<rparr>"

lemma session_cursor_page_witness:
  "\<exists>cur. scopeSessionSummaries [] True (Some (demo_page\<lparr>pg_before := Some cur\<rparr>)) False None demo_sessions =
     scopeSessionSummaries [] True (Some (demo_page\<lparr>pg_before := None, pg_offset := 1\<rparr>)) False None demo_sessions"
proof -
  have "0 < length (scopeSessionSummaries [] True (Some (demo_page\<lparr>pg_before := None, pg_offset := 0, pg_limit := 5\<rparr>)) False None demo_sessions)"
    by (simp add: scopeSessionSummaries_def page_of_def demo_page_def all_summaries_def demo_sessions_def demo_ops_def
        empty_session_store_def getOrCreateByThread_def session_by_thread_def acquireLease_def append_entry_def
        extend_lease_def in_scope_def session_selected_def origin_skipped_def Let_def)
  then show ?thesis
    using session_cursor_page [where k = 0 and scope = "[]" and ow = True and p = demo_page and n = 5 and ip = False
        and ids = None, OF session_path_inv [OF demo_path session_inv_empty] _ refl] by (simp del: split_paired_Ex) blast
qed

section \<open>Statistics\<close>

definition bucket_total :: "(string, nat) jsmap \<Rightarrow> nat" where
  "bucket_total m = sum_list (map_values m)"

lemma bump_total:
  assumes "map_wf m" shows "sum_list (map_values (bump k m)) = Suc (sum_list (map_values m))"
proof -
  have "sum_list (map_values (map_set k (c + v) m)) = sum_list (map_values m) + c"
    if "v = (case map_get m k of None \<Rightarrow> 0 | Some v \<Rightarrow> v)" for c v :: nat
    using assms that by (induction m) (auto simp: map_wf_def split: option.splits)
  from this [of _ 1] show ?thesis
    by (simp add: bump_def)
qed

lemma bump_wf [simp]: "map_wf m \<Longrightarrow> map_wf (bump k m)"
  by (simp add: bump_def)

text \<open>The pass over the sessions adds up what the guards select.\<close>

lemma stats_fold:
  assumes "fold (stats_add cat oo cid s) xs (t, cs) = (t', cs')" "map_wf (st_byType t)" "map_wf (st_byTypeAll t)"
  shows "st_total t' = st_total t + length (filter (session_selected cat oo cid) xs) \<and>
    st_turns t' = st_turns t +
      sum_list (map (\<lambda>x. length (user_entries (entries_of s (se_id x)))) (filter (session_selected cat oo cid) xs)) \<and>
    sum_list (map_values (st_byType t')) = sum_list (map_values (st_byType t)) + length (filter (session_selected cat oo cid) xs) \<and>
    sum_list (map_values (st_byTypeAll t')) = sum_list (map_values (st_byTypeAll t)) + length xs \<and>
    st_all t' = st_all t + length xs \<and>
    st_conversation t' + st_background t' = st_conversation t + st_background t + length xs"
  using assms
proof (induction xs arbitrary: t cs)
  case (Cons x xs)
  obtain t1 cs1 where one: "stats_add cat oo cid s x (t, cs) = (t1, cs1)"
    by fastforce
  have t1: "st_total t1 = st_total t + (if session_selected cat oo cid x then 1 else 0)"
    "st_turns t1 = st_turns t + (if session_selected cat oo cid x then length (user_entries (entries_of s (se_id x))) else 0)"
    "sum_list (map_values (st_byType t1)) = sum_list (map_values (st_byType t)) + (if session_selected cat oo cid x then 1 else 0)"
    "sum_list (map_values (st_byTypeAll t1)) = Suc (sum_list (map_values (st_byTypeAll t)))"
    "st_all t1 = Suc (st_all t)" "st_conversation t1 + st_background t1 = Suc (st_conversation t + st_background t)"
    "map_wf (st_byType t1)" "map_wf (st_byTypeAll t1)"
    using one Cons.prems(2,3) bump_total
    by (auto simp: stats_add_def Let_def sessionCategory_def split: if_splits)
  have "fold (stats_add cat oo cid s) xs (t1, cs1) = (t', cs')"
    using Cons.prems(1) one by simp
  from Cons.IH [OF this t1(7,8)] show ?case
    by (auto simp: t1)
qed simp

text \<open>The statistics agree with the listing: total and turns are those of the summaries under the same
  filters, the counts by type add up to the total, and the two categories to all sessions in scope.\<close>

theorem session_stats_agree:
  shows "st_total (scopeSessionStats scope ow cat oo cid s) =
      length (scopeSessionSummaries scope ow (Some \<lparr>pg_limit = length (ss_sessions s), pg_offset = 0, pg_before = None,
        pg_category = cat, pg_origin = oo, pg_cronId = cid\<rparr>) ip None s) \<and>
    sum_list (map_values (st_byType (scopeSessionStats scope ow cat oo cid s))) = st_total (scopeSessionStats scope ow cat oo cid s) \<and>
    sum_list (map_values (st_byTypeAll (scopeSessionStats scope ow cat oo cid s))) = st_all (scopeSessionStats scope ow cat oo cid s) \<and>
    st_conversation (scopeSessionStats scope ow cat oo cid s) + st_background (scopeSessionStats scope ow cat oo cid s) =
      st_all (scopeSessionStats scope ow cat oo cid s)"
proof -
  let ?xs = "filter (in_scope scope ow) (map_values (ss_sessions s))"
  obtain t cs where f: "fold (stats_add cat oo cid s) ?xs (empty_stats, []) = (t, cs)"
    by fastforce
  have st: "scopeSessionStats scope ow cat oo cid s = t\<lparr>st_crons := length cs\<rparr>"
    by (simp add: scopeSessionStats_def f)
  have eq: "filter (\<lambda>x. in_scope scope ow x \<and> session_selected cat oo cid x) (map_values (ss_sessions s)) =
      filter (session_selected cat oo cid) ?xs"
    by (simp add: conj_commute)
  have "length (filter (\<lambda>x. in_scope scope ow x \<and> session_selected cat oo cid x) (map_values (ss_sessions s))) \<le> length (ss_sessions s)"
    by (metis length_filter_le length_map)
  then show ?thesis
    using stats_fold [OF f] unfolding st
    by (simp add: empty_stats_def scopeSessionSummaries_def page_of_def all_summaries_def eq [symmetric])
qed

end
