(* ===== verification/Run_Recovery.thy ===== *)
theory Run_Recovery
  imports Run_Queue Run_Worker Session_Props
begin

text \<open>
  Recovery around the run queue: \<open>releaseInFlight\<close> of the worker, the reaper of \<open>runs/reaper.ts\<close>, the
  drain controller of \<open>runs/drain.ts\<close> and the run signals of \<open>runs/run-signal-store.ts\<close>. A run's
  \<open>sessionId\<close> is the thread reference of its session, as the code uses it.
\<close>

section \<open>Handing back the run in flight\<close>

text \<open>The body that \<open>releaseInFlight\<close> starts when no other release is under way.\<close>

definition releaseInFlight ::
  "ms \<Rightarrow> ms \<Rightarrow> in_flight option \<Rightarrow> string option \<Rightarrow> 'q run_store \<Rightarrow> session_store \<Rightarrow>
   'q run_store \<times> session_store \<times> string option" where
  "releaseInFlight ttlMs now inFlight releasedLeaseToken runs sessions =
     (case inFlight of
        None \<Rightarrow> (runs, sessions, releasedLeaseToken)
      | Some held \<Rightarrow>
          if Some (if_leaseToken held) = releasedLeaseToken then (runs, sessions, releasedLeaseToken)
          else
            (case heartbeat (if_runId held) (if_leaseToken held) ttlMs now runs of
               (runs1, alive) \<Rightarrow>
                 if alive
                 then (fst (releaseLease (if_runId held) (if_leaseToken held) runs1),
                       (case getByThread (if_threadRef held) sessions of
                          None \<Rightarrow> sessions | Some x \<Rightarrow> forceReleaseLease (se_id x) sessions),
                       Some (if_leaseToken held))
                 else (runs1, sessions, Some (if_leaseToken held))))"

text \<open>Handing back the run in flight makes it pending again and frees its session's lease exactly when
  the worker still holds the run's lease; otherwise neither store changes.\<close>

theorem releaseInFlight_fenced:
  assumes "run_inv runs" "released \<noteq> Some (if_leaseToken h)"
    and "releaseInFlight ttl now (Some h) released runs sessions = (runs', sessions', released')"
  shows "released' = Some (if_leaseToken h) \<and>
    (if holds_lease runs (if_runId h) (if_leaseToken h)
     then (\<exists>r. get_run runs' (if_runId h) = Some r \<and> run_status r = Pending \<and> run_leaseToken r = None) \<and>
       (\<forall>x. getByThread (if_threadRef h) sessions = Some x \<longrightarrow> lease_token sessions' (se_id x) = None)
     else runs' = runs \<and> sessions' = sessions)"
proof (cases "holds_lease runs (if_runId h) (if_leaseToken h)")
  case True
  then obtain r where r: "get_run runs (if_runId h) = Some r" "run_leaseToken r = Some (if_leaseToken h)"
    by (auto simp: holds_lease_def)
  let ?b = "fst (heartbeat (if_runId h) (if_leaseToken h) ttl now runs)"
  have inv: "run_inv ?b"
    by (rule heartbeat_inv [OF assms(1)])
  have b: "get_run ?b (if_runId h) = Some (r\<lparr>run_leaseExpiresAt := Some (now + ttl)\<rparr>)"
    "snd (heartbeat (if_runId h) (if_leaseToken h) ttl now runs)"
    using get_heartbeat [OF assms(1) r] by simp_all
  have runs': "runs' = fst (releaseLease (if_runId h) (if_leaseToken h) ?b)" "released' = Some (if_leaseToken h)"
    "sessions' = (case getByThread (if_threadRef h) sessions of None \<Rightarrow> sessions | Some x \<Rightarrow> forceReleaseLease (se_id x) sessions)"
    using assms(2,3) b(2) by (auto simp: releaseInFlight_def split: prod.splits if_splits)
  show ?thesis
    using True r(2) unfolding runs' by (simp add: get_releaseLease [OF inv b(1)] lease_token_def forceReleaseLease_def)
next
  case False
  then show ?thesis
    using assms(2,3) by (simp add: releaseInFlight_def refused_ops)
qed

definition sample_flight :: in_flight where
  "sample_flight = \<lparr>if_runId = ''r1'', if_leaseToken = ''t1'', if_threadRef = ''th''\<rparr>"

lemma releaseInFlight_fenced_witness:
  "\<exists>r. get_run (fst (releaseInFlight 1000 50 (Some sample_flight) None sample_queue demo_sessions)) ''r1'' = Some r \<and>
     run_status r = Pending"
proof -
  have "holds_lease sample_queue (if_runId sample_flight) (if_leaseToken sample_flight)"
    by (simp add: holds_lease_def sample_get sample_flight_def)
  moreover obtain a b c where e: "releaseInFlight 1000 50 (Some sample_flight) None sample_queue demo_sessions = (a, b, c)"
    by (metis prod_cases3)
  ultimately show ?thesis
    using releaseInFlight_fenced [OF reach_inv [OF sample_reach] _ e] by (auto simp: sample_flight_def)
qed

section \<open>The reaper\<close>

record error_record =
  er_category :: string
  er_code :: string
  er_message :: string
  er_scopeLabel :: string
  er_sessionId :: string

definition REAPER_LEASE_KEY :: string where
  "REAPER_LEASE_KEY = ''runs:reaper''"

definition recordReapEvent :: "reap_event \<Rightarrow> error_record" where
  "recordReapEvent e =
     (let outcome = (if re_requeued e then ''requeued'' else ''parked'') in
      \<lparr>er_category = ''runs'',
       er_code = (if re_requeued e then ''run_reap_requeued'' else ''run_reap_parked''),
       er_message = ''run '' @ re_runId e @ '' '' @ outcome @ '' (worker='' @
         (case re_workerId e of None \<Rightarrow> ''none'' | Some w \<Rightarrow> w) @ '', attempts='' @ js_of_nat (re_attempts e) @
         '', error_attempts='' @ js_of_nat (re_errorAttempts e) @ '')'',
       er_scopeLabel = REAPER_LEASE_KEY, er_sessionId = re_sessionId e\<rparr>)"

definition release_thread :: "string \<Rightarrow> session_store \<Rightarrow> session_store" where
  "release_thread threadRef sessions =
     (case getByThread threadRef sessions of None \<Rightarrow> sessions | Some x \<Rightarrow> forceReleaseLease (se_id x) sessions)"

definition releaseStrandedSessionLeases :: "string list \<Rightarrow> session_store \<Rightarrow> session_store" where
  "releaseStrandedSessionLeases ids sessions = fold release_thread (js_dedup ids) sessions"

definition reap ::
  "nat option \<Rightarrow> ms option \<Rightarrow> ms \<Rightarrow> 'q run_store \<Rightarrow> session_store \<Rightarrow>
   'q run_store \<times> session_store \<times> nat \<times> nat \<times> error_record list" where
  "reap mc maxAgeMs now runs sessions =
     (case reapExpired mc maxAgeMs now runs of
        (runs', requeued, parked, ids, evs) \<Rightarrow>
          (runs', (if ids = [] then sessions else releaseStrandedSessionLeases ids sessions), requeued, parked,
           map recordReapEvent evs))"

lemma getByThread_release [simp]: "getByThread t (release_thread u s) = getByThread t s"
  by (simp add: release_thread_def getByThread_def session_by_thread_def forceReleaseLease_def split: option.split)

lemma lease_release_thread:
  "lease_token (release_thread u s) i =
     (if \<exists>x. getByThread u s = Some x \<and> se_id x = i then None else lease_token s i)"
  by (auto simp: release_thread_def lease_token_def forceReleaseLease_def split: option.split)

lemma lease_release_threads:
  "lease_token (fold release_thread us s) i =
     (if \<exists>u \<in> set us. \<exists>x. getByThread u s = Some x \<and> se_id x = i then None else lease_token s i)"
  by (induction us arbitrary: s) (auto simp: lease_release_thread)

text \<open>After a reaping pass the session of every run it retired is free of a lease, and the leases of all
  other sessions are as before.\<close>

theorem reap_frees_sessions:
  assumes "run_inv runs" "session_inv sessions" "reap mc age now runs sessions = (runs', sessions', rq, pk, errs)"
    and "getByThread th sessions = Some x"
  shows "lease_token sessions' (se_id x) =
    (if \<exists>i r. get_run runs i = Some r \<and> leaseLapsed r now \<and> run_sessionId r = th then None
     else lease_token sessions (se_id x))"
proof -
  obtain s2 rq2 pk2 ids evs where re: "reapExpired mc age now runs = (s2, rq2, pk2, ids, evs)"
    by (metis prod_cases5)
  have ids: "ids = map run_sessionId (filter (\<lambda>r. leaseLapsed r now) (map_values (rs_runs runs)))"
    using run_reap_expired_facts [OF assms(1) re] by simp
  have s': "sessions' = releaseStrandedSessionLeases ids sessions"
    using assms(3) by (auto simp: reap_def re releaseStrandedSessionLeases_def js_dedup_def split: if_splits)
  have same: "getByThread u sessions = Some y \<and> se_id y = se_id x \<longleftrightarrow> u = th \<and> y = x" for u y
    using session_by_thread_Some [OF assms(2)] assms(4) unfolding getByThread_def by (metis option.inject)
  have "th \<in> set ids \<longleftrightarrow> (\<exists>i r. get_run runs i = Some r \<and> leaseLapsed r now \<and> run_sessionId r = th)"
    using in_values_iff [OF assms(1)] run_inv_id [OF assms(1)] unfolding ids
    by (auto simp del: map_map simp: image_iff) (metis in_values_iff [OF assms(1)])+
  then show ?thesis
    unfolding s' releaseStrandedSessionLeases_def lease_release_threads by (simp add: same)
qed

lemma reap_frees_sessions_witness:
  "\<exists>x. getByThread ''th'' demo_sessions = Some x \<and>
     lease_token (fst (snd (reap None None 5000 sample_queue demo_sessions))) (se_id x) = lease_token demo_sessions (se_id x)"
proof -
  have "\<exists>x. getByThread ''th'' demo_sessions = Some x"
    by (simp add: demo_sessions_def demo_ops_def empty_session_store_def getOrCreateByThread_def session_by_thread_def
        acquireLease_def append_entry_def extend_lease_def getByThread_def Let_def)
  then obtain x where x: "getByThread ''th'' demo_sessions = Some x" by blast
  obtain a b c d e where r: "reap None None 5000 sample_queue demo_sessions = (a, b, c, d, e)"
    by (metis prod_cases5)
  show ?thesis
    using reap_frees_sessions [OF reach_inv [OF sample_reach] session_path_inv [OF demo_path session_inv_empty] r x] x r
    by (auto simp: sample_get_all split: if_splits)
qed

section \<open>Draining a superseded build\<close>

text \<open>\<open>dr_calls\<close> is the sequence of \<open>protection.set\<close> calls.\<close>

record drain_state =
  dr_superseded :: bool
  dr_protectionOn :: bool
  dr_calls :: "bool list"

definition drain_sweep :: "bool \<Rightarrow> bool \<Rightarrow> bool \<Rightarrow> drain_state \<Rightarrow> drain_state" where
  "drain_sweep hasProtection beat busyNow d =
     (let d1 = d\<lparr>dr_superseded := beat\<rparr> in
      if \<not> hasProtection then d1
      else if busyNow then d1\<lparr>dr_calls := dr_calls d1 @ [True], dr_protectionOn := True\<rparr>
      else if dr_protectionOn d1 then d1\<lparr>dr_calls := dr_calls d1 @ [False], dr_protectionOn := False\<rparr>
      else d1)"

definition drain_stop :: "bool \<Rightarrow> drain_state \<Rightarrow> drain_state" where
  "drain_stop hasProtection d =
     (if dr_protectionOn d \<and> hasProtection
      then d\<lparr>dr_protectionOn := False, dr_calls := dr_calls d @ [False]\<rparr> else d)"

definition drain_canClaim :: "drain_state \<Rightarrow> bool" where
  "drain_canClaim d \<longleftrightarrow> \<not> dr_superseded d"

definition noteBusy :: "bool \<Rightarrow> drain_state \<Rightarrow> drain_state" where
  "noteBusy hasProtection d =
     (if \<not> hasProtection \<or> dr_protectionOn d then d
      else d\<lparr>dr_protectionOn := True, dr_calls := dr_calls d @ [True]\<rparr>)"

lemma drain_last_call:
  assumes "dr_protectionOn d = (dr_calls d \<noteq> [] \<and> last (dr_calls d))"
  shows "dr_protectionOn (drain_sweep h b u d) = (dr_calls (drain_sweep h b u d) \<noteq> [] \<and> last (dr_calls (drain_sweep h b u d)))"
    "dr_protectionOn (drain_stop h d) = (dr_calls (drain_stop h d) \<noteq> [] \<and> last (dr_calls (drain_stop h d)))"
    "dr_protectionOn (noteBusy h d) = (dr_calls (noteBusy h d) \<noteq> [] \<and> last (dr_calls (noteBusy h d)))"
  using assms by (auto simp: drain_sweep_def drain_stop_def noteBusy_def Let_def)

section \<open>Run signals\<close>

record run_signal =
  sg_kind :: string
  sg_text :: "string option"
  sg_ts :: "string option"

type_synonym signal_store = "(string, run_signal list) jsmap"

definition pending_signals :: "string \<Rightarrow> signal_store \<Rightarrow> run_signal list" where
  "pending_signals runId m = or_empty (map_get m runId)"

definition send_signal :: "string \<Rightarrow> run_signal \<Rightarrow> signal_store \<Rightarrow> signal_store" where
  "send_signal runId sig m = map_set runId (pending_signals runId m @ [sig]) m"

definition takePending :: "string \<Rightarrow> signal_store \<Rightarrow> signal_store \<times> run_signal list" where
  "takePending runId m = (map_delete runId m, pending_signals runId m)"

definition pendingRunIds :: "signal_store \<Rightarrow> string list" where
  "pendingRunIds m = map_keys m"

datatype signal_call = OnAbort | OnSteer string "string option" | Ignored

definition signal_call :: "run_signal \<Rightarrow> signal_call" where
  "signal_call sig =
     (if sg_kind sig = ''abort'' then OnAbort
      else if (sg_kind sig = ''steer'' \<or> sg_kind sig = ''followUp'') \<and> truthy (sg_text sig)
      then OnSteer (the (sg_text sig)) (sg_ts sig) else Ignored)"

text \<open>
  The poll of one run: its three flags, the store, the taken signals not yet handled, and the log of
  handled ones. \<open>drain\<close> takes the pending signals at once; the handlers run one by one.
\<close>

record poll_state =
  po_draining :: bool
  po_redrain :: bool
  po_accepting :: bool
  po_store :: signal_store
  po_batch :: "run_signal list"
  po_handled :: "run_signal list"

definition poll_start :: "signal_store \<Rightarrow> poll_state" where
  "poll_start m = \<lparr>po_draining = False, po_redrain = False, po_accepting = True, po_store = m, po_batch = [], po_handled = []\<rparr>"

definition poll_drain :: "string \<Rightarrow> bool \<Rightarrow> poll_state \<Rightarrow> poll_state" where
  "poll_drain runId forced p =
     (if \<not> po_accepting p \<and> \<not> forced then p
      else if po_draining p then p\<lparr>po_redrain := True\<rparr>
      else (case takePending runId (po_store p) of
              (m, batch) \<Rightarrow> p\<lparr>po_draining := True, po_store := m, po_batch := batch\<rparr>))"

text \<open>The \<open>finally\<close> of a drain.\<close>

definition poll_finally :: "string \<Rightarrow> poll_state \<Rightarrow> poll_state" where
  "poll_finally runId p =
     (let p1 = p\<lparr>po_draining := False\<rparr> in
      if po_redrain p1 then poll_drain runId False (p1\<lparr>po_redrain := False\<rparr>) else p1)"

datatype poll_op = PSend run_signal | PTick | PHandle | PFail | PStop bool

fun poll_apply :: "string \<Rightarrow> poll_op \<Rightarrow> poll_state \<Rightarrow> poll_state" where
  "poll_apply runId (PSend sig) p =
     (let p1 = p\<lparr>po_store := send_signal runId sig (po_store p)\<rparr>
      in if po_accepting p1 then poll_drain runId False p1 else p1)"
| "poll_apply runId PTick p = (if po_accepting p then poll_drain runId False p else p)"
| "poll_apply runId PHandle p =
     (if \<not> po_draining p then p
      else (case po_batch p of
              [] \<Rightarrow> poll_finally runId p
            | sig # rest \<Rightarrow> p\<lparr>po_batch := rest, po_handled := po_handled p @ [sig]\<rparr>))"
| "poll_apply runId PFail p = (if \<not> po_draining p then p else poll_finally runId (p\<lparr>po_batch := []\<rparr>))"
| "poll_apply runId (PStop drainOnStop) p =
     (let p1 = p\<lparr>po_accepting := False\<rparr> in if drainOnStop then poll_drain runId True p1 else p1)"

fun poll_sent :: "poll_op list \<Rightarrow> run_signal list" where
  "poll_sent [] = []"
| "poll_sent (PSend sig # ops) = sig # poll_sent ops"
| "poll_sent (op # ops) = poll_sent ops"

definition poll_all :: "string \<Rightarrow> poll_state \<Rightarrow> run_signal list" where
  "poll_all runId p = po_handled p @ po_batch p @ pending_signals runId (po_store p)"

definition poll_ok :: "poll_state \<Rightarrow> bool" where
  "poll_ok p \<longleftrightarrow> (po_draining p \<or> po_batch p = [])"

lemma pending_simps [simp]:
  "pending_signals i (map_set i xs m) = xs" "pending_signals i (map_delete i m) = []"
  by (simp_all add: pending_signals_def)

lemma poll_drain_all: "poll_ok p \<Longrightarrow> poll_all i (poll_drain i f p) = poll_all i p \<and> poll_ok (poll_drain i f p)"
  by (auto simp: poll_drain_def poll_all_def poll_ok_def takePending_def)

lemma poll_finally_all: "po_batch p = [] \<Longrightarrow> poll_all i (poll_finally i p) = poll_all i p \<and> poll_ok (poll_finally i p)"
  using poll_drain_all [of "p\<lparr>po_draining := False, po_redrain := False\<rparr>" i False]
  by (auto simp: poll_finally_def Let_def poll_ok_def poll_all_def)

lemma poll_apply_all:
  assumes "poll_ok p" "op \<noteq> PFail"
  shows "poll_all i (poll_apply i op p) = poll_all i p @ poll_sent [op] \<and> poll_ok (poll_apply i op p)"
proof (cases op)
  case (PSend sig)
  have "poll_ok (p\<lparr>po_store := send_signal i sig (po_store p)\<rparr>)"
    "poll_all i (p\<lparr>po_store := send_signal i sig (po_store p)\<rparr>) = poll_all i p @ [sig]"
    using assms(1) by (simp_all add: poll_ok_def poll_all_def send_signal_def)
  then show ?thesis
    using PSend poll_drain_all by (simp add: Let_def)
next
  case PHandle
  then show ?thesis
    using assms(1) poll_finally_all [of p i] by (auto simp: poll_ok_def poll_all_def split: list.split)
next
  case (PStop d)
  have "poll_ok (p\<lparr>po_accepting := False\<rparr>)" "poll_all i (p\<lparr>po_accepting := False\<rparr>) = poll_all i p"
    using assms(1) by (simp_all add: poll_ok_def poll_all_def)
  then show ?thesis
    using PStop poll_drain_all by (simp add: Let_def)
qed (use assms poll_drain_all in auto)

lemma poll_sent_Cons: "poll_sent (op # ops) = poll_sent [op] @ poll_sent ops"
  by (cases op) simp_all



text \<open>
  A forced drain at stop while another drain is under way only sets \<open>redrain\<close>, and the \<open>finally\<close> calls
  the unforced \<open>drain\<close>, which returns because the poll no longer accepts: a signal that came in
  meanwhile stays pending although the poll was stopped with \<open>drainOnStop\<close>.
\<close>

lemma drain_on_stop_lost:
  "let a = \<lparr>sg_kind = ''steer'', sg_text = Some ''x'', sg_ts = None\<rparr>;
       b = \<lparr>sg_kind = ''abort'', sg_text = None, sg_ts = None\<rparr>;
       p = fold (poll_apply ''r'') [PSend a, PSend b, PStop True, PHandle, PHandle, PHandle, PHandle] (poll_start [])
   in \<not> po_draining p \<and> po_handled p = [a] \<and> pending_signals ''r'' (po_store p) = [b]"
  by (simp add: poll_start_def poll_drain_def poll_finally_def takePending_def send_signal_def pending_signals_def Let_def)

end
