(* ===== verification/Durable_Map.thy ===== *)
theory Durable_Map
  imports Core_Types
begin

text \<open>
  The in-memory \<open>DurableMap\<close> of \<open>persistence/durable-map.ts\<close> and the contract its clients (grants,
  identity, roster, deliveries, triggers, monitors) rely on, as a locale interpreted on it.
\<close>

section \<open>Operations\<close>

text \<open>\<open>applyPatch\<close> on an object: an undefined field of the patch deletes, any other sets.\<close>

definition applyPatch :: "(string, js_value) jsmap \<Rightarrow> (string \<times> js_value option) list \<Rightarrow> (string, js_value) jsmap" where
  "applyPatch v patch =
     fold (\<lambda>(k, x) nx. case x of None \<Rightarrow> map_delete k nx | Some y \<Rightarrow> map_set k y nx) patch v"

definition key_cmp :: "(string \<times> 'v) \<Rightarrow> (string \<times> 'v) \<Rightarrow> int" where
  "key_cmp a b = (if fst a < fst b then -1 else if fst a > fst b then 1 else 0)"

definition dm_entries :: "(string, 'v) jsmap \<Rightarrow> (string \<times> 'v) list" where
  "dm_entries m = js_sort key_cmp m"

definition dm_all :: "(string, 'v) jsmap \<Rightarrow> 'v list" where
  "dm_all m = map snd (dm_entries m)"

definition dm_get :: "string \<Rightarrow> (string, 'v) jsmap \<Rightarrow> 'v option" where
  "dm_get i m = map_get m i"

definition dm_put :: "string \<Rightarrow> 'v \<Rightarrow> (string, 'v) jsmap \<Rightarrow> (string, 'v) jsmap" where
  "dm_put i v m = map_set i v m"

definition dm_putIfAbsent :: "string \<Rightarrow> 'v \<Rightarrow> (string, 'v) jsmap \<Rightarrow> (string, 'v) jsmap \<times> 'v" where
  "dm_putIfAbsent i v m = (case map_get m i of Some w \<Rightarrow> (m, w) | None \<Rightarrow> (map_set i v m, v))"

definition dm_insertIfAbsent :: "string \<Rightarrow> 'v \<Rightarrow> (string, 'v) jsmap \<Rightarrow> (string, 'v) jsmap \<times> bool" where
  "dm_insertIfAbsent i v m = (if map_has m i then (m, False) else (map_set i v m, True))"

text \<open>\<open>merge\<close> with the patch as a function of the stored value; \<open>update\<close> has the same shape.\<close>

definition dm_merge :: "string \<Rightarrow> ('v \<Rightarrow> 'v) \<Rightarrow> (string, 'v) jsmap \<Rightarrow> (string, 'v) jsmap \<times> 'v option" where
  "dm_merge i patch m = (case map_get m i of None \<Rightarrow> (m, None) | Some v \<Rightarrow> (map_set i (patch v) m, Some (patch v)))"

definition dm_update :: "string \<Rightarrow> ('v \<Rightarrow> 'v) \<Rightarrow> (string, 'v) jsmap \<Rightarrow> (string, 'v) jsmap \<times> 'v option" where
  "dm_update i f m = (case map_get m i of None \<Rightarrow> (m, None) | Some v \<Rightarrow> (map_set i (f v) m, Some (f v)))"

definition dm_deleteIf :: "string \<Rightarrow> ('v \<Rightarrow> bool) \<Rightarrow> (string, 'v) jsmap \<Rightarrow> (string, 'v) jsmap \<times> bool" where
  "dm_deleteIf i p m =
     (case map_get m i of None \<Rightarrow> (m, False) | Some v \<Rightarrow> if \<not> p v then (m, False) else (map_delete i m, True))"

definition dm_delete :: "string \<Rightarrow> (string, 'v) jsmap \<Rightarrow> (string, 'v) jsmap" where
  "dm_delete i m = map_delete i m"

definition dm_take :: "string \<Rightarrow> (string, 'v) jsmap \<Rightarrow> (string, 'v) jsmap \<times> 'v option" where
  "dm_take i m = (map_delete i m, map_get m i)"

section \<open>The contract\<close>

locale durable_map =
  fixes inv :: "'m \<Rightarrow> bool"
    and lookup :: "string \<Rightarrow> 'm \<Rightarrow> 'v option"
    and store :: "string \<Rightarrow> 'v \<Rightarrow> 'm \<Rightarrow> 'm"
    and remove :: "string \<Rightarrow> 'm \<Rightarrow> 'm"
    and insert_new :: "string \<Rightarrow> 'v \<Rightarrow> 'm \<Rightarrow> 'm \<times> bool"
    and take_out :: "string \<Rightarrow> 'm \<Rightarrow> 'm \<times> 'v option"
    and all :: "'m \<Rightarrow> 'v list"
  assumes store_inv: "inv m \<Longrightarrow> inv (store i v m)"
    and remove_inv: "inv m \<Longrightarrow> inv (remove i m)"
    and insert_inv: "inv m \<Longrightarrow> inv (fst (insert_new i v m))"
    and take_inv: "inv m \<Longrightarrow> inv (fst (take_out i m))"
    and lookup_store: "lookup j (store i v m) = (if j = i then Some v else lookup j m)"
    and lookup_remove: "lookup j (remove i m) = (if j = i then None else lookup j m)"
    and insert_won: "snd (insert_new i v m) \<longleftrightarrow> lookup i m = None"
    and lookup_insert: "lookup j (fst (insert_new i v m)) = (if lookup i m = None \<and> j = i then Some v else lookup j m)"
    and take_result: "snd (take_out i m) = lookup i m"
    and lookup_take: "lookup j (fst (take_out i m)) = (if j = i then None else lookup j m)"
    and all_values: "inv m \<Longrightarrow> v \<in> set (all m) \<longleftrightarrow> (\<exists>i. lookup i m = Some v)"
begin

text \<open>Of two inserts under one key at most one wins, whatever is stored in between under other keys.\<close>

lemma insert_once: "snd (insert_new i v m) \<Longrightarrow> \<not> snd (insert_new i w (fst (insert_new i v m)))"
  by (simp add: insert_won lookup_insert)

lemma insert_once_stores:
  "snd (insert_new i v m) \<Longrightarrow> \<not> snd (insert_new i w (store j x (fst (insert_new i v m))))"
  by (simp add: insert_won lookup_insert lookup_store)

text \<open>A value is taken out at most once.\<close>

lemma take_once: "snd (take_out i (fst (take_out i m))) = None"
  by (simp add: take_result lookup_take)

lemma insert_then_take: "lookup i m = None \<Longrightarrow> snd (take_out i (fst (insert_new i v m))) = Some v"
  by (simp add: take_result lookup_insert)

lemma all_store: "inv m \<Longrightarrow> set (all (store i v m)) \<subseteq> insert v (set (all m))"
  by (auto simp: all_values store_inv lookup_store split: if_splits)

end

lemma map_set_dm_entries [simp]: "set (dm_entries m) = set m"
  by (simp add: dm_entries_def)

lemma set_dm_all: "set (dm_all m) = set (map_values m)"
  by (simp add: dm_all_def)

interpretation memory_map: durable_map map_wf dm_get dm_put dm_delete dm_insertIfAbsent dm_take dm_all
proof unfold_locales
  fix m :: "(string, 'v) jsmap" and v
  assume "map_wf m"
  then show "v \<in> set (dm_all m) \<longleftrightarrow> (\<exists>i. dm_get i m = Some v)"
    using map_wf_value_get [of m v] map_get_in_values [of m] by (auto simp: set_dm_all dm_get_def)
qed (auto simp: dm_get_def dm_put_def dm_delete_def dm_insertIfAbsent_def dm_take_def)

lemma sorted_dm_entries: "sorted_wrt (\<lambda>a b. fst a \<le> fst b) (dm_entries m)"
proof -
  have "sorted_wrt (\<lambda>a b. key_cmp a b \<le> 0) (dm_entries m)"
    unfolding dm_entries_def by (rule sorted_js_sort) (auto simp: key_cmp_def transp_on_def split: if_splits)
  then show ?thesis
    by (rule sorted_wrt_mono_rel [rotated]) (auto simp: key_cmp_def split: if_splits)
qed

lemma applyPatch_get:
  "distinct (map fst patch) \<Longrightarrow> map_get (applyPatch v patch) k =
     (case map_of patch k of None \<Rightarrow> map_get v k | Some x \<Rightarrow> x)"
proof (induction patch arbitrary: v)
  case (Cons p patch)
  obtain j x where p: "p = (j, x)" by fastforce
  have "map_of patch j = None"
    using Cons.prems p by (simp add: map_of_eq_None_iff)
  then show ?case
    using Cons.IH [of "case x of None \<Rightarrow> map_delete j v | Some y \<Rightarrow> map_set j y v"] Cons.prems p
    by (cases x) (auto simp: applyPatch_def split: option.splits)
qed (simp add: applyPatch_def)

end
