(* ===== verification/Directory.thy ===== *)
theory Directory
  imports Durable_Map
begin

text \<open>
  The workspace directory: \<open>directory/directory-store.ts\<close>, \<open>directory/visibility.ts\<close>,
  \<open>directory/team-store.ts\<close>, \<open>directory/roster-overrides.ts\<close>, and channel reach
  (\<open>resolution/scope-reach.ts\<close>).
\<close>

section \<open>The directory store\<close>

record directory_member =
  dmem_principalId :: string
  dmem_displayName :: string
  dmem_type :: principal_type
  dmem_slackId :: "string option"

record directory_channel =
  dch_channelId :: string
  dch_name :: string
  dch_isPrivate :: "bool option"

datatype 't resolution = OneMatch 't | AmbiguousMatch "'t list" | NoMatch

record directory =
  dir_members :: "directory_member list"
  dir_channels :: "directory_channel list"
  dir_channelMembers :: "(string, string list) jsmap option"
  dir_groupMembers :: "(string, string list) jsmap option"
  dir_groupsSynced :: bool
  dir_workspaceUrl :: "string option"

definition empty_directory :: directory where
  "empty_directory =
     \<lparr>dir_members = [], dir_channels = [], dir_channelMembers = None, dir_groupMembers = None,
      dir_groupsSynced = False, dir_workspaceUrl = None\<rparr>"

definition groupParticipantsKey :: "string list \<Rightarrow> string" where
  "groupParticipantsKey ps = js_join '','' (sort (js_dedup (filter (\<lambda>p. p \<noteq> []) ps)))"

definition MAX_CANDIDATES :: nat where
  "MAX_CANDIDATES = 10"

definition normDirectoryQuery :: "string \<Rightarrow> string" where
  "normDirectoryQuery s =
     (case js_toLowerCase (js_trim s) of
        [] \<Rightarrow> []
      | c # cs \<Rightarrow> if c = CHR ''@'' \<or> c = CHR ''#'' then cs else c # cs)"

fun js_includes :: "string \<Rightarrow> string \<Rightarrow> bool" where
  "js_includes [] q = (q = [])"
| "js_includes (c # cs) q = (js_startsWith (c # cs) q \<or> js_includes cs q)"

definition pickMatch :: "'t list \<Rightarrow> string \<Rightarrow> ('t \<Rightarrow> string) \<Rightarrow> ('t \<Rightarrow> string) \<Rightarrow> 't resolution" where
  "pickMatch items query idf label =
     (let q = normDirectoryQuery query in
      if q = [] then NoMatch
      else
        (case List.find (\<lambda>t. js_toLowerCase (idf t) = q) items of
           Some t \<Rightarrow> OneMatch t
         | None \<Rightarrow>
             (let exact = filter (\<lambda>t. normDirectoryQuery (label t) = q) items in
              case exact of
                [t] \<Rightarrow> OneMatch t
              | _ # _ # _ \<Rightarrow> AmbiguousMatch (take MAX_CANDIDATES exact)
              | [] \<Rightarrow>
                  (let prefix = filter (\<lambda>t. js_startsWith (normDirectoryQuery (label t)) q) items;
                       pool = (if prefix \<noteq> [] then prefix
                               else filter (\<lambda>t. js_includes (normDirectoryQuery (label t)) q) items)
                   in case pool of
                        [] \<Rightarrow> NoMatch
                      | [t] \<Rightarrow> OneMatch t
                      | _ \<Rightarrow> AmbiguousMatch (take MAX_CANDIDATES pool)))))"

definition dir_replace :: "directory_member list \<Rightarrow> directory \<Rightarrow> directory" where
  "dir_replace ms d = d\<lparr>dir_members := filter (\<lambda>m. dmem_principalId m \<noteq> [] \<and> dmem_type m = Internal) ms\<rparr>"

text \<open>The loop that groups memberships: blank ids are skipped, members are sets in insertion order.\<close>

definition add_membership :: "string \<times> string \<Rightarrow> (string, string list) jsmap \<Rightarrow> (string, string list) jsmap" where
  "add_membership gm m =
     (case gm of (g, p) \<Rightarrow>
        if g = [] \<or> p = [] then m
        else (let ps = (case map_get m g of None \<Rightarrow> [] | Some ps \<Rightarrow> ps)
              in map_set g (if p \<in> set ps then ps else ps @ [p]) m))"

definition dir_replaceChannels ::
  "directory_channel list \<Rightarrow> (string \<times> string) list option \<Rightarrow> directory \<Rightarrow> directory" where
  "dir_replaceChannels chs mems d =
     (let d1 = d\<lparr>dir_channels := filter (\<lambda>c. dch_channelId c \<noteq> [] \<and> dch_name c \<noteq> []) chs\<rparr>
      in case mems of None \<Rightarrow> d1 | Some ms \<Rightarrow> d1\<lparr>dir_channelMembers := Some (fold add_membership ms [])\<rparr>)"

definition has_member :: "(string, string list) jsmap option \<Rightarrow> string \<Rightarrow> string \<Rightarrow> bool" where
  "has_member mm g p =
     (case mm of None \<Rightarrow> False | Some m \<Rightarrow> (case map_get m g of None \<Rightarrow> False | Some ps \<Rightarrow> p \<in> set ps))"

definition find_channel :: "directory \<Rightarrow> string \<Rightarrow> directory_channel option" where
  "find_channel d c = List.find (\<lambda>x. dch_channelId x = c) (dir_channels d)"

definition channelMember :: "directory \<Rightarrow> string \<Rightarrow> string \<Rightarrow> bool" where
  "channelMember d c p = has_member (dir_channelMembers d) c p"

definition channelMembership :: "directory \<Rightarrow> string \<Rightarrow> string \<Rightarrow> bool option" where
  "channelMembership d c p =
     (case (dir_channelMembers d, find_channel d c) of
        (Some m, Some ch) \<Rightarrow>
          (let mem = has_member (Some m) c p
           in if mem \<or> dch_isPrivate ch = Some True then Some mem else None)
      | _ \<Rightarrow> None)"

definition channelPrivacy :: "directory \<Rightarrow> string \<Rightarrow> bool option" where
  "channelPrivacy d c = map_option (\<lambda>ch. dch_isPrivate ch = Some True) (find_channel d c)"

definition dir_replaceGroups :: "(string \<times> string) list \<Rightarrow> directory \<Rightarrow> directory" where
  "dir_replaceGroups ms d =
     d\<lparr>dir_groupMembers := Some (fold add_membership ms []), dir_groupsSynced := True\<rparr>"

definition upsertGroup :: "string \<Rightarrow> string list \<Rightarrow> directory \<Rightarrow> directory" where
  "upsertGroup g ps d =
     (let ids = filter (\<lambda>p. p \<noteq> []) ps in
      if g = [] \<or> ids = [] then d
      else d\<lparr>dir_groupMembers := Some (map_set g (js_dedup ids) (case dir_groupMembers d of None \<Rightarrow> [] | Some m \<Rightarrow> m))\<rparr>)"

definition resolveGroupByParticipants :: "string list \<Rightarrow> directory \<Rightarrow> string option" where
  "resolveGroupByParticipants ps d =
     (let key = groupParticipantsKey ps in
      if key = [] then None
      else map_option fst
             (List.find (\<lambda>(g, ms). groupParticipantsKey ms = key)
               (case dir_groupMembers d of None \<Rightarrow> [] | Some m \<Rightarrow> m)))"

definition groupMember :: "directory \<Rightarrow> string \<Rightarrow> string \<Rightarrow> bool" where
  "groupMember d g p = has_member (dir_groupMembers d) g p"

definition groupMembership :: "directory \<Rightarrow> string \<Rightarrow> string \<Rightarrow> bool option" where
  "groupMembership d g p =
     (if dir_groupMembers d = None \<or> \<not> dir_groupsSynced d then None else Some (has_member (dir_groupMembers d) g p))"

definition listGroupsFor :: "string \<Rightarrow> directory \<Rightarrow> string list" where
  "listGroupsFor p d =
     (case dir_groupMembers d of None \<Rightarrow> [] | Some m \<Rightarrow> map fst (filter (\<lambda>(g, ms). p \<in> set ms) m))"

definition listChannelsFor :: "string \<Rightarrow> directory \<Rightarrow> directory_channel list" where
  "listChannelsFor p d =
     filter (\<lambda>c. dch_isPrivate c \<noteq> Some True \<or> has_member (dir_channelMembers d) (dch_channelId c) p) (dir_channels d)"

definition dir_get :: "directory \<Rightarrow> string \<Rightarrow> directory_member option" where
  "dir_get d p = List.find (\<lambda>m. samePerson (Some (dmem_principalId m)) (Some p)) (dir_members d)"

definition dir_resolve :: "string \<Rightarrow> directory \<Rightarrow> directory_member resolution" where
  "dir_resolve query d =
     (case List.find (\<lambda>x. truthy (dmem_slackId x) \<and> dmem_slackId x = Some (js_trim query)) (dir_members d) of
        Some m \<Rightarrow> OneMatch m
      | None \<Rightarrow> pickMatch (dir_members d) query dmem_principalId dmem_displayName)"

definition dir_resolveChannel :: "string \<Rightarrow> directory \<Rightarrow> directory_channel resolution" where
  "dir_resolveChannel query d = pickMatch (dir_channels d) query dch_channelId dch_name"

section \<open>Visibility\<close>

datatype visibility_target =
    DmTarget string
  | GroupTarget string
  | ChannelTarget string "bool option"

record visibility_directory =
  vd_channelMember :: "string \<Rightarrow> string \<Rightarrow> bool"
  vd_groupMember :: "string \<Rightarrow> string \<Rightarrow> bool"
  vd_listChannelsFor :: "(string \<Rightarrow> directory_channel list) option"

definition isVisible :: "visibility_directory \<Rightarrow> string \<Rightarrow> visibility_target \<Rightarrow> bool" where
  "isVisible vd actorId target =
     (case target of
        DmTarget ownerId \<Rightarrow> samePerson (Some actorId) (Some ownerId)
      | GroupTarget g \<Rightarrow> vd_groupMember vd g actorId
      | ChannelTarget c priv \<Rightarrow>
          (case priv of
             Some True \<Rightarrow> vd_channelMember vd c actorId
           | Some False \<Rightarrow> True
           | None \<Rightarrow>
               (case vd_listChannelsFor vd of
                  None \<Rightarrow> False
                | Some f \<Rightarrow> list_ex (\<lambda>ch. dch_channelId ch = c) (f actorId))))"

definition directory_visibility :: "directory \<Rightarrow> visibility_directory" where
  "directory_visibility d =
     \<lparr>vd_channelMember = channelMember d, vd_groupMember = groupMember d,
      vd_listChannelsFor = Some (\<lambda>p. listChannelsFor p d)\<rparr>"

text \<open>The message of a failed reach is named by its case.\<close>

datatype reach_error = NoSuchChannel string | ManyChannels string "string list" | PrivateChannel string | UnknownActor string

record reached_channel =
  rc_scopeId :: scope_id
  rc_channelId :: string
  rc_channelName :: string
  rc_isPrivate :: bool

definition resolveReachableChannel :: "string \<Rightarrow> directory \<Rightarrow> string \<Rightarrow> reach_error + reached_channel" where
  "resolveReachableChannel query d actorId =
     (case dir_resolveChannel query d of
        NoMatch \<Rightarrow> Inl (NoSuchChannel query)
      | AmbiguousMatch cs \<Rightarrow> Inl (ManyChannels query (map dch_name cs))
      | OneMatch ch \<Rightarrow>
          (let priv = (dch_isPrivate ch = Some True) in
           if \<not> isVisible (directory_visibility d) actorId (ChannelTarget (dch_channelId ch) (Some priv))
           then Inl (if dir_get d actorId \<noteq> None then PrivateChannel (dch_name ch) else UnknownActor (dch_name ch))
           else Inr \<lparr>rc_scopeId = scopeId Channel (dch_channelId ch), rc_channelId = dch_channelId ch,
                     rc_channelName = dch_name ch, rc_isPrivate = priv\<rparr>))"

lemma pickMatch_member: "pickMatch items q f l = OneMatch t \<Longrightarrow> t \<in> set items"
proof -
  have one: "filter P items = [t] \<Longrightarrow> t \<in> set items" for P
    by (metis filter_is_subset list.set_intros(1) subsetD)
  assume "pickMatch items q f l = OneMatch t"
  then show ?thesis
    by (auto simp: pickMatch_def Let_def dest: find_SomeD one split: if_splits option.splits list.splits)
qed

lemma pickMatch_bounded: "pickMatch items q f l = AmbiguousMatch ts \<Longrightarrow> length ts \<le> MAX_CANDIDATES"
  by (auto simp: pickMatch_def Let_def split: if_splits option.splits list.splits)

text \<open>A private channel is reached by name only by a recorded member of it: the result names a listed
  channel, and a private one only if the directory has the actor as its member.\<close>

theorem reachable_channel_visible:
  assumes "resolveReachableChannel query d actor = Inr r"
  shows "rc_scopeId r = scopeId Channel (rc_channelId r) \<and>
    (\<exists>ch \<in> set (dir_channels d). dch_channelId ch = rc_channelId r \<and> dch_name ch = rc_channelName r \<and>
       (dch_isPrivate ch = Some True \<longrightarrow> channelMember d (rc_channelId r) actor))"
  using assms
  by (auto simp: resolveReachableChannel_def Let_def dir_resolveChannel_def isVisible_def directory_visibility_def
      dest: pickMatch_member split: resolution.splits if_splits bool.splits)

definition demo_directory :: directory where
  "demo_directory = dir_replaceChannels [\<lparr>dch_channelId = ''C1'', dch_name = ''ops'', dch_isPrivate = Some True\<rparr>]
     (Some [(''C1'', ''u@x'')]) empty_directory"

lemma demo_reach: "resolveReachableChannel ''#ops'' demo_directory ''u@x'' =
    Inr \<lparr>rc_scopeId = scopeId Channel ''C1'', rc_channelId = ''C1'', rc_channelName = ''ops'', rc_isPrivate = True\<rparr>"
  by code_simp

lemma reachable_channel_visible_witness: "channelMember demo_directory ''C1'' ''u@x''"
  using reachable_channel_visible [OF demo_reach]
  by (simp add: demo_directory_def dir_replaceChannels_def Let_def)

section \<open>Teams\<close>

record team =
  tm_id :: string
  tm_name :: string
  tm_parentId :: "string option"

definition MAX_TEAM_DEPTH :: nat where
  "MAX_TEAM_DEPTH = 16"

function ancestry_loop :: "(string, team) jsmap \<Rightarrow> string list \<Rightarrow> string option \<Rightarrow> string list outcome" where
  "ancestry_loop teams chain current =
     (if \<not> truthy current \<or> length chain \<ge> MAX_TEAM_DEPTH then Inr chain
      else if the current \<in> set chain then Inr chain
      else (case map_get teams (the current) of
              None \<Rightarrow> if chain = [] then Inr chain else Inl (BrokenTeamChainError (last chain) (the current))
            | Some t \<Rightarrow> ancestry_loop teams (chain @ [the current]) (tm_parentId t)))"
  by pat_completeness auto
termination
  by (relation "measure (\<lambda>(teams, chain, current). MAX_TEAM_DEPTH - length chain)") auto

declare ancestry_loop.simps [simp del]

definition teamAncestry :: "(string, team) jsmap \<Rightarrow> string \<Rightarrow> string list outcome" where
  "teamAncestry teams teamId = ancestry_loop teams [] (Some teamId)"

record team_store =
  ts_teams :: "(string, team) jsmap"
  ts_memberTeam :: "(string, string) jsmap"

definition team_upsert :: "team \<Rightarrow> team_store \<Rightarrow> team_store" where
  "team_upsert t s = s\<lparr>ts_teams := map_set (tm_id t) t (ts_teams s)\<rparr>"

definition team_remove :: "string \<Rightarrow> team_store \<Rightarrow> team_store" where
  "team_remove i s =
     s\<lparr>ts_teams := map_delete i (ts_teams s), ts_memberTeam := filter (\<lambda>(p, t). t \<noteq> i) (ts_memberTeam s)\<rparr>"

definition team_list :: "team_store \<Rightarrow> team list" where
  "team_list s = map_values (ts_teams s)"

definition setMember :: "string \<Rightarrow> string \<Rightarrow> team_store \<Rightarrow> team_store" where
  "setMember teamId p s = s\<lparr>ts_memberTeam := map_set p teamId (ts_memberTeam s)\<rparr>"

definition team_removeMember :: "string \<Rightarrow> team_store \<Rightarrow> team_store" where
  "team_removeMember p s = s\<lparr>ts_memberTeam := map_delete p (ts_memberTeam s)\<rparr>"

definition team_members :: "string \<Rightarrow> team_store \<Rightarrow> string list" where
  "team_members teamId s = map fst (filter (\<lambda>(p, t). t = teamId) (ts_memberTeam s))"

definition teamOf :: "string \<Rightarrow> team_store \<Rightarrow> string option" where
  "teamOf p s = map_get (ts_memberTeam s) p"

text \<open>The chain follows parents, has no repetition and ends by the depth bound.\<close>

definition parent_chain :: "(string, team) jsmap \<Rightarrow> string list \<Rightarrow> bool" where
  "parent_chain teams xs \<longleftrightarrow>
     (\<forall>k < length xs. \<exists>t. map_get teams (xs ! k) = Some t \<and> (Suc k < length xs \<longrightarrow> tm_parentId t = Some (xs ! Suc k)))"

lemma ancestry_loop_inv:
  assumes "distinct chain" "parent_chain teams chain" "length chain \<le> MAX_TEAM_DEPTH"
    and "chain \<noteq> [] \<Longrightarrow> (\<exists>t. map_get teams (last chain) = Some t \<and> tm_parentId t = current)"
  shows "case ancestry_loop teams chain current of
      Inl e \<Rightarrow> (\<exists>t i. e = BrokenTeamChainError t i \<and> map_get teams i = None \<and>
                 (\<exists>x. map_get teams t = Some x \<and> tm_parentId x = Some i))
    | Inr ys \<Rightarrow> distinct ys \<and> parent_chain teams ys \<and> length ys \<le> MAX_TEAM_DEPTH \<and> (\<exists>zs. ys = chain @ zs)"
  using assms
proof (induction teams chain current rule: ancestry_loop.induct)
  case (1 teams chain current)
  show ?case
  proof (cases "\<not> truthy current \<or> length chain \<ge> MAX_TEAM_DEPTH \<or> the current \<in> set chain")
    case True
    then show ?thesis
      using 1(2-4) by (subst ancestry_loop.simps) auto
  next
    case go: False
    then obtain c where c: "current = Some c" "c \<noteq> []" "length chain < MAX_TEAM_DEPTH" "c \<notin> set chain"
      by (cases current) auto
    show ?thesis
    proof (cases "map_get teams c")
      case None
      then show ?thesis
        using 1(2-5) c by (subst ancestry_loop.simps) auto
    next
      case (Some t)
      have "parent_chain teams (chain @ [c])"
        unfolding parent_chain_def
      proof (intro allI impI)
        fix k assume k: "k < length (chain @ [c])"
        show "\<exists>t. map_get teams ((chain @ [c]) ! k) = Some t \<and>
                (Suc k < length (chain @ [c]) \<longrightarrow> tm_parentId t = Some ((chain @ [c]) ! Suc k))"
        proof (cases "Suc k = length chain")
          case True
          then show ?thesis
            using 1(5) c(1) by (cases chain rule: rev_cases) (auto simp: nth_append)
        next
          case False
          then have "k = length chain \<or> Suc k < length chain"
            using k by auto
          then show ?thesis
            using 1(3) [unfolded parent_chain_def, rule_format, of k] Some by (auto simp: nth_append)
        qed
      qed
      then have "case ancestry_loop teams (chain @ [c]) (tm_parentId t) of
          Inl e \<Rightarrow> (\<exists>t i. e = BrokenTeamChainError t i \<and> map_get teams i = None \<and>
                 (\<exists>x. map_get teams t = Some x \<and> tm_parentId x = Some i))
        | Inr ys \<Rightarrow> distinct ys \<and> parent_chain teams ys \<and> length ys \<le> MAX_TEAM_DEPTH \<and> (\<exists>zs. ys = (chain @ [c]) @ zs)"
        using 1(1) [of t] 1(2) c Some by (auto simp del: append_assoc split: sum.splits)
      then show ?thesis
        using c Some by (subst ancestry_loop.simps) (auto split: sum.splits)
    qed
  qed
qed

text \<open>The ancestry of a team ends for every table of teams, cyclic ones included: it is a path of
  distinct known teams along the parent links, at most sixteen long and starting at the team asked for;
  the only error is a parent that does not exist.\<close>

theorem team_ancestry_sound:
  "case teamAncestry teams i of
     Inl e \<Rightarrow> (\<exists>t p x. e = BrokenTeamChainError t p \<and> map_get teams t = Some x \<and> tm_parentId x = Some p \<and> map_get teams p = None)
   | Inr chain \<Rightarrow> distinct chain \<and> length chain \<le> 16 \<and> parent_chain teams chain \<and>
       (chain = [] \<longleftrightarrow> i = [] \<or> map_get teams i = None) \<and> (chain = [] \<or> hd chain = i)"
proof -
  have loop: "case teamAncestry teams i of
      Inl e \<Rightarrow> (\<exists>t p. e = BrokenTeamChainError t p \<and> map_get teams p = None \<and>
                 (\<exists>x. map_get teams t = Some x \<and> tm_parentId x = Some p))
    | Inr ys \<Rightarrow> distinct ys \<and> parent_chain teams ys \<and> length ys \<le> MAX_TEAM_DEPTH \<and> (\<exists>zs. ys = [] @ zs)"
    unfolding teamAncestry_def by (rule ancestry_loop_inv) (simp_all add: parent_chain_def)
  have start: "teamAncestry teams i = (if i = [] \<or> map_get teams i = None then Inr []
      else ancestry_loop teams [i] (tm_parentId (the (map_get teams i))))"
    unfolding teamAncestry_def by (subst ancestry_loop.simps) (auto simp: MAX_TEAM_DEPTH_def split: option.split)
  have ext: "i \<noteq> [] \<Longrightarrow> map_get teams i = Some t \<Longrightarrow>
      (case ancestry_loop teams [i] (tm_parentId t) of Inl e \<Rightarrow> True | Inr ys \<Rightarrow> \<exists>zs. ys = [i] @ zs)" for t
    using ancestry_loop_inv [of "[i]" teams "tm_parentId t"]
    by (auto simp: parent_chain_def MAX_TEAM_DEPTH_def split: sum.splits)
  show ?thesis
    using loop ext start
    by (cases "i = [] \<or> map_get teams i = None") (auto simp: MAX_TEAM_DEPTH_def split: sum.splits)
qed

end
