(* ===== verification/Identity.thy ===== *)
theory Identity
  imports Directory
begin

text \<open>
  Who counts as internal: the identity service of \<open>identity/identity-service.ts\<close> and the roster
  overrides of \<open>directory/roster-overrides.ts\<close>, both over a durable map.
\<close>

section \<open>Identity service\<close>

datatype deactivation_source = Manual | DirectorySync

record deactivation =
  de_principalId :: string
  de_source :: deactivation_source
  de_at :: ms

record identity_service =
  id_store :: "(string, deactivation) jsmap"
  id_deactivated :: "(string, deactivation) jsmap"
  id_refreshedAt :: ms
  id_hydrated :: bool

definition identity_start :: "(string, deactivation) jsmap \<Rightarrow> identity_service" where
  "identity_start backing = \<lparr>id_store = backing, id_deactivated = [], id_refreshedAt = 0, id_hydrated = False\<rparr>"

definition REFRESH_TTL_MS :: ms where
  "REFRESH_TTL_MS = 10000"

record actor_assertion =
  aa_externalId :: string
  aa_isExternalGuest :: bool
  aa_teamIds :: "string list option"
  aa_displayName :: "string option"

definition classify :: "identity_service \<Rightarrow> string \<Rightarrow> bool \<Rightarrow> principal" where
  "classify s externalId isExternalGuest =
     \<lparr>p_id = externalId,
      p_type = (if map_has (id_deactivated s) (personKey (Some externalId)) \<or> isExternalGuest then Guest else Internal),
      p_teamIds = None, p_displayName = None\<rparr>"

definition deactivate :: "string \<Rightarrow> deactivation_source \<Rightarrow> ms \<Rightarrow> identity_service \<Rightarrow> identity_service" where
  "deactivate externalId source now s =
     (let key = personKey (Some externalId);
          rec = \<lparr>de_principalId = externalId, de_source = source, de_at = now\<rparr>;
          written = s\<lparr>id_deactivated := map_set key rec (id_deactivated s), id_store := dm_put key rec (id_store s)\<rparr>
      in case map_get (id_deactivated s) key of
           Some ex \<Rightarrow> if de_source ex = Manual \<or> de_source ex = source then s else written
         | None \<Rightarrow> written)"

definition reactivate :: "string \<Rightarrow> identity_service \<Rightarrow> identity_service" where
  "reactivate externalId s =
     (let key = personKey (Some externalId)
      in s\<lparr>id_deactivated := map_delete key (id_deactivated s), id_store := dm_delete key (id_store s)\<rparr>)"

definition sync_removed :: "ms \<Rightarrow> string \<Rightarrow> identity_service \<times> string list \<Rightarrow> identity_service \<times> string list" where
  "sync_removed now i acc =
     (case acc of (s, out) \<Rightarrow>
        if map_has (id_deactivated s) (personKey (Some i)) then (s, out)
        else (deactivate i DirectorySync now s, out @ [i]))"

definition sync_present :: "string \<Rightarrow> identity_service \<times> string list \<Rightarrow> identity_service \<times> string list" where
  "sync_present i acc =
     (case acc of (s, out) \<Rightarrow>
        if map_option de_source (map_get (id_deactivated s) (personKey (Some i))) \<noteq> Some DirectorySync then (s, out)
        else (reactivate i s, out @ [i]))"

text \<open>The outcome: the deactivated and the reactivated ids.\<close>

definition recordDirectorySync ::
  "string list \<Rightarrow> string list \<Rightarrow> ms \<Rightarrow> identity_service \<Rightarrow> identity_service \<times> string list \<times> string list" where
  "recordDirectorySync removedIds presentIds now s =
     (case fold (sync_removed now) removedIds (s, []) of
        (s1, out1) \<Rightarrow> (case fold sync_present presentIds (s1, []) of (s2, out2) \<Rightarrow> (s2, out1, out2)))"

definition hydrate :: "identity_service \<Rightarrow> identity_service" where
  "hydrate s =
     (if id_hydrated s then s
      else s\<lparr>id_hydrated := True,
             id_deactivated :=
               fold (\<lambda>r m. let key = personKey (Some (de_principalId r)) in if map_has m key then m else map_set key r m)
                 (dm_all (id_store s)) (id_deactivated s)\<rparr>)"

text \<open>\<open>refresh\<close> with no other refresh in flight; \<open>now\<close> before and \<open>later\<close> after the read.\<close>

definition refresh :: "ms \<Rightarrow> ms \<Rightarrow> identity_service \<Rightarrow> identity_service" where
  "refresh now later s =
     (if now - id_refreshedAt s < REFRESH_TTL_MS then s
      else s\<lparr>id_deactivated := fold (\<lambda>r m. map_set (personKey (Some (de_principalId r))) r m) (dm_all (id_store s)) [],
             id_refreshedAt := later\<rparr>)"

definition resolve_actor :: "identity_service \<Rightarrow> actor_assertion \<Rightarrow> principal" where
  "resolve_actor s actor =
     (classify s (aa_externalId actor) (aa_isExternalGuest actor))
       \<lparr>p_teamIds := aa_teamIds actor, p_displayName := (if truthy (aa_displayName actor) then aa_displayName actor else None)\<rparr>"

definition isInternal :: "principal \<Rightarrow> bool" where
  "isInternal p \<longleftrightarrow> p_type p = Internal"

definition audienceIsAllInternal :: "principal list \<Rightarrow> bool" where
  "audienceIsAllInternal audience \<longleftrightarrow> audience \<noteq> [] \<and> list_all (\<lambda>p. p_type p = Internal) audience"

definition deactivated_as :: "identity_service \<Rightarrow> string \<Rightarrow> deactivation_source option" where
  "deactivated_as s i = map_option de_source (map_get (id_deactivated s) (personKey (Some i)))"

lemma classify_type: "p_type (classify s i g) = (if deactivated_as s i \<noteq> None \<or> g then Guest else Internal)"
  by (simp add: classify_def deactivated_as_def)

lemma deactivated_as_deactivate:
  "deactivated_as (deactivate i src now s) j =
     (if personKey (Some j) = personKey (Some i) \<and> deactivated_as s i \<noteq> Some Manual then Some src else deactivated_as s j)"
  by (auto simp: deactivate_def deactivated_as_def Let_def split: option.splits)

lemma deactivated_as_reactivate:
  "deactivated_as (reactivate i s) j = (if personKey (Some j) = personKey (Some i) then None else deactivated_as s j)"
  by (simp add: reactivate_def deactivated_as_def Let_def)

lemma deactivated_as_removed:
  "deactivated_as (fst (fold (sync_removed now) ids (s, out))) j =
     (if deactivated_as s j \<noteq> None then deactivated_as s j
      else if personKey (Some j) \<in> (\<lambda>i. personKey (Some i)) ` set ids then Some DirectorySync else None)"
proof (induction ids arbitrary: s out)
  case (Cons i ids)
  show ?case
  proof (cases "map_has (id_deactivated s) (personKey (Some i))")
    case True
    then have "personKey (Some j) = personKey (Some i) \<Longrightarrow> deactivated_as s j \<noteq> None"
      by (auto simp: deactivated_as_def)
    then show ?thesis
      using Cons.IH [of s out] True by (auto simp: sync_removed_def)
  next
    case False
    then have "deactivated_as s i = None"
      by (simp add: deactivated_as_def)
    then show ?thesis
      using Cons.IH [of "deactivate i DirectorySync now s" "out @ [i]"] False
      by (auto simp: sync_removed_def deactivated_as_deactivate) (auto simp: deactivated_as_def)
  qed
qed (simp add: deactivated_as_def)

lemma deactivated_as_present:
  "deactivated_as (fst (fold sync_present ids (s, out))) j =
     (if deactivated_as s j = Some DirectorySync \<and> personKey (Some j) \<in> (\<lambda>i. personKey (Some i)) ` set ids then None
      else deactivated_as s j)"
proof (induction ids arbitrary: s out)
  case (Cons i ids)
  show ?case
  proof (cases "deactivated_as s i = Some DirectorySync")
    case True
    then show ?thesis
      using Cons.IH [of "reactivate i s" "out @ [i]"]
      by (auto simp: sync_present_def deactivated_as_reactivate deactivated_as_def [symmetric])
         (auto simp: deactivated_as_def)
  next
    case False
    then have "personKey (Some j) = personKey (Some i) \<Longrightarrow> deactivated_as s j \<noteq> Some DirectorySync"
      by (auto simp: deactivated_as_def)
    then show ?thesis
      using Cons.IH [of s out] False by (auto simp: sync_present_def deactivated_as_def [symmetric])
  qed
qed simp

text \<open>A directory sync never touches a manual deactivation; it makes a guest of exactly the removed
  people who are not present, and gives back exactly the present ones a sync had deactivated.\<close>

theorem directory_sync_respects_manual:
  assumes "recordDirectorySync removed present now s = (s', off, on)"
  shows "deactivated_as s' i =
    (if deactivated_as s i = Some Manual then Some Manual
     else if personKey (Some i) \<in> (\<lambda>j. personKey (Some j)) ` set present then None
     else if deactivated_as s i \<noteq> None \<or> personKey (Some i) \<in> (\<lambda>j. personKey (Some j)) ` set removed
     then Some DirectorySync else None) \<and>
   (p_type (classify s' i False) = Guest \<longleftrightarrow> deactivated_as s' i \<noteq> None)"
proof -
  have s': "s' = fst (fold sync_present present (fst (fold (sync_removed now) removed (s, [])), []))"
    using assms by (auto simp: recordDirectorySync_def split: prod.splits)
  have src: "deactivated_as s i = None \<or> deactivated_as s i = Some Manual \<or> deactivated_as s i = Some DirectorySync"
    by (metis deactivation_source.exhaust not_Some_eq)
  show ?thesis
    unfolding classify_type using src
    by (auto simp: s' deactivated_as_present deactivated_as_removed)
qed

lemma directory_sync_respects_manual_witness:
  "deactivated_as (fst (recordDirectorySync [''a@x''] [''b@x''] 5 (deactivate ''B@x'' Manual 1 (identity_start [])))) ''b@x'' = Some Manual"
proof -
  have "deactivated_as (deactivate ''B@x'' Manual 1 (identity_start [])) ''b@x'' = Some Manual"
    by code_simp
  then show ?thesis
    using directory_sync_respects_manual [OF prod.collapse [symmetric, THEN trans, OF arg_cong [OF prod.collapse [symmetric], of "Pair _"]],
        of "[''a@x'']" "[''b@x'']" 5 "deactivate ''B@x'' Manual 1 (identity_start [])" "''b@x''"] by simp
qed

section \<open>Roster overrides\<close>

datatype override_state = OvMember | OvRemoved

record roster_override =
  ro_principalId :: string
  ro_state :: override_state
  ro_displayName :: "string option"
  ro_at :: ms

type_synonym roster_store = "(string, roster_override) jsmap"

definition roster_list :: "roster_store \<Rightarrow> roster_override list" where
  "roster_list m = dm_all m"

definition roster_get :: "string \<Rightarrow> roster_store \<Rightarrow> roster_override option" where
  "roster_get i m = (let key = personKey (Some i) in if key \<noteq> [] then dm_get key m else None)"

definition isRemoved :: "string \<Rightarrow> roster_store \<Rightarrow> bool" where
  "isRemoved i m =
     (let key = personKey (Some i) in key \<noteq> [] \<and> map_option ro_state (dm_get key m) = Some OvRemoved)"

definition remember :: "string \<Rightarrow> string option \<Rightarrow> ms \<Rightarrow> roster_store \<Rightarrow> roster_store" where
  "remember i name at m =
     (let key = personKey (Some i) in
      if key = [] then m
      else dm_put key \<lparr>ro_principalId = i, ro_state = OvMember, ro_displayName = (if truthy name then name else None), ro_at = at\<rparr> m)"

definition trimmed_name :: "string option \<Rightarrow> string" where
  "trimmed_name n = js_trim (case n of None \<Rightarrow> [] | Some s \<Rightarrow> s)"

definition tombstone :: "string \<Rightarrow> string option \<Rightarrow> ms \<Rightarrow> roster_store \<Rightarrow> roster_store" where
  "tombstone i name at m =
     (let key = personKey (Some i) in
      if key = [] then m
      else
        (let kept = (if trimmed_name name \<noteq> [] then trimmed_name name
                     else trimmed_name (Option.bind (dm_get key m) ro_displayName))
         in dm_put key \<lparr>ro_principalId = i, ro_state = OvRemoved,
                        ro_displayName = (if kept \<noteq> [] then Some kept else None), ro_at = at\<rparr> m))"

definition forget :: "string \<Rightarrow> roster_store \<Rightarrow> roster_store" where
  "forget i m = (let key = personKey (Some i) in if key \<noteq> [] then dm_delete key m else m)"

definition override_map :: "roster_override list \<Rightarrow> (string, roster_override) jsmap" where
  "override_map os = fold (\<lambda>ov m. map_set (personKey (Some (ro_principalId ov))) ov m) os []"

definition merge_member ::
  "(string, roster_override) jsmap \<Rightarrow> directory_member \<Rightarrow> directory_member list \<times> string list \<Rightarrow> directory_member list \<times> string list" where
  "merge_member byKey member acc =
     (case acc of (kept, seen) \<Rightarrow>
        (let key = personKey (Some (dmem_principalId member)); ov = map_get byKey key in
         if map_option ro_state ov = Some OvRemoved then (kept, seen)
         else (kept @ [if truthy (Option.bind ov ro_displayName)
                       then member\<lparr>dmem_displayName := the (Option.bind ov ro_displayName)\<rparr> else member],
               key # seen)))"

definition merge_override :: "string list \<Rightarrow> roster_override \<Rightarrow> directory_member list" where
  "merge_override seen ov =
     (if ro_state ov \<noteq> OvMember \<or> personKey (Some (ro_principalId ov)) \<in> set seen then []
      else [\<lparr>dmem_principalId = ro_principalId ov,
             dmem_displayName = (case ro_displayName ov of None \<Rightarrow> ro_principalId ov | Some n \<Rightarrow> n),
             dmem_type = Internal, dmem_slackId = None\<rparr>])"

definition roster_merge :: "directory_member list \<Rightarrow> roster_store \<Rightarrow> directory_member list" where
  "roster_merge members m =
     (let overrides = dm_all m in
      if overrides = [] then members
      else (case fold (merge_member (override_map overrides)) members ([], []) of
              (kept, seen) \<Rightarrow> kept @ concat (map (merge_override seen) overrides)))"

end
