(* ===== verification/Access_Control.thy ===== *)
theory Access_Control
  imports Identity
begin

text \<open>
  Grants on resources (\<open>acl/acl-store.ts\<close>) with their in-memory persistence, and who may read, write
  and manage a scope (\<open>resolution/scope-membership.ts\<close>). The directory, the managed groups and the
  session history the code is given are records of functions whose lookups may reject.
\<close>

section \<open>Grants\<close>

datatype permission = ReadP | WriteP

record grant =
  g_ownerScopeId :: scope_id
  g_ref :: string
  g_granteeScopeId :: scope_id
  g_permission :: permission
  g_grantedBy :: string

record granted_handle =
  gh_handlePath :: string
  gh_ownerScopeId :: scope_id
  gh_ownerPath :: string
  gh_permission :: permission

fun permission_name :: "permission \<Rightarrow> string" where
  "permission_name ReadP = ''read''"
| "permission_name WriteP = ''write''"

definition isFileGrant :: "grant \<Rightarrow> bool" where
  "isFileGrant g \<longleftrightarrow> rr_kind (parseRef (g_ref g)) = KFile"

definition basename :: "string \<Rightarrow> string" where
  "basename p = (let l = last (js_split p (CHR ''/'')) in if l \<noteq> [] then l else p)"

definition toHandle :: "grant \<Rightarrow> granted_handle" where
  "toHandle g = \<lparr>gh_handlePath = ''shared/'' @ basename (g_ref g), gh_ownerScopeId = g_ownerScopeId g,
                 gh_ownerPath = g_ref g, gh_permission = g_permission g\<rparr>"

definition ownerOf :: "scope_id \<Rightarrow> string option" where
  "ownerOf sid = (case parseScopeId sid of (k, r) \<Rightarrow> if k = Some Personal then Some r else None)"

definition isMembershipManaged :: "scope_id \<Rightarrow> bool" where
  "isMembershipManaged sid \<longleftrightarrow> fst (parseScopeId sid) \<in> {Some Channel, Some Group}"

definition sameGrant :: "grant \<Rightarrow> grant \<Rightarrow> bool" where
  "sameGrant a b \<longleftrightarrow> g_ownerScopeId a = g_ownerScopeId b \<and> g_ref a = g_ref b \<and>
     g_granteeScopeId a = g_granteeScopeId b \<and> g_permission a = g_permission b"

definition sameGrantTuple :: "grant \<Rightarrow> grant \<Rightarrow> bool" where
  "sameGrantTuple a b \<longleftrightarrow> sameGrant a b \<and> g_grantedBy a = g_grantedBy b"

definition sameGrantSet :: "grant list \<Rightarrow> grant list \<Rightarrow> bool" where
  "sameGrantSet xs ys \<longleftrightarrow> length xs = length ys \<and> list_all (\<lambda>x. list_ex (sameGrantTuple x) ys) xs"

subsection \<open>In-memory persistence\<close>

definition grant_key :: "grant \<Rightarrow> string" where
  "grant_key g = g_ownerScopeId g @ [CHR 0x0A] @ g_ref g @ [CHR 0x0A] @ g_granteeScopeId g @ [CHR 0x0A] @
     permission_name (g_permission g)"

definition grants_all :: "grant list \<Rightarrow> grant list" where
  "grants_all gs = js_sort (\<lambda>a b. if grant_key a < grant_key b then -1 else if grant_key a > grant_key b then 1 else 0) gs"

definition grants_put :: "grant \<Rightarrow> grant list \<Rightarrow> grant list" where
  "grants_put g gs = (if list_ex (\<lambda>x. sameGrant x g) gs then gs else gs @ [g])"

definition grants_remove :: "grant \<Rightarrow> grant list \<Rightarrow> grant list" where
  "grants_remove g gs = filter (\<lambda>x. \<not> sameGrant x g) gs"

definition of_resource :: "scope_id \<Rightarrow> string \<Rightarrow> grant \<Rightarrow> bool" where
  "of_resource own ref g \<longleftrightarrow> g_ownerScopeId g = own \<and> g_ref g = ref"

definition replaceForResourceIfCurrent ::
  "scope_id \<Rightarrow> string \<Rightarrow> grant list \<Rightarrow> grant list \<Rightarrow> grant list \<Rightarrow> grant list \<times> bool" where
  "replaceForResourceIfCurrent own ref expected replacement gs =
     (if \<not> sameGrantSet (filter (of_resource own ref) gs) expected then (gs, False)
      else (filter (\<lambda>g. \<not> of_resource own ref g) gs @ replacement, True))"

subsection \<open>The access store\<close>

type_synonym scope_management = "string \<Rightarrow> scope_id \<Rightarrow> string option \<Rightarrow> bool"

definition acl_canManage :: "scope_management option \<Rightarrow> scope_id \<Rightarrow> string \<Rightarrow> string option \<Rightarrow> bool" where
  "acl_canManage manages sid principalId authoredBy =
     (case ownerOf sid of
        Some owner \<Rightarrow> samePerson (Some principalId) (Some owner)
      | None \<Rightarrow>
          (case manages of
             Some f \<Rightarrow> if isMembershipManaged sid then f principalId sid authoredBy else True
           | None \<Rightarrow> True))"

definition acl_grant ::
  "scope_management option \<Rightarrow> grant \<Rightarrow> string option \<Rightarrow> grant list \<Rightarrow> grant list \<times> unit outcome" where
  "acl_grant manages g authoredBy gs =
     (if \<not> acl_canManage manages (g_ownerScopeId g) (g_grantedBy g) authoredBy
      then (gs, Inl (Error ''only a manager of this scope may grant access (no transitive re-share)''))
      else (grants_put g gs, Inr ()))"

definition acl_revoke ::
  "scope_management option \<Rightarrow> scope_id \<Rightarrow> string \<Rightarrow> scope_id \<Rightarrow> string \<Rightarrow> string option \<Rightarrow> grant list \<Rightarrow>
   grant list \<times> unit outcome" where
  "acl_revoke manages own ref grantee revokedBy authoredBy gs =
     (if \<not> acl_canManage manages own revokedBy authoredBy
      then (gs, Inl (Error ''only a manager of this scope may revoke access''))
      else (fold grants_remove
              (filter (\<lambda>g. of_resource own ref g \<and> g_granteeScopeId g = grantee) (grants_all gs)) gs, Inr ()))"

definition replaceGrantsIfCurrent ::
  "scope_management option \<Rightarrow> scope_id \<Rightarrow> string \<Rightarrow> grant list \<Rightarrow> grant list \<Rightarrow> string \<Rightarrow> string option \<Rightarrow> grant list \<Rightarrow>
   grant list \<times> bool outcome" where
  "replaceGrantsIfCurrent manages own ref expected replacement changedBy authoredBy gs =
     (if \<not> acl_canManage manages own changedBy authoredBy
      then (gs, Inl (Error ''only a manager of this scope may replace access grants''))
      else if list_ex (\<lambda>g. \<not> of_resource own ref g) expected \<or> list_ex (\<lambda>g. \<not> of_resource own ref g) replacement
      then (gs, Inl (Error ''replacement grants must belong to the selected resource''))
      else (case replaceForResourceIfCurrent own ref expected replacement gs of (gs', ok) \<Rightarrow> (gs', Inr ok)))"

definition handlesFor :: "scope_id list \<Rightarrow> grant list \<Rightarrow> granted_handle list" where
  "handlesFor ids gs = map toHandle (filter (\<lambda>g. isFileGrant g \<and> g_granteeScopeId g \<in> set ids) (grants_all gs))"

type_synonym scope_entitlement = "principal \<Rightarrow> scope_id \<Rightarrow> scope_id \<Rightarrow> scope_id \<Rightarrow> bool"

definition reaches :: "scope_entitlement \<Rightarrow> scope_id \<Rightarrow> scope_id \<Rightarrow> principal \<Rightarrow> grant \<Rightarrow> bool" where
  "reaches entitled sess org p g \<longleftrightarrow>
     entitled p (g_granteeScopeId g) sess org \<or> entitled p (g_ownerScopeId g) sess org"

definition handlesForAudience ::
  "principal list \<Rightarrow> scope_id \<Rightarrow> scope_id \<Rightarrow> scope_entitlement \<Rightarrow> grant list \<Rightarrow> granted_handle list" where
  "handlesForAudience audience sess org entitled gs =
     (if audience = [] then []
      else map toHandle
             (filter (\<lambda>g. isFileGrant g \<and> list_ex (\<lambda>p. entitled p (g_granteeScopeId g) sess org) audience \<and>
                          list_all (\<lambda>p. reaches entitled sess org p g) audience) (grants_all gs)))"

definition grantsFor :: "scope_id \<Rightarrow> string \<Rightarrow> grant list \<Rightarrow> grant list" where
  "grantsFor own ref gs = filter (of_resource own ref) (grants_all gs)"

definition grantsOfKind ::
  "resource_kind \<Rightarrow> principal list \<Rightarrow> scope_id \<Rightarrow> scope_id \<Rightarrow> scope_entitlement \<Rightarrow> grant list \<Rightarrow> grant list" where
  "grantsOfKind kind audience sess org entitled gs =
     (if audience = [] then []
      else filter (\<lambda>g. js_startsWith (g_ref g) (refPrefix kind) \<and> g_ownerScopeId g = org \<and>
                       list_all (\<lambda>p. entitled p (g_granteeScopeId g) sess org) audience) (grants_all gs))"

subsection \<open>Grants as a set\<close>

text \<open>The contract between the access store and any grant persistence: what is stored, up to \<open>sameGrant\<close>.\<close>

locale grant_persistence =
  fixes listed :: "'s \<Rightarrow> grant list"
    and put :: "grant \<Rightarrow> 's \<Rightarrow> 's"
    and remove :: "grant \<Rightarrow> 's \<Rightarrow> 's"
  assumes listed_put: "set (listed (put g s)) = (if \<exists>x \<in> set (listed s). sameGrant x g then set (listed s) else insert g (set (listed s)))"
    and listed_remove: "set (listed (remove g s)) = {x \<in> set (listed s). \<not> sameGrant x g}"
begin

lemma put_has: "\<exists>x \<in> set (listed (put g s)). sameGrant x g"
  by (auto simp: listed_put sameGrant_def)

lemma put_keeps: "x \<in> set (listed s) \<Longrightarrow> x \<in> set (listed (put g s))"
  by (simp add: listed_put)

lemma put_only: "x \<in> set (listed (put g s)) \<Longrightarrow> x \<in> set (listed s) \<or> x = g"
  by (auto simp: listed_put split: if_splits)

lemma removes: "set (listed (fold remove gs s)) = {x \<in> set (listed s). \<forall>g \<in> set gs. \<not> sameGrant x g}"
  by (induction gs arbitrary: s) (auto simp: listed_remove)

end

lemma set_grants_all [simp]: "set (grants_all gs) = set gs"
  by (simp add: grants_all_def)

interpretation memory_grants: grant_persistence grants_all grants_put grants_remove
  by unfold_locales (auto simp: grants_put_def grants_remove_def list_ex_iff)


end
