(* ===== verification/Scope_Membership.thy ===== *)
theory Scope_Membership
  imports Access_Control
begin

text \<open>
  Who may read, write and manage a scope: \<open>resolution/scope-membership.ts\<close>. The collaborators are
  records of functions; an absent optional collaborator or method is \<^term>\<open>None\<close>, and a lookup that
  may reject is an outcome, which the code catches.
\<close>

section \<open>Collaborators\<close>

record managed_groups =
  mg_recognizes :: "string \<Rightarrow> bool"
  mg_membership :: "string \<Rightarrow> string \<Rightarrow> bool option outcome"
  mg_members :: "string \<Rightarrow> string list option outcome"

record listed_member =
  lm_principalId :: string
  lm_displayName :: "string option"

record directory_deps =
  dd_channelMember :: "string \<Rightarrow> string \<Rightarrow> bool outcome"
  dd_groupMember :: "string \<Rightarrow> string \<Rightarrow> bool outcome"
  dd_channelMembership :: "(string \<Rightarrow> string \<Rightarrow> bool option outcome) option"
  dd_groupMembership :: "(string \<Rightarrow> string \<Rightarrow> bool option outcome) option"
  dd_channelPrivacy :: "(string \<Rightarrow> bool option outcome) option"
  dd_list :: "listed_member list outcome option"

record classified =
  cl_type :: "string option"
  cl_teamIds :: "string list option"

record membership_deps =
  md_managedGroups :: "managed_groups option"
  md_directory :: "directory_deps option"
  md_identity :: "(string \<Rightarrow> classified) option"
  md_sessions :: "(string \<Rightarrow> scope_id list outcome) option"

definition classified_type :: "membership_deps \<Rightarrow> string \<Rightarrow> string option" where
  "classified_type deps p = (case md_identity deps of None \<Rightarrow> None | Some f \<Rightarrow> cl_type (f p))"

definition classified_teams :: "membership_deps \<Rightarrow> string \<Rightarrow> string list" where
  "classified_teams deps p =
     (case md_identity deps of None \<Rightarrow> [] | Some f \<Rightarrow> (case cl_teamIds (f p) of None \<Rightarrow> [] | Some ts \<Rightarrow> ts))"

definition activePrincipal :: "membership_deps \<Rightarrow> string \<Rightarrow> bool" where
  "activePrincipal deps p \<longleftrightarrow> classified_type deps p = None \<or> classified_type deps p = Some ''internal''"

text \<open>The two kinds of scope that have members.\<close>

datatype shared_kind = SharedChannel | SharedGroup

definition shared_kind_of :: "scope_kind option \<Rightarrow> shared_kind option" where
  "shared_kind_of k = (if k = Some Channel then Some SharedChannel else if k = Some Group then Some SharedGroup else None)"

definition recognized_group :: "membership_deps \<Rightarrow> shared_kind \<Rightarrow> string \<Rightarrow> managed_groups option" where
  "recognized_group deps kind r =
     (if kind = SharedGroup
      then (case md_managedGroups deps of None \<Rightarrow> None | Some mg \<Rightarrow> if mg_recognizes mg r then Some mg else None)
      else None)"

definition direct_member :: "membership_deps \<Rightarrow> shared_kind \<Rightarrow> string \<Rightarrow> string \<Rightarrow> bool" where
  "direct_member deps kind r p =
     (case md_directory deps of
        None \<Rightarrow> False
      | Some d \<Rightarrow> caught False (if kind = SharedChannel then dd_channelMember d r p else dd_groupMember d r p))"

definition channel_privacy :: "membership_deps \<Rightarrow> string \<Rightarrow> bool option" where
  "channel_privacy deps r =
     (case Option.bind (md_directory deps) dd_channelPrivacy of None \<Rightarrow> None | Some f \<Rightarrow> caught None (f r))"

definition tri_state :: "membership_deps \<Rightarrow> shared_kind \<Rightarrow> (string \<Rightarrow> string \<Rightarrow> bool option outcome) option" where
  "tri_state deps kind =
     (case md_directory deps of
        None \<Rightarrow> None
      | Some d \<Rightarrow> if kind = SharedChannel then dd_channelMembership d else dd_groupMembership d)"

definition currentSharedScopeMember :: "membership_deps \<Rightarrow> shared_kind \<Rightarrow> string \<Rightarrow> string \<Rightarrow> bool" where
  "currentSharedScopeMember deps kind r p =
     (if \<not> activePrincipal deps p then False
      else (case recognized_group deps kind r of
              Some mg \<Rightarrow> caught (Some False) (mg_membership mg r p) = Some True
            | None \<Rightarrow> direct_member deps kind r p))"

definition sharedScopeMembership :: "membership_deps \<Rightarrow> shared_kind \<Rightarrow> string \<Rightarrow> string \<Rightarrow> bool option" where
  "sharedScopeMembership deps kind r p =
     (if \<not> activePrincipal deps p then Some False
      else (case recognized_group deps kind r of
              Some mg \<Rightarrow> Some (caught (Some False) (mg_membership mg r p) = Some True)
            | None \<Rightarrow>
                (case tri_state deps kind of
                   Some f \<Rightarrow> caught None (f r p)
                 | None \<Rightarrow>
                     if direct_member deps kind r p then Some True
                     else if kind = SharedChannel \<and> channel_privacy deps r \<noteq> None then Some False
                     else None)))"

definition memberOfSharedScope :: "membership_deps \<Rightarrow> shared_kind \<Rightarrow> string \<Rightarrow> string \<Rightarrow> scope_id \<Rightarrow> bool" where
  "memberOfSharedScope deps kind r p fullScope =
     (case sharedScopeMembership deps kind r p of
        Some b \<Rightarrow> b
      | None \<Rightarrow>
          (case md_sessions deps of
             None \<Rightarrow> False
           | Some f \<Rightarrow> fullScope \<in> set (caught [] (f p))))"

section \<open>The checks\<close>

definition isCurrentSharedScopeMember :: "membership_deps \<Rightarrow> string \<Rightarrow> scope_id \<Rightarrow> bool" where
  "isCurrentSharedScopeMember deps p scope =
     (if p = [] then False
      else (case parseScopeId scope of
              (k, r) \<Rightarrow> (case shared_kind_of k of None \<Rightarrow> False | Some sk \<Rightarrow> currentSharedScopeMember deps sk r p)))"

definition member_principal :: "membership_deps \<Rightarrow> string \<Rightarrow> string option \<Rightarrow> principal option" where
  "member_principal deps i displayName =
     (if classified_type deps i \<noteq> None \<and> classified_type deps i \<noteq> Some ''internal'' then None
      else Some \<lparr>p_id = i, p_type = Internal,
                 p_teamIds = (case md_identity deps of None \<Rightarrow> None | Some f \<Rightarrow> cl_teamIds (f i)),
                 p_displayName = (if truthy displayName then displayName else None)\<rparr>)"

text \<open>\<open>currentScopeMembers\<close> does not catch: a rejected lookup rejects the whole listing.\<close>

fun collect_members ::
  "membership_deps \<Rightarrow> (string \<Rightarrow> bool outcome) \<Rightarrow> listed_member list \<Rightarrow> principal list outcome" where
  "collect_members deps f [] = Inr []"
| "collect_members deps f (m # ms) =
     obind (f (lm_principalId m)) (\<lambda>b.
       obind (collect_members deps f ms) (\<lambda>rest.
         Inr ((if b then (case member_principal deps (lm_principalId m) (lm_displayName m) of None \<Rightarrow> [] | Some q \<Rightarrow> [q])
               else []) @ rest)))"

definition currentScopeMembers :: "membership_deps \<Rightarrow> scope_id \<Rightarrow> principal list option outcome" where
  "currentScopeMembers deps scope =
     (case parseScopeId scope of
        (k, r) \<Rightarrow>
          (case shared_kind_of k of
             None \<Rightarrow> Inr None
           | Some sk \<Rightarrow>
               (case recognized_group deps sk r of
                  Some mg \<Rightarrow>
                    obind (mg_members mg r) (\<lambda>ids.
                      Inr (Some (List.map_filter (\<lambda>i. member_principal deps i None)
                                   (case ids of None \<Rightarrow> [] | Some xs \<Rightarrow> xs))))
                | None \<Rightarrow>
                    (case md_directory deps of
                       None \<Rightarrow> Inr None
                     | Some d \<Rightarrow>
                         (case dd_list d of
                            None \<Rightarrow> Inr None
                          | Some candidates \<Rightarrow>
                              obind (if sk = SharedChannel
                                     then (case dd_channelPrivacy d of None \<Rightarrow> Inr None | Some f \<Rightarrow> f r) else Inr (Some True))
                                (\<lambda>priv.
                                   if priv \<noteq> Some True then Inr None
                                   else obind candidates (\<lambda>cs.
                                          obind (collect_members deps
                                                   (if sk = SharedChannel then dd_channelMember d r else dd_groupMember d r) cs)
                                            (\<lambda>ps. Inr (Some ps)))))))))"

definition canReadScope :: "membership_deps \<Rightarrow> string \<Rightarrow> scope_id \<Rightarrow> bool" where
  "canReadScope deps p target =
     (if p = [] then False
      else (case parseScopeId target of
              (k, r) \<Rightarrow>
                (case k of
                   Some Org \<Rightarrow> classified_type deps p = Some ''internal''
                 | Some Personal \<Rightarrow> samePerson (Some r) (Some p)
                 | Some Team \<Rightarrow> r \<in> set (classified_teams deps p)
                 | Some Group \<Rightarrow> memberOfSharedScope deps SharedGroup r p target
                 | Some Channel \<Rightarrow>
                     memberOfSharedScope deps SharedChannel r p target \<or>
                     (channel_privacy deps r = Some False \<and> activePrincipal deps p)
                 | None \<Rightarrow> False)))"

definition canWriteScope :: "membership_deps \<Rightarrow> string \<Rightarrow> scope_id \<Rightarrow> bool" where
  "canWriteScope deps p target =
     (if p = [] \<or> \<not> activePrincipal deps p then False
      else (case parseScopeId target of
              (k, r) \<Rightarrow>
                (case k of
                   Some Org \<Rightarrow> True
                 | Some Personal \<Rightarrow> samePerson (Some r) (Some p)
                 | Some Team \<Rightarrow> r \<in> set (classified_teams deps p)
                 | Some Channel \<Rightarrow> currentSharedScopeMember deps SharedChannel r p
                 | Some Group \<Rightarrow> currentSharedScopeMember deps SharedGroup r p
                 | None \<Rightarrow> False)))"

definition membershipControlsScope :: "membership_deps \<Rightarrow> scope_id \<Rightarrow> bool" where
  "membershipControlsScope deps scope =
     (case parseScopeId scope of
        (k, r) \<Rightarrow> if k = Some Group then True else k = Some Channel \<and> channel_privacy deps r = Some True)"

definition canManageScope :: "membership_deps \<Rightarrow> string \<Rightarrow> scope_id \<Rightarrow> bool" where
  "canManageScope deps p scope =
     (if p = [] \<or> \<not> activePrincipal deps p then False
      else (case parseScopeId scope of
              (k, r) \<Rightarrow>
                (case k of
                   Some Personal \<Rightarrow> samePerson (Some r) (Some p)
                 | Some Group \<Rightarrow> currentSharedScopeMember deps SharedGroup r p
                 | Some Channel \<Rightarrow>
                     channel_privacy deps r = Some True \<and> currentSharedScopeMember deps SharedChannel r p
                 | _ \<Rightarrow> False)))"

definition managesArtifactHome ::
  "membership_deps \<Rightarrow> (string \<Rightarrow> scope_id \<Rightarrow> bool) \<Rightarrow> scope_id \<Rightarrow> string \<Rightarrow> string \<Rightarrow> bool" where
  "managesArtifactHome deps manage home createdBy p =
     (if p = [] \<or> \<not> activePrincipal deps p then False
      else if manage p home then True
      else (case parseScopeId home of
              (k, r) \<Rightarrow>
                if \<not> samePerson (Some createdBy) (Some p) then False
                else (case k of
                        Some Personal \<Rightarrow> True
                      | Some Channel \<Rightarrow> channel_privacy deps r = Some False
                      | _ \<Rightarrow> False)))"

section \<open>Properties\<close>

lemmas scope_checks = canReadScope_def canWriteScope_def canManageScope_def managesArtifactHome_def

lemma scope_cases:
  obtains (none) "fst (parseScopeId s) = None" | (kind) k r where "s = scopeId k r"
  by (metis (full_types) not_Some_eq parseScopeId_SomeD prod.collapse)

lemma inactive_shared: "\<not> activePrincipal deps p \<Longrightarrow> \<not> memberOfSharedScope deps k r p s"
  by (simp add: memberOfSharedScope_def sharedScopeMembership_def)

text \<open>C11: Deactivated people and guests are confined: someone the identity service does not call internal
  can write or manage nothing, and read at most their own personal scope and a team they are listed in.\<close>

theorem guest_confined:
  assumes "classified_type deps p = Some t" "t \<noteq> ''internal''"
  shows "\<not> canWriteScope deps p s \<and> \<not> canManageScope deps p s \<and>
    \<not> managesArtifactHome deps (canManageScope deps) s c p \<and> \<not> isCurrentSharedScopeMember deps p s \<and>
    (canReadScope deps p s =
       (p \<noteq> [] \<and> (\<exists>r. (s = scopeId Personal r \<and> samePerson (Some r) (Some p)) \<or>
                       (s = scopeId Team r \<and> r \<in> set (classified_teams deps p)))))"
proof -
  have inact: "\<not> activePrincipal deps p"
    using assms by (simp add: activePrincipal_def)
  have cur: "\<not> currentSharedScopeMember deps k r p" for k r
    using inact by (simp add: currentSharedScopeMember_def)
  show ?thesis
  proof (cases s rule: scope_cases)
    case none
    then have "s \<noteq> scopeId k r" for k r by auto
    then show ?thesis
      using inact cur none
      by (cases "parseScopeId s") (simp add: scope_checks isCurrentSharedScopeMember_def split: option.split)
  next
    case (kind k r)
    then show ?thesis
      using inact cur inactive_shared [OF inact] assms
      by (cases k) (simp_all add: scope_checks isCurrentSharedScopeMember_def split: option.split)
  qed
qed

definition guest_deps :: membership_deps where
  "guest_deps =
     \<lparr>md_managedGroups = None, md_directory = None,
      md_identity = Some (\<lambda>i. \<lparr>cl_type = Some ''guest'', cl_teamIds = None\<rparr>), md_sessions = None\<rparr>"

lemma guest_confined_witness: "\<not> canWriteScope guest_deps ''u'' (scopeId Org ''acme'')"
  using guest_confined [of guest_deps "''u''" "''guest''"] by (simp add: guest_deps_def classified_type_def)

text \<open>Managing implies writing: whoever may manage a scope is active and may write it, and only
  personal, group and private channel scopes are managed at all.\<close>

theorem manage_implies_write:
  assumes "canManageScope deps p s"
  shows "canWriteScope deps p s \<and> activePrincipal deps p \<and>
    (\<exists>k r. s = scopeId k r \<and> k \<in> {Personal, Group, Channel} \<and>
       (k = Channel \<longrightarrow> channel_privacy deps r = Some True))"
proof (cases s rule: scope_cases)
  case none
  then show ?thesis
    using assms by (cases "parseScopeId s") (simp add: canManageScope_def split: if_splits)
next
  case (kind k r)
  then show ?thesis
    using assms by (cases k) (auto simp: canManageScope_def canWriteScope_def split: if_splits)
qed

definition member_deps :: membership_deps where
  "member_deps =
     \<lparr>md_managedGroups = None,
      md_directory = Some \<lparr>dd_channelMember = (\<lambda>c p. Inr (channelMember demo_directory c p)),
                          dd_groupMember = (\<lambda>g p. Inr False), dd_channelMembership = None, dd_groupMembership = None,
                          dd_channelPrivacy = Some (\<lambda>c. Inr (channelPrivacy demo_directory c)), dd_list = None\<rparr>,
      md_identity = None, md_sessions = None\<rparr>"

lemma manage_implies_write_witness: "canWriteScope member_deps ''u@x'' (scopeId Channel ''C1'')"
proof -
  have "canManageScope member_deps ''u@x'' (scopeId Channel ''C1'')"
    by code_simp
  then show ?thesis
    using manage_implies_write by blast
qed

section \<open>Agreement of the directory's two answers\<close>

text \<open>
  The code asks the directory twice: writes ask \<open>channelMember\<close> or \<open>groupMember\<close>, reads ask the
  three-valued \<open>channelMembership\<close> or \<open>groupMembership\<close>. Writing implies reading for a directory whose
  answers agree.
\<close>

locale agreeing_directory =
  fixes channel_member group_member :: "'d \<Rightarrow> string \<Rightarrow> string \<Rightarrow> bool"
    and channel_membership group_membership :: "'d \<Rightarrow> string \<Rightarrow> string \<Rightarrow> bool option"
    and listed :: "'d \<Rightarrow> bool"
  assumes channel_agrees: "listed d \<Longrightarrow> channel_member d c p \<Longrightarrow> channel_membership d c p = Some True"
    and group_agrees: "listed d \<Longrightarrow> group_member d g p \<Longrightarrow> group_membership d g p = Some True"
begin

lemma shared_agrees:
  assumes "listed d" "md_directory deps = Some dd"
    and "dd_channelMember dd = (\<lambda>c p. Inr (channel_member d c p))" "dd_groupMember dd = (\<lambda>g p. Inr (group_member d g p))"
    and "dd_channelMembership dd = Some (\<lambda>c p. Inr (channel_membership d c p))"
    and "dd_groupMembership dd = Some (\<lambda>g p. Inr (group_membership d g p))"
    and "currentSharedScopeMember deps k r p"
  shows "memberOfSharedScope deps k r p s"
  using assms channel_agrees [OF assms(1), of r p] group_agrees [OF assms(1), of r p]
  by (cases k) (auto simp: currentSharedScopeMember_def memberOfSharedScope_def sharedScopeMembership_def
      direct_member_def tri_state_def split: if_splits option.splits)

end

text \<open>The directory store agrees with itself once groups are synced and every channel with members is listed.\<close>

definition fully_listed :: "directory \<Rightarrow> bool" where
  "fully_listed d \<longleftrightarrow> dir_groupsSynced d \<and> (\<forall>c p. channelMember d c p \<longrightarrow> find_channel d c \<noteq> None)"

lemma has_member_Some: "has_member mm g p \<Longrightarrow> \<exists>m. mm = Some m"
  by (auto simp: has_member_def split: option.splits)

interpretation memory_directory: agreeing_directory channelMember groupMember channelMembership groupMembership fully_listed
proof unfold_locales
  fix d c p
  assume l: "fully_listed d" and mem: "channelMember d c p"
  then obtain ch where "find_channel d c = Some ch"
    unfolding fully_listed_def by blast
  then show "channelMembership d c p = Some True"
    using mem has_member_Some [of "dir_channelMembers d" c p] by (auto simp: channelMember_def channelMembership_def)
next
  fix d g p
  assume "fully_listed d" "groupMember d g p"
  then show "groupMembership d g p = Some True"
    using has_member_Some [of "dir_groupMembers d" g p] by (auto simp: fully_listed_def groupMember_def groupMembership_def)
qed

definition directory_deps_of :: "directory \<Rightarrow> directory_deps" where
  "directory_deps_of d =
     \<lparr>dd_channelMember = (\<lambda>c p. Inr (channelMember d c p)), dd_groupMember = (\<lambda>g p. Inr (groupMember d g p)),
      dd_channelMembership = Some (\<lambda>c p. Inr (channelMembership d c p)),
      dd_groupMembership = Some (\<lambda>g p. Inr (groupMembership d g p)),
      dd_channelPrivacy = Some (\<lambda>c. Inr (channelPrivacy d c)),
      dd_list = Some (Inr (map (\<lambda>m. \<lparr>lm_principalId = dmem_principalId m, lm_displayName = Some (dmem_displayName m)\<rparr>) (dir_members d)))\<rparr>"

text \<open>C12: With the directory store and the identity service of the code, whoever may write a scope may read
  it, once the directory has its groups and lists every channel it has members for.\<close>

theorem write_implies_read:
  assumes "fully_listed d" "md_directory deps = Some (directory_deps_of d)"
    and "md_identity deps = Some (\<lambda>i. \<lparr>cl_type = Some (if p_type (classify ident i False) = Internal then ''internal'' else ''guest''),
                                      cl_teamIds = p_teamIds (classify ident i False)\<rparr>)"
    and "canWriteScope deps p s"
  shows "canReadScope deps p s"
proof (cases s rule: scope_cases)
  case none
  then show ?thesis
    using assms(4) by (cases "parseScopeId s") (simp add: canWriteScope_def split: if_splits)
next
  case (kind k r)
  have shared: "currentSharedScopeMember deps sk r p \<Longrightarrow> memberOfSharedScope deps sk r p s" for sk
    by (rule memory_directory.shared_agrees [OF assms(1,2)]) (simp_all add: directory_deps_of_def)
  have "classified_type deps p = Some ''internal''" if "activePrincipal deps p"
    using that assms(3) by (auto simp: activePrincipal_def classified_type_def)
  then show ?thesis
    using assms(4) kind shared by (cases k) (auto simp: canWriteScope_def canReadScope_def split: if_splits)
qed

definition full_deps :: membership_deps where
  "full_deps =
     \<lparr>md_managedGroups = None, md_directory = Some (directory_deps_of (dir_replaceGroups [] demo_directory)),
      md_identity = Some (\<lambda>i. \<lparr>cl_type = Some (if p_type (classify (identity_start []) i False) = Internal then ''internal'' else ''guest''),
                              cl_teamIds = p_teamIds (classify (identity_start []) i False)\<rparr>),
      md_sessions = None\<rparr>"

lemma write_implies_read_witness: "canReadScope full_deps ''u@x'' (scopeId Channel ''C1'')"
proof (rule write_implies_read [of "dir_replaceGroups [] demo_directory" full_deps "identity_start []"])
  show "fully_listed (dir_replaceGroups [] demo_directory)"
    by (auto simp: fully_listed_def demo_directory_def dir_replaceChannels_def dir_replaceGroups_def channelMember_def
        has_member_def find_channel_def add_membership_def empty_directory_def split: if_splits)
  show "canWriteScope full_deps ''u@x'' (scopeId Channel ''C1'')"
    by code_simp
qed (simp_all add: full_deps_def)

end
