(* ===== verification/Audience.thy ===== *)
theory Audience
  imports Scope_Membership Session_Types
begin

text \<open>
  What an audience may see and reach: history and entitlement (\<open>resolution/context-filter.ts\<close>), the
  egress floors (\<open>resolution/audience-floor.ts\<close>), the default audience of a published artifact
  (\<open>resolution/publish-audience.ts\<close>) and egress decisions (\<open>resolution/egress-policy.ts\<close>).
\<close>

section \<open>Entitlement and history\<close>

definition teams_of :: "principal \<Rightarrow> string list" where
  "teams_of p = (case p_teamIds p of None \<Rightarrow> [] | Some ts \<Rightarrow> ts)"

definition principalEntitledToScope :: "principal \<Rightarrow> scope_id \<Rightarrow> scope_id \<Rightarrow> scope_id \<Rightarrow> bool" where
  "principalEntitledToScope p label sessionScopeId orgScopeId =
     (if label = orgScopeId then True
      else if label = sessionScopeId then True
      else (case parseScopeId label of
              (k, r) \<Rightarrow>
                if k = Some Personal then p_id p = r
                else if k = Some Team then r \<in> set (teams_of p) else False))"

definition filterHistoryForAudience ::
  "session_entry list \<Rightarrow> principal list \<Rightarrow> scope_id \<Rightarrow> scope_id \<Rightarrow> session_entry list" where
  "filterHistoryForAudience entries audience sess org =
     (if audience = [] then []
      else filter (\<lambda>e. list_all (\<lambda>p. principalEntitledToScope p (en_scopeLabel e) sess org) audience) entries)"

lemma entitled_personal [simp]:
  "principalEntitledToScope p (scopeId Personal r) sess org \<longleftrightarrow>
     scopeId Personal r = org \<or> scopeId Personal r = sess \<or> p_id p = r"
  by (simp add: principalEntitledToScope_def)

text \<open>A history shown to an audience contains no entry labelled with another person's personal scope:
  unless that label is the session's or the organisation's own, everybody in the audience is that person.
  A larger audience never sees more.\<close>

theorem history_hides_personal:
  assumes "e \<in> set (filterHistoryForAudience es audience sess org)"
  shows "e \<in> set es \<and> audience \<noteq> [] \<and>
    (\<forall>r. en_scopeLabel e = scopeId Personal r \<and> scopeId Personal r \<noteq> sess \<and> scopeId Personal r \<noteq> org \<longrightarrow>
       (\<forall>p \<in> set audience. p_id p = r)) \<and>
    (\<forall>sub. sub \<noteq> [] \<and> set sub \<subseteq> set audience \<longrightarrow> e \<in> set (filterHistoryForAudience es sub sess org))"
  using assms by (auto simp: filterHistoryForAudience_def list_all_iff split: if_splits)

definition demo_principal :: "string \<Rightarrow> principal" where
  "demo_principal i = \<lparr>p_id = i, p_type = Internal, p_teamIds = None, p_displayName = None\<rparr>"

definition demo_entry :: session_entry where
  "demo_entry = \<lparr>en_sessionId = ''s'', en_seq = 0, en_parentSeq = None, en_type = EUser, en_payload = JNull,
                en_scopeLabel = scopeId Personal ''u'', en_createdAt = 0\<rparr>"

lemma history_hides_personal_witness:
  "p_id (demo_principal ''u'') = ''u'' \<and>
     demo_entry \<in> set (filterHistoryForAudience [demo_entry] [demo_principal ''u''] (scopeId Channel ''C'') (scopeId Org ''o''))"
proof -
  have "demo_entry \<in> set (filterHistoryForAudience [demo_entry] [demo_principal ''u''] (scopeId Channel ''C'') (scopeId Org ''o''))"
    by (simp add: filterHistoryForAudience_def demo_entry_def demo_principal_def)
  from history_hides_personal [OF this] this show ?thesis
    by (simp add: demo_entry_def)
qed

text \<open>A personal file that one person grants to another is handed to an audience exactly when the
  grantee is in it and nobody but the owner and the grantee is.\<close>

theorem personal_file_audience:
  assumes "gs = [g]" "isFileGrant g" "g_ownerScopeId g = scopeId Personal own" "g_granteeScopeId g = scopeId Personal other"
    and "sess \<notin> {scopeId Personal own, scopeId Personal other}" "org \<notin> {scopeId Personal own, scopeId Personal other}"
  shows "handlesForAudience audience sess org principalEntitledToScope gs =
    (if other \<in> p_id ` set audience \<and> p_id ` set audience \<subseteq> {own, other} then [toHandle g] else [])"
  using assms
  by (auto simp: handlesForAudience_def reaches_def list_ex_iff list_all_iff grants_all_def js_sort_def)

definition demo_grant :: grant where
  "demo_grant = \<lparr>g_ownerScopeId = scopeId Personal ''a'', g_ref = ''notes.md'', g_granteeScopeId = scopeId Personal ''b'',
                g_permission = ReadP, g_grantedBy = ''a''\<rparr>"

lemma personal_file_audience_witness:
  "handlesForAudience [demo_principal ''a'', demo_principal ''c''] (scopeId Channel ''C'') (scopeId Org ''o'')
     principalEntitledToScope [demo_grant] = []"
proof -
  have "isFileGrant demo_grant"
    by code_simp
  then show ?thesis
    by (subst personal_file_audience [of _ demo_grant "''a''" "''b''"]) (simp_all add: demo_grant_def demo_principal_def)
qed

section \<open>Egress floors\<close>

record egress_policy =
  eg_allowedHosts :: "string list"
  eg_deniedHosts :: "string list option"

definition principalScopes :: "principal \<Rightarrow> scope_id \<Rightarrow> scope_id option \<Rightarrow> scope_id list" where
  "principalScopes p orgScope contextScope =
     js_dedup (filter (\<lambda>s. s \<noteq> [])
       ([orgScope] @ (case contextScope of None \<Rightarrow> [] | Some c \<Rightarrow> [c]) @ [scopeId Personal (p_id p)] @
        map (scopeId Team) (teams_of p)))"

text \<open>\<open>cfg\<close> is \<open>config.getEgress\<close>.\<close>

definition principalEgressHosts ::
  "principal \<Rightarrow> (scope_id \<Rightarrow> egress_policy option) \<Rightarrow> scope_id \<Rightarrow> scope_id option \<Rightarrow> string list" where
  "principalEgressHosts p cfg org ctx =
     js_dedup (concat (map (\<lambda>s. case cfg s of None \<Rightarrow> [] | Some e \<Rightarrow> eg_allowedHosts e) (principalScopes p org ctx)))"

definition principalDeniedHosts ::
  "principal \<Rightarrow> (scope_id \<Rightarrow> egress_policy option) \<Rightarrow> scope_id \<Rightarrow> scope_id option \<Rightarrow> string list" where
  "principalDeniedHosts p cfg org ctx =
     js_dedup (concat (map (\<lambda>s. case Option.bind (cfg s) eg_deniedHosts of None \<Rightarrow> [] | Some hs \<Rightarrow> hs)
                         (principalScopes p org ctx)))"

lemma distinct_principalEgressHosts [simp]: "distinct (principalEgressHosts p cfg org ctx)"
  by (simp add: principalEgressHosts_def)

definition audienceEgressFloor ::
  "principal list \<Rightarrow> (scope_id \<Rightarrow> egress_policy option) \<Rightarrow> scope_id \<Rightarrow> scope_id option \<Rightarrow> string list" where
  "audienceEgressFloor audience cfg org ctx =
     (case map (\<lambda>p. principalEgressHosts p cfg org ctx) audience of
        [] \<Rightarrow> []
      | first # rest \<Rightarrow> filter (\<lambda>h. list_all (\<lambda>s. h \<in> set s) rest) first)"

definition audienceDeniedFloor ::
  "principal list \<Rightarrow> (scope_id \<Rightarrow> egress_policy option) \<Rightarrow> scope_id \<Rightarrow> scope_id option \<Rightarrow> string list" where
  "audienceDeniedFloor audience cfg org ctx =
     js_dedup (concat (map (\<lambda>p. principalDeniedHosts p cfg org ctx) audience))"

text \<open>The egress floor of an audience is what all its members may reach and the denied floor what any of
  them is denied, each host once; so one more member can only narrow the first and widen the second.\<close>

theorem audience_floors:
  "(audience \<noteq> [] \<longrightarrow> set (audienceEgressFloor audience cfg org ctx) = (\<Inter>p \<in> set audience. set (principalEgressHosts p cfg org ctx))) \<and>
   set (audienceDeniedFloor audience cfg org ctx) = (\<Union>p \<in> set audience. set (principalDeniedHosts p cfg org ctx)) \<and>
   distinct (audienceEgressFloor audience cfg org ctx) \<and> distinct (audienceDeniedFloor audience cfg org ctx) \<and>
   (audience \<noteq> [] \<longrightarrow> set (audienceEgressFloor (audience @ others) cfg org ctx) \<subseteq> set (audienceEgressFloor audience cfg org ctx)) \<and>
   set (audienceDeniedFloor audience cfg org ctx) \<subseteq> set (audienceDeniedFloor (audience @ others) cfg org ctx)"
  by (cases audience) (auto simp: audienceEgressFloor_def audienceDeniedFloor_def list_all_iff)

lemma audience_floors_witness:
  "set (audienceEgressFloor [demo_principal ''a''] (\<lambda>s. Some \<lparr>eg_allowedHosts = [''x.io''], eg_deniedHosts = None\<rparr>) ''org:o'' None) =
     set (principalEgressHosts (demo_principal ''a'') (\<lambda>s. Some \<lparr>eg_allowedHosts = [''x.io''], eg_deniedHosts = None\<rparr>) ''org:o'' None)"
  using audience_floors [of "[demo_principal ''a'']" "\<lambda>s. Some \<lparr>eg_allowedHosts = [''x.io''], eg_deniedHosts = None\<rparr>" "''org:o''" None "[]"]
  by simp

section \<open>Publishing\<close>

datatype conversation_kind = ConvDm | ConvChannel | ConvGroup

datatype publish_kind = PubOrg | PubMembers | PubOwner

text \<open>The reason text is named by its case.\<close>

datatype publish_reason =
    OwnerDirectMessage | OwnerGroupDm | EveryoneInOrg | OwnerPrivacyUnknown | OwnerMembersUnknown
  | OwnerNoOthers | ChannelMembers nat

record publish_audience =
  pub_kind :: publish_kind
  pub_grantees :: "scope_id list"
  pub_memberCount :: "nat option"
  pub_incomplete :: bool
  pub_reason :: publish_reason

record publish_args =
  pa_convKind :: conversation_kind
  pa_isPrivate :: "bool option"
  pa_isMpim :: bool
  pa_members :: "principal list option"
  pa_orgScopeId :: scope_id
  pa_ownerId :: string

text \<open>The loop over the members with the ids already seen.\<close>

fun publish_grantees :: "string \<Rightarrow> string list \<Rightarrow> principal list \<Rightarrow> scope_id list" where
  "publish_grantees owner seen [] = []"
| "publish_grantees owner seen (m # ms) =
     (if p_type m \<noteq> Internal then publish_grantees owner seen ms
      else if p_id m = owner then publish_grantees owner seen ms
      else if p_id m \<in> set seen then publish_grantees owner seen ms
      else scopeId Personal (p_id m) # publish_grantees owner (p_id m # seen) ms)"

definition owner_only :: "bool \<Rightarrow> publish_reason \<Rightarrow> publish_audience" where
  "owner_only incomplete reason =
     \<lparr>pub_kind = PubOwner, pub_grantees = [], pub_memberCount = None, pub_incomplete = incomplete, pub_reason = reason\<rparr>"

definition defaultPublishAudience :: "publish_args \<Rightarrow> publish_audience" where
  "defaultPublishAudience a =
     (if pa_convKind a = ConvDm then owner_only False OwnerDirectMessage
      else if pa_convKind a = ConvGroup \<or> pa_isMpim a then owner_only False OwnerGroupDm
      else (case pa_isPrivate a of
              Some False \<Rightarrow> \<lparr>pub_kind = PubOrg, pub_grantees = [pa_orgScopeId a], pub_memberCount = None,
                            pub_incomplete = False, pub_reason = EveryoneInOrg\<rparr>
            | None \<Rightarrow> owner_only True OwnerPrivacyUnknown
            | Some True \<Rightarrow>
                (case pa_members a of
                   None \<Rightarrow> owner_only True OwnerMembersUnknown
                 | Some ms \<Rightarrow>
                     (let gs = publish_grantees (pa_ownerId a) [] ms in
                      if gs = [] then owner_only False OwnerNoOthers
                      else \<lparr>pub_kind = PubMembers, pub_grantees = gs, pub_memberCount = Some (length gs),
                            pub_incomplete = False, pub_reason = ChannelMembers (length gs)\<rparr>))))"

lemma set_publish_grantees:
  "set (publish_grantees owner seen ms) =
     {scopeId Personal (p_id m) | m. m \<in> set ms \<and> p_type m = Internal \<and> p_id m \<noteq> owner \<and> p_id m \<notin> set seen}"
  by (induction owner seen ms rule: publish_grantees.induct) auto

lemma publish_grantees_Nil:
  "publish_grantees owner seen ms = [] \<longleftrightarrow>
     (\<forall>m \<in> set ms. p_type m = Internal \<longrightarrow> p_id m = owner \<or> p_id m \<in> set seen)"
  by (induction owner seen ms rule: publish_grantees.induct) auto

lemma distinct_publish_grantees: "distinct (publish_grantees owner seen ms)"
  by (induction owner seen ms rule: publish_grantees.induct) (auto simp: set_publish_grantees)

text \<open>By default an artifact is published to the whole organisation only from a channel known to be
  public, and from a private channel to its internal members and nobody else; every doubt leaves it
  with the owner.\<close>

theorem publish_audience_bounds:
  "distinct (pub_grantees (defaultPublishAudience a)) \<and>
   set (pub_grantees (defaultPublishAudience a)) =
     (if pa_convKind a = ConvChannel \<and> \<not> pa_isMpim a
      then (case pa_isPrivate a of
              None \<Rightarrow> {}
            | Some False \<Rightarrow> {pa_orgScopeId a}
            | Some True \<Rightarrow>
                (case pa_members a of
                   None \<Rightarrow> {}
                 | Some ms \<Rightarrow> {scopeId Personal (p_id m) | m. m \<in> set ms \<and> p_type m = Internal \<and> p_id m \<noteq> pa_ownerId a}))
      else {}) \<and>
   (pub_kind (defaultPublishAudience a) = PubOwner \<longleftrightarrow> pub_grantees (defaultPublishAudience a) = [])"
  using set_publish_grantees [of "pa_ownerId a" "[]"] distinct_publish_grantees [of "pa_ownerId a" "[]"]
  by (cases "pa_convKind a")
     (auto simp: defaultPublishAudience_def owner_only_def publish_grantees_Nil Let_def split: option.split bool.split)

end
