(* ===== verification/Egress.thy ===== *)
theory Egress
  imports Audience
begin

text \<open>
  Egress policies: \<open>resolution/egress-policy.ts\<close>. The host name that the WHATWG \<open>URL\<close> constructor
  gives for \<open>https://\<dots>\<close> is a parameter \<open>url\<close> of the model: \<^term>\<open>None\<close> is its exception.
\<close>

section \<open>Host names\<close>

definition strip_prefix :: "string \<Rightarrow> string \<Rightarrow> string" where
  "strip_prefix p s = (if js_startsWith s p then drop (length p) s else s)"

definition strip_dot :: "string \<Rightarrow> string" where
  "strip_dot s = (if s \<noteq> [] \<and> last s = CHR ''.'' then butlast s else s)"

text \<open>\<open>s.replace(/^\[(.*)\]$/, "$1")\<close>.\<close>

definition strip_brackets :: "string \<Rightarrow> string" where
  "strip_brackets s =
     (if length s \<ge> 2 \<and> hd s = CHR ''['' \<and> last s = CHR '']'' \<and> list_all (\<lambda>c. \<not> line_terminator c) (tl (butlast s))
      then tl (butlast s) else s)"

definition colon_count :: "string \<Rightarrow> nat" where
  "colon_count s = length (filter (\<lambda>c. c = CHR '':'') s)"

definition normalizeHost :: "(string \<Rightarrow> string option) \<Rightarrow> string \<Rightarrow> string" where
  "normalizeHost url host =
     (let s = strip_brackets (strip_dot (strip_prefix ''*.'' (js_toLowerCase (js_trim host)))) in
      if s = [] then []
      else (case url (''https://'' @ (if colon_count s \<ge> 2 then ''['' @ s @ '']'' else s)) of
              Some h \<Rightarrow> strip_dot (strip_brackets h)
            | None \<Rightarrow> s))"

section \<open>Parsing a policy\<close>

definition alnum :: "char \<Rightarrow> bool" where
  "alnum c \<longleftrightarrow> (let n = (of_char c :: nat) in (48 \<le> n \<and> n \<le> 57) \<or> (65 \<le> n \<and> n \<le> 90) \<or> (97 \<le> n \<and> n \<le> 122))"

definition host_label :: "string \<Rightarrow> bool" where
  "host_label l \<longleftrightarrow> l \<noteq> [] \<and> length l \<le> 63 \<and> alnum (hd l) \<and> alnum (last l) \<and> list_all (\<lambda>c. alnum c \<or> c = CHR ''-'') l"

definition valid_host :: "string \<Rightarrow> bool" where
  "valid_host h \<longleftrightarrow> list_all host_label (js_split h (CHR ''.''))"

definition forbidden_in_host :: "char \<Rightarrow> bool" where
  "forbidden_in_host c \<longleftrightarrow> js_ws c \<or> c \<in> {CHR ''*'', CHR ''/'', CHR ''?'', CHR ''#'', CHR ''@''}"

text \<open>One list of the policy; \<open>hosts\<close> holds the normalised hosts seen so far, in order.\<close>

fun parse_hosts :: "(string \<Rightarrow> string option) \<Rightarrow> string \<Rightarrow> string list \<Rightarrow> js_value list \<Rightarrow> string list outcome" where
  "parse_hosts url name hosts [] = Inr hosts"
| "parse_hosts url name hosts (item # items) =
     (case item of
        JStr raw \<Rightarrow>
          (let candidate = js_trim raw in
           if candidate = [] then parse_hosts url name hosts items
           else if list_ex forbidden_in_host candidate
           then Inl (Error (candidate @ '' is not a host name; omit schemes, wildcards, ports, paths, and credentials''))
           else if colon_count candidate = 1
           then Inl (Error (candidate @ '' includes a port; enter a host name only''))
           else
             (let normalized = normalizeHost url candidate in
              if normalized = [] \<or> (colon_count candidate < 2 \<and> \<not> valid_host normalized)
              then Inl (Error (candidate @ '' is not a valid host name''))
              else if normalized \<in> set hosts
              then Inl (Error (name @ '' contains duplicate host '' @ normalized))
              else parse_hosts url name (hosts @ [normalized]) items))
      | _ \<Rightarrow> Inl (Error (name @ '' must contain only host names'')))"

definition parse_host_list :: "(string \<Rightarrow> string option) \<Rightarrow> string \<Rightarrow> js_value option \<Rightarrow> string list outcome" where
  "parse_host_list url name raw =
     (case raw of
        None \<Rightarrow> parse_hosts url name [] []
      | Some JNull \<Rightarrow> parse_hosts url name [] []
      | Some (JArr items) \<Rightarrow> parse_hosts url name [] items
      | Some _ \<Rightarrow> Inl (Error (name @ '' must be an array of host names'')))"

definition parseEgressPolicy :: "(string \<Rightarrow> string option) \<Rightarrow> js_value \<Rightarrow> egress_policy outcome" where
  "parseEgressPolicy url input =
     (case input of
        JObj fs \<Rightarrow>
          obind (parse_host_list url ''allowedHosts'' (js_prop input ''allowedHosts'')) (\<lambda>allowed.
            obind (parse_host_list url ''deniedHosts'' (js_prop input ''deniedHosts'')) (\<lambda>denied.
              (case List.find (\<lambda>h. h \<in> set denied) allowed of
                 Some overlap \<Rightarrow>
                   if overlap \<noteq> [] then Inl (Error (overlap @ '' cannot appear in both allowedHosts and deniedHosts''))
                   else Inr \<lparr>eg_allowedHosts = allowed, eg_deniedHosts = Some denied\<rparr>
               | None \<Rightarrow> Inr \<lparr>eg_allowedHosts = allowed, eg_deniedHosts = Some denied\<rparr>)))
      | _ \<Rightarrow> Inl (Error ''egress requires { allowedHosts, deniedHosts }''))"

section \<open>Decisions\<close>

definition hostMatches :: "(string \<Rightarrow> string option) \<Rightarrow> string \<Rightarrow> string \<Rightarrow> bool" where
  "hostMatches url requestHost ruleHost =
     (let h = normalizeHost url requestHost; r = normalizeHost url ruleHost in
      if h = [] \<or> r = [] then False else h = r \<or> js_endsWith h (''.'' @ r))"

definition isHostDenied :: "(string \<Rightarrow> string option) \<Rightarrow> string \<Rightarrow> string list option \<Rightarrow> bool" where
  "isHostDenied url host denied =
     (case denied of None \<Rightarrow> False | Some ds \<Rightarrow> list_ex (\<lambda>d. d \<noteq> [] \<and> hostMatches url host d) ds)"

datatype egress_verdict = EgressOk | EgressDenied | EgressNotAllowlisted

record egress_decision =
  ed_allow :: bool
  ed_verdict :: egress_verdict

definition egressDecision :: "(string \<Rightarrow> string option) \<Rightarrow> string \<Rightarrow> egress_policy option \<Rightarrow> egress_decision" where
  "egressDecision url host policy =
     (case policy of
        None \<Rightarrow> \<lparr>ed_allow = True, ed_verdict = EgressOk\<rparr>
      | Some p \<Rightarrow>
          if isHostDenied url host (eg_deniedHosts p) then \<lparr>ed_allow = False, ed_verdict = EgressDenied\<rparr>
          else if eg_allowedHosts p \<noteq> [] \<and> \<not> list_ex (hostMatches url host) (eg_allowedHosts p)
          then \<lparr>ed_allow = False, ed_verdict = EgressNotAllowlisted\<rparr>
          else \<lparr>ed_allow = True, ed_verdict = EgressOk\<rparr>)"

section \<open>Properties\<close>

lemma parse_hosts_props:
  assumes "parse_hosts url name hosts items = Inr hs" "distinct hosts" "[] \<notin> set hosts"
  shows "distinct hs \<and> [] \<notin> set hs \<and> set hosts \<subseteq> set hs \<and>
    (\<forall>h \<in> set hs. h \<in> set hosts \<or> (\<exists>raw. JStr raw \<in> set items \<and> h = normalizeHost url (js_trim raw)))"
  using assms
proof (induction url name hosts items rule: parse_hosts.induct)
  case (2 url name hosts item items)
  then obtain raw where item: "item = JStr raw"
    by (cases item) simp_all
  show ?case
  proof (cases "js_trim raw = []")
    case True
    then have rest: "parse_hosts url name hosts items = Inr hs"
      using 2(3) item by simp
    show ?thesis
      using 2(1) [OF item refl True rest 2(4,5)] by auto
  next
    case False
    let ?n = "normalizeHost url (js_trim raw)"
    have rest: "parse_hosts url name (hosts @ [?n]) items = Inr hs" "?n \<noteq> []" "?n \<notin> set hosts"
      "\<not> list_ex forbidden_in_host (js_trim raw)" "colon_count (js_trim raw) \<noteq> 1"
      "\<not> (?n = [] \<or> colon_count (js_trim raw) < 2 \<and> \<not> valid_host ?n)"
      using 2(3) item False by (simp_all add: Let_def split: if_splits)
    have "distinct hs \<and> [] \<notin> set hs \<and> set (hosts @ [?n]) \<subseteq> set hs \<and>
      (\<forall>h \<in> set hs. h \<in> set (hosts @ [?n]) \<or> (\<exists>raw. JStr raw \<in> set items \<and> h = normalizeHost url (js_trim raw)))"
      using 2(2) [OF item refl False rest(4,5) refl] rest 2(4,5) by auto
    then show ?thesis
      using item by auto
  qed
qed simp

lemma parse_host_list_props:
  "parse_host_list url name raw = Inr hs \<Longrightarrow> distinct hs \<and> [] \<notin> set hs"
  using parse_hosts_props [of url name "[]"]
  by (auto simp: parse_host_list_def split: option.splits js_value.splits)

text \<open>A policy that parses lists each host once, none empty, and none both allowed and denied; and under
  it a denied host is refused even if it is allowed too, while an allow list refuses every host that
  matches none of its rules.\<close>

theorem egress_policy_enforced:
  assumes "parseEgressPolicy url input = Inr p"
  shows "\<exists>denied. eg_deniedHosts p = Some denied \<and> distinct (eg_allowedHosts p) \<and> distinct denied \<and>
    set (eg_allowedHosts p) \<inter> set denied = {} \<and> [] \<notin> set (eg_allowedHosts p) \<union> set denied \<and>
    (ed_allow (egressDecision url host (Some p)) \<longleftrightarrow>
       \<not> list_ex (hostMatches url host) denied \<and>
       (eg_allowedHosts p = [] \<or> list_ex (hostMatches url host) (eg_allowedHosts p)))"
proof -
  obtain fs where input: "input = JObj fs"
    using assms by (cases input) (simp_all add: parseEgressPolicy_def)
  obtain al where al: "parse_host_list url ''allowedHosts'' (js_prop input ''allowedHosts'') = Inr al"
    using assms input by (cases "parse_host_list url ''allowedHosts'' (js_prop input ''allowedHosts'')")
      (simp_all add: parseEgressPolicy_def)
  obtain dn where dn: "parse_host_list url ''deniedHosts'' (js_prop input ''deniedHosts'') = Inr dn"
    using assms input al by (cases "parse_host_list url ''deniedHosts'' (js_prop input ''deniedHosts'')")
      (simp_all add: parseEgressPolicy_def)
  note A = parse_host_list_props [OF al] and D = parse_host_list_props [OF dn]
  have p: "p = \<lparr>eg_allowedHosts = al, eg_deniedHosts = Some dn\<rparr>" and none: "List.find (\<lambda>h. h \<in> set dn) al = None"
    using assms input al dn A
    by (auto simp: parseEgressPolicy_def dest: find_SomeD split: option.splits if_splits)
  have disj: "set al \<inter> set dn = {}"
    using find_NoneD [OF none] by blast
  have "(d \<noteq> [] \<and> hostMatches url host d) = hostMatches url host d" if "d \<in> set dn" for d
    using D that by (cases d) auto
  then have "isHostDenied url host (Some dn) = list_ex (hostMatches url host) dn"
    by (auto simp: isHostDenied_def list_ex_iff)
  then show ?thesis
    using A D disj unfolding p by (simp add: egressDecision_def)
qed

definition demo_url :: "string \<Rightarrow> string option" where
  "demo_url u = Some (drop 8 u)"

lemma egress_policy_enforced_witness:
  "ed_allow (egressDecision demo_url ''api.x.io'' (Some \<lparr>eg_allowedHosts = [''x.io''], eg_deniedHosts = Some [''api.x.io'']\<rparr>)) = False"
proof -
  have parse: "parseEgressPolicy demo_url (JObj [(''allowedHosts'', JArr [JStr '' X.io'']), (''deniedHosts'', JArr [JStr ''api.x.io''])]) =
      Inr \<lparr>eg_allowedHosts = [''x.io''], eg_deniedHosts = Some [''api.x.io'']\<rparr>"
    by code_simp
  have "hostMatches demo_url ''api.x.io'' ''api.x.io''"
    by code_simp
  then show ?thesis
    using egress_policy_enforced [OF parse, of "''api.x.io''"] by simp
qed

end
