(* ===== verification/Security_Posture.thy ===== *)
theory Security_Posture
  imports Core_Types
begin

text \<open>
  Security postures, the screening of untrusted input and its verdicts:
  \<open>security/security-posture.ts\<close>. \<open>JSON.parse\<close> is a parameter, \<^term>\<open>None\<close> for its exception.
\<close>

section \<open>Postures\<close>

datatype security_posture = Dangerous | Auto | Strict

definition SECURITY_POSTURES :: "security_posture list" where
  "SECURITY_POSTURES = [Dangerous, Auto, Strict]"

fun posture_name :: "security_posture \<Rightarrow> string" where
  "posture_name Dangerous = ''dangerous''"
| "posture_name Auto = ''auto''"
| "posture_name Strict = ''strict''"

datatype inbound_screening = ScreenOff | ScreenExternal

datatype tool_approvals = ApproveNone | ApproveAll

record resolved_security =
  sec_inboundScreening :: inbound_screening
  sec_toolApprovals :: tool_approvals

fun resolveSecurityPolicy :: "security_posture \<Rightarrow> resolved_security" where
  "resolveSecurityPolicy Dangerous = \<lparr>sec_inboundScreening = ScreenOff, sec_toolApprovals = ApproveNone\<rparr>"
| "resolveSecurityPolicy Auto = \<lparr>sec_inboundScreening = ScreenExternal, sec_toolApprovals = ApproveNone\<rparr>"
| "resolveSecurityPolicy Strict = \<lparr>sec_inboundScreening = ScreenOff, sec_toolApprovals = ApproveAll\<rparr>"

fun POSTURE_RANK :: "security_posture \<Rightarrow> nat" where
  "POSTURE_RANK Dangerous = 0"
| "POSTURE_RANK Auto = 1"
| "POSTURE_RANK Strict = 2"

definition parseSecurityPosture :: "js_value \<Rightarrow> security_posture option" where
  "parseSecurityPosture v =
     (case v of
        JStr s \<Rightarrow> List.find (\<lambda>p. posture_name p = js_toLowerCase (js_trim s)) SECURITY_POSTURES
      | _ \<Rightarrow> None)"

definition composeSecurityPosture :: "security_posture \<Rightarrow> security_posture option \<Rightarrow> security_posture" where
  "composeSecurityPosture orgFloor scope =
     (case scope of
        None \<Rightarrow> orgFloor
      | Some p \<Rightarrow> if POSTURE_RANK orgFloor \<ge> POSTURE_RANK p then orgFloor else p)"

text \<open>The rank is a linear order, so the composition is a maximum.\<close>

lemma POSTURE_RANK_inject [simp]: "POSTURE_RANK a = POSTURE_RANK b \<longleftrightarrow> a = b"
  by (cases a; cases b) simp_all

instantiation security_posture :: linorder
begin

definition less_eq_security_posture :: "security_posture \<Rightarrow> security_posture \<Rightarrow> bool" where
  "less_eq_security_posture a b \<longleftrightarrow> POSTURE_RANK a \<le> POSTURE_RANK b"

definition less_security_posture :: "security_posture \<Rightarrow> security_posture \<Rightarrow> bool" where
  "less_security_posture a b \<longleftrightarrow> POSTURE_RANK a < POSTURE_RANK b"

instance
  by standard (auto simp: less_eq_security_posture_def less_security_posture_def)

end

lemma compose_max: "composeSecurityPosture fl (Some p) = max fl p"
  by (auto simp: composeSecurityPosture_def max_def less_eq_security_posture_def)

lemma parse_posture_names:
  "parseSecurityPosture (JStr ('' '' @ posture_name Dangerous)) = Some Dangerous \<and>
   parseSecurityPosture (JStr ('' '' @ posture_name Auto)) = Some Auto \<and>
   parseSecurityPosture (JStr ('' '' @ posture_name Strict)) = Some Strict"
  by code_simp

text \<open>Composing postures only tightens: the result is at least the organisation's floor and at least
  what the scope asks for, it is one of the two, the order of composition does not matter, and every
  posture's name in any case parses back to it.\<close>

theorem posture_only_tightens:
  "fl \<le> composeSecurityPosture fl sc \<and>
   (case sc of None \<Rightarrow> composeSecurityPosture fl sc = fl
    | Some p \<Rightarrow> p \<le> composeSecurityPosture fl sc \<and> composeSecurityPosture fl sc \<in> {fl, p} \<and>
        composeSecurityPosture p (Some fl) = composeSecurityPosture fl (Some p)) \<and>
   composeSecurityPosture (composeSecurityPosture fl sc) sc = composeSecurityPosture fl sc \<and>
   parseSecurityPosture (JStr ('' '' @ posture_name fl)) = Some fl"
proof -
  have "parseSecurityPosture (JStr ('' '' @ posture_name fl)) = Some fl"
    using parse_posture_names by (cases fl) simp_all
  then show ?thesis
    by (cases sc) (auto simp: compose_max max_def, simp_all add: composeSecurityPosture_def)
qed

section \<open>Verdicts\<close>

datatype screen_decision = DecideAuto | DecideStrict

record screen_verdict =
  sv_decision :: screen_decision
  sv_reason :: "string option"

text \<open>
  The scanner for the first balanced JSON object: depth, start, in-string and escape flags, position;
  the rest of the text is the recursion argument. The result is the slice.
\<close>

fun first_object :: "string \<Rightarrow> nat \<Rightarrow> nat \<Rightarrow> bool \<Rightarrow> bool \<Rightarrow> nat \<Rightarrow> string \<Rightarrow> string option" where
  "first_object text depth start inStr esc i [] = None"
| "first_object text depth start inStr esc i (ch # rest) =
     (if inStr then
        (if esc then first_object text depth start True False (Suc i) rest
         else if ch = CHR 0x5C then first_object text depth start True True (Suc i) rest
         else if ch = CHR 0x22 then first_object text depth start False False (Suc i) rest
         else first_object text depth start True False (Suc i) rest)
      else if ch = CHR 0x22 then first_object text depth start True esc (Suc i) rest
      else if ch = CHR ''{'' then
        first_object text (Suc depth) (if depth = 0 then i else start) False esc (Suc i) rest
      else if ch = CHR ''}'' \<and> depth > 0 then
        (if depth - 1 = 0 then Some (take (Suc i - start) (drop start text))
         else first_object text (depth - 1) start False esc (Suc i) rest)
      else first_object text depth start False esc (Suc i) rest)"

definition firstJsonObject :: "(string \<Rightarrow> js_value option) \<Rightarrow> string \<Rightarrow> js_value option" where
  "firstJsonObject json_parse text = Option.bind (first_object text 0 0 False False 0 text) json_parse"

definition control_char :: "char \<Rightarrow> bool" where
  "control_char c \<longleftrightarrow> (of_char c :: nat) < 32 \<or> (of_char c :: nat) = 127"

definition clean_reason :: "js_value option \<Rightarrow> string" where
  "clean_reason r =
     (case r of
        Some (JStr s) \<Rightarrow> take 160 (js_trim (map (\<lambda>c. if control_char c then CHR '' '' else c) s))
      | _ \<Rightarrow> [])"

definition invalid_verdict :: screen_verdict where
  "invalid_verdict = \<lparr>sv_decision = DecideStrict, sv_reason = Some ''invalid security screen verdict''\<rparr>"

definition parseSecurityScreenVerdict ::
  "(string \<Rightarrow> js_value option) \<Rightarrow> string option \<Rightarrow> screen_verdict option" where
  "parseSecurityScreenVerdict json_parse out =
     (case out of
        None \<Rightarrow> None
      | Some text \<Rightarrow>
          if text = [] \<or> js_trim text = [] then None
          else
            (case firstJsonObject json_parse text of
               None \<Rightarrow> None
             | Some parsed \<Rightarrow>
                 (case js_prop parsed ''decision'' of
                    Some (JStr d) \<Rightarrow>
                      if d = ''auto'' then Some \<lparr>sv_decision = DecideAuto, sv_reason = None\<rparr>
                      else if d = [] then Some invalid_verdict
                      else if d \<noteq> ''strict'' then Some invalid_verdict
                      else (let reason = clean_reason (js_prop parsed ''reason'')
                            in Some \<lparr>sv_decision = DecideStrict, sv_reason = (if reason \<noteq> [] then Some reason else None)\<rparr>)
                  | _ \<Rightarrow> Some invalid_verdict)))"

section \<open>What is screened\<close>

record overheard_message =
  ov_user :: bool
  ov_name :: "string option"
  ov_text :: string

record screen_datum =
  sd_source :: string
  sd_content :: string

record screen_input =
  si_surface :: "string option"
  si_text :: string
  si_triggered :: bool
  si_securityScreenData :: "string option"
  si_overheard :: "overheard_message list"
  si_externalPromptData :: "screen_datum list"

record screen_payload =
  sp_content :: string
  sp_truncated :: bool

definition MAX_SCREEN_CHARS :: nat where
  "MAX_SCREEN_CHARS = 16000"

definition hex_digit :: "nat \<Rightarrow> char" where
  "hex_digit n = (if n < 10 then char_of (48 + n) else char_of (87 + n))"

text \<open>\<open>JSON.stringify\<close> of a string below U+0100 and of the payload array.\<close>

definition json_char :: "char \<Rightarrow> string" where
  "json_char c =
     (let n = (of_char c :: nat) in
      if n = 34 then [CHR 0x5C, CHR 0x22]
      else if n = 92 then [CHR 0x5C, CHR 0x5C]
      else if n = 8 then CHR 0x5C # ''b'' else if n = 9 then CHR 0x5C # ''t''
      else if n = 10 then CHR 0x5C # ''n'' else if n = 12 then CHR 0x5C # ''f''
      else if n = 13 then CHR 0x5C # ''r''
      else if n < 32 then CHR 0x5C # ''u00'' @ [hex_digit (n div 16), hex_digit (n mod 16)]
      else [c])"

definition json_string :: "string \<Rightarrow> string" where
  "json_string s = [CHR 0x22] @ concat (map json_char s) @ [CHR 0x22]"

definition json_datum :: "screen_datum \<Rightarrow> string" where
  "json_datum d =
     ''{'' @ json_string ''source'' @ '':'' @ json_string (sd_source d) @ '','' @ json_string ''content'' @ '':'' @
     json_string (sd_content d) @ ''}''"

definition json_payloads :: "screen_datum list \<Rightarrow> string" where
  "json_payloads ds = ''['' @ js_join '','' (map json_datum ds) @ '']''"

definition screen_payloads :: "screen_input \<Rightarrow> screen_datum list" where
  "screen_payloads inp =
     (if si_triggered inp \<and> truthy (si_surface inp) \<and>
         (si_securityScreenData inp \<noteq> None \<or> the (si_surface inp) = ''monitor'')
      then (let content = (case si_securityScreenData inp of Some d \<Rightarrow> d | None \<Rightarrow> si_text inp)
            in if js_trim content \<noteq> [] then [\<lparr>sd_source = the (si_surface inp), sd_content = content\<rparr>] else [])
      else []) @
     map (\<lambda>m. \<lparr>sd_source = ''overheard:'' @ (case ov_name m of None \<Rightarrow> ''participant'' | Some n \<Rightarrow> n), sd_content = ov_text m\<rparr>)
       (filter (\<lambda>m. ov_user m \<and> js_trim (ov_text m) \<noteq> []) (si_overheard inp)) @
     filter (\<lambda>d. js_trim (sd_content d) \<noteq> []) (si_externalPromptData inp)"

definition truncation_marker :: string where
  "truncation_marker = [CHR 0x0A] @ ''...[security screen input truncated]...'' @ [CHR 0x0A]"

definition securityScreenPayload :: "screen_input \<Rightarrow> screen_payload option" where
  "securityScreenPayload inp =
     (let payloads = screen_payloads inp in
      if payloads = [] then None
      else
        (let serialized = json_payloads payloads in
         if length serialized \<le> MAX_SCREEN_CHARS then Some \<lparr>sp_content = serialized, sp_truncated = False\<rparr>
         else (let half = (MAX_SCREEN_CHARS - length truncation_marker) div 2
               in Some \<lparr>sp_content = take half serialized @ truncation_marker @ drop (length serialized - half) serialized,
                        sp_truncated = True\<rparr>)))"

text \<open>Screening fails closed and stays in bounds: the screener's answer lifts a message only by the exact
  decision auto, any other object it returns is strict, and what it is shown is at most 16000
  characters, marked when cut, and nothing only if no untrusted text was there.\<close>

theorem screening_fails_closed:
  "(case parseSecurityScreenVerdict json_parse out of
      None \<Rightarrow> out = None \<or> js_trim (the out) = [] \<or> firstJsonObject json_parse (the out) = None
    | Some v \<Rightarrow> sv_decision v = (if Option.bind (Option.bind out (firstJsonObject json_parse)) (\<lambda>o'. js_prop o' ''decision'') =
                                     Some (JStr ''auto'') then DecideAuto else DecideStrict)) \<and>
   (case securityScreenPayload inp of
      None \<Rightarrow> screen_payloads inp = []
    | Some p \<Rightarrow> length (sp_content p) \<le> 16000 \<and> (sp_truncated p \<longleftrightarrow> 16000 < length (json_payloads (screen_payloads inp))))"
proof (intro conjI)
  show "case parseSecurityScreenVerdict json_parse out of
      None \<Rightarrow> out = None \<or> js_trim (the out) = [] \<or> firstJsonObject json_parse (the out) = None
    | Some v \<Rightarrow> sv_decision v = (if Option.bind (Option.bind out (firstJsonObject json_parse)) (\<lambda>o'. js_prop o' ''decision'') =
                                     Some (JStr ''auto'') then DecideAuto else DecideStrict)"
    by (auto simp: parseSecurityScreenVerdict_def invalid_verdict_def Let_def split: option.splits js_value.splits)
  have "length truncation_marker = 41"
    by (simp add: truncation_marker_def)
  then show "case securityScreenPayload inp of
      None \<Rightarrow> screen_payloads inp = []
    | Some p \<Rightarrow> length (sp_content p) \<le> 16000 \<and> (sp_truncated p \<longleftrightarrow> 16000 < length (json_payloads (screen_payloads inp)))"
    by (simp add: securityScreenPayload_def MAX_SCREEN_CHARS_def Let_def)
qed

end
