(* ===== verification/Tape_Fold.thy ===== *)
theory Tape_Fold
  imports Session_Types Audience
begin

text \<open>
  The tape of a session folded into a model transcript: \<open>harness/tape-fold.ts\<close>. Messages and payloads are
  \<^typ>\<open>js_value\<close>s, read as the code reads them, by property and \<open>typeof\<close>. The problems of the lint are
  constructors that carry what the code's messages interpolate.
\<close>

section \<open>Texts\<close>

text \<open>The em dash U+2014 lies outside the modelled code units; the opaque text below writes it as 0x97.\<close>

definition INTERRUPTED_TOOL_RESULT :: string where
  "INTERRUPTED_TOOL_RESULT =
     ''[interrupted '' @ [CHR 0x97] @ '' the platform restarted while this tool call was running and its outcome was not recorded. Check what actually happened before redoing anything with side effects.]''"

definition text_block :: "string \<Rightarrow> js_value" where
  "text_block t = JObj [(''type'', JStr ''text''), (''text'', JStr t)]"

definition role_of :: "js_value \<Rightarrow> js_value option" where
  "role_of m = js_prop m ''role''"

definition content_blocks :: "js_value \<Rightarrow> js_value list option" where
  "content_blocks m = (case js_prop m ''content'' of Some (JArr bs) \<Rightarrow> Some bs | _ \<Rightarrow> None)"

definition interrupted_result :: "string \<Rightarrow> js_value \<Rightarrow> ms \<Rightarrow> js_value" where
  "interrupted_result callId toolName stamp =
     JObj [(''role'', JStr ''toolResult''), (''toolCallId'', JStr callId), (''toolName'', toolName),
           (''content'', JArr [text_block INTERRUPTED_TOOL_RESULT]), (''isError'', JBool True), (''timestamp'', JNum stamp)]"

section \<open>Audiences\<close>

definition audience_entitled :: "principal list \<Rightarrow> scope_id \<Rightarrow> scope_id \<Rightarrow> scope_id \<Rightarrow> bool" where
  "audience_entitled audience sess org scope \<longleftrightarrow> list_all (\<lambda>p. principalEntitledToScope p scope sess org) audience"

definition filter_row :: "principal list \<Rightarrow> scope_id \<Rightarrow> scope_id \<Rightarrow> tape_record \<Rightarrow> tape_record list" where
  "filter_row audience sess org r =
     (if tp_kind r \<noteq> TMessage \<or> audience_entitled audience sess org (tp_scopeLabel r) then [r]
      else (case (role_of (tp_payload r), js_prop (tp_payload r) ''toolCallId'') of
              (Some (JStr role), Some (JStr callId)) \<Rightarrow>
                if role = ''toolResult''
                then [r\<lparr>tp_payload := interrupted_result callId
                          (case js_prop (tp_payload r) ''toolName'' of Some (JStr n) \<Rightarrow> JStr n | _ \<Rightarrow> JStr ''tool'') (tp_createdAt r)\<rparr>]
                else []
            | _ \<Rightarrow> []))"

definition filterTapeForAudience ::
  "tape_record list \<Rightarrow> principal list \<Rightarrow> scope_id \<Rightarrow> scope_id \<Rightarrow> tape_record list" where
  "filterTapeForAudience rows audience sess org =
     (if audience = [] then [] else concat (map (filter_row audience sess org) rows))"

section \<open>Events\<close>

datatype tape_event =
    EvCompaction string
  | EvLegacyImport "js_value list"
  | EvLegacyPatch "js_value list"
  | EvInterrupt

text \<open>\<open>messages\<close> of an import or patch is an array or absent, and \<open>text\<close> of a compaction a string.\<close>

definition event_messages :: "js_value \<Rightarrow> js_value list" where
  "event_messages p = (case js_prop p ''messages'' of Some (JArr ms) \<Rightarrow> ms | _ \<Rightarrow> [])"

definition event_text :: "js_value \<Rightarrow> string" where
  "event_text p = (case js_prop p ''text'' of Some (JStr t) \<Rightarrow> t | _ \<Rightarrow> ''undefined'')"

definition contextEvent :: "tape_record \<Rightarrow> tape_event option" where
  "contextEvent r =
     (if tp_kind r \<noteq> TContextEvent then None
      else (case js_prop (tp_payload r) ''event'' of
              Some (JStr e) \<Rightarrow>
                if e = ''compaction'' then Some (EvCompaction (event_text (tp_payload r)))
                else if e = ''legacy_import'' then Some (EvLegacyImport (event_messages (tp_payload r)))
                else if e = ''legacy_patch'' then Some (EvLegacyPatch (event_messages (tp_payload r)))
                else if e = ''interrupt'' then Some EvInterrupt
                else None
            | _ \<Rightarrow> None))"

fun is_import :: "tape_event option \<Rightarrow> bool" where
  "is_import (Some (EvLegacyImport ms)) = True"
| "is_import _ = False"

fun is_patch :: "tape_event option \<Rightarrow> bool" where
  "is_patch (Some (EvLegacyPatch ms)) = True"
| "is_patch _ = False"

text \<open>\<open>Array.isArray(payload.scopes)\<close>.\<close>

definition payload_scopes :: "tape_record \<Rightarrow> js_value list option" where
  "payload_scopes r = (case js_prop (tp_payload r) ''scopes'' of Some (JArr ss) \<Rightarrow> Some ss | _ \<Rightarrow> None)"

definition lastImportLacksScopes :: "tape_record list \<Rightarrow> bool" where
  "lastImportLacksScopes rows =
     (case List.find (\<lambda>r. is_import (contextEvent r)) (rev rows) of
        None \<Rightarrow> False
      | Some r \<Rightarrow> payload_scopes r = None)"

definition scope_value_entitled :: "principal list \<Rightarrow> scope_id \<Rightarrow> scope_id \<Rightarrow> js_value \<Rightarrow> bool" where
  "scope_value_entitled audience sess org v = (case v of JStr s \<Rightarrow> audience_entitled audience sess org s | _ \<Rightarrow> False)"

definition event_entitled :: "principal list \<Rightarrow> scope_id \<Rightarrow> scope_id \<Rightarrow> tape_record \<Rightarrow> bool" where
  "event_entitled audience sess org r =
     (let ev = contextEvent r in
      if ev = None \<or> ev = Some EvInterrupt then True
      else if \<not> audience_entitled audience sess org (tp_scopeLabel r) then False
      else if is_import ev \<or> is_patch ev
        then (case payload_scopes r of None \<Rightarrow> False | Some ss \<Rightarrow> list_all (scope_value_entitled audience sess org) ss)
      else True)"

text \<open>Rows before the last import are not looked at.\<close>

fun from_last_import :: "tape_record list \<Rightarrow> tape_record list" where
  "from_last_import [] = []"
| "from_last_import (r # rows) =
     (if list_ex (\<lambda>x. is_import (contextEvent x)) rows then from_last_import rows else r # rows)"

definition tapeEventsEntitled :: "tape_record list \<Rightarrow> principal list \<Rightarrow> scope_id \<Rightarrow> scope_id \<Rightarrow> bool" where
  "tapeEventsEntitled rows audience sess org =
     (if audience = [] then False else list_all (event_entitled audience sess org) (from_last_import rows))"

section \<open>Healing\<close>

definition result_id :: "js_value \<Rightarrow> string option" where
  "result_id m =
     (if role_of m = Some (JStr ''toolResult'')
      then (case js_prop m ''toolCallId'' of Some (JStr t) \<Rightarrow> Some t | _ \<Rightarrow> None) else None)"

definition block_call :: "js_value \<Rightarrow> (string \<times> js_value) list" where
  "block_call b =
     (if js_prop b ''type'' = Some (JStr ''toolCall'')
      then (case js_prop b ''id'' of
              Some (JStr i) \<Rightarrow> [(i, case js_prop b ''name'' of None \<Rightarrow> JStr ''tool'' | Some JNull \<Rightarrow> JStr ''tool'' | Some n \<Rightarrow> n)]
            | _ \<Rightarrow> [])
      else [])"

definition message_calls :: "js_value \<Rightarrow> (string \<times> js_value) list" where
  "message_calls m =
     (if role_of m = Some (JStr ''assistant'')
      then (case content_blocks m of None \<Rightarrow> [] | Some bs \<Rightarrow> concat (map block_call bs)) else [])"

definition missing_calls :: "js_value list \<Rightarrow> (string \<times> js_value) list" where
  "missing_calls out =
     filter (\<lambda>(i, n). i \<notin> set (List.map_filter result_id out)) (concat (map message_calls out))"

definition healDanglingCalls :: "js_value list \<Rightarrow> ms \<Rightarrow> js_value list" where
  "healDanglingCalls out stamp = out @ map (\<lambda>(i, n). interrupted_result i n stamp) (missing_calls out)"

definition healFoldInterrupt :: "js_value list \<Rightarrow> ms \<Rightarrow> js_value list" where
  "healFoldInterrupt messages stamp = healDanglingCalls messages stamp"

section \<open>The fold\<close>

record boundary =
  bd_pos :: nat
  bd_entrySeq :: int

record foldable =
  fo_out :: "js_value list"
  fo_boundaries :: "boundary list"

definition summary_message :: "string \<Rightarrow> ms \<Rightarrow> js_value" where
  "summary_message t stamp =
     JObj [(''role'', JStr ''user''), (''content'', JArr [text_block (''[Earlier conversation summary]'' @ [CHR 0x0A] @ t)]),
           (''timestamp'', JNum stamp)]"

definition mark :: "int option \<Rightarrow> js_value list \<Rightarrow> boundary list" where
  "mark seq out = (case seq of None \<Rightarrow> [] | Some e \<Rightarrow> [\<lparr>bd_pos = length out, bd_entrySeq = e\<rparr>])"

definition compaction_cut :: "tape_record \<Rightarrow> boundary list \<Rightarrow> boundary option" where
  "compaction_cut r bs =
     (case tp_coversEntrySeq r of
        None \<Rightarrow> None
      | Some c \<Rightarrow> List.find (\<lambda>b. bd_entrySeq b \<le> c) (rev bs))"

definition shift_boundary :: "nat \<Rightarrow> boundary \<Rightarrow> boundary" where
  "shift_boundary cb b = b\<lparr>bd_pos := bd_pos b - cb + 1\<rparr>"

definition fold_row :: "tape_record \<Rightarrow> foldable \<Rightarrow> foldable" where
  "fold_row r f =
     (if tp_kind r = TAnnotation then
        (if js_prop (tp_payload r) ''turnEnd'' = Some (JBool True)
         then f\<lparr>fo_boundaries := fo_boundaries f @ mark (tp_entrySeq r) (fo_out f)\<rparr> else f)
      else (case contextEvent r of
          Some (EvLegacyImport ms) \<Rightarrow> \<lparr>fo_out = ms, fo_boundaries = mark (tp_coversEntrySeq r) ms\<rparr>
        | Some (EvLegacyPatch ms) \<Rightarrow>
            (let out = fo_out f @ ms
             in \<lparr>fo_out = out, fo_boundaries = fo_boundaries f @ mark (tp_coversEntrySeq r) out\<rparr>)
        | Some (EvCompaction t) \<Rightarrow>
            (case compaction_cut r (fo_boundaries f) of
               Some cb \<Rightarrow>
                 \<lparr>fo_out = summary_message t (tp_createdAt r) # drop (bd_pos cb) (fo_out f),
                  fo_boundaries = map (shift_boundary (bd_pos cb)) (filter (\<lambda>b. bd_pos b \<ge> bd_pos cb) (fo_boundaries f))\<rparr>
             | None \<Rightarrow>
                 \<lparr>fo_out = summary_message t (tp_createdAt r) # fo_out f,
                  fo_boundaries = map (shift_boundary 0) (fo_boundaries f)\<rparr>)
        | Some EvInterrupt \<Rightarrow> f\<lparr>fo_out := healDanglingCalls (fo_out f) (tp_createdAt r)\<rparr>
        | None \<Rightarrow>
            if tp_kind r = TMessage \<and> tp_payload r \<noteq> JNull then f\<lparr>fo_out := fo_out f @ [tp_payload r]\<rparr> else f))"

definition foldTape :: "tape_record list \<Rightarrow> js_value list" where
  "foldTape rows = fo_out (fold fold_row rows \<lparr>fo_out = [], fo_boundaries = []\<rparr>)"

section \<open>The lint\<close>

datatype fold_problem =
    FirstNotUser "js_value option"
  | UnknownRole nat "js_value option"
  | ImageWithoutBytes nat
  | DuplicateCall nat string
  | ResultWithoutCall nat "js_value option"
  | UserWhileOpen nat nat
  | EndDangling nat

text \<open>\<open>p.startsWith("end:")\<close>: every other message starts with \<open>#\<close>.\<close>

fun at_end :: "fold_problem \<Rightarrow> bool" where
  "at_end (EndDangling n) = True"
| "at_end _ = False"

record lint_state =
  li_problems :: "fold_problem list"
  li_open :: "string list"
  li_seen :: "string list"

definition add_problem :: "fold_problem \<Rightarrow> lint_state \<Rightarrow> lint_state" where
  "add_problem p st = st\<lparr>li_problems := li_problems st @ [p]\<rparr>"

definition set_add :: "'a \<Rightarrow> 'a list \<Rightarrow> 'a list" where
  "set_add x xs = (if x \<in> set xs then xs else xs @ [x])"

definition is_str :: "js_value option \<Rightarrow> bool" where
  "is_str v = (case v of Some (JStr s) \<Rightarrow> True | _ \<Rightarrow> False)"

definition lint_image :: "nat \<Rightarrow> js_value \<Rightarrow> lint_state \<Rightarrow> lint_state" where
  "lint_image i b st =
     (if js_prop b ''type'' = Some (JStr ''image'') \<and> \<not> is_str (js_prop b ''data'')
      then add_problem (ImageWithoutBytes i) st else st)"

definition lint_call :: "nat \<Rightarrow> js_value \<Rightarrow> lint_state \<Rightarrow> lint_state" where
  "lint_call i b st =
     (case (js_prop b ''type'', js_prop b ''id'') of
        (Some (JStr t), Some (JStr c)) \<Rightarrow>
          if t = ''toolCall'' then
            (let st' = (if c \<in> set (li_seen st) then add_problem (DuplicateCall i c) st else st)
             in st'\<lparr>li_seen := set_add c (li_seen st'), li_open := set_add c (li_open st')\<rparr>)
          else st
      | _ \<Rightarrow> st)"

definition lint_message :: "nat \<Rightarrow> js_value \<Rightarrow> lint_state \<Rightarrow> lint_state" where
  "lint_message i m st =
     (if role_of m \<notin> {Some (JStr ''user''), Some (JStr ''assistant''), Some (JStr ''toolResult'')}
      then add_problem (UnknownRole i (role_of m)) st
      else
        (let st1 = (case content_blocks m of None \<Rightarrow> st | Some bs \<Rightarrow> fold (lint_image i) bs st) in
         if role_of m = Some (JStr ''assistant'') then
           (case content_blocks m of None \<Rightarrow> st1 | Some bs \<Rightarrow> fold (lint_call i) bs st1)
         else if role_of m = Some (JStr ''toolResult'') then
           (case js_prop m ''toolCallId'' of
              Some (JStr t) \<Rightarrow>
                if t \<in> set (li_open st1) then st1\<lparr>li_open := filter (\<lambda>x. x \<noteq> t) (li_open st1)\<rparr>
                else add_problem (ResultWithoutCall i (Some (JStr t))) st1
            | v \<Rightarrow> add_problem (ResultWithoutCall i v) st1)
         else if li_open st1 \<noteq> [] then
           (add_problem (UserWhileOpen i (length (li_open st1))) st1)\<lparr>li_open := []\<rparr>
         else st1))"

fun lint_loop :: "nat \<Rightarrow> js_value list \<Rightarrow> lint_state \<Rightarrow> lint_state" where
  "lint_loop i [] st = st"
| "lint_loop i (m # ms) st = lint_loop (Suc i) ms (lint_message i m st)"

definition js_falsy :: "js_value \<Rightarrow> bool" where
  "js_falsy v \<longleftrightarrow> v = JNull \<or> v = JBool False \<or> v = JNum 0 \<or> v = JStr []"

definition first_problem :: "js_value list \<Rightarrow> fold_problem list" where
  "first_problem ms =
     (case ms of [] \<Rightarrow> []
      | m # _ \<Rightarrow> if \<not> js_falsy m \<and> role_of m \<noteq> Some (JStr ''user'') then [FirstNotUser (role_of m)] else [])"

record fold_lint =
  fl_ok :: bool
  fl_problems :: "fold_problem list"

definition lintFold :: "js_value list \<Rightarrow> fold_lint" where
  "lintFold ms =
     (let st = lint_loop 0 ms \<lparr>li_problems = first_problem ms, li_open = [], li_seen = []\<rparr>;
          problems = li_problems st @ (if li_open st \<noteq> [] then [EndDangling (length (li_open st))] else [])
      in \<lparr>fl_ok = (problems = []), fl_problems = problems\<rparr>)"

datatype tape_mode = TapeShadow | TapeServe

record tape_plan =
  pl_seed :: "js_value list option"
  pl_foreign :: bool
  pl_lint :: "fold_lint option"
  pl_fold :: "js_value list option"

definition foreign_row :: "string \<Rightarrow> tape_record \<Rightarrow> bool" where
  "foreign_row harness r \<longleftrightarrow> tp_kind r = TMessage \<and> tp_harness r \<noteq> None \<and> tp_harness r \<noteq> Some harness"

definition fold_or :: "tape_record list \<Rightarrow> js_value list option \<Rightarrow> js_value list" where
  "fold_or rows folded = (case folded of Some ms \<Rightarrow> ms | None \<Rightarrow> foldTape rows)"

definition planTapeSeed ::
  "tape_record list \<Rightarrow> string \<Rightarrow> tape_mode option \<Rightarrow> js_value list option \<Rightarrow> tape_plan" where
  "planTapeSeed rows harness mode folded =
     (if list_ex (foreign_row harness) rows
      then \<lparr>pl_seed = None, pl_foreign = True, pl_lint = None, pl_fold = None\<rparr>
      else
        (let ms = fold_or rows folded; lint = lintFold ms in
         \<lparr>pl_seed = (if mode = Some TapeServe \<and> fl_ok lint \<and> ms \<noteq> [] then Some ms else None),
          pl_foreign = False, pl_lint = Some lint, pl_fold = Some ms\<rparr>))"

definition tapeNeedsInterruptHeal :: "tape_record list \<Rightarrow> js_value list option \<Rightarrow> bool" where
  "tapeNeedsInterruptHeal rows folded =
     (let problems = fl_problems (lintFold (fold_or rows folded))
      in problems \<noteq> [] \<and> list_all at_end problems)"


section \<open>What the lint accepts\<close>

text \<open>The calls and answers of a transcript, in order.\<close>

definition calls_of :: "js_value list \<Rightarrow> string list" where
  "calls_of ms = map fst (concat (map message_calls ms))"

definition answers_of :: "js_value list \<Rightarrow> string list" where
  "answers_of ms = List.map_filter result_id ms"

lemma calls_of_simps [simp]:
  "calls_of [] = []" "calls_of (m # ms) = map fst (message_calls m) @ calls_of ms"
  "calls_of (xs @ ys) = calls_of xs @ calls_of ys"
  by (simp_all add: calls_of_def)

lemma answers_of_simps [simp]:
  "answers_of [] = []"
  "answers_of (m # ms) = (case result_id m of None \<Rightarrow> [] | Some t \<Rightarrow> [t]) @ answers_of ms"
  by (simp_all add: answers_of_def List.map_filter_simps split: option.split)

lemma map_fst_missing: "map fst (missing_calls out) = filter (\<lambda>i. i \<notin> set (answers_of out)) (calls_of out)"
  by (simp add: missing_calls_def answers_of_def calls_of_def filter_map comp_def case_prod_unfold)

text \<open>The state of the lint after a transcript without a problem.\<close>

definition lint_clean :: "string list \<Rightarrow> string list \<Rightarrow> lint_state \<Rightarrow> bool" where
  "lint_clean cs as st \<longleftrightarrow>
     li_problems st = [] \<and> li_seen st = cs \<and> distinct cs \<and> set as \<subseteq> set cs \<and>
     li_open st = filter (\<lambda>c. c \<notin> set as) cs"

lemma add_problem_simps [simp]:
  "li_problems (add_problem p st) = li_problems st @ [p]" "li_open (add_problem p st) = li_open st"
  "li_seen (add_problem p st) = li_seen st"
  by (simp_all add: add_problem_def)

lemma fold_lint_image:
  "\<exists>ps. li_problems (fold (lint_image i) bs st) = li_problems st @ ps \<and> (ps = [] \<longrightarrow> fold (lint_image i) bs st = st) \<and>
     list_all (\<lambda>p. \<not> at_end p) ps"
proof (induction bs arbitrary: st)
  case (Cons b bs)
  show ?case
    using Cons.IH [of "lint_image i b st"] by (auto simp: lint_image_def split: if_splits)
qed simp

lemma lint_call_cases:
  "lint_call i b st =
     (case block_call b of
        [] \<Rightarrow> st
      | (c, n) # _ \<Rightarrow>
          (let st' = (if c \<in> set (li_seen st) then add_problem (DuplicateCall i c) st else st)
           in st'\<lparr>li_seen := set_add c (li_seen st'), li_open := set_add c (li_open st')\<rparr>))"
  by (auto simp: lint_call_def block_call_def split: option.splits js_value.splits)

lemma block_call_single: "block_call b = [] \<or> (\<exists>c n. block_call b = [(c, n)])"
  by (auto simp: block_call_def split: option.splits js_value.splits)

lemma lint_call_grows:
  "\<exists>ps. li_problems (lint_call i b st) = li_problems st @ ps \<and> list_all (\<lambda>p. \<not> at_end p) ps"
  using block_call_single [of b] by (auto simp: lint_call_cases Let_def)

lemma fold_lint_call_grows:
  "\<exists>ps. li_problems (fold (lint_call i) bs st) = li_problems st @ ps \<and> list_all (\<lambda>p. \<not> at_end p) ps"
proof (induction bs arbitrary: st)
  case (Cons b bs)
  obtain ps where "li_problems (lint_call i b st) = li_problems st @ ps" "list_all (\<lambda>p. \<not> at_end p) ps"
    using lint_call_grows by blast
  moreover obtain qs where "li_problems (fold (lint_call i) bs (lint_call i b st)) = li_problems (lint_call i b st) @ qs"
      "list_all (\<lambda>p. \<not> at_end p) qs"
    using Cons.IH by blast
  ultimately show ?case
    by (intro exI [of _ "ps @ qs"]) simp
qed simp

lemma lint_call_clean:
  assumes "lint_clean cs as st" "li_problems (lint_call i b st) = []"
  shows "lint_clean (cs @ map fst (block_call b)) as (lint_call i b st)"
  using block_call_single [of b] assms
  by (auto simp: lint_call_cases lint_clean_def Let_def set_add_def filter_empty_conv split: if_splits)

lemma fold_lint_call_clean:
  assumes "lint_clean cs as st" "li_problems (fold (lint_call i) bs st) = []"
  shows "lint_clean (cs @ map fst (concat (map block_call bs))) as (fold (lint_call i) bs st)"
  using assms
proof (induction bs arbitrary: cs st)
  case (Cons b bs)
  have "li_problems (lint_call i b st) = []"
    using Cons.prems(2) fold_lint_call_grows [of i bs "lint_call i b st"] by auto
  then show ?case
    using Cons.IH [OF lint_call_clean [OF Cons.prems(1)], of i b] Cons.prems(2) by simp
qed simp

lemma lint_message_grows:
  "\<exists>ps. li_problems (lint_message i m st) = li_problems st @ ps \<and> list_all (\<lambda>p. \<not> at_end p) ps"
proof (cases "content_blocks m")
  case None
  then show ?thesis
    by (auto simp: lint_message_def Let_def split: option.split js_value.split)
next
  case (Some bs)
  obtain ps where "li_problems (fold (lint_image i) bs st) = li_problems st @ ps" "list_all (\<lambda>p. \<not> at_end p) ps"
    using fold_lint_image by blast
  moreover obtain qs where "li_problems (fold (lint_call i) bs (fold (lint_image i) bs st)) =
      li_problems (fold (lint_image i) bs st) @ qs" "list_all (\<lambda>p. \<not> at_end p) qs"
    using fold_lint_call_grows by blast
  ultimately show ?thesis
    using Some by (auto simp: lint_message_def Let_def split: option.split js_value.split)
qed

lemma lint_loop_grows:
  "\<exists>ps. li_problems (lint_loop i ms st) = li_problems st @ ps \<and> list_all (\<lambda>p. \<not> at_end p) ps"
proof (induction ms arbitrary: i st)
  case (Cons m ms)
  obtain ps where "li_problems (lint_message i m st) = li_problems st @ ps" "list_all (\<lambda>p. \<not> at_end p) ps"
    using lint_message_grows by blast
  moreover obtain qs where "li_problems (lint_loop (Suc i) ms (lint_message i m st)) = li_problems (lint_message i m st) @ qs"
      "list_all (\<lambda>p. \<not> at_end p) qs"
    using Cons.IH by blast
  ultimately show ?case
    by (intro exI [of _ "ps @ qs"]) simp
qed simp


lemma fold_image_clean:
  "lint_clean cs as st \<Longrightarrow> li_problems (fold (lint_image i) bs st) = [] \<Longrightarrow> fold (lint_image i) bs st = st"
  using fold_lint_image [of i bs st] by (auto simp: lint_clean_def)

lemma lint_answer_clean:
  assumes "lint_clean cs as st" "t \<in> set (li_open st)"
  shows "lint_clean cs (as @ [t]) (st\<lparr>li_open := filter (\<lambda>x. x \<noteq> t) (li_open st)\<rparr>)"
  using assms by (auto simp: lint_clean_def intro!: filter_cong)

lemma result_id_cases:
  "role_of m = Some (JStr ''toolResult'') \<Longrightarrow>
     result_id m = (case js_prop m ''toolCallId'' of Some (JStr t) \<Rightarrow> Some t | _ \<Rightarrow> None)"
  "role_of m \<noteq> Some (JStr ''toolResult'') \<Longrightarrow> result_id m = None"
  by (simp_all add: result_id_def)

lemma message_calls_cases:
  "role_of m = Some (JStr ''assistant'') \<Longrightarrow>
     message_calls m = (case content_blocks m of None \<Rightarrow> [] | Some bs \<Rightarrow> concat (map block_call bs))"
  "role_of m \<noteq> Some (JStr ''assistant'') \<Longrightarrow> message_calls m = []"
  by (simp_all add: message_calls_def)

lemma lint_message_clean:
  assumes clean: "lint_clean cs as st" and ok: "li_problems (lint_message i m st) = []"
  shows "lint_clean (cs @ map fst (message_calls m)) (as @ (case result_id m of None \<Rightarrow> [] | Some t \<Rightarrow> [t])) (lint_message i m st)"
proof -
  define st1 where "st1 = (case content_blocks m of None \<Rightarrow> st | Some bs \<Rightarrow> fold (lint_image i) bs st)"
  have role: "role_of m \<in> {Some (JStr ''user''), Some (JStr ''assistant''), Some (JStr ''toolResult'')}"
    by (rule ccontr) (use ok in \<open>simp add: lint_message_def\<close>)
  have "\<exists>ps. li_problems (lint_message i m st) = li_problems st1 @ ps"
  proof (cases "content_blocks m")
    case None
    then show ?thesis
      using role by (auto simp: lint_message_def st1_def Let_def split: option.splits js_value.splits)
  next
    case (Some bs)
    then show ?thesis
      using role fold_lint_call_grows [of i bs st1]
      by (auto simp: lint_message_def st1_def Let_def split: option.splits js_value.splits)
  qed
  then have "li_problems st1 = []"
    using ok by auto
  then have same: "st1 = st"
    using fold_image_clean [OF clean] by (auto simp: st1_def split: option.splits)
  consider "role_of m = Some (JStr ''assistant'')" | "role_of m = Some (JStr ''toolResult'')" | "role_of m = Some (JStr ''user'')"
    using role by blast
  then show ?thesis
  proof cases
    case 1
    then have "lint_message i m st = (case content_blocks m of None \<Rightarrow> st | Some bs \<Rightarrow> fold (lint_call i) bs st)"
      using same by (simp add: lint_message_def st1_def)
    then show ?thesis
      using 1 clean ok fold_lint_call_clean [OF clean]
      by (cases "content_blocks m") (simp_all add: result_id_cases message_calls_cases)
  next
    case 2
    then obtain t where t: "js_prop m ''toolCallId'' = Some (JStr t)" "t \<in> set (li_open st)"
      and "lint_message i m st = st\<lparr>li_open := filter (\<lambda>x. x \<noteq> t) (li_open st)\<rparr>"
      using ok same role by (auto simp: lint_message_def st1_def Let_def split: option.splits js_value.splits if_splits)
    then show ?thesis
      using 2 lint_answer_clean [OF clean t(2)] by (simp add: result_id_cases message_calls_cases)
  next
    case 3
    then have "lint_message i m st = st"
      using ok same role by (auto simp: lint_message_def st1_def Let_def split: if_splits)
    then show ?thesis
      using 3 clean by (simp add: result_id_cases message_calls_cases)
  qed
qed

lemma lint_loop_clean:
  assumes "lint_clean cs as st" "li_problems (lint_loop i ms st) = []"
  shows "lint_clean (cs @ calls_of ms) (as @ answers_of ms) (lint_loop i ms st)"
  using assms
proof (induction ms arbitrary: i cs as st)
  case (Cons m ms)
  have "li_problems (lint_message i m st) = []"
    using Cons.prems(2) lint_loop_grows [of "Suc i" ms "lint_message i m st"] by auto
  from Cons.IH [OF lint_message_clean [OF Cons.prems(1) this], of "Suc i"] show ?case
    using Cons.prems(2) by simp
qed simp

lemma lint_loop_append: "lint_loop i (xs @ ys) st = lint_loop (i + length xs) ys (lint_loop i xs st)"
  by (induction xs arbitrary: i st) simp_all

text \<open>The stand-in results answer the open calls one by one.\<close>

lemma interrupted_result_simps [simp]:
  "role_of (interrupted_result c n t) = Some (JStr ''toolResult'')"
  "js_prop (interrupted_result c n t) ''toolCallId'' = Some (JStr c)"
  "content_blocks (interrupted_result c n t) = Some [text_block INTERRUPTED_TOOL_RESULT]"
  by (simp_all add: interrupted_result_def role_of_def content_blocks_def js_prop_def)

lemma lint_image_text [simp]: "lint_image i (text_block t) st = st"
  by (simp add: lint_image_def text_block_def js_prop_def)

lemma lint_interrupted:
  "c \<in> set (li_open st) \<Longrightarrow>
     lint_message i (interrupted_result c n t) st = st\<lparr>li_open := filter (\<lambda>x. x \<noteq> c) (li_open st)\<rparr>"
  by (simp add: lint_message_def)

lemma lint_heals:
  assumes "li_problems st = []" "li_open st = map fst calls" "distinct (map fst calls)"
  shows "li_problems (lint_loop i (map (\<lambda>(c, n). interrupted_result c n t) calls) st) = [] \<and>
         li_open (lint_loop i (map (\<lambda>(c, n). interrupted_result c n t) calls) st) = []"
  using assms
proof (induction calls arbitrary: i st)
  case (Cons call calls)
  obtain c n where call: "call = (c, n)"
    by (cases call)
  have "filter (\<lambda>x. x \<noteq> c) (map fst calls) = map fst calls"
    using Cons.prems(3) call by (auto simp: filter_id_conv)
  then show ?case
    using Cons.prems call by (simp add: lint_interrupted Cons.IH)
qed simp

lemma lint_parts:
  fixes ms :: "js_value list"
  defines "st \<equiv> lint_loop 0 ms \<lparr>li_problems = first_problem ms, li_open = [], li_seen = []\<rparr>"
  shows "fl_problems (lintFold ms) = li_problems st @ (if li_open st \<noteq> [] then [EndDangling (length (li_open st))] else [])"
    and "fl_ok (lintFold ms) \<longleftrightarrow> li_problems st = [] \<and> li_open st = []"
    and "list_all (\<lambda>p. \<not> at_end p) (li_problems st)"
  using lint_loop_grows [of 0 ms "\<lparr>li_problems = first_problem ms, li_open = [], li_seen = []\<rparr>"]
  by (auto simp: lintFold_def st_def Let_def first_problem_def split: list.splits)

lemma heal_facts:
  assumes "tapeNeedsInterruptHeal rows (Some ms)"
  shows "fl_ok (lintFold (healFoldInterrupt ms t)) \<and> \<not> fl_ok (lintFold ms) \<and> missing_calls ms \<noteq> []"
proof -
  let ?init = "\<lparr>li_problems = first_problem ms, li_open = [], li_seen = []\<rparr>"
  let ?st = "lint_loop 0 ms ?init"
  note parts = lint_parts [of ms]
  have "list_all at_end (li_problems ?st)" and "fl_problems (lintFold ms) \<noteq> []"
    using assms by (auto simp: tapeNeedsInterruptHeal_def fold_or_def Let_def parts(1) split: if_splits)
  then have clean: "li_problems ?st = []" and "li_open ?st \<noteq> []"
    using parts(1,3) by (cases "li_problems ?st"; auto)+
  have first: "first_problem ms = []"
    using clean lint_loop_grows [of 0 ms ?init] by auto
  have "lint_clean (calls_of ms) (answers_of ms) ?st"
    using lint_loop_clean [of "[]" "[]" ?init 0 ms] clean first by (simp add: lint_clean_def)
  then have missing: "li_open ?st = map fst (missing_calls ms)" "distinct (map fst (missing_calls ms))"
    by (simp_all add: lint_clean_def map_fst_missing)
  have "ms \<noteq> []"
    using \<open>li_open ?st \<noteq> []\<close> by (cases ms) simp_all
  then have "first_problem (healFoldInterrupt ms t) = []"
    using first by (cases ms) (simp_all add: first_problem_def healFoldInterrupt_def healDanglingCalls_def)
  then have "fl_ok (lintFold (healFoldInterrupt ms t))"
    using lint_heals [OF clean missing] first
    by (simp add: lint_parts(2) lint_loop_append healFoldInterrupt_def healDanglingCalls_def)
  then show ?thesis
    using \<open>li_open ?st \<noteq> []\<close> parts(2) missing(1) by auto
qed

lemma fold_interrupt:
  "contextEvent r = Some EvInterrupt \<Longrightarrow> foldTape (rows @ [r]) = healFoldInterrupt (foldTape rows) (tp_createdAt r)"
  by (auto simp: foldTape_def fold_row_def healFoldInterrupt_def contextEvent_def split: if_splits)

text \<open>A transcript whose only faults are tool calls left open at its end is healed by the interrupt: the
  healed transcript passes the lint and is a seed for the model, it only adds results after the old
  messages, and folding the tape with the interrupt event appended gives the same transcript again.\<close>

theorem interrupt_heals_tape:
  assumes "tapeNeedsInterruptHeal rows None" "contextEvent r = Some EvInterrupt"
    "\<not> list_ex (foreign_row harness) (rows @ [r])"
  shows "fl_ok (lintFold (foldTape (rows @ [r]))) \<and>
    foldTape (rows @ [r]) = healFoldInterrupt (foldTape rows) (tp_createdAt r) \<and>
    take (length (foldTape rows)) (foldTape (rows @ [r])) = foldTape rows \<and>
    pl_seed (planTapeSeed rows harness (Some TapeServe) None) = None \<and>
    pl_seed (planTapeSeed (rows @ [r]) harness (Some TapeServe) None) = Some (foldTape (rows @ [r]))"
proof -
  have "tapeNeedsInterruptHeal rows (Some (foldTape rows))"
    using assms(1) by (simp add: tapeNeedsInterruptHeal_def fold_or_def)
  note heal = heal_facts [OF this, of "tp_createdAt r"]
  moreover have "healFoldInterrupt (foldTape rows) (tp_createdAt r) \<noteq> []"
    using heal by (simp add: healFoldInterrupt_def healDanglingCalls_def)
  ultimately show ?thesis
    using assms(3) fold_interrupt [OF assms(2), of rows]
    by (simp add: planTapeSeed_def fold_or_def Let_def healFoldInterrupt_def healDanglingCalls_def)
qed

definition demo_row :: "tape_kind \<Rightarrow> js_value \<Rightarrow> scope_id \<Rightarrow> tape_record" where
  "demo_row k v scope =
     \<lparr>tp_kind = k, tp_payload = v, tp_scopeLabel = scope, tp_harness = None, tp_meta = None,
      tp_entrySeq = None, tp_coversEntrySeq = None, tp_sessionId = ''s'', tp_seq = 0, tp_createdAt = 7\<rparr>"

definition demo_tape :: "tape_record list" where
  "demo_tape =
     [demo_row TMessage (JObj [(''role'', JStr ''user''), (''content'', JArr [text_block ''go''])]) ''org:a'',
      demo_row TMessage (JObj [(''role'', JStr ''assistant''),
        (''content'', JArr [JObj [(''type'', JStr ''toolCall''), (''id'', JStr ''c1''), (''name'', JStr ''bash'')]])]) ''org:a'']"

lemma interrupt_heals_tape_witness:
  "fl_ok (lintFold (foldTape (demo_tape @ [demo_row TContextEvent (JObj [(''event'', JStr ''interrupt'')]) ''org:a'']))) \<and>
   length (foldTape (demo_tape @ [demo_row TContextEvent (JObj [(''event'', JStr ''interrupt'')]) ''org:a''])) = 3"
proof -
  let ?r = "demo_row TContextEvent (JObj [(''event'', JStr ''interrupt'')]) ''org:a''"
  have h: "tapeNeedsInterruptHeal demo_tape None" "contextEvent ?r = Some EvInterrupt"
    "\<not> list_ex (foreign_row ''pi'') (demo_tape @ [?r])" and len: "length (foldTape (demo_tape @ [?r])) = 3"
    by code_simp+
  show ?thesis
    using interrupt_heals_tape [OF h] len by blast
qed


section \<open>What an audience is shown\<close>

text \<open>What may be told to an audience from a tape: entitled messages, the contents of events whose label and
  listed scopes are entitled, and stand-ins for tool results.\<close>

definition tape_shows :: "principal list \<Rightarrow> scope_id \<Rightarrow> scope_id \<Rightarrow> tape_record list \<Rightarrow> js_value \<Rightarrow> bool" where
  "tape_shows audience sess org rows m \<longleftrightarrow>
     (\<exists>c n t. m = interrupted_result c n t) \<or>
     (\<exists>r. r \<in> set rows \<and> audience_entitled audience sess org (tp_scopeLabel r) \<and>
        ((tp_kind r = TMessage \<and> m = tp_payload r) \<or>
         (\<exists>t. contextEvent r = Some (EvCompaction t) \<and> m = summary_message t (tp_createdAt r)) \<or>
         ((is_import (contextEvent r) \<or> is_patch (contextEvent r)) \<and> m \<in> set (event_messages (tp_payload r)) \<and>
          list_all (scope_value_entitled audience sess org) (the (payload_scopes r)))))"

lemma contextEvent_messages:
  "contextEvent r = Some (EvLegacyImport ms) \<Longrightarrow> ms = event_messages (tp_payload r)"
  "contextEvent r = Some (EvLegacyPatch ms) \<Longrightarrow> ms = event_messages (tp_payload r)"
  by (auto simp: contextEvent_def split: if_splits option.splits js_value.splits)

lemma contextEvent_kind: "tp_kind r \<noteq> TContextEvent \<Longrightarrow> contextEvent r = None"
  by (simp add: contextEvent_def)

lemma contextEvent_Some_kind: "contextEvent r = Some e \<Longrightarrow> tp_kind r = TContextEvent"
  using contextEvent_kind by force

definition event_shows :: "tape_record \<Rightarrow> js_value set" where
  "event_shows r =
     (case contextEvent r of
        Some (EvCompaction t) \<Rightarrow> {summary_message t (tp_createdAt r)}
      | Some (EvLegacyImport ms) \<Rightarrow> set ms
      | Some (EvLegacyPatch ms) \<Rightarrow> set ms
      | _ \<Rightarrow> {})"

lemma fold_row_out:
  assumes "m \<in> set (fo_out (fold_row r f))"
  shows "m \<in> set (fo_out f) \<or> (\<exists>c n t. m = interrupted_result c n t) \<or> (tp_kind r = TMessage \<and> m = tp_payload r) \<or>
    (tp_kind r = TContextEvent \<and> m \<in> event_shows r)"
proof (cases "contextEvent r")
  case None
  then show ?thesis
    using assms by (auto simp: fold_row_def split: if_splits)
next
  case (Some e)
  then show ?thesis
    using assms contextEvent_Some_kind [OF Some] in_set_dropD [of m _ "fo_out f"]
    by (cases e) (auto simp: fold_row_def event_shows_def healDanglingCalls_def Let_def split: option.splits)
qed

lemma fold_import: "is_import (contextEvent r) \<Longrightarrow> fold_row r f = fold_row r g"
  by (cases "contextEvent r") (auto simp: fold_row_def contextEvent_kind split: tape_event.splits)

lemma fold_last_import:
  "list_ex (\<lambda>x. is_import (contextEvent x)) rows \<Longrightarrow> fold fold_row rows f = fold fold_row (from_last_import rows) g"
proof (induction rows arbitrary: f g)
  case (Cons r rows)
  then show ?case
    using fold_import [of r f g] by auto
qed simp

lemma foldTape_last_import: "foldTape (from_last_import rows) = foldTape rows"
proof (cases "list_ex (\<lambda>x. is_import (contextEvent x)) rows")
  case True
  then show ?thesis
    using fold_last_import [OF True, of "\<lparr>fo_out = [], fo_boundaries = []\<rparr>" "\<lparr>fo_out = [], fo_boundaries = []\<rparr>"]
    by (simp add: foldTape_def)
next
  case False
  then have "from_last_import rows = rows"
    by (induction rows) auto
  then show ?thesis
    by simp
qed

lemma set_from_last_import: "set (from_last_import rows) \<subseteq> set rows"
  by (induction rows) auto

text \<open>A filtered row is an input row, and if a message an entitled one, or a stand-in.\<close>

lemma filter_row_cases:
  assumes "x \<in> set (filter_row audience sess org r)"
  obtains "x = r" "tp_kind x = TMessage \<Longrightarrow> audience_entitled audience sess org (tp_scopeLabel x)"
  | c n t where "tp_payload x = interrupted_result c n t" "tp_kind x = TMessage"
  using assms by (fastforce simp: filter_row_def split: if_splits option.splits js_value.splits)

lemma event_shows_entitled:
  assumes "event_entitled audience sess org r" "m \<in> event_shows r" "r \<in> set rows"
  shows "tape_shows audience sess org rows m"
proof -
  obtain e where e: "contextEvent r = Some e" "e \<noteq> EvInterrupt"
    using assms(2) by (auto simp: event_shows_def split: option.splits tape_event.splits)
  then have label: "audience_entitled audience sess org (tp_scopeLabel r)"
    using assms(1) by (auto simp: event_entitled_def Let_def split: if_splits)
  show ?thesis
  proof (cases e)
    case (EvCompaction t)
    then show ?thesis
      using e label assms(2,3) by (auto simp: event_shows_def tape_shows_def)
  next
    case (EvLegacyImport ms)
    then have "list_all (scope_value_entitled audience sess org) (the (payload_scopes r))" "m \<in> set (event_messages (tp_payload r))"
      using e assms(1,2) contextEvent_messages [of r ms]
      by (auto simp: event_entitled_def event_shows_def Let_def split: if_splits option.splits)
    then show ?thesis
      using EvLegacyImport e label assms(3) unfolding tape_shows_def by (metis is_import.simps(1))
  next
    case (EvLegacyPatch ms)
    then have "list_all (scope_value_entitled audience sess org) (the (payload_scopes r))" "m \<in> set (event_messages (tp_payload r))"
      using e assms(1,2) contextEvent_messages [of r ms]
      by (auto simp: event_entitled_def event_shows_def Let_def split: if_splits option.splits)
    then show ?thesis
      using EvLegacyPatch e label assms(3) unfolding tape_shows_def by (metis is_patch.simps(1))
  qed (use e in simp)
qed

lemma fold_shows:
  assumes "\<And>x. x \<in> set xs \<Longrightarrow> event_entitled audience sess org x \<and> (\<exists>r \<in> set rows. x \<in> set (filter_row audience sess org r))"
    "\<And>m. m \<in> set (fo_out f) \<Longrightarrow> tape_shows audience sess org rows m" "m \<in> set (fo_out (fold fold_row xs f))"
  shows "tape_shows audience sess org rows m"
  using assms
proof (induction xs arbitrary: f)
  case (Cons x xs)
  obtain r where r: "r \<in> set rows" "x \<in> set (filter_row audience sess org r)" and ent: "event_entitled audience sess org x"
    using Cons.prems(1) [of x] by auto
  have "tape_shows audience sess org rows k" if k: "k \<in> set (fo_out (fold_row x f))" for k
    using r(2)
  proof (cases rule: filter_row_cases)
    case 1
    then show ?thesis
      using fold_row_out [OF k] Cons.prems(2) [of k] event_shows_entitled [OF ent, of k rows] r(1)
      by (auto simp: tape_shows_def)
  next
    case (2 c n t)
    then show ?thesis
      using fold_row_out [OF k] Cons.prems(2) [of k] by (auto simp: tape_shows_def)
  qed
  then show ?case
    using Cons.IH [of "fold_row x f"] Cons.prems(1,3) by auto
qed simp

text \<open>C13: An audience is shown nothing it is not entitled to: if the events of the filtered tape are
  entitled, every message of its fold is a message whose label the whole audience is entitled to, the
  content of an event whose label and listed scopes they are entitled to, or a stand-in result.\<close>

theorem tape_fold_confined:
  assumes "tapeEventsEntitled (filterTapeForAudience rows audience sess org) audience sess org"
    "m \<in> set (foldTape (filterTapeForAudience rows audience sess org))"
  shows "tape_shows audience sess org rows m"
proof -
  let ?xs = "filterTapeForAudience rows audience sess org"
  have "audience \<noteq> []"
    using assms(1) by (auto simp: tapeEventsEntitled_def)
  then have "?xs = concat (map (filter_row audience sess org) rows)"
    by (simp add: filterTapeForAudience_def)
  moreover have "list_all (event_entitled audience sess org) (from_last_import ?xs)"
    using assms(1) by (simp add: tapeEventsEntitled_def split: if_splits)
  ultimately have rows: "\<And>x. x \<in> set (from_last_import ?xs) \<Longrightarrow>
      event_entitled audience sess org x \<and> (\<exists>r \<in> set rows. x \<in> set (filter_row audience sess org r))"
    using set_from_last_import [of ?xs] by (auto simp: list_all_iff)
  have "m \<in> set (fo_out (fold fold_row (from_last_import ?xs) \<lparr>fo_out = [], fo_boundaries = []\<rparr>))"
    using assms(2) foldTape_last_import [of ?xs] by (simp add: foldTape_def)
  then show ?thesis
    using fold_shows [OF rows] by (metis empty_iff foldable.select_convs(1) list.set(1))
qed

text \<open>A message of somebody's personal scope is withheld from another person.\<close>

definition demo_secret :: js_value where
  "demo_secret = JObj [(''role'', JStr ''user''), (''content'', JStr ''mine'')]"

lemma tape_fold_confined_witness:
  "tape_shows [demo_principal ''v''] ''channel:c'' ''org:a''
     [demo_row TMessage demo_secret ''personal:u'', demo_row TMessage (JStr ''hi'') ''org:a''] (JStr ''hi'') \<and>
   foldTape (filterTapeForAudience [demo_row TMessage demo_secret ''personal:u'', demo_row TMessage (JStr ''hi'') ''org:a'']
     [demo_principal ''v''] ''channel:c'' ''org:a'') = [JStr ''hi'']"
proof -
  let ?rows = "[demo_row TMessage demo_secret ''personal:u'', demo_row TMessage (JStr ''hi'') ''org:a'']"
  have events: "tapeEventsEntitled (filterTapeForAudience ?rows [demo_principal ''v''] ''channel:c'' ''org:a'')
      [demo_principal ''v''] ''channel:c'' ''org:a''"
    and fold: "foldTape (filterTapeForAudience ?rows [demo_principal ''v''] ''channel:c'' ''org:a'') = [JStr ''hi'']"
    by code_simp+
  show ?thesis
    using tape_fold_confined [OF events, of "JStr ''hi''"] fold by simp
qed

end
