(* ===== verification/Tape_Images.thy ===== *)
theory Tape_Images
  imports Tape_Fold
begin

text \<open>
  Images of a folded transcript loaded back under the request-size limit: \<open>rehydrateFoldImages\<close> of
  \<open>harness/tape-fold.ts\<close>. The loader of an artifact is a parameter.
\<close>

section \<open>Blocks without bytes\<close>

record tape_image =
  im_data :: string
  im_mimeType :: string
  im_sizeBytes :: int

datatype image_load = Loaded tape_image | OverBudget | NotFound

definition ELIDED_IMAGE_TEXT :: string where
  "ELIDED_IMAGE_TEXT = ''[image removed: this conversation's images no longer fit the model's request-size limit; ask for it to be re-shared if needed]''"

definition is_image_without_data :: "js_value \<Rightarrow> bool" where
  "is_image_without_data b \<longleftrightarrow> js_prop b ''type'' = Some (JStr ''image'') \<and> \<not> is_str (js_prop b ''data'')"

definition stripped_ref :: "js_value \<Rightarrow> string option" where
  "stripped_ref b =
     (if is_image_without_data b then (case js_prop b ''artifactRef'' of Some (JStr a) \<Rightarrow> Some a | _ \<Rightarrow> None) else None)"

definition isOmitted :: "js_value \<Rightarrow> bool" where
  "isOmitted b \<longleftrightarrow> is_image_without_data b \<and> \<not> is_str (js_prop b ''artifactRef'') \<and> js_prop b ''omitted'' = Some (JBool True)"

text \<open>Every block of the transcript with its position (message, block).\<close>

definition positioned_from :: "nat \<Rightarrow> js_value list \<Rightarrow> ((nat \<times> nat) \<times> js_value) list" where
  "positioned_from n messages =
     concat (map (\<lambda>(i, m). case content_blocks m of None \<Rightarrow> [] | Some bs \<Rightarrow> map (\<lambda>(j, b). ((i, j), b)) (List.enumerate 0 bs))
       (List.enumerate n messages))"

definition positioned_blocks :: "js_value list \<Rightarrow> ((nat \<times> nat) \<times> js_value) list" where
  "positioned_blocks messages = positioned_from 0 messages"

definition image_candidates :: "js_value list \<Rightarrow> ((nat \<times> nat) \<times> js_value) list" where
  "image_candidates messages = filter (\<lambda>(pos, b). stripped_ref b \<noteq> None) (positioned_blocks messages)"

definition omitted_replacements :: "js_value list \<Rightarrow> (nat \<times> nat, js_value) jsmap" where
  "omitted_replacements messages =
     map (\<lambda>(pos, b). (pos, text_block ELIDED_IMAGE_TEXT)) (filter (\<lambda>(pos, b). isOmitted b) (positioned_blocks messages))"

section \<open>Loading, newest first\<close>

record rehydrate_state =
  rh_remaining :: int
  rh_cached :: "(string, image_load) jsmap"
  rh_replacements :: "(nat \<times> nat, js_value) jsmap"

definition with_image :: "js_value \<Rightarrow> tape_image \<Rightarrow> js_value" where
  "with_image b img =
     (case b of
        JObj fs \<Rightarrow> JObj (map_set ''mimeType'' (JStr (im_mimeType img)) (map_set ''data'' (JStr (im_data img))
                     (map_delete ''omitted'' (map_delete ''artifactRef'' fs))))
      | v \<Rightarrow> v)"

definition load_image ::
  "(string \<Rightarrow> int \<Rightarrow> image_load) \<Rightarrow> string \<Rightarrow> rehydrate_state \<Rightarrow> image_load \<times> (string, image_load) jsmap" where
  "load_image load a st =
     (if rh_remaining st \<le> 0 then (NotFound, rh_cached st)
      else (let cached = (if map_has (rh_cached st) a then rh_cached st
                          else map_set a (load a (rh_remaining st)) (rh_cached st))
            in (case map_get cached a of None \<Rightarrow> NotFound | Some l \<Rightarrow> l, cached)))"

definition put_back ::
  "nat \<times> nat \<Rightarrow> js_value \<Rightarrow> (string, image_load) jsmap \<Rightarrow> int \<Rightarrow> rehydrate_state \<Rightarrow> rehydrate_state" where
  "put_back pos v cached bytes st =
     \<lparr>rh_remaining = rh_remaining st - bytes, rh_cached = cached, rh_replacements = map_set pos v (rh_replacements st)\<rparr>"

definition rehydrate_step ::
  "(string \<Rightarrow> int \<Rightarrow> image_load) \<Rightarrow> (nat \<times> nat) \<times> js_value \<Rightarrow> rehydrate_state \<Rightarrow> rehydrate_state" where
  "rehydrate_step load cand st =
     (let (pos, b) = cand;
          (loaded, cached) = load_image load (the (stripped_ref b)) st;
          elided = put_back pos (text_block ELIDED_IMAGE_TEXT) cached 0 st;
          skip = st\<lparr>rh_cached := cached\<rparr>
      in case loaded of
           Loaded img \<Rightarrow>
             if im_sizeBytes img > 0 \<and> im_sizeBytes img \<le> rh_remaining st \<and> js_prop b ''mimeType'' = Some (JStr (im_mimeType img))
             then put_back pos (with_image b img) cached (im_sizeBytes img) st
             else if im_sizeBytes img > rh_remaining st then elided
             else skip
         | OverBudget \<Rightarrow> elided
         | NotFound \<Rightarrow> if rh_remaining st \<le> 0 then elided else skip)"

definition rehydrate_loads :: "(string \<Rightarrow> int \<Rightarrow> image_load) \<Rightarrow> js_value list \<Rightarrow> int \<Rightarrow> rehydrate_state" where
  "rehydrate_loads load messages maxBytes =
     fold (rehydrate_step load) (rev (image_candidates messages))
       \<lparr>rh_remaining = maxBytes, rh_cached = [], rh_replacements = omitted_replacements messages\<rparr>"

definition swap_blocks :: "(nat \<times> nat, js_value) jsmap \<Rightarrow> nat \<Rightarrow> js_value \<Rightarrow> js_value" where
  "swap_blocks repl i m =
     (case (m, content_blocks m) of
        (JObj fs, Some bs) \<Rightarrow>
          if list_ex (\<lambda>(j, b). map_has repl (i, j)) (List.enumerate 0 bs)
          then JObj (map_set ''content'' (JArr (map (\<lambda>(j, b). case map_get repl (i, j) of Some v \<Rightarrow> v | None \<Rightarrow> b) (List.enumerate 0 bs))) fs)
          else m
      | _ \<Rightarrow> m)"

definition rehydrateFoldImages ::
  "(string \<Rightarrow> int \<Rightarrow> image_load) \<Rightarrow> js_value list \<Rightarrow> int \<Rightarrow> js_value list" where
  "rehydrateFoldImages load messages maxBytes =
     map (\<lambda>(i, m). swap_blocks (rh_replacements (rehydrate_loads load messages maxBytes)) i m) (List.enumerate 0 messages)"


section \<open>The limit\<close>

lemma positioned_blocks_iff:
  "((i, j), b) \<in> set (positioned_blocks ms) \<longleftrightarrow>
     i < length ms \<and> (\<exists>bs. content_blocks (ms ! i) = Some bs \<and> j < length bs \<and> b = bs ! j)"
  by (force simp: positioned_blocks_def positioned_from_def in_set_enumerate_eq split: option.splits)

lemma positioned_blocks_unique:
  "(p, b) \<in> set (positioned_blocks ms) \<Longrightarrow> (p, c) \<in> set (positioned_blocks ms) \<Longrightarrow> b = c"
  by (cases p) (auto simp: positioned_blocks_iff)

lemma positioned_from_Cons:
  "map fst (positioned_from n (m # ms)) =
     (case content_blocks m of None \<Rightarrow> [] | Some bs \<Rightarrow> map (Pair n) [0..<length bs]) @ map fst (positioned_from (Suc n) ms)"
proof -
  have "map fst (map (\<lambda>(j, b). ((n, j), b)) xs) = map (Pair n) (map fst xs)" for xs :: "(nat \<times> js_value) list"
    by (induction xs) auto
  then show ?thesis
    by (simp add: positioned_from_def map_fst_enumerate del: map_map split: option.split)
qed

lemma distinct_positions_from:
  "distinct (map fst (positioned_from n ms)) \<and> (\<forall>p \<in> set (map fst (positioned_from n ms)). n \<le> fst p)"
proof (induction ms arbitrary: n)
  case (Cons m ms)
  define K where "K = map fst (positioned_from (Suc n) ms)"
  have K: "distinct K" "\<And>p. p \<in> set K \<Longrightarrow> Suc n \<le> fst p"
    using Cons.IH [of "Suc n"] by (simp_all add: K_def del: set_map)
  then have "distinct (map (Pair n) [0..<k] @ K) \<and> (\<forall>p \<in> set (map (Pair n) [0..<k] @ K). n \<le> fst p)" for k
    by (force simp: distinct_map inj_on_def)
  from this [of 0] this show ?case
    unfolding positioned_from_Cons K_def [symmetric] by (cases "content_blocks m") simp_all
qed (simp add: positioned_from_def)

lemma distinct_candidates: "distinct (map fst (image_candidates ms))"
  using distinct_positions_from [of 0 ms]
  by (auto simp: image_candidates_def positioned_blocks_def intro: distinct_map_filter)

text \<open>Every replacement is the notice or an image accounted for.\<close>

definition rehydrate_ok ::
  "js_value list \<Rightarrow> int \<Rightarrow> (nat \<times> nat) set \<Rightarrow> ((nat \<times> nat) \<times> tape_image) list \<Rightarrow> rehydrate_state \<Rightarrow> bool" where
  "rehydrate_ok messages maxBytes todo used st \<longleftrightarrow>
     distinct (map fst used) \<and> fst ` set used \<inter> todo = {} \<and>
     sum_list (map (im_sizeBytes \<circ> snd) used) + rh_remaining st = maxBytes \<and> 0 \<le> rh_remaining st \<and>
     map_all (\<lambda>p v. v = text_block ELIDED_IMAGE_TEXT \<or>
       (\<exists>b img. (p, b) \<in> set (positioned_blocks messages) \<and> (p, img) \<in> set used \<and> v = with_image b img)) (rh_replacements st)"

lemma rehydrate_step_ok:
  assumes ok: "rehydrate_ok messages maxBytes (insert pos todo) used st" and pos: "pos \<notin> todo"
    and block: "(pos, b) \<in> set (positioned_blocks messages)"
  shows "\<exists>used'. rehydrate_ok messages maxBytes todo used' (rehydrate_step load (pos, b) st)"
proof -
  define P where "P us = (\<lambda>p v. v = text_block ELIDED_IMAGE_TEXT \<or>
       (\<exists>b img. (p, b) \<in> set (positioned_blocks messages) \<and> (p, img) \<in> set us \<and> v = with_image b img))" for us
  note ok' = ok [unfolded rehydrate_ok_def, folded P_def]
  have P: "map_all (P us) (rh_replacements st)" if "set used \<subseteq> set us" for us
    using ok' that unfolding map_all_def P_def by blast
  obtain loaded cs where load: "load_image load (the (stripped_ref b)) st = (loaded, cs)"
    by fastforce
  have "(\<exists>img. rehydrate_step load (pos, b) st = put_back pos (with_image b img) cs (im_sizeBytes img) st \<and>
          im_sizeBytes img \<le> rh_remaining st) \<or>
      rehydrate_step load (pos, b) st = put_back pos (text_block ELIDED_IMAGE_TEXT) cs 0 st \<or>
      rehydrate_step load (pos, b) st = st\<lparr>rh_cached := cs\<rparr>"
    by (cases loaded) (simp_all add: rehydrate_step_def load Let_def, auto)
  then consider (image) img where "rehydrate_step load (pos, b) st = put_back pos (with_image b img) cs (im_sizeBytes img) st"
        "im_sizeBytes img \<le> rh_remaining st"
    | (elided) "rehydrate_step load (pos, b) st = put_back pos (text_block ELIDED_IMAGE_TEXT) cs 0 st"
    | (skip) "rehydrate_step load (pos, b) st = st\<lparr>rh_cached := cs\<rparr>"
    by blast
  then show ?thesis
  proof cases
    case image
    have "rehydrate_ok messages maxBytes todo (used @ [(pos, img)]) (rehydrate_step load (pos, b) st)"
      unfolding rehydrate_ok_def P_def [symmetric]
      using ok' P [of "used @ [(pos, img)]"] pos block image by (auto simp: map_all_set P_def put_back_def)
    then show ?thesis ..
  next
    case elided
    have "rehydrate_ok messages maxBytes todo used (rehydrate_step load (pos, b) st)"
      unfolding rehydrate_ok_def P_def [symmetric] using ok' elided by (auto simp: map_all_set P_def put_back_def)
    then show ?thesis ..
  next
    case skip
    have "rehydrate_ok messages maxBytes todo used (rehydrate_step load (pos, b) st)"
      unfolding rehydrate_ok_def P_def [symmetric] using ok' skip by auto
    then show ?thesis ..
  qed
qed


lemma rehydrate_fold_ok:
  assumes "rehydrate_ok messages maxBytes (fst ` set cands) used st" "distinct (map fst cands)"
    "set cands \<subseteq> set (positioned_blocks messages)"
  shows "\<exists>used'. rehydrate_ok messages maxBytes {} used' (fold (rehydrate_step load) cands st)"
  using assms
proof (induction cands arbitrary: used st)
  case (Cons cand cands)
  obtain pos b where cand: "cand = (pos, b)"
    by (cases cand)
  obtain used' where "rehydrate_ok messages maxBytes (fst ` set cands) used' (rehydrate_step load cand st)"
    using rehydrate_step_ok [of messages maxBytes pos "fst ` set cands" used st b load] Cons.prems cand by auto
  from Cons.IH [OF this] show ?case
    using Cons.prems by auto
qed auto

lemma rehydrate_loads_ok:
  assumes "0 \<le> maxBytes"
  shows "\<exists>used. rehydrate_ok messages maxBytes {} used (rehydrate_loads load messages maxBytes)"
proof -
  have "map_all (\<lambda>p v. v = text_block ELIDED_IMAGE_TEXT) (omitted_replacements messages)"
    by (auto simp: map_all_def omitted_replacements_def dest!: map_of_SomeD)
  then have "rehydrate_ok messages maxBytes (fst ` set (rev (image_candidates messages))) []
      \<lparr>rh_remaining = maxBytes, rh_cached = [], rh_replacements = omitted_replacements messages\<rparr>"
    using assms by (auto simp: rehydrate_ok_def map_all_def)
  then show ?thesis
    unfolding rehydrate_loads_def using distinct_candidates [of messages]
    by (intro rehydrate_fold_ok) (auto simp: rev_map [symmetric] image_candidates_def)
qed

definition replaced :: "(nat \<times> nat, js_value) jsmap \<Rightarrow> (nat \<times> nat) \<times> js_value \<Rightarrow> (nat \<times> nat) \<times> js_value" where
  "replaced repl = (\<lambda>(p, b). (p, case map_get repl p of Some v \<Rightarrow> v | None \<Rightarrow> b))"

lemma content_swap_blocks:
  "content_blocks (swap_blocks repl i m) =
     map_option (\<lambda>bs. map (\<lambda>(j, b). snd (replaced repl ((i, j), b))) (List.enumerate 0 bs)) (content_blocks m)"
proof (cases "content_blocks m")
  case (Some bs)
  obtain fs where m: "m = JObj fs"
    using Some by (cases m) (simp_all add: content_blocks_def js_prop_def)
  show ?thesis
  proof (cases "list_ex (\<lambda>(j, b). map_has repl (i, j)) (List.enumerate 0 bs)")
    case True
    then show ?thesis
      using Some m by (simp add: swap_blocks_def content_blocks_def js_prop_def update_conv replaced_def)
  next
    case False
    then have "map (\<lambda>(j, b). snd (replaced repl ((i, j), b))) (List.enumerate 0 bs) = map snd (List.enumerate 0 bs)"
      by (intro map_cong) (auto simp: replaced_def list_ex_iff split: option.split)
    then show ?thesis
      using Some m False by (simp add: swap_blocks_def)
  qed
qed (cases m; simp add: swap_blocks_def)

lemma enumerate_map_enumerate: "List.enumerate n (map f (List.enumerate n xs)) = map (\<lambda>(j, x). (j, f (j, x))) (List.enumerate n xs)"
  by (induction xs arbitrary: n) simp_all

lemma positioned_swap:
  "positioned_blocks (map (\<lambda>(i, m). swap_blocks repl i m) (List.enumerate 0 messages)) =
     map (replaced repl) (positioned_blocks messages)"
  unfolding positioned_blocks_def positioned_from_def enumerate_map_enumerate map_concat map_map
  by (rule arg_cong [where f = concat], rule map_cong [OF refl])
     (auto simp: content_swap_blocks enumerate_map_enumerate replaced_def split: option.split)


definition demo_image_block :: js_value where
  "demo_image_block = JObj [(''type'', JStr ''image''), (''artifactRef'', JStr ''a''), (''mimeType'', JStr ''image/png'')]"

definition demo_load :: "string \<Rightarrow> int \<Rightarrow> image_load" where
  "demo_load a n = Loaded \<lparr>im_data = ''bytes'', im_mimeType = ''image/png'', im_sizeBytes = 6\<rparr>"


end
