(* ===== verification/Token_Ledger.thy ===== *)
theory Token_Ledger
  imports Session_Types
begin

text \<open>
  Token accounting: \<open>ratelimit/token-ledger.ts\<close>. Amounts in dollars are rational numbers; the rounding of
  floating-point addition is not modelled.
\<close>

section \<open>Entries\<close>

datatype ledger_phase = PhTurn | PhDetect | PhCompact | PhScreen | PhExternal | PhOther

fun phase_name :: "ledger_phase \<Rightarrow> string" where
  "phase_name PhTurn = ''turn''"
| "phase_name PhDetect = ''detect''"
| "phase_name PhCompact = ''compact''"
| "phase_name PhScreen = ''screen''"
| "phase_name PhExternal = ''external''"
| "phase_name PhOther = ''other''"

record ledger_entry =
  le_at :: ms
  le_principalId :: string
  le_scopeLabel :: scope_id
  le_sessionId :: "string option"
  le_runId :: "string option"
  le_model :: string
  le_phase :: ledger_phase
  le_source :: "string option"
  le_harness :: "string option"
  le_input :: nat
  le_output :: nat
  le_cacheRead :: nat
  le_cacheWrite :: nat
  le_costUsd :: rat
  le_estimated :: bool

record ledger_totals =
  lt_calls :: nat
  lt_input :: nat
  lt_output :: nat
  lt_cacheRead :: nat
  lt_cacheWrite :: nat
  lt_costUsd :: rat
  lt_estimatedCalls :: nat

datatype group_by = ByPrincipal | ByScope | ByModel | ByPhase | BySource | ByHarness

record ledger_query =
  tq_since :: "ms option"
  tq_until :: "ms option"
  tq_principalId :: "string option"
  tq_scopeLabel :: "string option"
  tq_runId :: "string option"
  tq_harness :: "string option"
  tq_limit :: "int option"

definition any_query :: ledger_query where
  "any_query = \<lparr>tq_since = None, tq_until = None, tq_principalId = None, tq_scopeLabel = None,
     tq_runId = None, tq_harness = None, tq_limit = None\<rparr>"

section \<open>Costs\<close>

definition DEFAULT_AGENT_INPUT_USD_PER_MTOK :: rat where
  "DEFAULT_AGENT_INPUT_USD_PER_MTOK = 5"

definition DEFAULT_AGENT_OUTPUT_USD_PER_MTOK :: rat where
  "DEFAULT_AGENT_OUTPUT_USD_PER_MTOK = 15"

definition estimateCostUsd :: "nat \<Rightarrow> rat \<Rightarrow> rat" where
  "estimateCostUsd inputTokens usdPerMTok = of_nat inputTokens / 1000000 * usdPerMTok"

definition usageCostUsd :: "llm_usage \<Rightarrow> rat \<times> bool" where
  "usageCostUsd u =
     (if lu_costUsd u > 0 then (lu_costUsd u, False)
      else (estimateCostUsd (lu_input u + lu_cacheRead u + lu_cacheWrite u) DEFAULT_AGENT_INPUT_USD_PER_MTOK +
              of_nat (lu_output u) / 1000000 * DEFAULT_AGENT_OUTPUT_USD_PER_MTOK, True))"

record ledger_base =
  lb_principalId :: string
  lb_scopeLabel :: scope_id
  lb_model :: string
  lb_phase :: ledger_phase
  lb_sessionId :: "string option"
  lb_runId :: "string option"
  lb_harness :: "string option"
  lb_at :: "ms option"

text \<open>An empty identifier is left out.\<close>

definition nonempty :: "string option \<Rightarrow> string option" where
  "nonempty s = (if truthy s then s else None)"

definition entry_of_base :: "ledger_base \<Rightarrow> ms \<Rightarrow> nat \<Rightarrow> nat \<Rightarrow> nat \<Rightarrow> nat \<Rightarrow> rat \<Rightarrow> bool \<Rightarrow> ledger_entry" where
  "entry_of_base b now i out cr cw cost est =
     \<lparr>le_at = (case lb_at b of None \<Rightarrow> now | Some t \<Rightarrow> t), le_principalId = lb_principalId b, le_scopeLabel = lb_scopeLabel b,
      le_sessionId = nonempty (lb_sessionId b), le_runId = nonempty (lb_runId b), le_model = lb_model b, le_phase = lb_phase b,
      le_source = None, le_harness = nonempty (lb_harness b), le_input = i, le_output = out, le_cacheRead = cr,
      le_cacheWrite = cw, le_costUsd = cost, le_estimated = est\<rparr>"

definition estimatedEntryFromInputTokens :: "ledger_base \<Rightarrow> ms \<Rightarrow> nat \<Rightarrow> ledger_entry" where
  "estimatedEntryFromInputTokens b now inputTokens =
     entry_of_base b now inputTokens 0 0 0 (estimateCostUsd inputTokens DEFAULT_AGENT_INPUT_USD_PER_MTOK) True"

definition entryFromUsage :: "ledger_base \<Rightarrow> ms \<Rightarrow> llm_usage \<Rightarrow> ledger_entry" where
  "entryFromUsage b now u =
     (let (cost, est) = usageCostUsd u
      in entry_of_base b now (lu_input u) (lu_output u) (lu_cacheRead u) (lu_cacheWrite u) cost est)"

section \<open>The in-memory ledger\<close>

definition group_key :: "group_by \<Rightarrow> ledger_entry \<Rightarrow> string" where
  "group_key g e =
     (case g of
        ByPrincipal \<Rightarrow> le_principalId e
      | ByScope \<Rightarrow> le_scopeLabel e
      | ByModel \<Rightarrow> le_model e
      | BySource \<Rightarrow> (case le_source e of None \<Rightarrow> ''los'' | Some s \<Rightarrow> s)
      | ByHarness \<Rightarrow> (case le_harness e of None \<Rightarrow> ''unknown'' | Some h \<Rightarrow> h)
      | ByPhase \<Rightarrow> phase_name (le_phase e))"

definition absent_or :: "'a option \<Rightarrow> ('a \<Rightarrow> bool) \<Rightarrow> bool" where
  "absent_or x P = (case x of None \<Rightarrow> True | Some v \<Rightarrow> P v)"

definition entry_matches :: "ledger_query \<Rightarrow> ledger_entry \<Rightarrow> bool" where
  "entry_matches q e \<longleftrightarrow>
     absent_or (tq_since q) (\<lambda>t. \<not> le_at e < t) \<and>
     absent_or (tq_until q) (\<lambda>t. \<not> le_at e \<ge> t) \<and>
     absent_or (tq_principalId q) (\<lambda>p. le_principalId e = p) \<and>
     absent_or (tq_scopeLabel q) (\<lambda>s. le_scopeLabel e = s) \<and>
     absent_or (tq_runId q) (\<lambda>r. le_runId e = Some r) \<and>
     absent_or (tq_harness q) (\<lambda>h. (case le_harness e of None \<Rightarrow> ''unknown'' | Some k \<Rightarrow> k) = h)"

definition DEFAULT_MAX_ENTRIES :: nat where
  "DEFAULT_MAX_ENTRIES = 50000"

definition DEFAULT_LIST_LIMIT :: int where
  "DEFAULT_LIST_LIMIT = 1000"

definition ledger_cap :: "nat option \<Rightarrow> nat" where
  "ledger_cap m = max 1 (case m of None \<Rightarrow> DEFAULT_MAX_ENTRIES | Some n \<Rightarrow> n)"

definition token_ledger_record :: "nat option \<Rightarrow> ledger_entry \<Rightarrow> ledger_entry list \<Rightarrow> ledger_entry list" where
  "token_ledger_record m e entries =
     (let es = entries @ [e]
      in if length es > ledger_cap m then drop (length es - ledger_cap m) es else es)"

definition zero_totals :: ledger_totals where
  "zero_totals = \<lparr>lt_calls = 0, lt_input = 0, lt_output = 0, lt_cacheRead = 0, lt_cacheWrite = 0, lt_costUsd = 0, lt_estimatedCalls = 0\<rparr>"

definition totals_add :: "ledger_entry \<Rightarrow> ledger_totals \<Rightarrow> ledger_totals" where
  "totals_add e t =
     \<lparr>lt_calls = lt_calls t + 1, lt_input = lt_input t + le_input e, lt_output = lt_output t + le_output e,
      lt_cacheRead = lt_cacheRead t + le_cacheRead e, lt_cacheWrite = lt_cacheWrite t + le_cacheWrite e,
      lt_costUsd = lt_costUsd t + le_costUsd e,
      lt_estimatedCalls = (if le_estimated e then lt_estimatedCalls t + 1 else lt_estimatedCalls t)\<rparr>"

definition summary_add ::
  "group_by \<Rightarrow> ledger_query \<Rightarrow> ledger_entry \<Rightarrow> (string, ledger_totals) jsmap \<Rightarrow> (string, ledger_totals) jsmap" where
  "summary_add g q e totals =
     (if \<not> entry_matches q e then totals
      else map_set (group_key g e)
             (totals_add e (case map_get totals (group_key g e) of None \<Rightarrow> zero_totals | Some t \<Rightarrow> t)) totals)"

definition cost_cmp :: "string \<times> ledger_totals \<Rightarrow> string \<times> ledger_totals \<Rightarrow> int" where
  "cost_cmp a b =
     (if lt_costUsd (snd b) < lt_costUsd (snd a) then -1 else if lt_costUsd (snd a) < lt_costUsd (snd b) then 1 else 0)"

definition ledger_summary :: "group_by \<Rightarrow> ledger_query \<Rightarrow> ledger_entry list \<Rightarrow> (string \<times> ledger_totals) list" where
  "ledger_summary g q entries = js_sort cost_cmp (fold (summary_add g q) entries [])"

definition ledger_list :: "ledger_query \<Rightarrow> ledger_entry list \<Rightarrow> ledger_entry list" where
  "ledger_list q entries =
     take (nat (case tq_limit q of None \<Rightarrow> DEFAULT_LIST_LIMIT | Some n \<Rightarrow> n)) (filter (entry_matches q) (rev entries))"

section \<open>Summaries are sums\<close>

lemma sum_list_insort_cmp: "sum_list (map f (insort_cmp c x xs)) = f x + sum_list (map f xs)"
  for f :: "'a \<Rightarrow> 'b :: comm_monoid_add"
  by (induction xs) (auto simp: ac_simps)

lemma sum_list_js_sort: "sum_list (map f (js_sort c xs)) = sum_list (map f xs)"
  for f :: "'a \<Rightarrow> 'b :: comm_monoid_add"
  by (induction xs) (simp_all add: js_sort_def sum_list_insort_cmp)

lemma sum_map_set:
  fixes f :: "'k \<times> 'v \<Rightarrow> 'a :: ab_group_add"
  shows "map_wf m \<Longrightarrow> sum_list (map f (map_set k x m)) =
    sum_list (map f m) - (case map_get m k of None \<Rightarrow> 0 | Some v \<Rightarrow> f (k, v)) + f (k, x)"
proof (induction m)
  case (Cons p m)
  then have "map_of m (fst p) = None" "map_wf m"
    by (auto simp: map_wf_def map_of_eq_None_iff)
  then show ?case
    using Cons.IH by (cases p) auto
qed simp

lemma summary_add_wf: "map_wf m \<Longrightarrow> map_wf (summary_add g q e m)"
  by (simp add: summary_add_def)

lemma fold_summary:
  "map_wf m \<Longrightarrow>
     sum_list (map (\<lambda>(k, t). if P k then lt_costUsd t else 0) (fold (summary_add g q) es m)) =
     sum_list (map (\<lambda>(k, t). if P k then lt_costUsd t else 0) m) +
     sum_list (map (\<lambda>e. if entry_matches q e \<and> P (group_key g e) then le_costUsd e else 0) es)"
proof (induction es arbitrary: m)
  case (Cons e es)
  have "sum_list (map (\<lambda>(k, t). if P k then lt_costUsd t else 0) (summary_add g q e m)) =
      sum_list (map (\<lambda>(k, t). if P k then lt_costUsd t else 0) m) +
      (if entry_matches q e \<and> P (group_key g e) then le_costUsd e else 0)"
    using Cons.prems by (auto simp: summary_add_def sum_map_set totals_add_def zero_totals_def split: option.split)
  then show ?case
    using Cons.IH [OF summary_add_wf [OF Cons.prems]] by simp
qed simp

text \<open>The cost of the rows with a property of their key is the cost of the matching entries.\<close>

lemma summary_cost:
  "sum_list (map (lt_costUsd \<circ> snd) (filter (P \<circ> fst) (ledger_summary g q es))) =
     sum_list (map le_costUsd (filter (\<lambda>e. entry_matches q e \<and> P (group_key g e)) es))"
proof -
  have "sum_list (map (lt_costUsd \<circ> snd) (filter (P \<circ> fst) (ledger_summary g q es))) =
      sum_list (map (\<lambda>(k, t). if P k then lt_costUsd t else 0) (ledger_summary g q es))"
    by (simp add: sum_list_map_filter' comp_def case_prod_unfold)
  also have "\<dots> = sum_list (map (\<lambda>e. if entry_matches q e \<and> P (group_key g e) then le_costUsd e else 0) es)"
    using fold_summary [of "[]" P g q es] by (simp add: ledger_summary_def sum_list_js_sort)
  finally show ?thesis
    by (simp add: sum_list_map_filter')
qed

lemma summary_cost_all:
  "sum_list (map (lt_costUsd \<circ> snd) (ledger_summary g q es)) = sum_list (map le_costUsd (filter (entry_matches q) es))"
  using summary_cost [of "\<lambda>k. True" g q es] by (simp add: comp_def)

end
