(* ===== verification/Budget.thy ===== *)
theory Budget
  imports Token_Ledger Directory
begin

text \<open>
  Spending limits: the sliding window of \<open>ratelimit/budget.ts\<close>, the fixed window of
  \<open>ratelimit/rate-limiter.ts\<close>, and the allocations of \<open>ratelimit/allocation-store.ts\<close> and
  \<open>ratelimit/allocation-budget.ts\<close> over the token ledger and the team tree. An infinite limit is
  \<^term>\<open>None\<close>; dollars are rational numbers.
\<close>

section \<open>The sliding window\<close>

record budget_check =
  bc_allowed :: bool
  bc_spentUsd :: rat
  bc_limitUsd :: "rat option"

record spend_item =
  pe_at :: ms
  pe_usd :: rat

record budget_options =
  bo_limitUsd :: "rat option"
  bo_orgLimitUsd :: "rat option"
  bo_windowMs :: ms

type_synonym spend_map = "(string, spend_item list) jsmap"

definition DEFAULT_BUDGET_WINDOW_MS :: ms where
  "DEFAULT_BUDGET_WINDOW_MS = 86400000"

definition budget_orgKey :: string where
  "budget_orgKey = ''@org''"

definition spend_list :: "string \<Rightarrow> spend_map \<Rightarrow> spend_item list" where
  "spend_list k m = (case map_get m k of None \<Rightarrow> [] | Some es \<Rightarrow> es)"

definition spentIn :: "budget_options \<Rightarrow> string \<Rightarrow> ms \<Rightarrow> spend_map \<Rightarrow> spend_map \<times> rat" where
  "spentIn bo k now m =
     (let kept = filter (\<lambda>e. pe_at e \<ge> now - bo_windowMs bo) (spend_list k m)
      in (map_set k kept m, sum_list (map pe_usd kept)))"

definition below_limit :: "rat \<Rightarrow> rat option \<Rightarrow> bool" where
  "below_limit spent limit = (case limit of None \<Rightarrow> True | Some l \<Rightarrow> spent < l)"

definition budget_check_op :: "budget_options \<Rightarrow> string \<Rightarrow> ms \<Rightarrow> spend_map \<Rightarrow> spend_map \<times> budget_check" where
  "budget_check_op bo p now m =
     (let (m1, spent) = spentIn bo p now m in
      if \<not> below_limit spent (bo_limitUsd bo)
      then (m1, \<lparr>bc_allowed = False, bc_spentUsd = spent, bc_limitUsd = bo_limitUsd bo\<rparr>)
      else (let (m2, org) = spentIn bo budget_orgKey now m1
            in (m2, \<lparr>bc_allowed = below_limit org (bo_orgLimitUsd bo), bc_spentUsd = org, bc_limitUsd = bo_orgLimitUsd bo\<rparr>)))"

definition spend_push :: "rat \<Rightarrow> ms \<Rightarrow> string \<Rightarrow> spend_map \<Rightarrow> spend_map" where
  "spend_push usd now k m = map_set k (spend_list k m @ [\<lparr>pe_at = now, pe_usd = usd\<rparr>]) m"

definition budget_record :: "string \<Rightarrow> rat \<Rightarrow> ms \<Rightarrow> spend_map \<Rightarrow> spend_map" where
  "budget_record p usd now m = fold (spend_push usd now) [p, budget_orgKey] m"

text \<open>A history of records and checks at times that do not go back.\<close>

datatype budget_op = BRecord string rat | BCheck string

fun budget_run :: "budget_options \<Rightarrow> (ms \<times> budget_op) list \<Rightarrow> spend_map \<Rightarrow> spend_map" where
  "budget_run bo [] m = m"
| "budget_run bo ((t, BRecord p usd) # ops) m = budget_run bo ops (budget_record p usd t m)"
| "budget_run bo ((t, BCheck p) # ops) m = budget_run bo ops (fst (budget_check_op bo p t m))"

fun recorded :: "string \<Rightarrow> (ms \<times> budget_op) list \<Rightarrow> spend_item list" where
  "recorded k [] = []"
| "recorded k ((t, BRecord p usd) # ops) =
     (if k = p then [\<lparr>pe_at = t, pe_usd = usd\<rparr>] else []) @ (if k = budget_orgKey then [\<lparr>pe_at = t, pe_usd = usd\<rparr>] else []) @ recorded k ops"
| "recorded k ((t, BCheck p) # ops) = recorded k ops"

definition in_budget_window :: "budget_options \<Rightarrow> ms \<Rightarrow> spend_item list \<Rightarrow> spend_item list" where
  "in_budget_window bo now es = filter (\<lambda>e. pe_at e \<ge> now - bo_windowMs bo) es"

section \<open>The fixed window\<close>

record rate_window =
  rw_windowStart :: ms
  rw_count :: nat

record rate_options =
  ro_maxPerWindow :: nat
  ro_windowMs :: ms

record rate_decision =
  rd_allowed :: bool
  rd_retryAfterMs :: "ms option"

definition rate_check ::
  "rate_options \<Rightarrow> string \<Rightarrow> ms \<Rightarrow> (string, rate_window) jsmap \<Rightarrow> (string, rate_window) jsmap \<times> rate_decision" where
  "rate_check ro p t st =
     (let fresh = (map_set p \<lparr>rw_windowStart = t, rw_count = 1\<rparr> st, \<lparr>rd_allowed = True, rd_retryAfterMs = None\<rparr>) in
      case map_get st p of
        None \<Rightarrow> fresh
      | Some s \<Rightarrow>
          if t - rw_windowStart s \<ge> ro_windowMs ro then fresh
          else if rw_count s \<ge> ro_maxPerWindow ro
            then (st, \<lparr>rd_allowed = False, rd_retryAfterMs = Some (ro_windowMs ro - (t - rw_windowStart s))\<rparr>)
          else (map_set p (s\<lparr>rw_count := rw_count s + 1\<rparr>) st, \<lparr>rd_allowed = True, rd_retryAfterMs = None\<rparr>))"

section \<open>Allocations\<close>

text \<open>A subject is \<open>org\<close>, \<open>team:\<dots>\<close> or \<open>principal:\<dots>\<close>.\<close>

record allocation =
  al_id :: string
  al_subject :: string
  al_limitUsd :: rat
  al_windowMs :: ms
  al_hard :: bool

definition isAllocationSubject :: "js_value \<Rightarrow> bool" where
  "isAllocationSubject v =
     (case v of JStr s \<Rightarrow> s = ''org'' \<or> js_startsWith s ''team:'' \<or> js_startsWith s ''principal:'' | _ \<Rightarrow> False)"

type_synonym allocation_store = "(string, allocation) jsmap"

definition alloc_upsert :: "allocation \<Rightarrow> allocation_store \<Rightarrow> allocation_store" where
  "alloc_upsert a m = map_set (al_id a) a m"

definition alloc_remove :: "string \<Rightarrow> allocation_store \<Rightarrow> allocation_store" where
  "alloc_remove i m = map_delete i m"

definition alloc_list :: "allocation_store \<Rightarrow> allocation list" where
  "alloc_list m = map_values m"

definition forSubjects :: "string list \<Rightarrow> allocation_store \<Rightarrow> allocation list" where
  "forSubjects subjects m = filter (\<lambda>a. al_subject a \<in> set subjects) (map_values m)"

record budget_deps =
  ad_teams :: team_store
  ad_allocations :: allocation_store
  ad_ledger :: "ledger_entry list"

definition add_child :: "team \<Rightarrow> (string, string list) jsmap \<Rightarrow> (string, string list) jsmap" where
  "add_child t m =
     (if truthy (tm_parentId t)
      then map_set (the (tm_parentId t)) ((case map_get m (the (tm_parentId t)) of None \<Rightarrow> [] | Some cs \<Rightarrow> cs) @ [tm_id t]) m
      else m)"

definition childrenOf :: "team list \<Rightarrow> (string, string list) jsmap" where
  "childrenOf ts = fold add_child ts []"

definition children_at :: "(string, string list) jsmap \<Rightarrow> string \<Rightarrow> string list" where
  "children_at m t = (case map_get m t of None \<Rightarrow> [] | Some cs \<Rightarrow> cs)"

text \<open>
  The queue loop. It ends because a team is expanded once: either a key of the map leaves the unvisited
  ones, or the queue gets shorter.
\<close>

function descend :: "(string, string list) jsmap \<Rightarrow> string list \<Rightarrow> string list \<Rightarrow> string list" where
  "descend m out [] = out"
| "descend m out (t # queue) =
     (if t \<in> set out then descend m out queue else descend m (out @ [t]) (queue @ children_at m t))"
  by pat_completeness auto
termination
proof (relation "inv_image (finite_psubset <*lex*> less_than) (\<lambda>(m, out, queue). (set (map_keys m) - set out, length queue))", goal_cases)
  case (3 m out t queue)
  show ?case
  proof (cases "t \<in> set (map_keys m)")
    case True
    then show ?thesis
      using 3 by (auto simp: finite_psubset_def)
  next
    case False
    then have "map_get m t = None"
      by (simp add: map_of_eq_None_iff)
    then have "children_at m t = []"
      by (simp add: children_at_def)
    moreover have "set (map_keys m) - set (out @ [t]) = set (map_keys m) - set out"
      using False by auto
    ultimately show ?thesis
      by (simp add: finite_psubset_def)
  qed
qed auto

definition descendantTeamIds :: "team_store \<Rightarrow> string \<Rightarrow> string list" where
  "descendantTeamIds teams rootId = descend (childrenOf (team_list teams)) [] [rootId]"

definition cost_of :: "(string \<times> ledger_totals) list \<Rightarrow> rat" where
  "cost_of rows = sum_list (map (lt_costUsd \<circ> snd) rows)"

definition teamSpendUsd :: "budget_deps \<Rightarrow> string \<Rightarrow> ms \<Rightarrow> rat" where
  "teamSpendUsd deps teamId since =
     (let members = js_dedup (concat (map (\<lambda>i. team_members i (ad_teams deps)) (descendantTeamIds (ad_teams deps) teamId))) in
      if members = [] then 0
      else cost_of (filter (\<lambda>row. fst row \<in> set members)
             (ledger_summary ByPrincipal (any_query\<lparr>tq_since := Some since\<rparr>) (ad_ledger deps))))"

definition allocationSpendUsd :: "budget_deps \<Rightarrow> allocation \<Rightarrow> ms \<Rightarrow> rat" where
  "allocationSpendUsd deps a now =
     (let since = now - al_windowMs a in
      if al_subject a = ''org''
        then cost_of (ledger_summary ByPhase (any_query\<lparr>tq_since := Some since\<rparr>) (ad_ledger deps))
      else if js_startsWith (al_subject a) ''team:''
        then teamSpendUsd deps (drop (length ''team:'') (al_subject a)) since
      else cost_of (ledger_summary ByPhase
             (any_query\<lparr>tq_since := Some since, tq_principalId := Some (drop (length ''principal:'') (al_subject a))\<rparr>)
             (ad_ledger deps)))"

text \<open>The warning about a soft allocation, by allocation and amount.\<close>

fun allocation_scan ::
  "budget_deps \<Rightarrow> ms \<Rightarrow> budget_check \<Rightarrow> (string \<times> rat) list \<Rightarrow> allocation list \<Rightarrow> budget_check \<times> (string \<times> rat) list" where
  "allocation_scan deps now base warned [] = (base, warned)"
| "allocation_scan deps now base warned (a # as) =
     (let spent = allocationSpendUsd deps a now in
      if spent < al_limitUsd a then allocation_scan deps now base warned as
      else if al_hard a then (\<lparr>bc_allowed = False, bc_spentUsd = spent, bc_limitUsd = Some (al_limitUsd a)\<rparr>, warned)
      else allocation_scan deps now base (warned @ [(al_id a, spent)]) as)"

definition allocation_subjects :: "team_store \<Rightarrow> string \<Rightarrow> string list outcome" where
  "allocation_subjects teams p =
     (case teamOf p teams of
        None \<Rightarrow> Inr [''org'', ''principal:'' @ p]
      | Some t \<Rightarrow>
          if t = [] then Inr [''org'', ''principal:'' @ p]
          else obind (teamAncestry (ts_teams teams) t)
                 (\<lambda>anc. Inr ([''org'', ''principal:'' @ p] @ map (\<lambda>x. ''team:'' @ x) anc)))"

definition allocation_check ::
  "budget_deps \<Rightarrow> budget_check \<Rightarrow> string \<Rightarrow> ms \<Rightarrow> (budget_check \<times> (string \<times> rat) list) outcome" where
  "allocation_check deps base p now =
     (if \<not> bc_allowed base then Inr (base, [])
      else obind (allocation_subjects (ad_teams deps) p)
             (\<lambda>subjects. Inr (allocation_scan deps now base [] (forSubjects subjects (ad_allocations deps)))))"


section \<open>The window holds exactly the recent spending\<close>

lemma in_window_simps [simp]:
  "in_budget_window bo now [] = []" "in_budget_window bo now (xs @ ys) = in_budget_window bo now xs @ in_budget_window bo now ys"
  by (simp_all add: in_budget_window_def)

lemma in_window_prune:
  "t \<le> now \<Longrightarrow> in_budget_window bo now (in_budget_window bo t es) = in_budget_window bo now es"
  by (auto simp: in_budget_window_def intro: filter_cong)

lemma spentIn_list:
  "spend_list k (fst (spentIn bo j t m)) = (if k = j then in_budget_window bo t (spend_list k m) else spend_list k m)"
  "snd (spentIn bo j t m) = sum_list (map pe_usd (in_budget_window bo t (spend_list j m)))"
  by (auto simp: spentIn_def spend_list_def in_budget_window_def Let_def)

lemma spend_push_list:
  "spend_list k (spend_push usd t j m) = spend_list k m @ (if k = j then [\<lparr>pe_at = t, pe_usd = usd\<rparr>] else [])"
  by (auto simp: spend_push_def spend_list_def)

lemma budget_check_list:
  "t \<le> now \<Longrightarrow> in_budget_window bo now (spend_list k (fst (budget_check_op bo p t m))) = in_budget_window bo now (spend_list k m)"
  by (auto simp: budget_check_op_def Let_def case_prod_unfold spentIn_list in_window_prune)

lemma budget_run_window:
  "(\<And>t. t \<in> fst ` set ops \<Longrightarrow> t \<le> now) \<Longrightarrow>
     in_budget_window bo now (spend_list k (budget_run bo ops m)) = in_budget_window bo now (spend_list k m @ recorded k ops)"
  by (induction bo ops m rule: budget_run.induct)
    (auto simp: budget_record_def spend_push_list budget_check_list)

definition spent_since :: "budget_options \<Rightarrow> ms \<Rightarrow> string \<Rightarrow> (ms \<times> budget_op) list \<Rightarrow> rat" where
  "spent_since bo now k ops = sum_list (map pe_usd (in_budget_window bo now (recorded k ops)))"

text \<open>Whatever was checked and pruned before, a check allows a principal exactly if the amounts recorded
  for it in the window stay below its limit and those of the whole organisation below theirs.\<close>

theorem budget_window_exact:
  assumes "list_all (\<lambda>(t, x). t \<le> now) ops"
  shows "bc_allowed (snd (budget_check_op bo p now (budget_run bo ops []))) \<longleftrightarrow>
    below_limit (spent_since bo now p ops) (bo_limitUsd bo) \<and>
    below_limit (spent_since bo now budget_orgKey ops) (bo_orgLimitUsd bo)"
proof -
  have "in_budget_window bo now (spend_list k (budget_run bo ops [])) = in_budget_window bo now (recorded k ops)" for k
    using budget_run_window [of ops now bo k "[]"] assms by (force simp: spend_list_def list_all_iff)
  then show ?thesis
    by (auto simp: budget_check_op_def Let_def case_prod_unfold spentIn_list spent_since_def in_window_prune)
qed

definition demo_budget :: budget_options where
  "demo_budget = \<lparr>bo_limitUsd = Some 5, bo_orgLimitUsd = None, bo_windowMs = 100\<rparr>"

definition demo_spending :: "(ms \<times> budget_op) list" where
  "demo_spending = [(10, BRecord ''u'' 4), (120, BCheck ''u''), (130, BRecord ''u'' 2)]"

lemma budget_window_exact_witness:
  "bc_allowed (snd (budget_check_op demo_budget ''u'' 150 (budget_run demo_budget demo_spending [])))"
proof -
  have "list_all (\<lambda>(t, x). t \<le> 150) demo_spending"
    by (simp add: demo_spending_def)
  from budget_window_exact [OF this, of demo_budget "''u''"] show ?thesis
    by (simp add: demo_budget_def spent_since_def in_budget_window_def below_limit_def budget_orgKey_def demo_spending_def)
qed

section \<open>The fixed window bounds every interval\<close>

fun rate_allowed ::
  "rate_options \<Rightarrow> string \<Rightarrow> (string \<times> ms) list \<Rightarrow> (string, rate_window) jsmap \<Rightarrow> nat" where
  "rate_allowed ro p [] st = 0"
| "rate_allowed ro p ((q, t) # cs) st =
     (let (st', d) = rate_check ro q t st
      in (if q = p \<and> rd_allowed d then 1 else 0) + rate_allowed ro p cs st')"

definition rate_left :: "rate_options \<Rightarrow> string \<Rightarrow> (string, rate_window) jsmap \<Rightarrow> nat" where
  "rate_left ro p st = (case map_get st p of None \<Rightarrow> 0 | Some w \<Rightarrow> ro_maxPerWindow ro - rw_count w)"

lemma rate_check_other: "q \<noteq> p \<Longrightarrow> map_get (fst (rate_check ro q t st)) p = map_get st p"
  by (auto simp: rate_check_def Let_def split: option.split)

lemma rate_check_cases:
  obtains (fresh) "map_get (fst (rate_check ro p t st)) p = Some \<lparr>rw_windowStart = t, rw_count = 1\<rparr>"
      "rd_allowed (snd (rate_check ro p t st))"
      "case map_get st p of None \<Rightarrow> True | Some w \<Rightarrow> ro_windowMs ro \<le> t - rw_windowStart w"
  | (full) "fst (rate_check ro p t st) = st" "\<not> rd_allowed (snd (rate_check ro p t st))"
  | (count) w where "map_get st p = Some w" "rw_count w < ro_maxPerWindow ro" "rd_allowed (snd (rate_check ro p t st))"
      "map_get (fst (rate_check ro p t st)) p = Some (w\<lparr>rw_count := rw_count w + 1\<rparr>)"
  by (cases "map_get st p")
    (force simp: rate_check_def Let_def split: if_splits)+

text \<open>Inside a window that opened within the interval only the rest of it is left.\<close>

lemma rate_allowed_inside:
  assumes "list_all (\<lambda>(q, t). s \<le> t \<and> t < s + ro_windowMs ro) cs" "map_get st p = Some w" "s \<le> rw_windowStart w"
  shows "rate_allowed ro p cs st \<le> ro_maxPerWindow ro - rw_count w"
  using assms
proof (induction cs arbitrary: st w)
  case (Cons c cs)
  obtain q t where c: "c = (q, t)"
    by (cases c)
  show ?case
  proof (cases "q = p")
    case False
    then show ?thesis
      using Cons.IH [of "fst (rate_check ro q t st)" w] Cons.prems c by (simp add: rate_check_other case_prod_unfold)
  next
    case True
    have inside: "t - rw_windowStart w < ro_windowMs ro"
      using Cons.prems(1,3) c by simp
    show ?thesis
    proof (cases rule: rate_check_cases [of ro p t st])
      case fresh
      then show ?thesis
        using Cons.prems(2) inside by simp
    next
      case full
      then show ?thesis
        using Cons.IH [OF _ Cons.prems(2,3)] Cons.prems(1) c True by (simp add: case_prod_unfold)
    next
      case (count v)
      then show ?thesis
        using Cons.IH [OF _ count(4)] Cons.prems c True by (fastforce simp: case_prod_unfold)
    qed
  qed
qed simp

lemma rate_allowed_bound:
  assumes "list_all (\<lambda>(q, t). s \<le> t \<and> t < s + ro_windowMs ro) cs"
  shows "rate_allowed ro p cs st \<le> rate_left ro p st + max 1 (ro_maxPerWindow ro)"
  using assms
proof (induction cs arbitrary: st)
  case (Cons c cs)
  obtain q t where c: "c = (q, t)"
    by (cases c)
  have IH: "rate_allowed ro p cs st' \<le> rate_left ro p st' + max 1 (ro_maxPerWindow ro)" for st'
    using Cons.IH Cons.prems by simp
  show ?case
  proof (cases "q = p")
    case False
    then show ?thesis
      using IH [of "fst (rate_check ro q t st)"] c by (simp add: rate_left_def rate_check_other case_prod_unfold)
  next
    case True
    show ?thesis
    proof (cases rule: rate_check_cases [of ro p t st])
      case fresh
      have "rate_allowed ro p cs (fst (rate_check ro p t st)) \<le> ro_maxPerWindow ro - 1"
        using rate_allowed_inside [of s ro cs, OF _ fresh(1)] Cons.prems c by simp
      then show ?thesis
        using fresh(2) c True by (simp add: case_prod_unfold)
    next
      case full
      then show ?thesis
        using IH [of st] c True by (simp add: case_prod_unfold)
    next
      case (count v)
      then show ?thesis
        using IH [of "fst (rate_check ro p t st)"] c True by (simp add: rate_left_def case_prod_unfold)
    qed
  qed
qed simp

text \<open>In any interval as long as the window, whatever other principals do and whatever the state before,
  a principal is let through at most twice the maximum, where a maximum of zero still lets one through
  per window.\<close>

theorem rate_limit_bound:
  assumes "list_all (\<lambda>(q, t). s \<le> t \<and> t < s + ro_windowMs ro) cs"
  shows "rate_allowed ro p cs st \<le> 2 * max 1 (ro_maxPerWindow ro)"
proof -
  have "rate_left ro p st \<le> max 1 (ro_maxPerWindow ro)"
    by (auto simp: rate_left_def split: option.split)
  then show ?thesis
    using rate_allowed_bound [OF assms, of p st] by simp
qed

text \<open>The bound is reached.\<close>

lemma rate_limit_bound_witness:
  "rate_allowed \<lparr>ro_maxPerWindow = 1, ro_windowMs = 10\<rparr> ''u'' [(''u'', 19), (''v'', 20), (''u'', 21)]
     [(''u'', \<lparr>rw_windowStart = 10, rw_count = 0\<rparr>)] = 2"
proof -
  have "list_all (\<lambda>(q, t). (19 :: ms) \<le> t \<and> t < 19 + ro_windowMs \<lparr>ro_maxPerWindow = 1, ro_windowMs = 10\<rparr>)
      [(''u'', 19), (''v'', 20), (''u'', 21)]"
    by simp
  from rate_limit_bound [OF this, of "''u''" "[(''u'', \<lparr>rw_windowStart = 10, rw_count = 0\<rparr>)]"]
  have "rate_allowed \<lparr>ro_maxPerWindow = 1, ro_windowMs = 10\<rparr> ''u'' [(''u'', 19), (''v'', 20), (''u'', 21)]
     [(''u'', \<lparr>rw_windowStart = 10, rw_count = 0\<rparr>)] \<le> 2"
    by (simp only: rate_options.select_convs)
  moreover have "rate_allowed \<lparr>ro_maxPerWindow = 1, ro_windowMs = 10\<rparr> ''u'' [(''u'', 19), (''v'', 20), (''u'', 21)]
     [(''u'', \<lparr>rw_windowStart = 10, rw_count = 0\<rparr>)] \<ge> 2"
    by code_simp
  ultimately show ?thesis
    by (rule antisym)
qed


section \<open>Allocations charge exactly their subject\<close>

definition team_edge :: "team_store \<Rightarrow> (string \<times> string) set" where
  "team_edge teams = {(p, tm_id t) | p t. t \<in> set (team_list teams) \<and> tm_parentId t = Some p \<and> p \<noteq> []}"

lemma children_at_fold:
  "set (children_at (fold add_child ts m) p) =
     set (children_at m p) \<union> {tm_id t | t. t \<in> set ts \<and> tm_parentId t = Some p \<and> p \<noteq> []}"
proof (induction ts arbitrary: m)
  case (Cons t ts)
  have "set (children_at (add_child t m) p) = set (children_at m p) \<union> (if tm_parentId t = Some p \<and> p \<noteq> [] then {tm_id t} else {})"
    by (auto simp: add_child_def children_at_def truthy_def split: option.splits)
  then show ?case
    using Cons.IH [of "add_child t m"] by auto
qed simp

lemma children_edge: "set (children_at (childrenOf (team_list teams)) p) = team_edge teams `` {p}"
  by (auto simp: childrenOf_def children_at_fold team_edge_def) (simp add: children_at_def)

lemma descend_mono: "set out \<union> set queue \<subseteq> set (descend m out queue)"
  by (induction m out queue rule: descend.induct) auto

lemma descend_closed:
  "(\<And>t. t \<in> set out \<Longrightarrow> set (children_at m t) \<subseteq> set out \<union> set queue) \<Longrightarrow>
     t \<in> set (descend m out queue) \<Longrightarrow> set (children_at m t) \<subseteq> set (descend m out queue)"
proof (induction m out queue rule: descend.induct)
  case (2 m out t' queue)
  then show ?case
    by (cases "t' \<in> set out") (simp_all, blast+)
qed auto

lemma descend_sound:
  "set (descend m out queue) \<subseteq> set out \<union> {(a, b). b \<in> set (children_at m a)}\<^sup>* `` set queue"
proof (induction m out queue rule: descend.induct)
  case (2 m out t queue)
  let ?E = "{(a, b). b \<in> set (children_at m a)}"
  have "?E\<^sup>* `` set (children_at m t) \<subseteq> ?E\<^sup>* `` {t}"
    by (auto intro: converse_rtrancl_into_rtrancl)
  then show ?case
    using 2 by (cases "t \<in> set out") (auto, blast+)
qed simp

lemma distinct_descend: "distinct out \<Longrightarrow> distinct (descend m out queue)"
  by (induction m out queue rule: descend.induct) auto

lemma descendants: "set (descendantTeamIds teams r) = (team_edge teams)\<^sup>* `` {r}"
proof -
  let ?m = "childrenOf (team_list teams)"
  have E: "{(a, b). b \<in> set (children_at ?m a)} = team_edge teams"
    using children_edge by auto
  have "x \<in> set (descend ?m [] [r])" if "(r, x) \<in> (team_edge teams)\<^sup>*" for x
    using that
  proof induction
    case base
    show ?case
      using descend_mono [of "[]" "[r]" ?m] by simp
  next
    case (step y z)
    then show ?case
      using descend_closed [of "[]" ?m "[r]" y] children_edge [of teams y] by auto
  qed
  then show ?thesis
    using descend_sound [of ?m "[]" "[r]"] by (auto simp: descendantTeamIds_def E)
qed

text \<open>Who an allocation is about.\<close>

definition in_subject :: "team_store \<Rightarrow> string \<Rightarrow> string \<Rightarrow> bool" where
  "in_subject teams subject p \<longleftrightarrow>
     (if subject = ''org'' then True
      else if js_startsWith subject ''team:''
        then (\<exists>t. teamOf p teams = Some t \<and> (drop (length ''team:'') subject, t) \<in> (team_edge teams)\<^sup>*)
      else p = drop (length ''principal:'') subject)"

lemma team_members_iff: "map_wf (ts_memberTeam s) \<Longrightarrow> p \<in> set (team_members t s) \<longleftrightarrow> teamOf p s = Some t"
  by (force simp: team_members_def teamOf_def map_wf_get_iff)

lemma since_matches:
  "entry_matches (any_query\<lparr>tq_since := Some t\<rparr>) = (\<lambda>e. t \<le> le_at e)"
  "entry_matches (any_query\<lparr>tq_since := Some t, tq_principalId := Some p\<rparr>) = (\<lambda>e. t \<le> le_at e \<and> le_principalId e = p)"
  by (auto simp: entry_matches_def any_query_def absent_or_def fun_eq_iff)

definition subject_cost :: "budget_deps \<Rightarrow> allocation \<Rightarrow> ms \<Rightarrow> rat" where
  "subject_cost deps a now =
     sum_list (map le_costUsd (filter (\<lambda>e. now - al_windowMs a \<le> le_at e \<and>
       in_subject (ad_teams deps) (al_subject a) (le_principalId e)) (ad_ledger deps)))"

lemma team_spend:
  assumes "map_wf (ts_memberTeam (ad_teams deps))"
  shows "teamSpendUsd deps t since = sum_list (map le_costUsd (filter (\<lambda>e. since \<le> le_at e \<and>
     (\<exists>u. teamOf (le_principalId e) (ad_teams deps) = Some u \<and> (t, u) \<in> (team_edge (ad_teams deps))\<^sup>*)) (ad_ledger deps)))"
proof -
  let ?members = "js_dedup (concat (map (\<lambda>i. team_members i (ad_teams deps)) (descendantTeamIds (ad_teams deps) t)))"
  have m: "p \<in> set ?members \<longleftrightarrow> (\<exists>u. teamOf p (ad_teams deps) = Some u \<and> (t, u) \<in> (team_edge (ad_teams deps))\<^sup>*)" for p
    using team_members_iff [OF assms] by (auto simp: descendants)
  have "cost_of (filter (\<lambda>row. fst row \<in> set ?members) (ledger_summary ByPrincipal (any_query\<lparr>tq_since := Some since\<rparr>) (ad_ledger deps))) =
      sum_list (map le_costUsd (filter (\<lambda>e. since \<le> le_at e \<and> le_principalId e \<in> set ?members) (ad_ledger deps)))"
    using summary_cost [of "\<lambda>k. k \<in> set ?members" ByPrincipal]
    by (simp add: cost_of_def comp_def since_matches group_key_def del: set_js_dedup)
  moreover have "?members = [] \<Longrightarrow> filter (\<lambda>e. since \<le> le_at e \<and> le_principalId e \<in> set ?members) (ad_ledger deps) = []"
    by simp
  ultimately have "teamSpendUsd deps t since =
      sum_list (map le_costUsd (filter (\<lambda>e. since \<le> le_at e \<and> le_principalId e \<in> set ?members) (ad_ledger deps)))"
    by (auto simp: teamSpendUsd_def Let_def simp del: set_js_dedup)
  then show ?thesis
    by (simp only: m)
qed

lemma allocation_spend:
  assumes "map_wf (ts_memberTeam (ad_teams deps))"
  shows "allocationSpendUsd deps a now = subject_cost deps a now"
  using team_spend [OF assms]
  by (simp add: allocationSpendUsd_def subject_cost_def in_subject_def Let_def cost_of_def summary_cost_all since_matches)

definition exceeded :: "budget_deps \<Rightarrow> ms \<Rightarrow> allocation \<Rightarrow> bool" where
  "exceeded deps now a \<longleftrightarrow> al_limitUsd a \<le> subject_cost deps a now"

lemma allocation_scan_result:
  assumes "map_wf (ts_memberTeam (ad_teams deps))" "bc_allowed base"
  shows "bc_allowed (fst (allocation_scan deps now base warned as)) \<longleftrightarrow> \<not> list_ex (\<lambda>a. al_hard a \<and> exceeded deps now a) as"
    and "bc_allowed (fst (allocation_scan deps now base warned as)) \<Longrightarrow>
      allocation_scan deps now base warned as =
        (base, warned @ map (\<lambda>a. (al_id a, subject_cost deps a now)) (filter (exceeded deps now) as))"
  using assms
  by (induction deps now base warned as rule: allocation_scan.induct)
    (auto simp: Let_def allocation_spend exceeded_def not_le split: if_splits)

text \<open>C15: An allocation limits what its subject spent and nothing else: when the team chain of a principal is
  sound, the check denies exactly if the wrapped budget denies or some hard allocation of the
  organisation, the principal or a team above it has reached its limit, where the amount is the cost of
  the ledger entries in its window of its subject, for a team those of every member of the subtree; and
  an allowed turn warns of exactly the soft allocations that are exceeded.\<close>

theorem allocations_enforced:
  assumes "map_wf (ts_memberTeam (ad_teams deps))" "allocation_subjects (ad_teams deps) p = Inr subjects"
  shows "\<exists>c warned. allocation_check deps base p now = Inr (c, warned) \<and>
    (bc_allowed c \<longleftrightarrow> bc_allowed base \<and>
       \<not> list_ex (\<lambda>a. al_hard a \<and> exceeded deps now a) (forSubjects subjects (ad_allocations deps))) \<and>
    (bc_allowed c \<longrightarrow> c = base \<and> warned = map (\<lambda>a. (al_id a, subject_cost deps a now))
       (filter (exceeded deps now) (forSubjects subjects (ad_allocations deps))))"
proof (cases "bc_allowed base")
  case True
  let ?r = "allocation_scan deps now base [] (forSubjects subjects (ad_allocations deps))"
  obtain c warned where r: "?r = (c, warned)"
    by fastforce
  then have check: "allocation_check deps base p now = Inr (c, warned)"
    using True assms(2) by (simp add: allocation_check_def)
  show ?thesis
    using allocation_scan_result [OF assms(1) True, of now "[]" "forSubjects subjects (ad_allocations deps)"] True
    unfolding r by (intro exI [of _ c] exI [of _ warned]) (simp add: check)
qed (simp add: allocation_check_def)

definition demo_budget_deps :: budget_deps where
  "demo_budget_deps =
     \<lparr>ad_teams = setMember ''core'' ''u'' (team_upsert \<lparr>tm_id = ''core'', tm_name = ''Core'', tm_parentId = Some ''eng''\<rparr>
        (team_upsert \<lparr>tm_id = ''eng'', tm_name = ''Eng'', tm_parentId = None\<rparr> \<lparr>ts_teams = [], ts_memberTeam = []\<rparr>)),
      ad_allocations = alloc_upsert \<lparr>al_id = ''a'', al_subject = ''team:eng'', al_limitUsd = 1, al_windowMs = 100, al_hard = True\<rparr> [],
      ad_ledger = [entryFromUsage
        \<lparr>lb_principalId = ''u'', lb_scopeLabel = ''org:a'', lb_model = ''m'', lb_phase = PhTurn, lb_sessionId = None,
         lb_runId = None, lb_harness = None, lb_at = None\<rparr> 50
        \<lparr>lu_input = 9, lu_output = 3, lu_cacheRead = 0, lu_cacheWrite = 0, lu_totalTokens = 12, lu_costUsd = 2\<rparr>]\<rparr>"

definition demo_base_check :: budget_check where
  "demo_base_check = \<lparr>bc_allowed = True, bc_spentUsd = 0, bc_limitUsd = None\<rparr>"

text \<open>Two dollars spent by a member of a subteam exhaust the parent team's hard dollar.\<close>

lemma allocations_enforced_witness:
  "list_ex (\<lambda>a. al_hard a \<and> exceeded demo_budget_deps 60 a) (forSubjects [''org'', ''principal:u'', ''team:core'', ''team:eng''] (ad_allocations demo_budget_deps))"
proof -
  have wf: "map_wf (ts_memberTeam (ad_teams demo_budget_deps))"
    and subjects: "allocation_subjects (ad_teams demo_budget_deps) ''u'' = Inr [''org'', ''principal:u'', ''team:core'', ''team:eng'']"
    and denied: "map_sum id (bc_allowed \<circ> fst) (allocation_check demo_budget_deps demo_base_check ''u'' 60) = Inr False"
    by code_simp+
  show ?thesis
    using allocations_enforced [OF wf subjects, of demo_base_check 60] denied by (auto simp: demo_base_check_def)
qed

end
