(* ===== verification/Idempotency.thy ===== *)
theory Idempotency
  imports Durable_Map
begin

text \<open>
  Running an effect once per key: \<open>idempotency/idempotency-store.ts\<close>. \<open>once\<close> awaits the committed test, the
  effect and the durable write, so two calls can interleave there: a call is modelled as its steps
  (enter, test, effect, write, leave) and a run as any interleaving of the steps of many calls. The
  background prune of the durable map is a step of its own.
\<close>

section \<open>State\<close>

record idem_record =
  id_key :: string
  id_at :: ms

record idem_options =
  io_retentionMs :: ms
  io_pruneIntervalMs :: ms

definition DEFAULT_RETENTION_MS :: ms where
  "DEFAULT_RETENTION_MS = 14 * 24 * 60 * 60000"

definition DEFAULT_PRUNE_INTERVAL_MS :: ms where
  "DEFAULT_PRUNE_INTERVAL_MS = 60 * 60000"

definition idem_options_of :: "ms option \<Rightarrow> ms option \<Rightarrow> idem_options" where
  "idem_options_of r p =
     \<lparr>io_retentionMs = (case r of None \<Rightarrow> DEFAULT_RETENTION_MS | Some t \<Rightarrow> t),
      io_pruneIntervalMs = (case p of None \<Rightarrow> DEFAULT_PRUNE_INTERVAL_MS | Some t \<Rightarrow> t)\<rparr>"

text \<open>The durable map is optional; \<open>prunes\<close> holds the cutoffs of the background prunes under way.\<close>

record idem_store =
  is_done :: "(string, ms) jsmap"
  is_inflight :: "string list"
  is_lastPruneAt :: ms
  is_backing :: "(string, idem_record) jsmap option"
  is_prunes :: "ms list"

definition idem_start :: "(string, idem_record) jsmap option \<Rightarrow> ms \<Rightarrow> idem_store" where
  "idem_start backing now =
     \<lparr>is_done = [], is_inflight = [], is_lastPruneAt = now, is_backing = backing, is_prunes = []\<rparr>"

section \<open>Operations\<close>

definition pruneIfDue :: "idem_options \<Rightarrow> ms \<Rightarrow> idem_store \<Rightarrow> idem_store" where
  "pruneIfDue opts t s =
     (if t - is_lastPruneAt s < io_pruneIntervalMs opts then s
      else (let cutoff = t - io_retentionMs opts in
            s\<lparr>is_lastPruneAt := t, is_done := filter (\<lambda>(k, stamp). \<not> stamp < cutoff) (is_done s),
              is_prunes := (if is_backing s = None then is_prunes s else is_prunes s @ [cutoff])\<rparr>))"

text \<open>One background prune: every durable record older than its cutoff goes.\<close>

definition prune_backing :: "ms \<Rightarrow> (string, idem_record) jsmap \<Rightarrow> (string, idem_record) jsmap" where
  "prune_backing cutoff m = fold (\<lambda>r b. if id_at r < cutoff then dm_delete (id_key r) b else b) (dm_all m) m"

definition run_prune :: "idem_store \<Rightarrow> idem_store" where
  "run_prune s =
     (case (is_prunes s, is_backing s) of
        (cutoff # rest, Some m) \<Rightarrow> s\<lparr>is_prunes := rest, is_backing := Some (prune_backing cutoff m)\<rparr>
      | _ \<Rightarrow> s)"

definition isCommitted :: "idem_options \<Rightarrow> string \<Rightarrow> ms \<Rightarrow> idem_store \<Rightarrow> idem_store \<times> bool" where
  "isCommitted opts k now s =
     (let cutoff = now - io_retentionMs opts;
          fresh = (\<lambda>stamp. stamp \<ge> cutoff) in
      if (case map_get (is_done s) k of None \<Rightarrow> False | Some stamp \<Rightarrow> fresh stamp) then (s, True)
      else (case Option.bind (is_backing s) (dm_get k) of
              None \<Rightarrow> (s, False)
            | Some r \<Rightarrow>
                if fresh (id_at r) then (s\<lparr>is_done := map_set (id_key r) (id_at r) (is_done s)\<rparr>, True) else (s, False)))"

definition once_enter :: "string \<Rightarrow> idem_store \<Rightarrow> idem_store option" where
  "once_enter k s = (if k \<in> set (is_inflight s) then None else Some (s\<lparr>is_inflight := is_inflight s @ [k]\<rparr>))"

definition once_leave :: "string \<Rightarrow> idem_store \<Rightarrow> idem_store" where
  "once_leave k s = s\<lparr>is_inflight := filter (\<lambda>j. j \<noteq> k) (is_inflight s)\<rparr>"

definition once_put :: "string \<Rightarrow> ms \<Rightarrow> idem_store \<Rightarrow> idem_store" where
  "once_put k stamp s = s\<lparr>is_backing := map_option (dm_put k \<lparr>id_key = k, id_at = stamp\<rparr>) (is_backing s)\<rparr>"

definition once_done :: "idem_options \<Rightarrow> string \<Rightarrow> ms \<Rightarrow> idem_store \<Rightarrow> idem_store" where
  "once_done opts k stamp s = pruneIfDue opts stamp (s\<lparr>is_done := map_set k stamp (is_done s)\<rparr>)"

section \<open>Interleaved calls\<close>

text \<open>Where a call of \<open>once\<close> is; \<open>Ended b\<close> has returned \<^term>\<open>b\<close>, \<open>Thrown\<close> has rejected.\<close>

datatype once_phase =
    Waiting | Testing | Running | Writing ms | Finishing ms | Leaving "bool option" | Ended bool | Thrown

record once_call =
  oc_key :: string
  oc_phase :: once_phase

record idem_world =
  iw_store :: idem_store
  iw_calls :: "once_call list"
  iw_now :: ms
  iw_effects :: "(string \<times> ms) list"

text \<open>Failures of the environment: the effect or the durable write may throw.\<close>

datatype idem_step = Advance nat | Tick ms | Prune | Fail nat | Call string

definition set_phase :: "nat \<Rightarrow> once_phase \<Rightarrow> idem_world \<Rightarrow> idem_world" where
  "set_phase i ph w = w\<lparr>iw_calls := (iw_calls w)[i := (iw_calls w ! i)\<lparr>oc_phase := ph\<rparr>]\<rparr>"

definition once_step :: "idem_options \<Rightarrow> nat \<Rightarrow> idem_world \<Rightarrow> idem_world" where
  "once_step opts i w =
     (if length (iw_calls w) \<le> i then w
      else
        (let c = iw_calls w ! i; k = oc_key c; s = iw_store w in
         case oc_phase c of
           Waiting \<Rightarrow> (case once_enter k s of None \<Rightarrow> set_phase i (Ended False) w | Some s' \<Rightarrow> set_phase i Testing (w\<lparr>iw_store := s'\<rparr>))
         | Testing \<Rightarrow> (let (s', b) = isCommitted opts k (iw_now w) s
                       in set_phase i (if b then Leaving (Some False) else Running) (w\<lparr>iw_store := s'\<rparr>))
         | Running \<Rightarrow> set_phase i (Writing (iw_now w)) (w\<lparr>iw_effects := iw_effects w @ [(k, iw_now w)]\<rparr>)
         | Writing stamp \<Rightarrow> set_phase i (Finishing stamp) (w\<lparr>iw_store := once_put k stamp s\<rparr>)
         | Finishing stamp \<Rightarrow> set_phase i (Leaving (Some True)) (w\<lparr>iw_store := once_done opts k stamp s\<rparr>)
         | Leaving r \<Rightarrow> set_phase i (case r of Some b \<Rightarrow> Ended b | None \<Rightarrow> Thrown) (w\<lparr>iw_store := once_leave k s\<rparr>)
         | _ \<Rightarrow> w))"

definition once_fail :: "nat \<Rightarrow> idem_world \<Rightarrow> idem_world" where
  "once_fail i w =
     (if length (iw_calls w) \<le> i then w
      else (case oc_phase (iw_calls w ! i) of
              Testing \<Rightarrow> set_phase i (Leaving None) w
            | Running \<Rightarrow> set_phase i (Leaving None) w
            | Writing stamp \<Rightarrow> set_phase i (Leaving None) w
            | _ \<Rightarrow> w))"

fun idem_apply :: "idem_options \<Rightarrow> idem_step \<Rightarrow> idem_world \<Rightarrow> idem_world" where
  "idem_apply opts (Advance i) w = once_step opts i w"
| "idem_apply opts (Tick d) w = w\<lparr>iw_now := iw_now w + max 0 d\<rparr>"
| "idem_apply opts Prune w = w\<lparr>iw_store := run_prune (iw_store w)\<rparr>"
| "idem_apply opts (Fail i) w = once_fail i w"
| "idem_apply opts (Call k) w = w\<lparr>iw_calls := iw_calls w @ [\<lparr>oc_key = k, oc_phase = Waiting\<rparr>]\<rparr>"

definition idem_run :: "idem_options \<Rightarrow> idem_step list \<Rightarrow> idem_world \<Rightarrow> idem_world" where
  "idem_run opts steps w = fold (idem_apply opts) steps w"

definition idem_init :: "(string, idem_record) jsmap option \<Rightarrow> ms \<Rightarrow> idem_world" where
  "idem_init backing now = \<lparr>iw_store = idem_start backing now, iw_calls = [], iw_now = now, iw_effects = []\<rparr>"


section \<open>Once per retention period\<close>

text \<open>The runs in which no durable write fails after its effect happened.\<close>

fun no_lost_write :: "idem_options \<Rightarrow> idem_step list \<Rightarrow> idem_world \<Rightarrow> bool" where
  "no_lost_write opts [] w = True"
| "no_lost_write opts (st # steps) w =
     ((case st of
         Fail i \<Rightarrow> length (iw_calls w) \<le> i \<or> (case oc_phase (iw_calls w ! i) of Writing t \<Rightarrow> False | _ \<Rightarrow> True)
       | _ \<Rightarrow> True) \<and> no_lost_write opts steps (idem_apply opts st w))"

definition effect_times :: "idem_world \<Rightarrow> string \<Rightarrow> ms list" where
  "effect_times w k = map snd (filter (\<lambda>e. fst e = k) (iw_effects w))"

fun in_progress :: "once_phase \<Rightarrow> bool" where
  "in_progress Waiting = False"
| "in_progress (Ended b) = False"
| "in_progress Thrown = False"
| "in_progress _ = True"

text \<open>The phase of the call that is under way for a key, if any.\<close>

definition current :: "idem_world \<Rightarrow> string \<Rightarrow> once_phase option \<Rightarrow> bool" where
  "current w k ph =
     (case ph of
        Some p \<Rightarrow> in_progress p \<and> (\<exists>i < length (iw_calls w). iw_calls w ! i = \<lparr>oc_key = k, oc_phase = p\<rparr>)
      | None \<Rightarrow> (\<forall>i < length (iw_calls w). oc_key (iw_calls w ! i) = k \<longrightarrow> \<not> in_progress (oc_phase (iw_calls w ! i))))"

definition remembers :: "idem_store \<Rightarrow> string \<Rightarrow> ms \<Rightarrow> bool" where
  "remembers s k t \<longleftrightarrow>
     (\<exists>u. map_get (is_done s) k = Some u \<and> t \<le> u) \<or>
     (\<exists>r. Option.bind (is_backing s) (dm_get k) = Some r \<and> t \<le> id_at r)"

definition key_ok :: "ms \<Rightarrow> ms \<Rightarrow> once_phase option \<Rightarrow> (ms \<Rightarrow> bool) \<Rightarrow> ms list \<Rightarrow> bool" where
  "key_ok ret now ph known ts \<longleftrightarrow>
     sorted_wrt (\<lambda>t u. t + ret < u) ts \<and> (\<forall>t \<in> set ts. t \<le> now) \<and>
     (case ph of
        Some (Writing st) \<Rightarrow> st \<le> now \<and> (\<forall>t \<in> set ts. t \<le> st)
      | Some (Finishing st) \<Rightarrow> st \<le> now \<and> (\<forall>t \<in> set ts. t \<le> st)
      | Some Running \<Rightarrow> (\<forall>t \<in> set ts. t + ret < now)
      | _ \<Rightarrow> (\<forall>t \<in> set ts. t + ret < now \<or> known t))"

definition idem_inv :: "idem_options \<Rightarrow> idem_world \<Rightarrow> bool" where
  "idem_inv opts w \<longleftrightarrow>
     (\<forall>i < length (iw_calls w). in_progress (oc_phase (iw_calls w ! i)) \<longrightarrow> oc_key (iw_calls w ! i) \<in> set (is_inflight (iw_store w))) \<and>
     (\<forall>i < length (iw_calls w). \<forall>j < length (iw_calls w). in_progress (oc_phase (iw_calls w ! i)) \<longrightarrow>
        in_progress (oc_phase (iw_calls w ! j)) \<longrightarrow> oc_key (iw_calls w ! i) = oc_key (iw_calls w ! j) \<longrightarrow> i = j) \<and>
     (\<forall>c \<in> set (is_prunes (iw_store w)). c \<le> iw_now w - io_retentionMs opts) \<and>
     map_wf (is_done (iw_store w)) \<and>
     (\<forall>m. is_backing (iw_store w) = Some m \<longrightarrow> map_wf m \<and> map_all (\<lambda>k r. id_key r = k) m) \<and>
     (\<forall>k ph. current w k ph \<longrightarrow> key_ok (io_retentionMs opts) (iw_now w) ph (remembers (iw_store w) k) (effect_times w k))"

lemma set_phase_simps [simp]:
  "iw_store (set_phase i ph w) = iw_store w" "iw_now (set_phase i ph w) = iw_now w"
  "iw_effects (set_phase i ph w) = iw_effects w" "length (iw_calls (set_phase i ph w)) = length (iw_calls w)"
  "effect_times (set_phase i ph w) k = effect_times w k"
  by (simp_all add: set_phase_def effect_times_def)

lemma set_phase_nth:
  "j < length (iw_calls w) \<Longrightarrow>
     iw_calls (set_phase i ph w) ! j = (if j = i then (iw_calls w ! i)\<lparr>oc_phase := ph\<rparr> else iw_calls w ! j)"
  by (simp add: set_phase_def nth_list_update)

lemma current_iff:
  "current w k None \<longleftrightarrow> (\<forall>i < length (iw_calls w). oc_key (iw_calls w ! i) = k \<longrightarrow> \<not> in_progress (oc_phase (iw_calls w ! i)))"
  "current w k (Some p) \<longleftrightarrow>
     in_progress p \<and> (\<exists>i < length (iw_calls w). oc_key (iw_calls w ! i) = k \<and> oc_phase (iw_calls w ! i) = p)"
proof -
  have "c = \<lparr>oc_key = k, oc_phase = p\<rparr> \<longleftrightarrow> oc_key c = k \<and> oc_phase c = p" for c :: once_call
    by (cases c) simp
  then show "current w k (Some p) \<longleftrightarrow>
      in_progress p \<and> (\<exists>i < length (iw_calls w). oc_key (iw_calls w ! i) = k \<and> oc_phase (iw_calls w ! i) = p)"
    by (simp add: current_def)
qed (simp add: current_def)

lemma current_exists: "\<exists>ph. current w k ph"
proof (cases "current w k None")
  case False
  then show ?thesis
    unfolding current_iff(1) using current_iff(2) [of w k] by blast
qed blast

lemma idem_invD:
  assumes "idem_inv opts w"
  shows "i < length (iw_calls w) \<Longrightarrow> in_progress (oc_phase (iw_calls w ! i)) \<Longrightarrow>
      oc_key (iw_calls w ! i) \<in> set (is_inflight (iw_store w))"
    and "i < length (iw_calls w) \<Longrightarrow> j < length (iw_calls w) \<Longrightarrow> in_progress (oc_phase (iw_calls w ! i)) \<Longrightarrow>
      in_progress (oc_phase (iw_calls w ! j)) \<Longrightarrow> oc_key (iw_calls w ! i) = oc_key (iw_calls w ! j) \<Longrightarrow> i = j"
    and "c \<in> set (is_prunes (iw_store w)) \<Longrightarrow> c \<le> iw_now w - io_retentionMs opts"
    and "map_wf (is_done (iw_store w))"
    and "is_backing (iw_store w) = Some m \<Longrightarrow> map_wf m \<and> map_all (\<lambda>k r. id_key r = k) m"
    and "current w k ph \<Longrightarrow> key_ok (io_retentionMs opts) (iw_now w) ph (remembers (iw_store w) k) (effect_times w k)"
  using assms by (simp_all add: idem_inv_def)

text \<open>Only the current call of its own key changes with a phase.\<close>

definition may_move :: "idem_world \<Rightarrow> nat \<Rightarrow> bool" where
  "may_move w i \<longleftrightarrow> i < length (iw_calls w) \<and>
     (in_progress (oc_phase (iw_calls w ! i)) \<or> current w (oc_key (iw_calls w ! i)) None)"

lemma others_idle:
  assumes "idem_inv opts w" "may_move w i" "j < length (iw_calls w)" "in_progress (oc_phase (iw_calls w ! j))" "j \<noteq> i"
  shows "oc_key (iw_calls w ! j) \<noteq> oc_key (iw_calls w ! i)"
  using assms idem_invD(2) [OF assms(1), of i j] by (auto simp: may_move_def current_iff)

lemma current_set_phase:
  assumes "idem_inv opts w" "may_move w i" "current (set_phase i ph w) k q"
  shows "if k = oc_key (iw_calls w ! i) then q = (if in_progress ph then Some ph else None) else current w k q"
proof (cases q)
  case None
  have idle: "j < length (iw_calls w) \<Longrightarrow> oc_key (if j = i then (iw_calls w ! i)\<lparr>oc_phase := ph\<rparr> else iw_calls w ! j) = k \<Longrightarrow>
      \<not> in_progress (oc_phase (if j = i then (iw_calls w ! i)\<lparr>oc_phase := ph\<rparr> else iw_calls w ! j))" for j
    using assms(3) None by (simp add: current_iff set_phase_nth)
  have "i < length (iw_calls w)"
    using assms(2) by (simp add: may_move_def)
  have "\<not> in_progress (oc_phase (iw_calls w ! j))" if "k \<noteq> oc_key (iw_calls w ! i)" "j < length (iw_calls w)"
      "oc_key (iw_calls w ! j) = k" for j
    using idle [of j] that by (cases "j = i") auto
  then show ?thesis
    using idle [of i] \<open>i < length (iw_calls w)\<close> None by (auto simp: current_iff)
next
  case (Some p)
  then obtain j where j: "in_progress p" "j < length (iw_calls w)"
      "oc_key (if j = i then (iw_calls w ! i)\<lparr>oc_phase := ph\<rparr> else iw_calls w ! j) = k"
      "oc_phase (if j = i then (iw_calls w ! i)\<lparr>oc_phase := ph\<rparr> else iw_calls w ! j) = p"
    using assms(3) by (auto simp: current_iff set_phase_nth)
  show ?thesis
  proof (cases "j = i")
    case True
    then show ?thesis
      using j Some by simp
  next
    case False
    then have "oc_key (iw_calls w ! j) = k" "oc_phase (iw_calls w ! j) = p"
      using j by simp_all
    then show ?thesis
      using others_idle [OF assms(1,2), of j] j False Some by (auto simp: current_iff)
  qed
qed

lemma current_store [simp]:
  "current (w\<lparr>iw_store := s\<rparr>) k ph = current w k ph" "current (w\<lparr>iw_effects := es\<rparr>) k ph = current w k ph"
  by (simp_all add: current_def split: option.split)

text \<open>The invariant after a step of call \<open>i\<close>, from what changes for its key.\<close>

lemma idem_inv_step:
  assumes inv: "idem_inv opts w" and move: "may_move w i" and k: "k = oc_key (iw_calls w ! i)"
    and inflight: "set (is_inflight s') - {k} = set (is_inflight (iw_store w)) - {k}" "in_progress ph \<Longrightarrow> k \<in> set (is_inflight s')"
    and prunes: "\<And>c. c \<in> set (is_prunes s') \<Longrightarrow> c \<le> iw_now w - io_retentionMs opts"
    and wf: "map_wf (is_done s')" "\<And>m. is_backing s' = Some m \<Longrightarrow> map_wf m \<and> map_all (\<lambda>k r. id_key r = k) m"
    and others: "\<And>j t. j \<noteq> k \<Longrightarrow> remembers (iw_store w) j t \<Longrightarrow> t + io_retentionMs opts < iw_now w \<or> remembers s' j t"
    and own: "key_ok (io_retentionMs opts) (iw_now w) (if in_progress ph then Some ph else None) (remembers s' k) (effect_times w k @ ts)"
  shows "idem_inv opts (set_phase i ph (w\<lparr>iw_store := s', iw_effects := iw_effects w @ map (Pair k) ts\<rparr>))"
proof -
  let ?w = "set_phase i ph w"
  let ?w' = "set_phase i ph (w\<lparr>iw_store := s', iw_effects := iw_effects w @ map (Pair k) ts\<rparr>)"
  have calls: "iw_calls ?w' = iw_calls ?w"
    by (simp add: set_phase_def)
  have i: "i < length (iw_calls w)"
    using move by (simp add: may_move_def)
  have cur: "current ?w' j q = current ?w j q" for j q
    by (simp add: current_def calls split: option.split)
  have times: "effect_times ?w' j = (if j = k then effect_times w k @ ts else effect_times w j)" for j
    by (simp add: effect_times_def filter_map comp_def)
  have keys: "key_ok (io_retentionMs opts) (iw_now w) q (remembers s' j) (effect_times ?w' j)" if "current ?w' j q" for j q
  proof (cases "j = k")
    case True
    then show ?thesis
      using current_set_phase [OF inv move, of ph j q] that own k unfolding times cur by simp
  next
    case False
    then have "current w j q"
      using current_set_phase [OF inv move, of ph j q] that k unfolding cur by simp
    from idem_invD(6) [OF inv this] show ?thesis
      using others [OF False] False unfolding times
      by (auto simp: key_ok_def split: option.splits once_phase.splits)
  qed
  have nth: "iw_calls ?w ! j = (if j = i then (iw_calls w ! i)\<lparr>oc_phase := ph\<rparr> else iw_calls w ! j)" if "j < length (iw_calls w)" for j
    by (rule set_phase_nth [OF that])
  have held: "oc_key (iw_calls ?w ! j) \<in> set (is_inflight s')"
    if "j < length (iw_calls w)" "in_progress (oc_phase (iw_calls ?w ! j))" for j
  proof (cases "j = i")
    case False
    then have "oc_key (iw_calls w ! j) \<in> set (is_inflight (iw_store w)) - {k}"
      using idem_invD(1) [OF inv, of j] others_idle [OF inv move, of j] that k by (simp add: nth)
    then show ?thesis
      using inflight(1) False that(1) by (auto simp: nth)
  qed (use that inflight(2) k in \<open>simp add: nth\<close>)
  have uniq: "j = l" if "j < length (iw_calls w)" "l < length (iw_calls w)" "in_progress (oc_phase (iw_calls ?w ! j))"
      "in_progress (oc_phase (iw_calls ?w ! l))" "oc_key (iw_calls ?w ! j) = oc_key (iw_calls ?w ! l)" for j l
    using that idem_invD(2) [OF inv, of j l] others_idle [OF inv move, of j] others_idle [OF inv move, of l]
    by (simp add: nth split: if_splits)
  show ?thesis
    unfolding idem_inv_def
    using held uniq keys prunes wf by (simp add: calls del: set_phase_simps(5))
qed


lemma idem_inv_move:
  assumes "idem_inv opts w" "may_move w i" "k = oc_key (iw_calls w ! i)"
    "set (is_inflight s') - {k} = set (is_inflight (iw_store w)) - {k}" "in_progress ph \<Longrightarrow> k \<in> set (is_inflight s')"
    "\<And>c. c \<in> set (is_prunes s') \<Longrightarrow> c \<le> iw_now w - io_retentionMs opts"
    "map_wf (is_done s')" "\<And>m. is_backing s' = Some m \<Longrightarrow> map_wf m \<and> map_all (\<lambda>k r. id_key r = k) m"
    "\<And>j t. j \<noteq> k \<Longrightarrow> remembers (iw_store w) j t \<Longrightarrow> t + io_retentionMs opts < iw_now w \<or> remembers s' j t"
    "key_ok (io_retentionMs opts) (iw_now w) (if in_progress ph then Some ph else None) (remembers s' k) (effect_times w k)"
  shows "idem_inv opts (set_phase i ph (w\<lparr>iw_store := s'\<rparr>))"
proof -
  have "w\<lparr>iw_store := s', iw_effects := iw_effects w @ map (Pair k) []\<rparr> = w\<lparr>iw_store := s'\<rparr>"
    by (cases w) simp
  then show ?thesis
    using idem_inv_step [where ts = "[]", OF assms(1-9)] assms(10) by simp
qed

lemma remembers_frame:
  "is_done s' = is_done s \<Longrightarrow> is_backing s' = is_backing s \<Longrightarrow> remembers s' = remembers s"
  by (auto simp: remembers_def fun_eq_iff)

lemma own_key:
  assumes "idem_inv opts w" "i < length (iw_calls w)" "in_progress (oc_phase (iw_calls w ! i))"
  shows "key_ok (io_retentionMs opts) (iw_now w) (Some (oc_phase (iw_calls w ! i)))
    (remembers (iw_store w) (oc_key (iw_calls w ! i))) (effect_times w (oc_key (iw_calls w ! i)))"
  by (rule idem_invD(6) [OF assms(1)]) (use assms(2,3) in \<open>auto simp: current_iff\<close>)

lemma isCommitted_frame:
  "is_inflight (fst (isCommitted opts k now s)) = is_inflight s" "is_prunes (fst (isCommitted opts k now s)) = is_prunes s"
  "is_backing (fst (isCommitted opts k now s)) = is_backing s"
  "map_wf (is_done s) \<Longrightarrow> map_wf (is_done (fst (isCommitted opts k now s)))"
  by (auto simp: isCommitted_def Let_def split: option.split)

lemma isCommitted_remembers:
  assumes keyed: "\<And>m. is_backing s = Some m \<Longrightarrow> map_all (\<lambda>k r. id_key r = k) m" and known: "remembers s j t"
  shows "t + io_retentionMs opts < now \<or> remembers (fst (isCommitted opts k now s)) j t"
    and "\<not> snd (isCommitted opts k now s) \<Longrightarrow> j = k \<Longrightarrow> t + io_retentionMs opts < now"
proof -
  have key: "id_key r = k" if "Option.bind (is_backing s) (dm_get k) = Some r" for r k
    using keyed that by (cases "is_backing s") (auto simp: dm_get_def dest: map_allD)
  show "t + io_retentionMs opts < now \<or> remembers (fst (isCommitted opts k now s)) j t"
    using known key by (auto simp: isCommitted_def remembers_def Let_def split: option.splits)
  show "\<not> snd (isCommitted opts k now s) \<Longrightarrow> j = k \<Longrightarrow> t + io_retentionMs opts < now"
    using known by (fastforce simp: isCommitted_def remembers_def Let_def split: option.splits if_splits)
qed

lemma once_put_remembers:
  "remembers s j t \<Longrightarrow> j \<noteq> k \<Longrightarrow> remembers (once_put k stamp s) j t"
  by (cases "is_backing s") (auto simp: remembers_def once_put_def dm_get_def dm_put_def)

lemma once_done_remembers:
  assumes "map_wf (is_done s)" "stamp \<le> now"
  shows "j \<noteq> k \<Longrightarrow> remembers s j t \<Longrightarrow> t + io_retentionMs opts < now \<or> remembers (once_done opts k stamp s) j t"
    and "t \<le> stamp \<Longrightarrow> t + io_retentionMs opts < now \<or> remembers (once_done opts k stamp s) k t"
proof -
  have get: "map_get (filter (\<lambda>(k, u). \<not> u < c) m) j = (case map_get m j of None \<Rightarrow> None | Some u \<Rightarrow> if u < c then None else Some u)"
    if "map_wf m" for m :: "(string, ms) jsmap" and c j
    using that by (induction m) (auto simp: map_wf_def map_of_eq_None_iff split: option.split)
  have wf: "map_wf (map_set k stamp (is_done s))"
    using assms(1) by simp
  show "j \<noteq> k \<Longrightarrow> remembers s j t \<Longrightarrow> t + io_retentionMs opts < now \<or> remembers (once_done opts k stamp s) j t"
    using assms(2) by (auto simp: remembers_def once_done_def pruneIfDue_def Let_def get [OF wf])
  show "t \<le> stamp \<Longrightarrow> t + io_retentionMs opts < now \<or> remembers (once_done opts k stamp s) k t"
    using assms(2) by (auto simp: remembers_def once_done_def pruneIfDue_def Let_def get [OF wf])
qed

lemma once_done_frame:
  "is_inflight (once_done opts k stamp s) = is_inflight s" "is_backing (once_done opts k stamp s) = is_backing s"
  "set (is_prunes (once_done opts k stamp s)) \<subseteq> insert (stamp - io_retentionMs opts) (set (is_prunes s))"
  "map_wf (is_done s) \<Longrightarrow> map_wf (is_done (once_done opts k stamp s))"
proof -
  show "map_wf (is_done (once_done opts k stamp s))" if "map_wf (is_done s)"
  proof -
    have "map_wf (map_set k stamp (is_done s))"
      using that by simp
    then show ?thesis
      by (auto simp: once_done_def pruneIfDue_def Let_def map_wf_def intro: distinct_map_filter)
  qed
qed (auto simp: once_done_def pruneIfDue_def Let_def)


lemma fold_prune_get:
  "map_get (fold (\<lambda>r b. if id_at r < c then dm_delete (id_key r) b else b) rs m) k =
     (if \<exists>r \<in> set rs. id_at r < c \<and> id_key r = k then None else map_get m k)"
  by (induction rs arbitrary: m) (auto simp: dm_delete_def)

lemma fold_prune_wf:
  "map_wf m \<Longrightarrow> map_wf (fold (\<lambda>r b. if id_at r < c then dm_delete (id_key r) b else b) rs m)"
  by (induction rs arbitrary: m) (auto simp: dm_delete_def)

lemma prune_backing_get:
  assumes "map_wf m" "map_all (\<lambda>k r. id_key r = k) m"
  shows "map_get (prune_backing c m) k = (case map_get m k of None \<Rightarrow> None | Some r \<Rightarrow> if id_at r < c then None else Some r)"
proof -
  have "(\<exists>r \<in> set (dm_all m). id_at r < c \<and> id_key r = k) \<longleftrightarrow> (\<exists>r. map_get m k = Some r \<and> id_at r < c)"
  proof
    assume "\<exists>r \<in> set (dm_all m). id_at r < c \<and> id_key r = k"
    then obtain r where r: "r \<in> set (map_values m)" "id_at r < c" "id_key r = k"
      by (auto simp: set_dm_all)
    then obtain j where "map_get m j = Some r"
      using map_wf_value_get [OF assms(1)] by blast
    then show "\<exists>r. map_get m k = Some r \<and> id_at r < c"
      using r map_allD [OF assms(2)] by blast
  next
    assume "\<exists>r. map_get m k = Some r \<and> id_at r < c"
    then obtain r where r: "map_get m k = Some r" "id_at r < c"
      by blast
    then show "\<exists>r \<in> set (dm_all m). id_at r < c \<and> id_key r = k"
      using map_get_in_values [OF r(1)] map_allD [OF assms(2) r(1)] unfolding set_dm_all by blast
  qed
  then show ?thesis
    by (auto simp: prune_backing_def fold_prune_get split: option.split)
qed

lemma key_ok_idle:
  "ph \<in> {None, Some Testing, Some (Leaving r)} \<Longrightarrow>
     key_ok ret now ph known ts \<longleftrightarrow> sorted_wrt (\<lambda>t u. t + ret < u) ts \<and> (\<forall>t \<in> set ts. t \<le> now \<and> (t + ret < now \<or> known t))"
  by (auto simp: key_ok_def)

lemma key_ok_weaken:
  assumes "key_ok ret now ph known ts" "now \<le> now'" "\<And>t. known t \<Longrightarrow> t + ret < now' \<or> known' t"
  shows "key_ok ret now' ph known' ts"
proof (cases ph)
  case (Some p)
  then show ?thesis
    using assms by (cases p) (auto simp: key_ok_def, force+)
qed (use assms in \<open>force simp: key_ok_def\<close>)

lemma idle_move:
  assumes inv: "idem_inv opts w" and i: "i < length (iw_calls w)"
    and idle: "\<not> in_progress (oc_phase (iw_calls w ! i))" "\<not> in_progress ph"
  shows "idem_inv opts (set_phase i ph w)"
proof -
  have key: "oc_key (iw_calls (set_phase i ph w) ! j) = oc_key (iw_calls w ! j)" if "j < length (iw_calls w)" for j
    using that by (simp add: set_phase_nth)
  have phase: "in_progress (oc_phase (iw_calls (set_phase i ph w) ! j)) = in_progress (oc_phase (iw_calls w ! j))"
      "in_progress (oc_phase (iw_calls w ! j)) \<Longrightarrow> oc_phase (iw_calls (set_phase i ph w) ! j) = oc_phase (iw_calls w ! j)"
    if "j < length (iw_calls w)" for j
    using that idle by (auto simp: set_phase_nth)
  have "current (set_phase i ph w) k q = current w k q" for k q
  proof (cases q)
    case None
    then show ?thesis
      using key phase(1) by (simp only: current_iff set_phase_simps) metis
  next
    case (Some p)
    then show ?thesis
      using key phase by (simp only: current_iff set_phase_simps) metis
  qed
  then show ?thesis
    using inv key phase by (simp add: idem_inv_def)
qed

lemma once_step_phase:
  assumes "i < length (iw_calls w)" "k = oc_key (iw_calls w ! i)" "s = iw_store w" "ph = oc_phase (iw_calls w ! i)"
  shows "ph = Waiting \<Longrightarrow> once_step opts i w =
      (case once_enter k s of None \<Rightarrow> set_phase i (Ended False) w | Some s' \<Rightarrow> set_phase i Testing (w\<lparr>iw_store := s'\<rparr>))"
    and "ph = Testing \<Longrightarrow> once_step opts i w =
      set_phase i (if snd (isCommitted opts k (iw_now w) s) then Leaving (Some False) else Running)
        (w\<lparr>iw_store := fst (isCommitted opts k (iw_now w) s)\<rparr>)"
    and "ph = Running \<Longrightarrow> once_step opts i w = set_phase i (Writing (iw_now w)) (w\<lparr>iw_effects := iw_effects w @ [(k, iw_now w)]\<rparr>)"
    and "ph = Writing t \<Longrightarrow> once_step opts i w = set_phase i (Finishing t) (w\<lparr>iw_store := once_put k t s\<rparr>)"
    and "ph = Finishing t \<Longrightarrow> once_step opts i w = set_phase i (Leaving (Some True)) (w\<lparr>iw_store := once_done opts k t s\<rparr>)"
    and "ph = Leaving r \<Longrightarrow> once_step opts i w =
      set_phase i (case r of Some b \<Rightarrow> Ended b | None \<Rightarrow> Thrown) (w\<lparr>iw_store := once_leave k s\<rparr>)"
    and "ph = Ended b \<Longrightarrow> once_step opts i w = w" "ph = Thrown \<Longrightarrow> once_step opts i w = w"
  using assms by (simp_all add: once_step_def Let_def case_prod_unfold not_le)

lemma once_step_inv:
  assumes inv: "idem_inv opts w"
  shows "idem_inv opts (once_step opts i w)"
proof (cases "i < length (iw_calls w)")
  case True
  define k where "k = oc_key (iw_calls w ! i)"
  define s where "s = iw_store w"
  define ret where "ret = io_retentionMs opts"
  note D = idem_invD [OF inv, folded s_def ret_def]
  note step = once_step_phase [OF True k_def s_def refl]
  note move = idem_inv_move [OF inv _ k_def, folded s_def ret_def]
  have may: "may_move w i" if "in_progress (oc_phase (iw_calls w ! i))"
    using True that by (simp add: may_move_def)
  have held: "k \<in> set (is_inflight s)" if "in_progress (oc_phase (iw_calls w ! i))"
    using D(1) [OF True that] by (simp add: k_def)
  have own: "key_ok ret (iw_now w) (Some (oc_phase (iw_calls w ! i))) (remembers s k) (effect_times w k)"
    if "in_progress (oc_phase (iw_calls w ! i))"
    using own_key [OF inv True that] by (simp add: k_def s_def ret_def)
  show ?thesis
  proof (cases "oc_phase (iw_calls w ! i)")
    case Waiting
    show ?thesis
    proof (cases "k \<in> set (is_inflight s)")
      case busy: True
      then show ?thesis
        using idle_move [OF inv True, of "Ended False"] step(1) Waiting by (simp add: once_enter_def)
    next
      case False
      have idle: "current w k None"
        using D(1) False by (auto simp: current_iff)
      have same: "remembers (s\<lparr>is_inflight := is_inflight s @ [k]\<rparr>) = remembers s"
        by (rule remembers_frame) simp_all
      have "idem_inv opts (set_phase i Testing (w\<lparr>iw_store := s\<lparr>is_inflight := is_inflight s @ [k]\<rparr>\<rparr>))"
        by (rule move) (use True idle D(3-5) D(6) [OF idle] in
            \<open>auto simp: may_move_def k_def [symmetric] same key_ok_idle\<close>)
      then show ?thesis
        using Waiting False step(1) by (simp add: once_enter_def)
    qed
  next
    case Testing
    then have prog: "in_progress (oc_phase (iw_calls w ! i))"
      by simp
    let ?c = "isCommitted opts k (iw_now w) s"
    have known: "remembers s j t \<Longrightarrow> t + ret < iw_now w \<or> remembers (fst ?c) j t" for j t
      using isCommitted_remembers(1) [where s = s and j = j and t = t and opts = opts and now = "iw_now w" and k = k] D(5) by (auto simp: ret_def)
    have absent: "\<not> snd ?c \<Longrightarrow> remembers s k t \<Longrightarrow> t + ret < iw_now w" for t
      using isCommitted_remembers(2) [where s = s and j = k and t = t and opts = opts and now = "iw_now w" and k = k] D(5) by (auto simp: ret_def)
    have "idem_inv opts (set_phase i (if snd ?c then Leaving (Some False) else Running) (w\<lparr>iw_store := fst ?c\<rparr>))"
    proof (rule move [OF may [OF prog]])
      show "key_ok ret (iw_now w) (if in_progress (if snd ?c then Leaving (Some False) else Running)
          then Some (if snd ?c then Leaving (Some False) else Running) else None) (remembers (fst ?c) k) (effect_times w k)"
      proof (cases "snd ?c")
        case True
        then show ?thesis
          using own [OF prog] known Testing by (auto simp: key_ok_idle)
      next
        case False
        then show ?thesis
          using own [OF prog] absent [OF False] Testing by (auto simp: key_ok_idle) (auto simp: key_ok_def)
      qed
    qed (use known held [OF prog] D(3-5) in \<open>auto simp: isCommitted_frame\<close>)
    then show ?thesis
      using step(2) Testing by simp
  next
    case Running
    then have prog: "in_progress (oc_phase (iw_calls w ! i))"
      by simp
    have "idem_inv opts (set_phase i (Writing (iw_now w)) (w\<lparr>iw_store := s, iw_effects := iw_effects w @ map (Pair k) [iw_now w]\<rparr>))"
    proof (rule idem_inv_step [OF inv may [OF prog] k_def])
      show "key_ok (io_retentionMs opts) (iw_now w) (if in_progress (Writing (iw_now w)) then Some (Writing (iw_now w)) else None)
          (remembers s k) (effect_times w k @ [iw_now w])"
        using own [OF prog] Running by (auto simp: key_ok_def sorted_wrt_append ret_def)
    qed (use held [OF prog] D(3-5) in \<open>auto simp: s_def [symmetric] ret_def\<close>)
    then show ?thesis
      using step(3) Running by (simp add: s_def)
  next
    case (Writing stamp)
    then have prog: "in_progress (oc_phase (iw_calls w ! i))"
      by simp
    have "idem_inv opts (set_phase i (Finishing stamp) (w\<lparr>iw_store := once_put k stamp s\<rparr>))"
    proof (rule move [OF may [OF prog]])
      show "key_ok ret (iw_now w) (if in_progress (Finishing stamp) then Some (Finishing stamp) else None)
          (remembers (once_put k stamp s) k) (effect_times w k)"
        using own [OF prog] Writing by (simp add: key_ok_def)
    next
      fix m
      assume "is_backing (once_put k stamp s) = Some m"
      then show "map_wf m \<and> map_all (\<lambda>k r. id_key r = k) m"
        using D(5) by (auto simp: once_put_def dm_put_def)
    qed (use held [OF prog] D(3-5) once_put_remembers in \<open>auto simp: once_put_def\<close>)
    then show ?thesis
      using step(4) Writing by simp
  next
    case (Finishing stamp)
    then have prog: "in_progress (oc_phase (iw_calls w ! i))"
      by simp
    have stamp: "stamp \<le> iw_now w" "\<And>t. t \<in> set (effect_times w k) \<Longrightarrow> t \<le> stamp"
      using own [OF prog] Finishing by (auto simp: key_ok_def)
    have "idem_inv opts (set_phase i (Leaving (Some True)) (w\<lparr>iw_store := once_done opts k stamp s\<rparr>))"
    proof (rule move [OF may [OF prog]])
      show "key_ok ret (iw_now w) (if in_progress (Leaving (Some True)) then Some (Leaving (Some True)) else None)
          (remembers (once_done opts k stamp s) k) (effect_times w k)"
        using own [OF prog] Finishing stamp once_done_remembers(2) [OF D(4) stamp(1), of _ opts k]
        by (auto simp: key_ok_idle ret_def) (auto simp: key_ok_def)
    next
      fix c
      assume "c \<in> set (is_prunes (once_done opts k stamp s))"
      then show "c \<le> iw_now w - ret"
        using once_done_frame(3) [of opts k stamp s] D(3) stamp(1) by (auto simp: ret_def)
    next
      fix j t
      assume "j \<noteq> k" "remembers s j t"
      then show "t + ret < iw_now w \<or> remembers (once_done opts k stamp s) j t"
        using once_done_remembers(1) [OF D(4) stamp(1)] by (simp add: ret_def)
    qed (use held [OF prog] D(4,5) in \<open>auto simp: once_done_frame\<close>)
    then show ?thesis
      using step(5) Finishing by simp
  next
    case (Leaving r)
    then have prog: "in_progress (oc_phase (iw_calls w ! i))"
      by simp
    have same: "remembers (once_leave k s) = remembers s"
      by (rule remembers_frame) (simp_all add: once_leave_def)
    have "idem_inv opts (set_phase i (case r of Some b \<Rightarrow> Ended b | None \<Rightarrow> Thrown) (w\<lparr>iw_store := once_leave k s\<rparr>))"
      by (rule move [OF may [OF prog]])
        (use D(3-5) own [OF prog] Leaving in \<open>auto simp: once_leave_def same [unfolded once_leave_def] key_ok_idle split: option.splits\<close>)
    then show ?thesis
      using step(6) Leaving by simp
  qed (simp_all add: step inv)
qed (simp add: once_step_def inv)


lemma once_fail_inv:
  assumes inv: "idem_inv opts w" and safe: "\<And>t. i < length (iw_calls w) \<Longrightarrow> oc_phase (iw_calls w ! i) \<noteq> Writing t"
  shows "idem_inv opts (once_fail i w)"
proof (cases "i < length (iw_calls w) \<and> oc_phase (iw_calls w ! i) \<in> {Testing, Running}")
  case True
  then have i: "i < length (iw_calls w)" and prog: "in_progress (oc_phase (iw_calls w ! i))"
    by auto
  note D = idem_invD [OF inv]
  have "idem_inv opts (set_phase i (Leaving None) (w\<lparr>iw_store := iw_store w\<rparr>))"
    by (rule idem_inv_move [OF inv _ refl])
      (use True i D(1,3-5) own_key [OF inv i prog] in \<open>auto simp: may_move_def key_ok_idle, auto simp: key_ok_def\<close>)
  then show ?thesis
    using True by (auto simp: once_fail_def)
next
  case False
  then have "once_fail i w = w"
    using safe by (auto simp: once_fail_def split: once_phase.split)
  then show ?thesis
    using inv by simp
qed

lemma run_prune_inv:
  assumes inv: "idem_inv opts w"
  shows "idem_inv opts (w\<lparr>iw_store := run_prune (iw_store w)\<rparr>)"
proof (cases "is_prunes (iw_store w) = [] \<or> is_backing (iw_store w) = None")
  case False
  then obtain c rest m where c: "is_prunes (iw_store w) = c # rest" and m: "is_backing (iw_store w) = Some m"
    by (cases "is_prunes (iw_store w)") auto
  note D = idem_invD [OF inv]
  have wf: "map_wf m" "map_all (\<lambda>k r. id_key r = k) m"
    using D(5) [OF m] by auto
  note get = prune_backing_get [OF wf, of c]
  have run: "run_prune (iw_store w) = (iw_store w)\<lparr>is_prunes := rest, is_backing := Some (prune_backing c m)\<rparr>"
    by (simp add: run_prune_def c m)
  have kept: "map_all (\<lambda>k r. id_key r = k) (prune_backing c m)"
    using wf by (auto simp: map_all_def get split: option.splits if_splits)
  have kept': "map_wf (prune_backing c m)"
    using wf by (simp add: prune_backing_def fold_prune_wf)
  have old: "c \<le> iw_now w - io_retentionMs opts"
    using D(3) [of c] c by simp
  have known: "remembers (iw_store w) k t \<Longrightarrow>
      t + io_retentionMs opts < iw_now w \<or> remembers (run_prune (iw_store w)) k t" for k t
  proof -
    assume "remembers (iw_store w) k t"
    then consider u where "map_get (is_done (iw_store w)) k = Some u" "t \<le> u"
      | r where "map_get m k = Some r" "t \<le> id_at r"
      by (auto simp: remembers_def m dm_get_def)
    then show ?thesis
    proof cases
      case 1
      then show ?thesis
        by (simp add: remembers_def run)
    next
      case (2 r)
      then show ?thesis
        using old get [of k] by (cases "id_at r < c") (simp_all add: remembers_def run dm_get_def)
    qed
  qed
  have "key_ok (io_retentionMs opts) (iw_now w) ph (remembers (run_prune (iw_store w)) k) (effect_times w k)"
    if "current w k ph" for k ph
    by (rule key_ok_weaken [OF D(6) [OF that] order_refl known])
  then show ?thesis
    using inv kept kept' c by (simp add: idem_inv_def effect_times_def run)
qed (use inv in \<open>auto simp: run_prune_def split: list.split\<close>)

lemma tick_inv:
  assumes inv: "idem_inv opts w"
  shows "idem_inv opts (w\<lparr>iw_now := iw_now w + max 0 d\<rparr>)"
proof -
  let ?w = "w\<lparr>iw_now := iw_now w + max 0 d\<rparr>"
  have "key_ok (io_retentionMs opts) (iw_now ?w) ph (remembers (iw_store w) k) (effect_times w k)" if "current w k ph" for k ph
    by (rule key_ok_weaken [OF idem_invD(6) [OF inv that]]) auto
  moreover have "current ?w k ph = current w k ph" for k ph
    by (simp add: current_def split: option.split)
  ultimately show ?thesis
    using inv by (fastforce simp: idem_inv_def effect_times_def)
qed

lemma call_inv:
  assumes inv: "idem_inv opts w"
  shows "idem_inv opts (w\<lparr>iw_calls := iw_calls w @ [\<lparr>oc_key = k, oc_phase = Waiting\<rparr>]\<rparr>)"
proof -
  let ?w = "w\<lparr>iw_calls := iw_calls w @ [\<lparr>oc_key = k, oc_phase = Waiting\<rparr>]\<rparr>"
  have nth: "iw_calls ?w ! i = (if i < length (iw_calls w) then iw_calls w ! i else \<lparr>oc_key = k, oc_phase = Waiting\<rparr>)"
    if "i < length (iw_calls ?w)" for i
    using that by (auto simp: nth_append less_Suc_eq)
  have old: "i < length (iw_calls w)" if "i < length (iw_calls ?w)" "in_progress (oc_phase (iw_calls ?w ! i))" for i
    using that nth [OF that(1)] by (auto split: if_splits)
  have shorter: "i < length (iw_calls ?w)" "iw_calls ?w ! i = iw_calls w ! i" if "i < length (iw_calls w)" for i
    using that by (simp_all add: nth_append)
  have "current ?w j q \<Longrightarrow> current w j q" for j q
  proof (cases q)
    case None
    assume "current ?w j q"
    then show ?thesis
      using shorter unfolding None current_iff by metis
  next
    case (Some p)
    assume "current ?w j q"
    then obtain i where "in_progress p" "i < length (iw_calls ?w)" "oc_key (iw_calls ?w ! i) = j" "oc_phase (iw_calls ?w ! i) = p"
      unfolding Some current_iff by blast
    then show ?thesis
      using old [of i] shorter [of i] unfolding Some current_iff by auto
  qed
  moreover have "effect_times ?w = effect_times w"
    by (simp add: effect_times_def fun_eq_iff)
  ultimately have keys: "current ?w j q \<Longrightarrow> key_ok (io_retentionMs opts) (iw_now w) q (remembers (iw_store w) j) (effect_times ?w j)" for j q
    using idem_invD(6) [OF inv] by simp
  have "oc_key (iw_calls ?w ! i) \<in> set (is_inflight (iw_store w))" if "i < length (iw_calls ?w)" "in_progress (oc_phase (iw_calls ?w ! i))" for i
    using idem_invD(1) [OF inv old [OF that]] that nth [OF that(1)] old [OF that] by simp
  moreover have "i = j" if "i < length (iw_calls ?w)" "j < length (iw_calls ?w)" "in_progress (oc_phase (iw_calls ?w ! i))"
      "in_progress (oc_phase (iw_calls ?w ! j))" "oc_key (iw_calls ?w ! i) = oc_key (iw_calls ?w ! j)" for i j
    using idem_invD(2) [OF inv old [OF that(1,3)] old [OF that(2,4)]] that nth [OF that(1)] nth [OF that(2)]
      old [OF that(1,3)] old [OF that(2,4)] by simp
  ultimately show ?thesis
    unfolding idem_inv_def using idem_invD(3-5) [OF inv] keys by auto
qed

lemma idem_run_inv:
  "idem_inv opts w \<Longrightarrow> no_lost_write opts steps w \<Longrightarrow> idem_inv opts (idem_run opts steps w)"
proof (induction steps arbitrary: w)
  case (Cons st steps)
  have "idem_inv opts (idem_apply opts st w)"
  proof (cases st)
    case (Fail i)
    then show ?thesis
      using Cons.prems once_fail_inv [of opts w i] by (auto split: once_phase.splits)
  qed (use Cons.prems once_step_inv tick_inv run_prune_inv call_inv in simp_all)
  then show ?case
    using Cons.IH Cons.prems(2) by (simp add: idem_run_def)
qed (simp add: idem_run_def)

definition keyed_backing :: "(string, idem_record) jsmap option \<Rightarrow> bool" where
  "keyed_backing b = (case b of None \<Rightarrow> True | Some m \<Rightarrow> map_wf m \<and> map_all (\<lambda>k r. id_key r = k) m)"


text \<open>Two interleaved calls and a late one: the effect happens twice, far apart.\<close>

definition demo_idem_steps :: "idem_step list" where
  "demo_idem_steps =
     [Call ''k'', Call ''k'', Advance 0, Advance 1, Advance 0, Advance 0, Advance 0, Advance 0, Advance 0, Tick 20,
      Call ''k'', Advance 2, Advance 2, Advance 2, Advance 2, Advance 2, Advance 2]"


end
