(* ===== verification/Cron_Schedule.thy ===== *)
theory Cron_Schedule
  imports Core_Types
begin

text \<open>
  Schedules: \<open>cron/schedule.ts\<close>. The time zone data base and the calendar library are the parameters of
  \<open>calendar_env\<close>; the next run of an expression may throw (an expression the library rejects).
\<close>

record cron_schedule =
  cs_cron :: "string option"
  cs_timezone :: "string option"
  cs_everyMs :: "ms option"
  cs_firstFireAt :: "ms option"

record normalized_schedule =
  ns_schedule :: cron_schedule
  ns_nextFireAt :: "ms option"

record calendar_env =
  ce_timezone_ok :: "string \<Rightarrow> bool"
  ce_nextRun :: "string \<Rightarrow> string \<Rightarrow> ms \<Rightarrow> ms option outcome"

definition DEFAULT_CRON_TIMEZONE :: string where
  "DEFAULT_CRON_TIMEZONE = ''America/Los_Angeles''"

definition DAY_MS :: ms where
  "DAY_MS = 24 * 60 * 60 * 1000"

definition MIN_RECURRING_CRON_MS :: ms where
  "MIN_RECURRING_CRON_MS = 60000"

definition isSafeInteger :: "int \<Rightarrow> bool" where
  "isSafeInteger n \<longleftrightarrow> \<bar>n\<bar> \<le> 2 ^ 53 - 1"

definition isCalendarSchedule :: "cron_schedule \<Rightarrow> bool" where
  "isCalendarSchedule s \<longleftrightarrow> cs_cron s \<noteq> None"

definition finiteEpochMs :: "ms option \<Rightarrow> string \<Rightarrow> ms option outcome" where
  "finiteEpochMs v name =
     (case v of
        None \<Rightarrow> Inr None
      | Some n \<Rightarrow> if isSafeInteger n then Inr (Some n) else Inl (Error (name @ '' must be a finite integer timestamp in ms'')))"

definition finitePositiveMs :: "ms option \<Rightarrow> string \<Rightarrow> ms option outcome" where
  "finitePositiveMs v name =
     (case v of
        None \<Rightarrow> Inr None
      | Some n \<Rightarrow> if isSafeInteger n \<and> n > 0 then Inr (Some n) else Inl (Error (name @ '' must be a positive integer number of ms'')))"

definition normalizeTimezone :: "calendar_env \<Rightarrow> string option \<Rightarrow> string \<Rightarrow> string outcome" where
  "normalizeTimezone env inp fallback =
     (let t = (case inp of None \<Rightarrow> [] | Some i \<Rightarrow> js_trim i);
          tz = js_trim (if t \<noteq> [] then t else fallback)
      in if ce_timezone_ok env tz then Inr tz else Inl (Error (''invalid IANA timezone: '' @ tz)))"

definition normalizeCronExpression :: "string \<Rightarrow> string outcome" where
  "normalizeCronExpression inp =
     (let cron = js_collapse_ws False (js_trim inp)
      in if length (js_split cron CHR '' '') \<noteq> 5 then Inl (Error ''schedule.cron must be a 5-field cron expression'') else Inr cron)"

definition nextCalendarFireAfter :: "calendar_env \<Rightarrow> cron_schedule \<Rightarrow> ms \<Rightarrow> ms option outcome" where
  "nextCalendarFireAfter env s after =
     (if \<not> truthy (cs_cron s) then Inl (Error ''schedule.cron is required'')
      else obind (normalizeTimezone env (cs_timezone s) DEFAULT_CRON_TIMEZONE)
             (\<lambda>tz. ce_nextRun env (the (cs_cron s)) tz after))"

definition calendar_normalized :: "calendar_env \<Rightarrow> cron_schedule \<Rightarrow> ms \<Rightarrow> string \<Rightarrow> normalized_schedule outcome" where
  "calendar_normalized env inp now defaultTimezone =
     (if js_trim (the (cs_cron inp)) = [] then Inl (Error ''schedule.cron must be a non-empty string'')
      else if cs_everyMs inp \<noteq> None \<or> cs_firstFireAt inp \<noteq> None
        then Inl (Error ''schedule.cron cannot be combined with everyMs or firstFireAt'')
      else obind (normalizeCronExpression (the (cs_cron inp))) (\<lambda>cron.
        obind (normalizeTimezone env (cs_timezone inp) defaultTimezone) (\<lambda>tz.
          let schedule = \<lparr>cs_cron = Some cron, cs_timezone = Some tz, cs_everyMs = None, cs_firstFireAt = None\<rparr> in
          obind (nextCalendarFireAfter env schedule now) (\<lambda>nx.
            case nx of
              None \<Rightarrow> Inl (Error ''schedule.cron has no future fire time'')
            | Some t \<Rightarrow> Inr \<lparr>ns_schedule = schedule, ns_nextFireAt = Some t\<rparr>))))"

text \<open>The em dash U+2014 lies outside the modelled code units and is written as 0x97.\<close>

definition day_interval_error :: js_error where
  "day_interval_error = Error (''schedule.everyMs >= 24h is almost always a clock-time schedule in disguise '' @ [CHR 0x97] @
     '' it anchors to an arbitrary epoch, has no timezone, and drifts with DST. Use {cron,timezone} for daily/weekly/monthly '' @
     ''runs (e.g. { cron: '' @ [CHR 0x22] @ ''30 7 * * 1-5'' @ [CHR 0x22] @ '', timezone: '' @ [CHR 0x22] @
     ''America/Los_Angeles'' @ [CHR 0x22] @ '' }). Reserve everyMs for genuine sub-day polling where wall-clock time does not matter.'')"

definition normalizeSchedule :: "calendar_env \<Rightarrow> cron_schedule \<Rightarrow> ms \<Rightarrow> string \<Rightarrow> normalized_schedule outcome" where
  "normalizeSchedule env inp now defaultTimezone =
     (if cs_cron inp \<noteq> None then calendar_normalized env inp now defaultTimezone
      else if cs_timezone inp \<noteq> None then Inl (Error ''schedule.timezone requires schedule.cron'')
      else if (case cs_everyMs inp of None \<Rightarrow> False | Some e \<Rightarrow> e \<ge> DAY_MS) then Inl day_interval_error
      else obind (finitePositiveMs (cs_everyMs inp) ''schedule.everyMs'') (\<lambda>everyMs.
        obind (finiteEpochMs (cs_firstFireAt inp) ''schedule.firstFireAt'') (\<lambda>f.
          let first = (case f of Some t \<Rightarrow> t | None \<Rightarrow> (case everyMs of Some e \<Rightarrow> now + e | None \<Rightarrow> now)) in
          Inr \<lparr>ns_schedule = \<lparr>cs_cron = None, cs_timezone = None, cs_everyMs = everyMs, cs_firstFireAt = Some first\<rparr>,
               ns_nextFireAt = Some first\<rparr>)))"

definition validateUserSchedule :: "cron_schedule \<Rightarrow> unit outcome" where
  "validateUserSchedule s =
     (case cs_everyMs s of
        None \<Rightarrow> Inr ()
      | Some e \<Rightarrow> if e < MIN_RECURRING_CRON_MS then Inl (Error ''schedule.everyMs must be at least 60000ms'') else Inr ())"

definition recoverNextFireAt ::
  "calendar_env \<Rightarrow> cron_schedule \<Rightarrow> ms \<Rightarrow> ms option \<Rightarrow> ms option \<Rightarrow> ms option outcome" where
  "recoverNextFireAt env s createdAt lastFiredAt nextFireAt =
     (if nextFireAt \<noteq> None then finiteEpochMs nextFireAt ''nextFireAt''
      else if isCalendarSchedule s
        then nextCalendarFireAfter env s (case lastFiredAt of Some t \<Rightarrow> t | None \<Rightarrow> createdAt)
      else (case lastFiredAt of
              None \<Rightarrow> obind (finiteEpochMs (cs_firstFireAt s) ''schedule.firstFireAt'')
                        (\<lambda>f. Inr (Some (case f of Some t \<Rightarrow> t | None \<Rightarrow> createdAt)))
            | Some t \<Rightarrow> obind (finitePositiveMs (cs_everyMs s) ''schedule.everyMs'')
                          (\<lambda>e. Inr (map_option (\<lambda>d. t + d) e))))"

definition advanceNextFireAt :: "calendar_env \<Rightarrow> cron_schedule \<Rightarrow> ms \<Rightarrow> ms option outcome" where
  "advanceNextFireAt env s firedAt =
     (if isCalendarSchedule s then nextCalendarFireAfter env s firedAt
      else obind (finitePositiveMs (cs_everyMs s) ''schedule.everyMs'') (\<lambda>e. Inr (map_option (\<lambda>d. firedAt + d) e)))"

section \<open>Properties of schedules\<close>

text \<open>What the calendar library documents: the next run is after the given time.\<close>

definition runs_after :: "calendar_env \<Rightarrow> bool" where
  "runs_after env \<longleftrightarrow> (\<forall>cron tz after t. ce_nextRun env cron tz after = Inr (Some t) \<longrightarrow> after < t)"

lemma nextCalendar_after:
  "runs_after env \<Longrightarrow> nextCalendarFireAfter env s after = Inr (Some t) \<Longrightarrow> after < t"
  by (auto simp: nextCalendarFireAfter_def obind_Inr_iff runs_after_def split: if_splits)

lemma advance_after:
  "runs_after env \<Longrightarrow> advanceNextFireAt env s firedAt = Inr (Some t) \<Longrightarrow> firedAt < t"
  by (auto simp: advanceNextFireAt_def obind_Inr_iff finitePositiveMs_def nextCalendar_after split: if_splits option.splits)

lemma recover_next: "recoverNextFireAt env s c l (Some n) = Inr (Some m) \<Longrightarrow> m = n"
  by (auto simp: recoverNextFireAt_def finiteEpochMs_def split: if_splits)

lemma normalized_recovers:
  assumes "normalizeSchedule env inp now tz = Inr n"
  shows "\<exists>t. ns_nextFireAt n = Some t \<and> (isSafeInteger t \<longrightarrow> recoverNextFireAt env (ns_schedule n) now None (ns_nextFireAt n) = Inr (Some t))"
  using assms
  by (auto simp: normalizeSchedule_def calendar_normalized_def obind_Inr_iff recoverNextFireAt_def finiteEpochMs_def Let_def
      split: if_splits option.splits)

end
