(* ===== verification/Triggers.thy ===== *)
theory Triggers
  imports Durable_Map
begin

text \<open>
  What crons, webhooks and monitors share: \<open>triggers/trigger-store.ts\<close>. The content hash that names a trigger
  is an argument of \<open>createDeduped\<close>.
\<close>

text \<open>One entry of a posted task list and its status.\<close>

datatype task_status = TaskPending | TaskInProgress | TaskCompleted | TaskSkipped | TaskFailed

record posted_task =
  pt_id :: string
  pt_title :: string
  pt_status :: task_status

text \<open>\<open>de_react\<close> is a message time stamp with an emoji, \<open>de_delete\<close> the time stamp of a message.\<close>

record destination =
  de_type :: string
  de_target :: string
  de_audienceScopeId :: "scope_id option"
  de_onBehalfOf :: "string option"
  de_editRef :: "string option"
  de_taskList :: "posted_task list option"
  de_unfurlLinks :: "bool option"
  de_react :: "(string \<times> string) option"
  de_delete :: "string option"
  de_identity :: "string option"
  de_debugFooter :: "string option"

datatype consent_status = ConsentPending | ConsentAccepted | ConsentDeclined

record recipient_consent =
  rc_recipientId :: string
  rc_status :: consent_status
  rc_decidedAt :: "ms option"

record trigger_base =
  tb_id :: string
  tb_ownerScopeId :: scope_id
  tb_owner :: string
  tb_createdBy :: string
  tb_ownerConsentedAt :: "ms option"
  tb_destination :: "destination option"
  tb_enabled :: bool
  tb_createdAt :: ms
  tb_lastFiredAt :: "ms option"
  tb_recipientConsent :: "recipient_consent option"

datatype run_as = RunAsOwner | RunAsScopeFloor | RunAsScopeShared

record create_trigger =
  ct_ownerScopeId :: scope_id
  ct_owner :: string
  ct_createdBy :: string
  ct_destination :: "destination option"
  ct_ownerConsentedAt :: "ms option"
  ct_recipientConsent :: "recipient_consent option"

definition consentRequiredRecipient :: "string \<Rightarrow> bool \<Rightarrow> destination option \<Rightarrow> string option" where
  "consentRequiredRecipient owner standing dest =
     (if \<not> standing then None
      else (case dest of
              None \<Rightarrow> None
            | Some d \<Rightarrow> if de_type d = ''principal'' \<and> \<not> samePerson (Some (de_target d)) (Some owner) then Some (de_target d) else None))"

definition recipientConsentSatisfied :: "recipient_consent option \<Rightarrow> string option \<Rightarrow> bool" where
  "recipientConsentSatisfied consent required =
     (if \<not> truthy required then (case consent of None \<Rightarrow> True | Some c \<Rightarrow> rc_status c = ConsentAccepted)
      else (case consent of
              None \<Rightarrow> False
            | Some c \<Rightarrow> rc_status c = ConsentAccepted \<and> samePerson (Some (rc_recipientId c)) required))"

datatype consent_refusal = NoConsent | NotRecipient

definition decideRecipientConsent ::
  "recipient_consent option \<Rightarrow> string \<Rightarrow> bool \<Rightarrow> ms \<Rightarrow> consent_refusal + recipient_consent" where
  "decideRecipientConsent current actorId accept now =
     (case current of
        None \<Rightarrow> Inl NoConsent
      | Some c \<Rightarrow>
          if \<not> samePerson (Some (rc_recipientId c)) (Some actorId) then Inl NotRecipient
          else Inr (c\<lparr>rc_status := (if accept then ConsentAccepted else ConsentDeclined), rc_decidedAt := Some now\<rparr>))"

definition createDeduped :: "(string, 'v) jsmap \<Rightarrow> string \<Rightarrow> (string \<Rightarrow> 'v) \<Rightarrow> (string, 'v) jsmap \<times> 'v" where
  "createDeduped backing contentId build = dm_putIfAbsent contentId (build contentId) backing"

text \<open>A time stamp of zero counts as absent.\<close>

definition truthy_ms :: "ms option \<Rightarrow> bool" where
  "truthy_ms t \<longleftrightarrow> t \<noteq> None \<and> t \<noteq> Some 0"

definition assertNoEscalation :: "create_trigger \<Rightarrow> unit outcome" where
  "assertNoEscalation inp =
     (if \<not> samePerson (Some (ct_owner inp)) (Some (ct_createdBy inp)) \<and> \<not> truthy_ms (ct_ownerConsentedAt inp)
      then Inl (Error ''assigning a different owner requires that owner's consent'') else Inr ())"

definition buildTriggerBase :: "create_trigger \<Rightarrow> string \<Rightarrow> ms \<Rightarrow> trigger_base" where
  "buildTriggerBase inp i createdAt =
     \<lparr>tb_id = i, tb_ownerScopeId = ct_ownerScopeId inp, tb_owner = ct_owner inp, tb_createdBy = ct_createdBy inp,
      tb_ownerConsentedAt = (if truthy_ms (ct_ownerConsentedAt inp) then ct_ownerConsentedAt inp else None),
      tb_destination = ct_destination inp, tb_enabled = True, tb_createdAt = createdAt, tb_lastFiredAt = None,
      tb_recipientConsent = ct_recipientConsent inp\<rparr>"

definition setTriggerEnabled :: "string \<Rightarrow> bool \<Rightarrow> (string, 'z trigger_base_scheme) jsmap \<Rightarrow> (string, 'z trigger_base_scheme) jsmap" where
  "setTriggerEnabled i b m = fst (dm_merge i (\<lambda>t. t\<lparr>tb_enabled := b\<rparr>) m)"

definition setTriggerRecipientConsent ::
  "string \<Rightarrow> recipient_consent \<Rightarrow> (string, 'z trigger_base_scheme) jsmap \<Rightarrow> (string, 'z trigger_base_scheme) jsmap" where
  "setTriggerRecipientConsent i c m = fst (dm_merge i (\<lambda>t. t\<lparr>tb_recipientConsent := Some c\<rparr>) m)"

section \<open>Consent\<close>

lemma consent_decided:
  "recipientConsentSatisfied consent (consentRequiredRecipient owner standing dest) \<Longrightarrow>
     consentRequiredRecipient owner standing dest = Some r \<Longrightarrow>
     r = [] \<or> (\<exists>c. consent = Some c \<and> rc_status c = ConsentAccepted \<and> samePerson (Some (rc_recipientId c)) (Some r))"
  by (auto simp: recipientConsentSatisfied_def truthy_def split: option.splits if_splits)

end
