(* ===== verification/Cron_Store.thy ===== *)
theory Cron_Store
  imports Cron_Schedule Triggers
begin

text \<open>
  The cron store (\<open>cron/cron-store.ts\<close>) over the durable map, whose \<open>update\<close> is present, and the claim of a
  slot by the scheduler (\<open>cron/scheduler.ts\<close>). \<open>Date.now()\<close> is an argument; the turn a fire runs is a
  parameter with the three outcomes the scheduler tells apart.
\<close>

section \<open>Data\<close>

record cron_fire =
  cf_fireKey :: string
  cf_threadRef :: string
  cf_firedAt :: ms
  cf_scheduledAt :: "ms option"
  cf_status :: "turn_status option"
  cf_note :: "string option"
  cf_reply :: "string option"
  cf_sessionId :: "string option"

record cron = trigger_base +
  co_schedule :: cron_schedule
  co_nextFireAt :: "ms option"
  co_title :: "string option"
  co_archived :: bool
  co_action :: "string option"
  co_message :: "string option"
  co_runAs :: "run_as option"
  co_members :: "principal list option"
  co_fireLog :: "cron_fire list option"

record create_cron = create_trigger +
  cc_schedule :: cron_schedule
  cc_title :: "string option"
  cc_action :: "string option"
  cc_message :: "string option"
  cc_runAs :: "run_as option"
  cc_members :: "principal list option"

record cron_patch =
  cp_title :: "string option"
  cp_action :: "string option"
  cp_message :: "string option"
  cp_schedule :: "cron_schedule option"
  cp_enabled :: "bool option"
  cp_archived :: "bool option"
  cp_destination :: "destination option"
  cp_members :: "principal list option"
  cp_runAs :: "run_as option"

type_synonym cron_store = "(string, cron) jsmap"

section \<open>Operations\<close>

definition normalizeTitle :: "string option \<Rightarrow> string option" where
  "normalizeTitle title =
     (let trimmed = (case title of None \<Rightarrow> [] | Some t \<Rightarrow> js_collapse_ws False (js_trim t)) in
      if trimmed = [] then None
      else Some (if length trimmed > 80 then take 79 trimmed @ ''...'' else trimmed))"

definition cron_of :: "create_cron \<Rightarrow> normalized_schedule \<Rightarrow> string option \<Rightarrow> ms \<Rightarrow> string \<Rightarrow> cron" where
  "cron_of inp n title now i =
     trigger_base.extend (buildTriggerBase (create_trigger.truncate inp) i now)
       (cron.fields (ns_schedule n) (ns_nextFireAt n) title False (cc_action inp) (cc_message inp) (cc_runAs inp) (cc_members inp) None)"

text \<open>\<open>content\<close> is the hash of the content parts of the input and the normalized title.\<close>

definition cron_create ::
  "calendar_env \<Rightarrow> (create_cron \<Rightarrow> string option \<Rightarrow> string) \<Rightarrow> create_cron \<Rightarrow> ms \<Rightarrow> cron_store \<Rightarrow> (cron_store \<times> cron) outcome" where
  "cron_create env content inp now st =
     obind (assertNoEscalation (create_trigger.truncate inp)) (\<lambda>u.
       let title = normalizeTitle (cc_title inp) in
       obind (normalizeSchedule env (cc_schedule inp) now DEFAULT_CRON_TIMEZONE) (\<lambda>n.
         Inr (createDeduped st (content inp title) (cron_of inp n title now))))"

definition cron_get :: "string \<Rightarrow> cron_store \<Rightarrow> cron option" where
  "cron_get i st = dm_get i st"

definition cron_list :: "cron_store \<Rightarrow> cron list" where
  "cron_list st = dm_all st"

definition patched :: "'v option \<Rightarrow> ('v \<Rightarrow> 'c \<Rightarrow> 'c) \<Rightarrow> 'c \<Rightarrow> 'c" where
  "patched v f c = (case v of None \<Rightarrow> c | Some x \<Rightarrow> f x c)"

definition cron_update :: "calendar_env \<Rightarrow> string \<Rightarrow> cron_patch \<Rightarrow> ms \<Rightarrow> cron_store \<Rightarrow> (cron_store \<times> cron option) outcome" where
  "cron_update env i p now st =
     obind (case cp_schedule p of
              None \<Rightarrow> Inr None
            | Some s \<Rightarrow> obind (normalizeSchedule env s now DEFAULT_CRON_TIMEZONE) (\<lambda>n. Inr (Some n))) (\<lambda>norm.
       Inr (dm_merge i (\<lambda>c.
         patched (cp_runAs p) (\<lambda>x. co_runAs_update (\<lambda>u. Some x))
         (patched (cp_members p) (\<lambda>x. co_members_update (\<lambda>u. Some x))
         ((if cp_archived p = Some True then tb_enabled_update (\<lambda>u. False) else id)
         (patched (cp_destination p) (\<lambda>x. tb_destination_update (\<lambda>u. Some x))
         (patched (cp_archived p) (\<lambda>x. co_archived_update (\<lambda>u. x))
         (patched (cp_enabled p) (\<lambda>x. tb_enabled_update (\<lambda>u. x))
         (patched norm (\<lambda>n x. x\<lparr>co_schedule := ns_schedule n, co_nextFireAt := ns_nextFireAt n\<rparr>)
         (patched (cp_message p) (\<lambda>x. co_message_update (\<lambda>u. Some x))
         (patched (cp_action p) (\<lambda>x. co_action_update (\<lambda>u. Some x))
         (patched (cp_title p) (\<lambda>x. co_title_update (\<lambda>u. normalizeTitle (Some x))) c)))))))))) st))"

definition cron_delete :: "string \<Rightarrow> cron_store \<Rightarrow> cron_store" where
  "cron_delete i st = dm_delete i st"

definition cron_setEnabled :: "string \<Rightarrow> bool \<Rightarrow> cron_store \<Rightarrow> cron_store" where
  "cron_setEnabled i b st =
     fst (dm_merge i (\<lambda>c. if b then c\<lparr>tb_enabled := True, co_archived := False\<rparr> else c\<lparr>tb_enabled := False\<rparr>) st)"

definition cron_setDestination :: "string \<Rightarrow> destination option \<Rightarrow> cron_store \<Rightarrow> cron_store" where
  "cron_setDestination i d st = fst (dm_merge i (\<lambda>c. c\<lparr>tb_destination := d\<rparr>) st)"

definition cron_setRecipientConsent :: "string \<Rightarrow> recipient_consent \<Rightarrow> cron_store \<Rightarrow> cron_store" where
  "cron_setRecipientConsent i c st = setTriggerRecipientConsent i c st"

definition newer :: "'a option \<Rightarrow> 'a option \<Rightarrow> 'a option" where
  "newer old new = (case new of None \<Rightarrow> old | Some x \<Rightarrow> Some x)"

definition merge_fire :: "cron_fire option \<Rightarrow> cron_fire \<Rightarrow> cron_fire" where
  "merge_fire old e =
     (case old of
        None \<Rightarrow> e
      | Some o' \<Rightarrow>
          e\<lparr>cf_scheduledAt := newer (cf_scheduledAt o') (cf_scheduledAt e), cf_status := newer (cf_status o') (cf_status e),
            cf_note := newer (cf_note o') (cf_note e), cf_reply := newer (cf_reply o') (cf_reply e),
            cf_sessionId := newer (cf_sessionId o') (cf_sessionId e)\<rparr>)"

definition add_fire :: "cron_fire \<Rightarrow> cron \<Rightarrow> cron" where
  "add_fire e c =
     (let byKey = fold (\<lambda>x m. map_set (cf_fireKey x) x m) (case co_fireLog c of None \<Rightarrow> [] | Some es \<Rightarrow> es) [];
          merged = map_set (cf_fireKey e) (merge_fire (map_get byKey (cf_fireKey e)) e) byKey
      in c\<lparr>co_fireLog := Some (js_sort (\<lambda>a b. cf_firedAt a - cf_firedAt b) (map_values merged))\<rparr>)"

definition recordFire :: "string \<Rightarrow> cron_fire \<Rightarrow> cron_store \<Rightarrow> cron_store" where
  "recordFire i e st = fst (dm_update i (add_fire e) st)"

definition markFired :: "calendar_env \<Rightarrow> string \<Rightarrow> ms \<Rightarrow> ms option \<Rightarrow> cron_store \<Rightarrow> cron_store outcome" where
  "markFired env i stamp scheduledAt st =
     (case dm_get i st of
        None \<Rightarrow> Inr st
      | Some c \<Rightarrow>
          obind (advanceNextFireAt env (co_schedule c)
                   (if isCalendarSchedule (co_schedule c) then (case scheduledAt of Some t \<Rightarrow> t | None \<Rightarrow> stamp) else stamp))
            (\<lambda>nx. Inr (fst (dm_merge i (\<lambda>c. c\<lparr>tb_lastFiredAt := Some stamp, co_nextFireAt := nx\<rparr>) st))))"

definition cron_next_slot :: "calendar_env \<Rightarrow> cron \<Rightarrow> ms option outcome" where
  "cron_next_slot env c = recoverNextFireAt env (co_schedule c) (tb_createdAt c) (tb_lastFiredAt c) (co_nextFireAt c)"

definition claim_cron :: "calendar_env \<Rightarrow> ms \<Rightarrow> ms \<Rightarrow> cron \<Rightarrow> (cron \<times> bool) outcome" where
  "claim_cron env scheduledAt stamp c =
     (if co_archived c \<or> \<not> tb_enabled c then Inr (c, False)
      else obind (cron_next_slot env c) (\<lambda>slot.
        if slot \<noteq> Some scheduledAt then Inr (c, False)
        else obind (advanceNextFireAt env (co_schedule c) (if isCalendarSchedule (co_schedule c) then scheduledAt else stamp))
               (\<lambda>nx. Inr (c\<lparr>tb_lastFiredAt := Some stamp, co_nextFireAt := nx\<rparr>, True))))"

definition claimSlot :: "calendar_env \<Rightarrow> string \<Rightarrow> ms \<Rightarrow> ms \<Rightarrow> cron_store \<Rightarrow> (cron_store \<times> bool) outcome" where
  "claimSlot env i scheduledAt stamp st =
     (case dm_get i st of
        None \<Rightarrow> Inr (st, False)
      | Some c \<Rightarrow> obind (claim_cron env scheduledAt stamp c) (\<lambda>(c', b). Inr (fst (dm_update i (\<lambda>u. c') st), b)))"

definition unclaim_cron :: "ms \<Rightarrow> ms \<Rightarrow> ms option \<Rightarrow> cron \<Rightarrow> cron" where
  "unclaim_cron scheduledAt stamp prior c =
     (if tb_lastFiredAt c \<noteq> Some stamp then c else c\<lparr>tb_lastFiredAt := prior, co_nextFireAt := Some scheduledAt\<rparr>)"

definition unclaimSlot :: "string \<Rightarrow> ms \<Rightarrow> ms \<Rightarrow> ms option \<Rightarrow> cron_store \<Rightarrow> cron_store" where
  "unclaimSlot i scheduledAt stamp prior st = fst (dm_update i (unclaim_cron scheduledAt stamp prior) st)"

fun due_crons :: "calendar_env \<Rightarrow> ms \<Rightarrow> cron list \<Rightarrow> (cron \<times> ms) list outcome" where
  "due_crons env now [] = Inr []"
| "due_crons env now (c # cs) =
     (if co_archived c \<or> \<not> tb_enabled c then due_crons env now cs
      else obind (cron_next_slot env c) (\<lambda>slot.
        obind (due_crons env now cs) (\<lambda>rest.
          Inr ((case slot of
                  Some t \<Rightarrow> if now \<ge> t then [(c\<lparr>co_nextFireAt := Some t\<rparr>, t)] else []
                | None \<Rightarrow> []) @ rest))))"

definition cron_due :: "calendar_env \<Rightarrow> ms \<Rightarrow> cron_store \<Rightarrow> (cron \<times> ms) list outcome" where
  "cron_due env now st = due_crons env now (dm_all st)"


section \<open>A slot is claimed once\<close>

text \<open>What may happen to one cron between its creation and its next edit of the schedule.\<close>

datatype cron_op =
    OpClaim ms ms
  | OpRecord cron_fire
  | OpEnable bool
  | OpDestination "destination option"
  | OpConsent recipient_consent

fun cron_apply :: "calendar_env \<Rightarrow> string \<Rightarrow> cron_op \<Rightarrow> cron_store \<Rightarrow> cron_store" where
  "cron_apply env i (OpClaim slot stamp) st = (case claimSlot env i slot stamp st of Inl e \<Rightarrow> st | Inr (st', b) \<Rightarrow> st')"
| "cron_apply env i (OpRecord e) st = recordFire i e st"
| "cron_apply env i (OpEnable b) st = cron_setEnabled i b st"
| "cron_apply env i (OpDestination d) st = cron_setDestination i d st"
| "cron_apply env i (OpConsent c) st = cron_setRecipientConsent i c st"

fun claimed_slots :: "calendar_env \<Rightarrow> string \<Rightarrow> cron_op list \<Rightarrow> cron_store \<Rightarrow> ms list" where
  "claimed_slots env i [] st = []"
| "claimed_slots env i (op # ops) st =
     (case op of
        OpClaim slot stamp \<Rightarrow> (case claimSlot env i slot stamp st of Inr (st', True) \<Rightarrow> [slot] | _ \<Rightarrow> [])
      | _ \<Rightarrow> []) @ claimed_slots env i ops (cron_apply env i op st)"

fun on_time :: "cron_op \<Rightarrow> bool" where
  "on_time (OpClaim slot stamp) = (slot \<le> stamp)"
| "on_time op = True"

text \<open>Every slot of the cron that is still to come is after \<open>b\<close>.\<close>

definition slots_after :: "calendar_env \<Rightarrow> string \<Rightarrow> cron_store \<Rightarrow> ms \<Rightarrow> bool" where
  "slots_after env i st b \<longleftrightarrow> (\<forall>c t. dm_get i st = Some c \<longrightarrow> cron_next_slot env c = Inr (Some t) \<longrightarrow> b < t)"

lemma dm_get_merge: "dm_get j (fst (dm_merge i f m)) = (if j = i then map_option f (dm_get j m) else dm_get j m)"
  by (auto simp: dm_get_def dm_merge_def split: option.split)

lemma dm_get_update: "dm_get j (fst (dm_update i f m)) = (if j = i then map_option f (dm_get j m) else dm_get j m)"
  by (auto simp: dm_get_def dm_update_def split: option.split)

lemma cron_next_slot_frame:
  "cron_next_slot env (add_fire e c) = cron_next_slot env c"
  "cron_next_slot env (c\<lparr>tb_enabled := b\<rparr>) = cron_next_slot env c"
  "cron_next_slot env (c\<lparr>tb_enabled := b, co_archived := a\<rparr>) = cron_next_slot env c"
  "cron_next_slot env (c\<lparr>tb_destination := d\<rparr>) = cron_next_slot env c"
  "cron_next_slot env (c\<lparr>tb_recipientConsent := r\<rparr>) = cron_next_slot env c"
  by (simp_all add: cron_next_slot_def add_fire_def Let_def)

lemma claim_cronE:
  assumes "claim_cron env slot stamp c = Inr (c', True)"
  obtains nx where "c' = c\<lparr>tb_lastFiredAt := Some stamp, co_nextFireAt := nx\<rparr>" "cron_next_slot env c = Inr (Some slot)"
    "advanceNextFireAt env (co_schedule c) (if isCalendarSchedule (co_schedule c) then slot else stamp) = Inr nx"
    "\<not> co_archived c" "tb_enabled c"
  using assms by (auto simp: claim_cron_def obind_Inr_iff split: if_splits)

lemma claim_cron_False: "claim_cron env slot stamp c = Inr (c', False) \<Longrightarrow> c' = c"
  by (auto simp: claim_cron_def obind_Inr_iff split: if_splits)

lemma claimed_next_slot:
  assumes env: "runs_after env" and time: "slot \<le> stamp" and claim: "claim_cron env slot stamp c = Inr (c', True)"
    and next_slot: "cron_next_slot env c' = Inr (Some t)"
  shows "slot < t"
proof -
  obtain nx where c': "c' = c\<lparr>tb_lastFiredAt := Some stamp, co_nextFireAt := nx\<rparr>"
    and nx: "advanceNextFireAt env (co_schedule c) (if isCalendarSchedule (co_schedule c) then slot else stamp) = Inr nx"
    using claim by (rule claim_cronE)
  show ?thesis
  proof (cases nx)
    case (Some n)
    then have "t = n"
      using next_slot recover_next unfolding cron_next_slot_def c' by simp
    moreover have "if isCalendarSchedule (co_schedule c) then slot < n else stamp < n"
      using nx Some advance_after [OF env, of "co_schedule c" slot n] advance_after [OF env, of "co_schedule c" stamp n]
      by (simp split: if_splits)
    ultimately show ?thesis
      using time by (simp split: if_splits)
  next
    case None
    then show ?thesis
      using next_slot nx nextCalendar_after [OF env, of "co_schedule c" stamp t] time
      by (auto simp: cron_next_slot_def c' recoverNextFireAt_def advanceNextFireAt_def obind_Inr_iff split: if_splits)
  qed
qed

lemma claimSlot_cases:
  assumes "claimSlot env i slot stamp st = Inr (st', b)"
  shows "(b = False \<and> (\<forall>j. dm_get j st' = dm_get j st)) \<or>
    (\<exists>c c'. b = True \<and> dm_get i st = Some c \<and> claim_cron env slot stamp c = Inr (c', True) \<and>
       (\<forall>j. dm_get j st' = (if j = i then Some c' else dm_get j st)))"
proof (cases "dm_get i st")
  case (Some c)
  then obtain c' where c': "claim_cron env slot stamp c = Inr (c', b)" "st' = fst (dm_update i (\<lambda>u. c') st)"
    using assms by (auto simp: claimSlot_def obind_Inr_iff)
  then show ?thesis
    using Some claim_cron_False [of env slot stamp c c'] by (cases b) (auto simp: dm_get_update)
qed (use assms in \<open>auto simp: claimSlot_def\<close>)

lemma slots_after_frame:
  assumes "slots_after env i st b" "\<And>c'. dm_get i st' = Some c' \<Longrightarrow> \<exists>c. dm_get i st = Some c \<and> cron_next_slot env c' = cron_next_slot env c"
  shows "slots_after env i st' b"
  using assms unfolding slots_after_def by metis

lemma cron_apply_slots:
  assumes "slots_after env i st b" "\<And>slot stamp. op \<noteq> OpClaim slot stamp"
  shows "slots_after env i (cron_apply env i op st) b"
  by (rule slots_after_frame [OF assms(1)])
    (use assms(2) in \<open>cases op; auto simp: recordFire_def cron_setEnabled_def cron_setDestination_def cron_setRecipientConsent_def
       setTriggerRecipientConsent_def dm_get_merge dm_get_update cron_next_slot_frame split: if_splits\<close>)

lemma claimed_slots_after:
  assumes env: "runs_after env"
  shows "list_all on_time ops \<Longrightarrow> slots_after env i st b \<Longrightarrow>
    sorted_wrt (<) (claimed_slots env i ops st) \<and> (\<forall>t \<in> set (claimed_slots env i ops st). b < t)"
proof (induction ops arbitrary: st b)
  case (Cons op ops)
  show ?case
  proof (cases "\<exists>slot stamp st'. op = OpClaim slot stamp \<and> claimSlot env i slot stamp st = Inr (st', True)")
    case True
    then obtain slot stamp st' where op: "op = OpClaim slot stamp" and claim: "claimSlot env i slot stamp st = Inr (st', True)"
      by blast
    obtain c c' where c: "dm_get i st = Some c" "claim_cron env slot stamp c = Inr (c', True)" "dm_get i st' = Some c'"
      using claimSlot_cases [OF claim] by auto
    have "b < slot"
      using Cons.prems(2) c by (auto simp: slots_after_def elim: claim_cronE)
    moreover have "slots_after env i st' slot"
      using claimed_next_slot [OF env _ c(2)] Cons.prems(1) op c(3) by (simp add: slots_after_def)
    ultimately show ?thesis
      using Cons.IH [of st' slot] Cons.prems(1) op claim by force
  next
    case False
    have "slots_after env i (cron_apply env i op st) b"
    proof (cases op)
      case (OpClaim slot stamp)
      show ?thesis
      proof (rule slots_after_frame [OF Cons.prems(2)])
        fix c'
        assume "dm_get i (cron_apply env i op st) = Some c'"
        then show "\<exists>c. dm_get i st = Some c \<and> cron_next_slot env c' = cron_next_slot env c"
          using OpClaim False claimSlot_cases [of env i slot stamp st] by (fastforce split: sum.splits)
      qed
    qed (use cron_apply_slots [OF Cons.prems(2), of op] in simp_all)
    then show ?thesis
      using Cons.IH [of "cron_apply env i op st" b] Cons.prems(1) False
      by (cases op) (auto split: sum.splits prod.splits bool.splits)
  qed
qed simp


text \<open>Giving a claimed slot back undoes the claim: the cron is as before with the slot as its next fire
  time, the slot can be claimed again, and no other cron is touched.\<close>

theorem cron_unclaim_restores:
  assumes "claimSlot env i slot stamp st = Inr (st', True)" "dm_get i st = Some c" "isSafeInteger slot"
  shows "dm_get i (unclaimSlot i slot stamp (tb_lastFiredAt c) st') = Some (c\<lparr>co_nextFireAt := Some slot\<rparr>) \<and>
    map_sum id snd (claimSlot env i slot stamp (unclaimSlot i slot stamp (tb_lastFiredAt c) st')) = Inr True \<and>
    (j = i \<or> dm_get j (unclaimSlot i slot stamp (tb_lastFiredAt c) st') = dm_get j st)"
proof -
  obtain c' where c': "claim_cron env slot stamp c = Inr (c', True)" "\<And>j. dm_get j st' = (if j = i then Some c' else dm_get j st)"
    using claimSlot_cases [OF assms(1)] assms(2) by auto
  obtain nx where nx: "c' = c\<lparr>tb_lastFiredAt := Some stamp, co_nextFireAt := nx\<rparr>"
    "advanceNextFireAt env (co_schedule c) (if isCalendarSchedule (co_schedule c) then slot else stamp) = Inr nx"
    "\<not> co_archived c" "tb_enabled c"
    using c'(1) by (rule claim_cronE)
  have undo: "unclaim_cron slot stamp (tb_lastFiredAt c) c' = c\<lparr>co_nextFireAt := Some slot\<rparr>"
    by (simp add: unclaim_cron_def nx)
  then have get: "dm_get j (unclaimSlot i slot stamp (tb_lastFiredAt c) st') =
      (if j = i then Some (c\<lparr>co_nextFireAt := Some slot\<rparr>) else dm_get j st)" for j
    using c'(2) by (simp add: unclaimSlot_def dm_get_update)
  have "cron_next_slot env (c\<lparr>co_nextFireAt := Some slot\<rparr>) = Inr (Some slot)"
    using assms(3) by (simp add: cron_next_slot_def recoverNextFireAt_def finiteEpochMs_def)
  then have "\<exists>c''. claim_cron env slot stamp (c\<lparr>co_nextFireAt := Some slot\<rparr>) = Inr (c'', True)"
    using nx by (simp add: claim_cron_def)
  then show ?thesis
    using get by (auto simp: claimSlot_def)
qed

definition demo_env :: calendar_env where
  "demo_env = \<lparr>ce_timezone_ok = (\<lambda>tz. True), ce_nextRun = (\<lambda>c tz after. Inr (Some ((after div 10 + 1) * 10)))\<rparr>"

definition demo_cron_store :: cron_store where
  "demo_cron_store =
     (case cron_create demo_env (\<lambda>inp title. ''c1'')
        (create_trigger.extend
          \<lparr>ct_ownerScopeId = ''personal:u'', ct_owner = ''u'', ct_createdBy = ''u'', ct_destination = None,
           ct_ownerConsentedAt = None, ct_recipientConsent = None\<rparr>
          (create_cron.fields \<lparr>cs_cron = Some ''0 7 * * 1'', cs_timezone = None, cs_everyMs = None, cs_firstFireAt = None\<rparr>
             None None None None None)) 5 [] of
        Inl e \<Rightarrow> [] | Inr (st, c) \<Rightarrow> st)"

lemma demo_runs_after: "runs_after demo_env"
  by (auto simp: runs_after_def demo_env_def)


lemma cron_unclaim_restores_witness:
  "map_option co_nextFireAt (dm_get ''c1''
     (unclaimSlot ''c1'' 10 12 None (fst (projr (claimSlot demo_env ''c1'' 10 12 demo_cron_store))))) = Some (Some 10)"
proof -
  have claim: "claimSlot demo_env ''c1'' 10 12 demo_cron_store =
      Inr (fst (projr (claimSlot demo_env ''c1'' 10 12 demo_cron_store)), True)"
    and get: "dm_get ''c1'' demo_cron_store = Some (the (dm_get ''c1'' demo_cron_store))"
    and last: "tb_lastFiredAt (the (dm_get ''c1'' demo_cron_store)) = None"
    by code_simp+
  have "isSafeInteger 10"
    by (simp add: isSafeInteger_def)
  from cron_unclaim_restores [OF claim get this] show ?thesis
    using last by simp
qed

end
