(* ===== verification/Delivery.thy ===== *)
theory Delivery
  imports Triggers Session_Types
begin

text \<open>
  The outbox of messages to surfaces: \<open>delivery/delivery-store.ts\<close>. \<open>randomUUID()\<close> and \<open>Date.now()\<close> are
  arguments; the listeners are names, and \<open>enqueue\<close> returns the ones it called.
\<close>

section \<open>Data\<close>

record delivery_provenance =
  dp_trigger :: string
  dp_surface :: string
  dp_fireKey :: string
  dp_sourceScopeId :: scope_id
  dp_sourceThreadRef :: string
  dp_sourceSessionId :: "string option"
  dp_sourceUserSeq :: "nat option"
  dp_sourceAssistantEntrySeq :: "nat option"

record delivery =
  dl_id :: string
  dl_destination :: destination
  dl_text :: string
  dl_attachments :: "attachment list option"
  dl_provenance :: "delivery_provenance option"
  dl_idempotencyKey :: string
  dl_createdAt :: ms
  dl_deliveredAt :: "ms option"
  dl_shadow :: bool
  dl_recipientThreadRef :: "string option"
  dl_deliverLatencyMs :: "ms option"
  dl_slackApiMs :: "ms option"

record enqueue_input =
  en_destination :: destination
  en_text :: string
  en_attachments :: "attachment list option"
  en_provenance :: "delivery_provenance option"
  en_idempotencyKey :: string
  en_shadow :: bool

record delivery_store =
  ds_deliveries :: "(string, delivery) jsmap"
  ds_byKey :: "(string, string) jsmap"
  ds_claimedUntil :: "(string, ms) jsmap"
  ds_listeners :: "string list"

definition empty_delivery_store :: delivery_store where
  "empty_delivery_store = \<lparr>ds_deliveries = [], ds_byKey = [], ds_claimedUntil = [], ds_listeners = []\<rparr>"

text \<open>A destination with a type and a target only.\<close>

definition plain_destination :: "string \<Rightarrow> string \<Rightarrow> destination" where
  "plain_destination ty target =
     \<lparr>de_type = ty, de_target = target, de_audienceScopeId = None, de_onBehalfOf = None, de_editRef = None,
      de_taskList = None, de_unfurlLinks = None, de_react = None, de_delete = None, de_identity = None, de_debugFooter = None\<rparr>"

section \<open>Operations\<close>

text \<open>\<open>list?.length ? list : undefined\<close>.\<close>

definition nonempty_list :: "'a list option \<Rightarrow> 'a list option" where
  "nonempty_list xs = (if xs = Some [] then None else xs)"

definition new_delivery :: "string \<Rightarrow> ms \<Rightarrow> enqueue_input \<Rightarrow> delivery" where
  "new_delivery uid now inp =
     \<lparr>dl_id = uid, dl_destination = en_destination inp, dl_text = en_text inp,
      dl_attachments = nonempty_list (en_attachments inp), dl_provenance = en_provenance inp,
      dl_idempotencyKey = en_idempotencyKey inp, dl_createdAt = now, dl_deliveredAt = None,
      dl_shadow = en_shadow inp, dl_recipientThreadRef = None, dl_deliverLatencyMs = None, dl_slackApiMs = None\<rparr>"

text \<open>The identifier stored for a key; an empty one counts as none.\<close>

definition keyed_id :: "string \<Rightarrow> delivery_store \<Rightarrow> string option" where
  "keyed_id k st = (case map_get (ds_byKey st) k of None \<Rightarrow> None | Some i \<Rightarrow> if i = [] then None else Some i)"

text \<open>The answer is absent only if the identifier of the key names no delivery, which the invariant excludes.\<close>

definition dl_enqueue ::
  "string \<Rightarrow> ms \<Rightarrow> enqueue_input \<Rightarrow> delivery_store \<Rightarrow> delivery_store \<times> delivery option \<times> string list" where
  "dl_enqueue uid now inp st =
     (case keyed_id (en_idempotencyKey inp) st of
        Some i \<Rightarrow> (st, map_get (ds_deliveries st) i, [])
      | None \<Rightarrow>
          (let d = new_delivery uid now inp in
           (st\<lparr>ds_deliveries := map_set uid d (ds_deliveries st), ds_byKey := map_set (dl_idempotencyKey d) uid (ds_byKey st)\<rparr>,
            Some d, if dl_shadow d then [] else ds_listeners st)))"

definition awaiting :: "string \<Rightarrow> delivery \<Rightarrow> bool" where
  "awaiting ty d \<longleftrightarrow> dl_deliveredAt d = None \<and> \<not> dl_shadow d \<and> de_type (dl_destination d) = ty"

definition dl_pending :: "string \<Rightarrow> delivery_store \<Rightarrow> delivery list" where
  "dl_pending ty st = filter (awaiting ty) (map_values (ds_deliveries st))"

definition claimed_until :: "delivery_store \<Rightarrow> string \<Rightarrow> ms" where
  "claimed_until st i = (case map_get (ds_claimedUntil st) i of None \<Rightarrow> 0 | Some t \<Rightarrow> t)"

definition claimPending :: "string \<Rightarrow> ms \<Rightarrow> ms \<Rightarrow> delivery_store \<Rightarrow> delivery_store \<times> delivery list" where
  "claimPending ty ttl now st =
     (let rows = filter (\<lambda>d. awaiting ty d \<and> claimed_until st (dl_id d) \<le> now) (map_values (ds_deliveries st)) in
      (st\<lparr>ds_claimedUntil := fold (\<lambda>d. map_set (dl_id d) (now + ttl)) rows (ds_claimedUntil st)\<rparr>, rows))"

definition listShadow :: "int option \<Rightarrow> delivery_store \<Rightarrow> delivery list" where
  "listShadow lmt st =
     take (nat (max 1 (case lmt of None \<Rightarrow> 100 | Some n \<Rightarrow> n)))
       (js_sort (\<lambda>a b. dl_createdAt b - dl_createdAt a)
          (filter (\<lambda>d. dl_shadow d \<and> dl_deliveredAt d = None) (map_values (ds_deliveries st))))"

text \<open>A change of one stored delivery.\<close>

definition change_delivery :: "string \<Rightarrow> (delivery \<Rightarrow> delivery) \<Rightarrow> delivery_store \<Rightarrow> delivery_store" where
  "change_delivery i f st =
     (case map_get (ds_deliveries st) i of
        None \<Rightarrow> st
      | Some d \<Rightarrow> st\<lparr>ds_deliveries := map_set i (f d) (ds_deliveries st)\<rparr>)"

definition acked :: "ms \<Rightarrow> ms option \<Rightarrow> delivery \<Rightarrow> delivery" where
  "acked stamp slackApiMs d =
     (if dl_deliveredAt d \<noteq> None then d
      else d\<lparr>dl_deliveredAt := Some stamp, dl_deliverLatencyMs := Some (max 0 (stamp - dl_createdAt d)),
             dl_slackApiMs := (case slackApiMs of None \<Rightarrow> dl_slackApiMs d | Some t \<Rightarrow> Some t)\<rparr>)"

definition dl_ack :: "string \<Rightarrow> ms \<Rightarrow> ms option \<Rightarrow> delivery_store \<Rightarrow> delivery_store" where
  "dl_ack i stamp slackApiMs st = change_delivery i (acked stamp slackApiMs) st"

definition mark_delivered :: "ms \<Rightarrow> delivery \<Rightarrow> delivery" where
  "mark_delivered stamp d = (if dl_deliveredAt d \<noteq> None then d else d\<lparr>dl_deliveredAt := Some stamp\<rparr>)"

definition ack_tombstone :: "string \<Rightarrow> string \<Rightarrow> ms \<Rightarrow> delivery" where
  "ack_tombstone uid k stamp =
     \<lparr>dl_id = uid, dl_destination = plain_destination ''ack-tombstone'' [], dl_text = [], dl_attachments = None,
      dl_provenance = None, dl_idempotencyKey = k, dl_createdAt = stamp, dl_deliveredAt = Some stamp,
      dl_shadow = False, dl_recipientThreadRef = None, dl_deliverLatencyMs = None, dl_slackApiMs = None\<rparr>"

definition ackByKey :: "string \<Rightarrow> string \<Rightarrow> ms \<Rightarrow> delivery_store \<Rightarrow> delivery_store" where
  "ackByKey uid k stamp st =
     (case keyed_id k st of
        Some i \<Rightarrow> change_delivery i (mark_delivered stamp) st
      | None \<Rightarrow>
          st\<lparr>ds_deliveries := map_set uid (ack_tombstone uid k stamp) (ds_deliveries st),
             ds_byKey := map_set k uid (ds_byKey st)\<rparr>)"

definition with_edit_ref :: "string \<Rightarrow> delivery \<Rightarrow> delivery" where
  "with_edit_ref editRef d =
     (if dl_deliveredAt d \<noteq> None then d else d\<lparr>dl_destination := (dl_destination d)\<lparr>de_editRef := Some editRef\<rparr>\<rparr>)"

definition setEditRefByKey :: "string \<Rightarrow> string \<Rightarrow> delivery_store \<Rightarrow> delivery_store" where
  "setEditRefByKey k editRef st =
     (case keyed_id k st of None \<Rightarrow> st | Some i \<Rightarrow> change_delivery i (with_edit_ref editRef) st)"

definition dl_get :: "string \<Rightarrow> delivery_store \<Rightarrow> delivery option" where
  "dl_get i st = map_get (ds_deliveries st) i"

definition at_thread :: "string \<Rightarrow> ms \<Rightarrow> delivery \<Rightarrow> delivery" where
  "at_thread ref stamp d =
     (if de_type (dl_destination d) \<noteq> ''principal'' then d
      else mark_delivered stamp (d\<lparr>dl_recipientThreadRef := Some ref\<rparr>))"

definition recordRecipientThread :: "string \<Rightarrow> string \<Rightarrow> ms \<Rightarrow> delivery_store \<Rightarrow> delivery_store" where
  "recordRecipientThread i ref stamp st = change_delivery i (at_thread ref stamp) st"

definition newest_of :: "int option \<Rightarrow> (delivery \<Rightarrow> bool) \<Rightarrow> delivery_store \<Rightarrow> delivery list" where
  "newest_of lmt p st =
     slice_last (max 1 (case lmt of None \<Rightarrow> 20 | Some n \<Rightarrow> n))
       (js_sort (\<lambda>a b. dl_createdAt a - dl_createdAt b) (filter p (map_values (ds_deliveries st))))"

definition listByRecipientThread :: "string \<Rightarrow> int option \<Rightarrow> delivery_store \<Rightarrow> delivery list" where
  "listByRecipientThread ref lmt st =
     newest_of lmt (\<lambda>d. dl_recipientThreadRef d = Some ref \<and> de_type (dl_destination d) = ''principal'') st"

definition from_source :: "string \<Rightarrow> string \<Rightarrow> delivery \<Rightarrow> bool" where
  "from_source sid ref d =
     (case dl_provenance d of None \<Rightarrow> False | Some p \<Rightarrow> dp_sourceSessionId p = Some sid \<or> dp_sourceThreadRef p = ref)"

definition listBySourceSession :: "string \<Rightarrow> string \<Rightarrow> int option \<Rightarrow> delivery_store \<Rightarrow> delivery list" where
  "listBySourceSession sid ref lmt st = newest_of lmt (from_source sid ref) st"

text \<open>The session a delivery counts for; of sources with the same thread the last one counts.\<close>

definition sent_for :: "(string \<times> string) list \<Rightarrow> delivery \<Rightarrow> string option" where
  "sent_for sources d =
     (case dl_provenance d of
        None \<Rightarrow> None
      | Some p \<Rightarrow>
          if dl_shadow d then None
          else if truthy (dp_sourceSessionId p) then (if the (dp_sourceSessionId p) \<in> set (map fst sources) then dp_sourceSessionId p else None)
          else if dp_sourceThreadRef p \<noteq> [] then map_get (map (\<lambda>(s, r). (r, s)) (rev sources)) (dp_sourceThreadRef p)
          else None)"

definition count_sent :: "(string \<times> string) list \<Rightarrow> delivery \<Rightarrow> (string, nat) jsmap \<Rightarrow> (string, nat) jsmap" where
  "count_sent sources d m =
     (let i = sent_for sources d in
      if \<not> truthy i then m else map_set (the i) ((case map_get m (the i) of None \<Rightarrow> 0 | Some n \<Rightarrow> n) + 1) m)"

definition sentCountsBySourceSessions :: "(string \<times> string) list \<Rightarrow> delivery_store \<Rightarrow> (string, nat) jsmap" where
  "sentCountsBySourceSessions sources st = fold (count_sent sources) (map_values (ds_deliveries st)) []"

definition add_cron_run :: "string list \<Rightarrow> delivery \<Rightarrow> (string, string list) jsmap \<Rightarrow> (string, string list) jsmap" where
  "add_cron_run wanted d m =
     (case dl_provenance d of
        None \<Rightarrow> m
      | Some p \<Rightarrow>
          let cid = cronIdOf (Some (dp_sourceThreadRef p)) in
          if dl_shadow d \<or> dp_sourceThreadRef p = [] \<or> \<not> truthy cid \<or> the cid \<notin> set wanted then m
          else map_set (the cid)
                 (List.insert (case dp_sourceSessionId p of Some s \<Rightarrow> s | None \<Rightarrow> dp_sourceThreadRef p)
                    (case map_get m (the cid) of None \<Rightarrow> [] | Some rs \<Rightarrow> rs)) m)"

definition sentRunCountsByCron :: "string list \<Rightarrow> delivery_store \<Rightarrow> (string, nat) jsmap" where
  "sentRunCountsByCron wanted st =
     map (\<lambda>(k, rs). (k, length rs)) (fold (add_cron_run wanted) (map_values (ds_deliveries st)) [])"

definition onEnqueue :: "string \<Rightarrow> delivery_store \<Rightarrow> delivery_store" where
  "onEnqueue l st = st\<lparr>ds_listeners := (if l \<in> set (ds_listeners st) then ds_listeners st else ds_listeners st @ [l])\<rparr>"

definition offEnqueue :: "string \<Rightarrow> delivery_store \<Rightarrow> delivery_store" where
  "offEnqueue l st = st\<lparr>ds_listeners := filter (\<lambda>x. x \<noteq> l) (ds_listeners st)\<rparr>"


section \<open>Operation sequences\<close>

datatype delivery_op =
    DoEnqueue string ms enqueue_input
  | DoClaim string ms ms
  | DoAck string ms "ms option"
  | DoAckByKey string string ms
  | DoEditRef string string
  | DoRecipientThread string string ms
  | DoListen string
  | DoUnlisten string

fun dl_apply :: "delivery_op \<Rightarrow> delivery_store \<Rightarrow> delivery_store" where
  "dl_apply (DoEnqueue uid now inp) st = fst (dl_enqueue uid now inp st)"
| "dl_apply (DoClaim ty ttl now) st = fst (claimPending ty ttl now st)"
| "dl_apply (DoAck i stamp api) st = dl_ack i stamp api st"
| "dl_apply (DoAckByKey uid k stamp) st = ackByKey uid k stamp st"
| "dl_apply (DoEditRef k ref) st = setEditRefByKey k ref st"
| "dl_apply (DoRecipientThread i ref stamp) st = recordRecipientThread i ref stamp st"
| "dl_apply (DoListen l) st = onEnqueue l st"
| "dl_apply (DoUnlisten l) st = offEnqueue l st"

text \<open>What \<open>randomUUID()\<close> promises: an identifier not in use.\<close>

fun fresh_op :: "delivery_store \<Rightarrow> delivery_op \<Rightarrow> bool" where
  "fresh_op st (DoEnqueue uid now inp) \<longleftrightarrow> uid \<noteq> [] \<and> map_get (ds_deliveries st) uid = None"
| "fresh_op st (DoAckByKey uid k stamp) \<longleftrightarrow> uid \<noteq> [] \<and> map_get (ds_deliveries st) uid = None"
| "fresh_op st op \<longleftrightarrow> True"

inductive dl_steps :: "delivery_store \<Rightarrow> delivery_op list \<Rightarrow> delivery_store \<Rightarrow> bool" where
  dl_refl: "dl_steps st [] st"
| dl_step: "fresh_op st op \<Longrightarrow> dl_steps (dl_apply op st) ops st' \<Longrightarrow> dl_steps st (op # ops) st'"

inductive_simps dl_steps_simps [simp]: "dl_steps st [] st'" "dl_steps st (op # ops) st'"

text \<open>Identifiers and keys name each other.\<close>

definition dl_inv :: "delivery_store \<Rightarrow> bool" where
  "dl_inv st \<longleftrightarrow> map_wf (ds_deliveries st) \<and>
     (\<forall>i d. map_get (ds_deliveries st) i = Some d \<longrightarrow>
        i \<noteq> [] \<and> dl_id d = i \<and> map_get (ds_byKey st) (dl_idempotencyKey d) = Some i) \<and>
     (\<forall>k i. map_get (ds_byKey st) k = Some i \<longrightarrow> (\<exists>d. map_get (ds_deliveries st) i = Some d \<and> dl_idempotencyKey d = k))"

lemma dl_inv_empty [simp]: "dl_inv empty_delivery_store"
  by (simp add: dl_inv_def empty_delivery_store_def)

lemma dl_inv_frame [simp]: "dl_inv (st\<lparr>ds_claimedUntil := c\<rparr>) = dl_inv st" "dl_inv (st\<lparr>ds_listeners := l\<rparr>) = dl_inv st"
  by (simp_all add: dl_inv_def)

text \<open>The changes of a stored delivery keep its identifier, its key and, once it is delivered, its time stamp.\<close>

definition keeps_delivery :: "(delivery \<Rightarrow> delivery) \<Rightarrow> bool" where
  "keeps_delivery f \<longleftrightarrow>
     (\<forall>d. dl_id (f d) = dl_id d \<and> dl_idempotencyKey (f d) = dl_idempotencyKey d \<and>
        (dl_deliveredAt d \<noteq> None \<longrightarrow> dl_deliveredAt (f d) = dl_deliveredAt d))"

lemma keeps_delivery_changes [simp]:
  "keeps_delivery (acked stamp api)" "keeps_delivery (mark_delivered stamp)"
  "keeps_delivery (with_edit_ref ref)" "keeps_delivery (at_thread ref stamp)"
  by (auto simp: keeps_delivery_def acked_def mark_delivered_def with_edit_ref_def at_thread_def)

lemma change_delivery_fields [simp]:
  "map_get (ds_deliveries (change_delivery i f st)) j =
     (if j = i then map_option f (map_get (ds_deliveries st) i) else map_get (ds_deliveries st) j)"
  "ds_byKey (change_delivery i f st) = ds_byKey st"
  "ds_claimedUntil (change_delivery i f st) = ds_claimedUntil st"
  "map_wf (ds_deliveries st) \<Longrightarrow> map_wf (ds_deliveries (change_delivery i f st))"
  by (auto simp: change_delivery_def split: option.split)

lemma change_delivery_inv:
  assumes "dl_inv st" "keeps_delivery f"
  shows "dl_inv (change_delivery i f st)"
proof -
  have f: "dl_id (f d) = dl_id d" "dl_idempotencyKey (f d) = dl_idempotencyKey d" for d
    using assms(2) by (simp_all add: keeps_delivery_def)
  show ?thesis
    unfolding dl_inv_def
  proof (intro conjI allI impI)
    show "map_wf (ds_deliveries (change_delivery i f st))"
      using assms(1) by (simp add: dl_inv_def)
  next
    fix j d
    assume "map_get (ds_deliveries (change_delivery i f st)) j = Some d"
    then obtain d0 where "map_get (ds_deliveries st) j = Some d0" "dl_id d = dl_id d0" "dl_idempotencyKey d = dl_idempotencyKey d0"
      by (auto simp: f split: if_splits)
    then show "j \<noteq> []" "dl_id d = j" "map_get (ds_byKey (change_delivery i f st)) (dl_idempotencyKey d) = Some j"
      using assms(1) by (simp_all add: dl_inv_def)
  next
    fix k j
    assume "map_get (ds_byKey (change_delivery i f st)) k = Some j"
    then obtain d where "map_get (ds_deliveries st) j = Some d" "dl_idempotencyKey d = k"
      using assms(1) unfolding dl_inv_def change_delivery_fields by blast
    then show "\<exists>d. map_get (ds_deliveries (change_delivery i f st)) j = Some d \<and> dl_idempotencyKey d = k"
      by (auto simp: f)
  qed
qed

lemma keyed_id_None: "dl_inv st \<Longrightarrow> keyed_id k st = None \<longleftrightarrow> map_get (ds_byKey st) k = None"
  unfolding dl_inv_def keyed_id_def by (fastforce split: option.splits)

lemma add_delivery_inv:
  assumes "dl_inv st" "keyed_id (dl_idempotencyKey d) st = None" "dl_id d \<noteq> []" "map_get (ds_deliveries st) (dl_id d) = None"
  shows "dl_inv (st\<lparr>ds_deliveries := map_set (dl_id d) d (ds_deliveries st), ds_byKey := map_set (dl_idempotencyKey d) (dl_id d) (ds_byKey st)\<rparr>)"
proof -
  have "map_get (ds_byKey st) (dl_idempotencyKey d) = None"
    using assms(1,2) by (simp add: keyed_id_None)
  then show ?thesis
    using assms(1,3,4) unfolding dl_inv_def by (fastforce split: if_splits)
qed

lemma dl_apply_inv:
  assumes "dl_inv st" "fresh_op st op"
  shows "dl_inv (dl_apply op st)"
proof (cases op)
  case (DoEnqueue uid now inp)
  then show ?thesis
    using assms add_delivery_inv [of st "new_delivery uid now inp"]
    by (simp add: dl_enqueue_def new_delivery_def Let_def split: option.split)
next
  case (DoAckByKey uid k stamp)
  then show ?thesis
    using assms add_delivery_inv [of st "ack_tombstone uid k stamp"]
    by (simp add: ackByKey_def ack_tombstone_def change_delivery_inv split: option.split)
qed (use assms in \<open>auto simp: dl_ack_def setEditRefByKey_def recordRecipientThread_def change_delivery_inv
    claimPending_def Let_def onEnqueue_def offEnqueue_def split: option.split\<close>)

lemma dl_steps_inv: "dl_steps st ops st' \<Longrightarrow> dl_inv st \<Longrightarrow> dl_inv st'"
  by (induction rule: dl_steps.induct) (auto intro: dl_apply_inv)

text \<open>What later operations keep of a stored delivery.\<close>

definition same_delivery :: "string \<Rightarrow> delivery_store \<Rightarrow> delivery_store \<Rightarrow> bool" where
  "same_delivery i st st' \<longleftrightarrow>
     (\<forall>d. dl_get i st = Some d \<longrightarrow> (\<exists>d'. dl_get i st' = Some d' \<and> dl_idempotencyKey d' = dl_idempotencyKey d \<and>
        (dl_deliveredAt d \<noteq> None \<longrightarrow> dl_deliveredAt d' = dl_deliveredAt d)))"

lemma same_delivery_change: "keeps_delivery f \<Longrightarrow> same_delivery i st (change_delivery j f st)"
  by (auto simp: same_delivery_def dl_get_def change_delivery_def keeps_delivery_def split: option.split)

lemma same_delivery_apply: "fresh_op st op \<Longrightarrow> same_delivery i st (dl_apply op st)"
proof (cases op)
  case (DoEnqueue uid now inp)
  then show "fresh_op st op \<Longrightarrow> ?thesis"
    by (auto simp: dl_enqueue_def same_delivery_def dl_get_def Let_def split: option.split)
next
  case (DoAckByKey uid k stamp)
  then show "fresh_op st op \<Longrightarrow> ?thesis"
    by (cases "keyed_id k st") (auto simp: ackByKey_def same_delivery_change, auto simp: same_delivery_def dl_get_def)
qed (auto simp: dl_ack_def setEditRefByKey_def recordRecipientThread_def same_delivery_change
    claimPending_def Let_def onEnqueue_def offEnqueue_def split: option.split, auto simp: same_delivery_def dl_get_def)

lemma same_delivery_trans: "same_delivery i st st' \<Longrightarrow> same_delivery i st' st'' \<Longrightarrow> same_delivery i st st''"
  unfolding same_delivery_def by metis

lemma same_delivery_steps: "dl_steps st ops st' \<Longrightarrow> same_delivery i st st'"
proof (induction rule: dl_steps.induct)
  case (dl_refl st)
  then show ?case by (simp add: same_delivery_def)
next
  case (dl_step st op ops st')
  then show ?case using same_delivery_apply same_delivery_trans by blast
qed

lemma enqueue_known:
  assumes "dl_inv st" "dl_get i st = Some d" "en_idempotencyKey inp = dl_idempotencyKey d"
  shows "dl_enqueue uid now inp st = (st, Some d, [])"
  using assms by (simp add: dl_inv_def dl_get_def dl_enqueue_def keyed_id_def)

lemma claimed_not_delivered:
  assumes "dl_inv st" "dl_get i st = Some d" "dl_deliveredAt d \<noteq> None"
  shows "i \<notin> dl_id ` set (snd (claimPending ty ttl now st))"
proof
  assume "i \<in> dl_id ` set (snd (claimPending ty ttl now st))"
  then obtain j d' where "(j, d') \<in> set (ds_deliveries st)" and d': "awaiting ty d'" "dl_id d' = i"
    by (auto simp: claimPending_def Let_def)
  then have "dl_get i st = Some d'"
    using assms(1) by (auto simp: dl_inv_def dl_get_def map_wf_get_iff)
  then show False
    using d' assms(2,3) by (simp add: awaiting_def)
qed

text \<open>C18: A delivered message stays delivered: whatever happened before and happens later, its delivery time
  never changes, no claim hands it out again, and enqueueing its key another time returns it and changes
  nothing, which covers a key acknowledged before it was ever enqueued.\<close>

theorem delivered_is_final:
  assumes past: "dl_steps empty_delivery_store ops st" and d: "dl_get i st = Some d" "dl_deliveredAt d = Some t"
    and later: "dl_steps st ops' st'"
  shows "\<exists>d'. dl_get i st' = Some d' \<and> dl_deliveredAt d' = Some t \<and>
    (\<forall>ty ttl now. i \<notin> dl_id ` set (snd (claimPending ty ttl now st'))) \<and>
    (\<forall>uid now inp. dl_enqueue uid now (inp\<lparr>en_idempotencyKey := dl_idempotencyKey d\<rparr>) st' = (st', Some d', []))"
proof -
  have inv: "dl_inv st'"
    using dl_steps_inv [OF later dl_steps_inv [OF past]] by simp
  obtain d' where "dl_get i st' = Some d'" "dl_idempotencyKey d' = dl_idempotencyKey d" "dl_deliveredAt d' = Some t"
    using same_delivery_steps [OF later, of i] d by (auto simp: same_delivery_def)
  then show ?thesis
    using claimed_not_delivered [OF inv] enqueue_known [OF inv] by auto
qed

definition demo_input :: enqueue_input where
  "demo_input = \<lparr>en_destination = plain_destination ''slack'' ''C1'', en_text = ''hi'', en_attachments = None,
     en_provenance = None, en_idempotencyKey = ''k'', en_shadow = False\<rparr>"

text \<open>An acknowledgement that overtakes its message keeps it from being sent.\<close>

definition overtaken_store :: delivery_store where
  "overtaken_store = ackByKey ''t'' ''k'' 5 empty_delivery_store"

lemma overtaken_store_steps: "dl_steps empty_delivery_store [DoAckByKey ''t'' ''k'' 5] overtaken_store"
  by (simp add: overtaken_store_def empty_delivery_store_def)

lemma overtaken_store_get: "dl_get ''t'' overtaken_store = Some (ack_tombstone ''t'' ''k'' 5)"
  by (simp add: overtaken_store_def empty_delivery_store_def ackByKey_def keyed_id_def dl_get_def)

lemma delivered_is_final_witness:
  "fst (dl_enqueue ''u'' 6 demo_input overtaken_store) = overtaken_store"
proof -
  have key: "demo_input\<lparr>en_idempotencyKey := dl_idempotencyKey (ack_tombstone ''t'' ''k'' 5)\<rparr> = demo_input"
    by (simp add: demo_input_def ack_tombstone_def)
  have "dl_deliveredAt (ack_tombstone ''t'' ''k'' 5) = Some 5"
    by (simp add: ack_tombstone_def)
  from delivered_is_final [OF overtaken_store_steps overtaken_store_get this dl_refl]
  obtain d' where "\<forall>uid now inp. dl_enqueue uid now (inp\<lparr>en_idempotencyKey := dl_idempotencyKey (ack_tombstone ''t'' ''k'' 5)\<rparr>)
      overtaken_store = (overtaken_store, Some d', [])"
    by (elim exE conjE)
  from this [rule_format, of "''u''" 6 demo_input] show ?thesis
    unfolding key by simp
qed

section \<open>Claims\<close>

text \<open>When a delivery was handed out and for how long.\<close>

fun handouts :: "string \<Rightarrow> delivery_op list \<Rightarrow> delivery_store \<Rightarrow> (ms \<times> ms) list" where
  "handouts i [] st = []"
| "handouts i (op # ops) st =
     (case op of
        DoClaim ty ttl now \<Rightarrow> if i \<in> dl_id ` set (snd (claimPending ty ttl now st)) then [(now, ttl)] else []
      | _ \<Rightarrow> []) @ handouts i ops (dl_apply op st)"

fun claims_ahead :: "delivery_op \<Rightarrow> bool" where
  "claims_ahead (DoClaim ty ttl now) \<longleftrightarrow> 0 \<le> ttl"
| "claims_ahead op \<longleftrightarrow> True"

fun is_claim :: "delivery_op \<Rightarrow> bool" where
  "is_claim (DoClaim ty ttl now) \<longleftrightarrow> True"
| "is_claim op \<longleftrightarrow> False"

lemma fold_set_claimed:
  "map_get (fold (\<lambda>d. map_set (dl_id d) t) rows m) i = (if i \<in> dl_id ` set rows then Some t else map_get m i)"
  by (induction rows arbitrary: m) auto

lemma claimPending_until:
  "claimed_until (fst (claimPending ty ttl now st)) i =
     (if i \<in> dl_id ` set (snd (claimPending ty ttl now st)) then now + ttl else claimed_until st i)"
  by (simp add: claimPending_def Let_def claimed_until_def fold_set_claimed)

lemma claimPending_due: "i \<in> dl_id ` set (snd (claimPending ty ttl now st)) \<Longrightarrow> claimed_until st i \<le> now"
  by (auto simp: claimPending_def Let_def)

lemma claimed_until_frame: "\<not> is_claim op \<Longrightarrow> claimed_until (dl_apply op st) i = claimed_until st i"
  by (cases op) (simp_all add: claimed_until_def dl_enqueue_def Let_def dl_ack_def ackByKey_def setEditRefByKey_def
      recordRecipientThread_def onEnqueue_def offEnqueue_def split: option.split)

lemma handouts_apart:
  "list_all claims_ahead ops \<Longrightarrow>
     sorted_wrt (\<lambda>h h'. fst h + snd h \<le> fst h') (handouts i ops st) \<and>
     list_all (\<lambda>h. claimed_until st i \<le> fst h \<and> 0 \<le> snd h) (handouts i ops st)"
proof (induction ops arbitrary: st)
  case (Cons op ops)
  have IH: "sorted_wrt (\<lambda>h h'. fst h + snd h \<le> fst h') (handouts i ops (dl_apply op st)) \<and>
     list_all (\<lambda>h. claimed_until (dl_apply op st) i \<le> fst h \<and> 0 \<le> snd h) (handouts i ops (dl_apply op st))"
    using Cons by simp
  show ?case
  proof (cases "is_claim op")
    case True
    then obtain ty ttl now where op: "op = DoClaim ty ttl now"
      by (cases op) auto
    let ?rest = "handouts i ops (dl_apply op st)"
    show ?thesis
    proof (cases "i \<in> dl_id ` set (snd (claimPending ty ttl now st))")
      case claimed: True
      then have "claimed_until (dl_apply op st) i = now + ttl" "handouts i (op # ops) st = (now, ttl) # ?rest"
        by (simp_all add: op claimPending_until)
      moreover have "claimed_until st i \<le> now"
        using claimed by (rule claimPending_due)
      moreover have "0 \<le> ttl"
        using Cons.prems by (simp add: op)
      ultimately show ?thesis
        using IH by (fastforce simp: list_all_iff)
    next
      case False
      then have "claimed_until (dl_apply op st) i = claimed_until st i" "handouts i (op # ops) st = ?rest"
        by (simp_all add: op claimPending_until)
      then show ?thesis
        using IH by simp
    qed
  next
    case False
    then have "handouts i (op # ops) st = handouts i ops (dl_apply op st)"
      by (cases op) simp_all
    then show ?thesis
      using IH claimed_until_frame [OF False] by simp
  qed
qed simp

text \<open>C19: No two workers are handed the same delivery at once: between two hand-outs of a delivery at least the
  time to live of the earlier claim has passed, whatever else happens in between.\<close>

theorem handouts_do_not_overlap:
  assumes "list_all claims_ahead ops"
  shows "sorted_wrt (\<lambda>h h'. fst h + snd h \<le> fst h') (handouts i ops st)"
  using handouts_apart [OF assms] by blast

text \<open>Claimed at 10 for 30, again at 20 in vain, and again at 40.\<close>

lemma handouts_do_not_overlap_witness:
  "let ops = [DoEnqueue ''d'' 0 demo_input, DoClaim ''slack'' 30 10, DoClaim ''slack'' 30 20, DoClaim ''slack'' 30 40] in
   handouts ''d'' ops empty_delivery_store = [(10, 30), (40, 30)] \<and>
   sorted_wrt (\<lambda>h h'. fst h + snd h \<le> fst h') (handouts ''d'' ops empty_delivery_store)"
proof -
  define ops where "ops = [DoEnqueue ''d'' 0 demo_input, DoClaim ''slack'' 30 10, DoClaim ''slack'' 30 20, DoClaim ''slack'' 30 40]"
  have "handouts ''d'' ops empty_delivery_store = [(10, 30), (40, 30)]"
    unfolding ops_def by code_simp
  moreover have "list_all claims_ahead ops"
    by (simp add: ops_def)
  ultimately show ?thesis
    using handouts_do_not_overlap [of ops "''d''" empty_delivery_store] unfolding ops_def [symmetric] Let_def by simp
qed

end
