(* ===== verification/Reach.thy ===== *)
theory Reach
  imports Delivery Directory
begin

text \<open>
  Reaching people, channels and group messages: \<open>reach/reach.ts\<close>, and the directory it is given
  (\<open>reachDir\<close> of \<open>api/app-helpers.ts\<close>). The directory is a record of functions over a state; the surface
  that opens a group message is a parameter. The em dash U+2014 lies outside the modelled code units
  and is written as 0x97.
\<close>

section \<open>Data\<close>

record 'd reach_directory =
  rd_resolveRecipient :: "string \<Rightarrow> 'd \<Rightarrow> directory_member resolution"
  rd_resolveChannel :: "string \<Rightarrow> 'd \<Rightarrow> directory_channel resolution"
  rd_channelMember :: "string \<Rightarrow> string \<Rightarrow> 'd \<Rightarrow> bool"
  rd_resolveGroup :: "string list \<Rightarrow> 'd \<Rightarrow> string option"
  rd_groupMember :: "string \<Rightarrow> string \<Rightarrow> 'd \<Rightarrow> bool"
  rd_directoryMember :: "string \<Rightarrow> 'd \<Rightarrow> bool"
  rd_openGroup :: "(string list \<Rightarrow> 'd \<Rightarrow> 'd \<times> (string + string) option) option"
  rd_registerGroup :: "(string \<Rightarrow> string list \<Rightarrow> 'd \<Rightarrow> 'd) option"

record reach_target =
  rt_recipient :: "string option"
  rt_channel :: "string option"
  rt_participants :: "string list option"

record reach_refusal =
  rr_status :: nat
  rr_error :: string
  rr_message :: string
  rr_candidates :: "(string \<times> string) list option"

record reached =
  re_destination :: destination
  re_recipient :: "(string \<times> string) option"
  re_channel :: "(string \<times> string) option"
  re_group :: "string option"

type_synonym reach_resolution = "reach_refusal + reached"

definition refusal :: "nat \<Rightarrow> string \<Rightarrow> string \<Rightarrow> reach_resolution" where
  "refusal status code message = Inl \<lparr>rr_status = status, rr_error = code, rr_message = message, rr_candidates = None\<rparr>"

definition ambiguous :: "string \<Rightarrow> string \<Rightarrow> (string \<times> string) list \<Rightarrow> reach_resolution" where
  "ambiguous code message cs = Inl \<lparr>rr_status = 409, rr_error = code, rr_message = message, rr_candidates = Some cs\<rparr>"

definition MAX_GROUP_DM_PARTICIPANTS :: nat where
  "MAX_GROUP_DM_PARTICIPANTS = 8"

definition groupTooLarge :: reach_resolution where
  "groupTooLarge = refusal 400 ''group_too_large''
     (''a group DM holds at most '' @ js_of_nat MAX_GROUP_DM_PARTICIPANTS @ '' people including you '' @ [CHR 0x97] @ '' use a channel instead'')"

definition principalDestination :: "string \<Rightarrow> string \<Rightarrow> destination" where
  "principalDestination target onBehalfOf =
     (plain_destination ''principal'' target)
       \<lparr>de_audienceScopeId := Some (scopeId Personal target), de_onBehalfOf := Some onBehalfOf\<rparr>"

section \<open>Resolving a target\<close>

text \<open>\<open>pull\<close> answers with the identifier of the opened group and a note, each optional.\<close>

definition openGroupViaSurface ::
  "(string list \<Rightarrow> 'd \<Rightarrow> 'd \<times> (string option \<times> string option) option) \<Rightarrow> string list \<Rightarrow> 'd \<Rightarrow> 'd \<times> (string + string) option" where
  "openGroupViaSurface pull participants d =
     (case pull participants d of (d', r) \<Rightarrow>
        (d', case r of
               None \<Rightarrow> None
             | Some (g, note) \<Rightarrow>
                 if truthy g then Some (Inr (the g)) else if truthy note then Some (Inl (the note)) else None))"

definition reach_visibility :: "'d reach_directory \<Rightarrow> 'd \<Rightarrow> visibility_directory" where
  "reach_visibility dir d =
     \<lparr>vd_channelMember = (\<lambda>c p. rd_channelMember dir c p d), vd_groupMember = (\<lambda>g p. rd_groupMember dir g p d),
      vd_listChannelsFor = None\<rparr>"

definition identity_unverified_message :: string where
  "identity_unverified_message =
     ''I can't confirm your membership here '' @ [CHR 0x97] @
     '' your account isn't in this workspace's directory, so your login may not be linked to Slack (or it hasn't synced yet). Connecting / signing in with Slack should link it.''"

definition membershipDenial :: "'d reach_directory \<Rightarrow> string \<Rightarrow> bool \<Rightarrow> 'd \<Rightarrow> reach_resolution" where
  "membershipDenial dir authorityId isChannel d =
     (if \<not> rd_directoryMember dir authorityId d then refusal 403 ''identity_unverified'' identity_unverified_message
      else refusal 403 ''not_a_member''
        (if isChannel then ''I can only post to a private channel you're in'' else ''I can only post to a group DM you're in''))"

definition no_teammate :: "string \<Rightarrow> reach_resolution" where
  "no_teammate q = refusal 404 ''recipient_not_found'' (''no internal teammate matches \"'' @ q @ ''\"'')"

definition many_teammates :: "string \<Rightarrow> directory_member list \<Rightarrow> reach_resolution" where
  "many_teammates q cs =
     ambiguous ''ambiguous_recipient''
       (''\"'' @ q @ ''\" matches multiple teammates '' @ [CHR 0x97] @ '' pass an exact name or id'')
       (map (\<lambda>c. (dmem_principalId c, dmem_displayName c)) cs)"

definition reach_recipient :: "'d reach_directory \<Rightarrow> string \<Rightarrow> string \<Rightarrow> 'd \<Rightarrow> reach_resolution" where
  "reach_recipient dir q authorityId d =
     (case rd_resolveRecipient dir q d of
        NoMatch \<Rightarrow> no_teammate q
      | AmbiguousMatch cs \<Rightarrow> many_teammates q cs
      | OneMatch m \<Rightarrow>
          Inr \<lparr>re_destination = principalDestination (dmem_principalId m) authorityId,
               re_recipient = Some (dmem_principalId m, dmem_displayName m), re_channel = None, re_group = None\<rparr>)"

definition reach_channel :: "'d reach_directory \<Rightarrow> string \<Rightarrow> string \<Rightarrow> 'd \<Rightarrow> reach_resolution" where
  "reach_channel dir q authorityId d =
     (case rd_resolveChannel dir q d of
        NoMatch \<Rightarrow> refusal 404 ''channel_not_found'' (''no channel I'm in matches \"'' @ q @ ''\"'')
      | AmbiguousMatch cs \<Rightarrow>
          ambiguous ''ambiguous_channel''
            (''\"'' @ q @ ''\" matches multiple channels '' @ [CHR 0x97] @ '' pass an exact name or id'')
            (map (\<lambda>c. (dch_channelId c, dch_name c)) cs)
      | OneMatch ch \<Rightarrow>
          if \<not> isVisible (reach_visibility dir d) authorityId
                  (ChannelTarget (dch_channelId ch) (Some (dch_isPrivate ch = Some True)))
          then membershipDenial dir authorityId True d
          else Inr \<lparr>re_destination = (plain_destination ''slack'' (dch_channelId ch))
                       \<lparr>de_audienceScopeId := Some (scopeId Channel (dch_channelId ch))\<rparr>,
                    re_recipient = None, re_channel = Some (dch_channelId ch, dch_name ch), re_group = None\<rparr>)"

text \<open>The named members of a group message, or the first refusal.\<close>

fun named_members :: "'d reach_directory \<Rightarrow> 'd \<Rightarrow> string list \<Rightarrow> reach_refusal + string list" where
  "named_members dir d [] = Inr []"
| "named_members dir d (q # qs) =
     (case rd_resolveRecipient dir q d of
        NoMatch \<Rightarrow> Inl (projl (no_teammate q))
      | AmbiguousMatch cs \<Rightarrow> Inl (projl (many_teammates q cs))
      | OneMatch m \<Rightarrow>
          (case named_members dir d qs of Inl e \<Rightarrow> Inl e | Inr ms \<Rightarrow> Inr (dmem_principalId m # ms)))"

definition groupDestination :: "string \<Rightarrow> reach_resolution" where
  "groupDestination g =
     Inr \<lparr>re_destination = (plain_destination ''group'' g)\<lparr>de_audienceScopeId := Some (scopeId Group g)\<rparr>,
          re_recipient = None, re_channel = None, re_group = Some g\<rparr>"

definition group_not_found :: "bool \<Rightarrow> reach_resolution" where
  "group_not_found canOpen =
     refusal 404 ''group_not_found''
       (if canOpen
        then ''no group DM I'm in has exactly those participants '' @ [CHR 0x97] @ '' post to it once with /v1/reach, which opens it, then address it here''
        else ''no group DM I'm in has exactly those participants (it may not have synced yet)'')"

definition open_group :: "'d reach_directory \<Rightarrow> string list \<Rightarrow> string \<Rightarrow> bool \<Rightarrow> 'd \<Rightarrow> 'd \<times> reach_resolution" where
  "open_group dir participants authorityId mayOpen d =
     (case rd_openGroup dir of
        None \<Rightarrow> (d, group_not_found False)
      | Some opn \<Rightarrow>
          if \<not> mayOpen then (d, group_not_found True)
          else if \<not> rd_directoryMember dir authorityId d then (d, membershipDenial dir authorityId False d)
          else (case opn participants d of
                  (d', Some (Inr g)) \<Rightarrow>
                    ((case rd_registerGroup dir of None \<Rightarrow> d' | Some reg \<Rightarrow> reg g participants d'), groupDestination g)
                | (d', Some (Inl err)) \<Rightarrow> (d', refusal 502 ''group_open_failed'' err)
                | (d', None) \<Rightarrow>
                    (d', refusal 502 ''group_open_failed''
                       (''I couldn't open a group DM with those people just now '' @ [CHR 0x97] @ '' try again in a moment''))))"

definition reach_group :: "'d reach_directory \<Rightarrow> string list \<Rightarrow> string \<Rightarrow> bool \<Rightarrow> 'd \<Rightarrow> 'd \<times> reach_resolution" where
  "reach_group dir queries authorityId mayOpen d =
     (if queries = []
      then (d, refusal 400 ''bad_request'' ''participants must list the group DM's other members (at least one)'')
      else
        (let asked = js_dedup queries in
         if length asked > MAX_GROUP_DM_PARTICIPANTS then (d, groupTooLarge)
         else (case named_members dir d asked of
                 Inl e \<Rightarrow> (d, Inl e)
               | Inr named \<Rightarrow>
                   (let participants = js_dedup (named @ [authorityId]) in
                    if length participants < 2
                    then (d, refusal 400 ''bad_request''
                            (''a group DM needs someone besides you '' @ [CHR 0x97] @ '' name a `recipient` instead for a 1:1 DM''))
                    else if length participants > MAX_GROUP_DM_PARTICIPANTS then (d, groupTooLarge)
                    else (case rd_resolveGroup dir participants d of
                            Some g \<Rightarrow>
                              (d, if \<not> isVisible (reach_visibility dir d) authorityId (GroupTarget g)
                                  then membershipDenial dir authorityId False d else groupDestination g)
                          | None \<Rightarrow> open_group dir participants authorityId mayOpen d)))))"

definition resolveReachTarget ::
  "'d reach_directory \<Rightarrow> reach_target \<Rightarrow> string \<Rightarrow> bool \<Rightarrow> 'd \<Rightarrow> 'd \<times> reach_resolution" where
  "resolveReachTarget dir target authorityId mayOpen d =
     (if length (filter id [rt_recipient target \<noteq> None, rt_channel target \<noteq> None, rt_participants target \<noteq> None]) > 1
      then (d, refusal 400 ''bad_request'' ''specify exactly one of recipient (a teammate), channel, or participants (a group DM)'')
      else (case rt_recipient target of
              Some q \<Rightarrow> (d, reach_recipient dir q authorityId d)
            | None \<Rightarrow>
                (case rt_channel target of
                   Some q \<Rightarrow> (d, reach_channel dir q authorityId d)
                 | None \<Rightarrow>
                     (case rt_participants target of
                        Some qs \<Rightarrow> reach_group dir qs authorityId mayOpen d
                      | None \<Rightarrow>
                          (d, refusal 400 ''bad_request'' ''name a recipient (a teammate), a channel, or a group DM's participants'')))))"

section \<open>Enqueueing\<close>

definition attributeRelay :: "string \<Rightarrow> string option \<Rightarrow> string" where
  "attributeRelay text sender =
     (let who = (case sender of None \<Rightarrow> [] | Some s \<Rightarrow> js_trim s) in
      if who \<noteq> [] then who @ '' asked me to pass on:'' @ [NL] @ text else text)"

definition withSlackUnfurlOption :: "destination \<Rightarrow> bool option \<Rightarrow> destination" where
  "withSlackUnfurlOption d u = (case u of None \<Rightarrow> d | Some b \<Rightarrow> d\<lparr>de_unfurlLinks := Some b\<rparr>)"

definition withReact :: "destination \<Rightarrow> (string \<times> string) option \<Rightarrow> destination" where
  "withReact d r = (case r of None \<Rightarrow> d | Some x \<Rightarrow> d\<lparr>de_react := Some x\<rparr>)"

definition withDelete :: "destination \<Rightarrow> string option \<Rightarrow> destination" where
  "withDelete d r = (case r of None \<Rightarrow> d | Some x \<Rightarrow> d\<lparr>de_delete := Some x\<rparr>)"

definition withEdit :: "destination \<Rightarrow> string option \<Rightarrow> destination" where
  "withEdit d r = (if truthy r then d\<lparr>de_editRef := r\<rparr> else d)"

definition isThirdPartyRelay :: "destination \<Rightarrow> string option \<Rightarrow> bool" where
  "isThirdPartyRelay d attributeAs =
     (if attributeAs = None then False
      else if de_type d = ''group'' then True
      else if de_type d \<noteq> ''principal'' then False
      else de_onBehalfOf d \<noteq> Some (de_target d))"

record reach_input = enqueue_input +
  ri_attributeAs :: "string option"

definition reach_text :: "reach_input \<Rightarrow> string" where
  "reach_text inp =
     (if isThirdPartyRelay (en_destination inp) (ri_attributeAs inp) then attributeRelay (en_text inp) (ri_attributeAs inp)
      else en_text inp)"

definition reach_plain :: "reach_input \<Rightarrow> enqueue_input" where
  "reach_plain inp =
     (if de_react (en_destination inp) \<noteq> None \<or> de_delete (en_destination inp) \<noteq> None
      then (enqueue_input.truncate inp)\<lparr>en_text := [], en_attachments := None\<rparr>
      else (enqueue_input.truncate inp)\<lparr>en_text := reach_text inp, en_attachments := nonempty_list (en_attachments inp)\<rparr>)"

definition reachEnqueue ::
  "string \<Rightarrow> ms \<Rightarrow> reach_input \<Rightarrow> delivery_store \<Rightarrow> delivery_store \<times> delivery option \<times> string list" where
  "reachEnqueue uid now inp st = dl_enqueue uid now (reach_plain inp) st"

lemma reach_plain_fields [simp]:
  "en_destination (reach_plain inp) = en_destination inp" "en_idempotencyKey (reach_plain inp) = en_idempotencyKey inp"
  "en_shadow (reach_plain inp) = en_shadow inp" "en_provenance (reach_plain inp) = en_provenance inp"
  by (simp_all add: reach_plain_def enqueue_input.defs)

section \<open>The workspace's directory\<close>

definition reachDir ::
  "(string list \<Rightarrow> directory \<Rightarrow> directory \<times> (string option \<times> string option) option) \<Rightarrow> directory reach_directory" where
  "reachDir pull =
     \<lparr>rd_resolveRecipient = dir_resolve, rd_resolveChannel = dir_resolveChannel,
      rd_channelMember = (\<lambda>c p d. channelMember d c p), rd_resolveGroup = resolveGroupByParticipants,
      rd_groupMember = (\<lambda>g p d. groupMember d g p), rd_directoryMember = (\<lambda>p d. dir_get d p \<noteq> None),
      rd_openGroup = Some (openGroupViaSurface pull), rd_registerGroup = Some upsertGroup\<rparr>"

section \<open>Reach is confined\<close>

definition slack_destination :: "string \<Rightarrow> destination" where
  "slack_destination c = (plain_destination ''slack'' c)\<lparr>de_audienceScopeId := Some (scopeId Channel c)\<rparr>"

definition group_destination :: "string \<Rightarrow> destination" where
  "group_destination g = (plain_destination ''group'' g)\<lparr>de_audienceScopeId := Some (scopeId Group g)\<rparr>"

text \<open>Who may sit in a group message: the authority and known people, at most eight and at least two.\<close>

definition proper_group :: "string set \<Rightarrow> string \<Rightarrow> string list \<Rightarrow> bool" where
  "proper_group people authority ps \<longleftrightarrow>
     authority \<in> set ps \<and> distinct ps \<and> set ps \<subseteq> insert authority people \<and> 2 \<le> length ps \<and> length ps \<le> MAX_GROUP_DM_PARTICIPANTS"

text \<open>What reaching relies on: the directory resolves a query only to people and channels it lists.\<close>

locale reach_source =
  fixes dir :: "'d reach_directory"
    and people :: "'d \<Rightarrow> string set"
    and rooms :: "'d \<Rightarrow> directory_channel set"
  assumes recipient_listed: "rd_resolveRecipient dir q d = OneMatch m \<Longrightarrow> dmem_principalId m \<in> people d"
    and channel_listed: "rd_resolveChannel dir q d = OneMatch ch \<Longrightarrow> ch \<in> rooms d"
begin

lemma recipient_reached:
  "reach_recipient dir q authority d = Inr r \<Longrightarrow> \<exists>i \<in> people d. re_destination r = principalDestination i authority"
  using recipient_listed
  by (fastforce simp: reach_recipient_def no_teammate_def refusal_def many_teammates_def ambiguous_def split: resolution.splits)

lemma channel_reached:
  "reach_channel dir q authority d = Inr r \<Longrightarrow>
     \<exists>ch \<in> rooms d. re_destination r = slack_destination (dch_channelId ch) \<and>
       (dch_isPrivate ch = Some True \<longrightarrow> rd_channelMember dir (dch_channelId ch) authority d)"
  using channel_listed
  by (fastforce simp: reach_channel_def refusal_def ambiguous_def membershipDenial_def slack_destination_def isVisible_def
      reach_visibility_def split: resolution.splits if_splits bool.splits)

lemma named_listed: "named_members dir d qs = Inr ms \<Longrightarrow> set ms \<subseteq> people d"
  by (induction qs arbitrary: ms) (auto split: resolution.splits sum.splits dest: recipient_listed)

lemma group_opened:
  assumes "open_group dir ps authority mayOpen d = (d', Inr r)"
  shows "mayOpen \<and> rd_directoryMember dir authority d \<and>
    (\<exists>g opn d1. re_destination r = group_destination g \<and> rd_openGroup dir = Some opn \<and> opn ps d = (d1, Some (Inr g)) \<and>
       d' = (case rd_registerGroup dir of None \<Rightarrow> d1 | Some reg \<Rightarrow> reg g ps d1))"
  using assms
  by (auto simp: open_group_def group_not_found_def refusal_def membershipDenial_def groupDestination_def group_destination_def
      split: option.splits if_splits prod.splits sum.splits)

lemma group_reached:
  assumes "reach_group dir qs authority mayOpen d = (d', Inr r)"
  shows "\<exists>g. re_destination r = group_destination g \<and>
    (d' = d \<and> rd_groupMember dir g authority d \<or>
     (\<exists>ps. proper_group (people d) authority ps \<and> open_group dir ps authority mayOpen d = (d', Inr r)))"
proof -
  obtain named where named: "named_members dir d (js_dedup qs) = Inr named"
    using assms by (auto simp: reach_group_def Let_def refusal_def groupTooLarge_def split: if_splits sum.splits)
  define ps where "ps = js_dedup (named @ [authority])"
  have small: "2 \<le> length ps" "length ps \<le> MAX_GROUP_DM_PARTICIPANTS"
    using assms by (auto simp: named reach_group_def Let_def refusal_def groupTooLarge_def ps_def split: if_splits)
  have proper: "proper_group (people d) authority ps"
    using small named_listed [OF named] by (auto simp: proper_group_def ps_def)
  have eq: "(case rd_resolveGroup dir ps d of
       Some g \<Rightarrow> (d, if \<not> isVisible (reach_visibility dir d) authority (GroupTarget g)
                  then membershipDenial dir authority False d else groupDestination g)
     | None \<Rightarrow> open_group dir ps authority mayOpen d) = (d', Inr r)"
    using assms small
    by (auto simp: named reach_group_def Let_def refusal_def groupTooLarge_def ps_def [symmetric] split: if_splits)
  show ?thesis
  proof (cases "rd_resolveGroup dir ps d")
    case None
    then have opened: "open_group dir ps authority mayOpen d = (d', Inr r)"
      using eq by simp
    obtain g where "re_destination r = group_destination g"
      using group_opened [OF opened] by blast
    then show ?thesis
      using opened proper by blast
  next
    case (Some g)
    then have "re_destination r = group_destination g" "d' = d" "rd_groupMember dir g authority d"
      using eq by (auto simp: membershipDenial_def refusal_def groupDestination_def group_destination_def isVisible_def
          reach_visibility_def split: if_splits)
    then show ?thesis by blast
  qed
qed

lemma target_reached:
  assumes "resolveReachTarget dir target authority mayOpen d = (d', Inr r)"
  shows "(\<exists>q. reach_recipient dir q authority d = Inr r \<and> d' = d) \<or> (\<exists>q. reach_channel dir q authority d = Inr r \<and> d' = d) \<or>
    (\<exists>qs. reach_group dir qs authority mayOpen d = (d', Inr r))"
  using assms by (auto simp: resolveReachTarget_def refusal_def split: if_splits option.splits)

end

lemma dir_resolve_member: "dir_resolve q d = OneMatch m \<Longrightarrow> m \<in> set (dir_members d)"
  by (auto simp: dir_resolve_def dest: find_SomeD pickMatch_member split: option.splits)

interpretation workspace: reach_source "reachDir pull" "\<lambda>d. dmem_principalId ` set (dir_members d)" "\<lambda>d. set (dir_channels d)"
  for pull
  by unfold_locales (auto simp: reachDir_def dir_resolveChannel_def dest: dir_resolve_member pickMatch_member)

text \<open>C20: Whatever is asked, a message reaches only a listed person in the sender's name, a listed channel
  which is not private or has the sender as a member, or a group message: one the directory has the sender in,
  or, where opening is allowed and the sender is listed, one just opened for the sender and one to seven
  listed people, which is then recorded with exactly them; otherwise the directory does not change.\<close>

theorem reach_confined:
  assumes "resolveReachTarget (reachDir pull) target authority mayOpen d = (d', Inr r)"
  shows "(\<exists>m \<in> set (dir_members d). d' = d \<and> re_destination r = principalDestination (dmem_principalId m) authority) \<or>
    (\<exists>ch \<in> set (dir_channels d). d' = d \<and> re_destination r = slack_destination (dch_channelId ch) \<and>
       (dch_isPrivate ch = Some True \<longrightarrow> channelMember d (dch_channelId ch) authority)) \<or>
    (\<exists>g. re_destination r = group_destination g \<and>
       (d' = d \<and> groupMember d g authority \<or>
        mayOpen \<and> dir_get d authority \<noteq> None \<and>
        (\<exists>ps d1 note. proper_group (dmem_principalId ` set (dir_members d)) authority ps \<and>
           pull ps d = (d1, Some (Some g, note)) \<and> d' = upsertGroup g ps d1)))"
proof -
  consider q where "reach_recipient (reachDir pull) q authority d = Inr r" "d' = d"
    | q where "reach_channel (reachDir pull) q authority d = Inr r" "d' = d"
    | qs where "reach_group (reachDir pull) qs authority mayOpen d = (d', Inr r)"
    using workspace.target_reached [OF assms] by blast
  then show ?thesis
  proof cases
    case 1
    then show ?thesis using workspace.recipient_reached by fastforce
  next
    case 2
    then show ?thesis using workspace.channel_reached by (fastforce simp: reachDir_def)
  next
    case 3
    obtain g where g: "re_destination r = group_destination g" and
      how: "d' = d \<and> groupMember d g authority \<or>
        (\<exists>ps. proper_group (dmem_principalId ` set (dir_members d)) authority ps \<and>
           open_group (reachDir pull) ps authority mayOpen d = (d', Inr r))"
      using workspace.group_reached [OF 3] by (auto simp: reachDir_def)
    have "mayOpen \<and> dir_get d authority \<noteq> None \<and> (\<exists>d1 note. pull ps d = (d1, Some (Some g, note)) \<and> d' = upsertGroup g ps d1)"
      if opened: "open_group (reachDir pull) ps authority mayOpen d = (d', Inr r)" for ps
    proof -
      obtain g' d1 where "mayOpen" "dir_get d authority \<noteq> None" "re_destination r = group_destination g'"
          "openGroupViaSurface pull ps d = (d1, Some (Inr g'))" "d' = upsertGroup g' ps d1"
        using workspace.group_opened [OF opened] by (auto simp: reachDir_def)
      moreover have "g' = g"
        using calculation(3) g by (simp add: group_destination_def plain_destination_def)
      ultimately show ?thesis
        by (auto simp: openGroupViaSurface_def split: prod.splits option.splits if_splits) (metis option.collapse truthy_simps(1))
    qed
    then show ?thesis
      using g how by blast
  qed
qed

definition demo_pull :: "string list \<Rightarrow> directory \<Rightarrow> directory \<times> (string option \<times> string option) option" where
  "demo_pull ps d = (d, Some (Some ''G1'', None))"

definition demo_people :: directory where
  "demo_people = dir_replace [\<lparr>dmem_principalId = ''a@x'', dmem_displayName = ''Ann'', dmem_type = Internal, dmem_slackId = None\<rparr>,
     \<lparr>dmem_principalId = ''b@x'', dmem_displayName = ''Bob'', dmem_type = Internal, dmem_slackId = None\<rparr>] empty_directory"

definition demo_group_target :: reach_target where
  "demo_group_target = \<lparr>rt_recipient = None, rt_channel = None, rt_participants = Some [''Bob'']\<rparr>"

definition demo_reached :: reached where
  "demo_reached = \<lparr>re_destination = group_destination ''G1'', re_recipient = None, re_channel = None, re_group = Some ''G1''\<rparr>"

definition demo_opened :: directory where
  "demo_opened = upsertGroup ''G1'' [''b@x'', ''a@x''] demo_people"

lemma demo_group_reach:
  "resolveReachTarget (reachDir demo_pull) demo_group_target ''a@x'' True demo_people = (demo_opened, Inr demo_reached)"
  by code_simp

text \<open>Ann opens a group with Bob.\<close>

lemma reach_confined_witness:
  "\<exists>ps d1 note. proper_group {''a@x'', ''b@x''} ''a@x'' ps \<and> demo_pull ps demo_people = (d1, Some (Some ''G1'', note)) \<and>
     demo_opened = upsertGroup ''G1'' ps d1"
proof -
  have people: "dmem_principalId ` set (dir_members demo_people) = {''a@x'', ''b@x''}"
    by (simp add: demo_people_def dir_replace_def empty_directory_def)
  have other: "re_destination demo_reached \<noteq> principalDestination i ''a@x''" "re_destination demo_reached \<noteq> slack_destination c" for i c
    by (simp_all add: demo_reached_def group_destination_def principalDestination_def slack_destination_def plain_destination_def)
  have g: "re_destination demo_reached = group_destination g \<longleftrightarrow> g = ''G1''" for g
    by (auto simp: demo_reached_def group_destination_def plain_destination_def)
  have new: "\<not> groupMember demo_people ''G1'' ''a@x''"
    by (simp add: demo_people_def dir_replace_def empty_directory_def groupMember_def has_member_def)
  show ?thesis
    using reach_confined [OF demo_group_reach] unfolding people by (simp add: other g new)
qed

end
