(* ===== verification/Run_Trigger.thy ===== *)
theory Run_Trigger
  imports Reach Idempotency Audience
begin

text \<open>
  One fire of a cron, webhook or monitor: \<open>triggers/run-trigger.ts\<close>, with the model options of a triggered
  turn (\<open>core/turn-options.ts\<close>). The turn itself (\<open>deps.run\<close>) is a parameter that may change the whole
  state; clock readings and identifiers are arguments.
\<close>

section \<open>Data\<close>

record trigger_spec =
  sp_owner :: string
  sp_ownerScopeId :: scope_id
  sp_input :: string
  sp_securityScreenData :: "string option"
  sp_fireKey :: string
  sp_surface :: string
  sp_destination :: "destination option"
  sp_message :: "string option"
  sp_threadRef :: "string option"
  sp_runAs :: "run_as option"
  sp_members :: "principal list option"
  sp_recipientConsent :: "recipient_consent option"
  sp_recipientConsentRequired :: bool
  sp_shadow :: bool
  sp_thinkingLevel :: "string option"
  sp_readOnly :: bool
  sp_turnWallClockMs :: "ms option"
  sp_errorNotice :: "(string \<Rightarrow> string) option"

record trigger_outcome =
  to_authzFailed :: bool
  to_ran :: bool
  to_status :: "turn_status option"
  to_note :: "string option"
  to_reply :: "string option"
  to_sessionId :: "string option"

text \<open>The fields of \<open>TurnRequest\<close> that a trigger sets.\<close>

record conversation =
  cv_kind :: conversation_kind
  cv_threadRef :: string
  cv_channelRef :: "string option"
  cv_audience :: "(string \<times> string list option) list option"

record trigger_request =
  rq_surface :: string
  rq_actor :: string
  rq_conversation :: conversation
  rq_text :: string
  rq_securityScreenData :: "string option"
  rq_triggered :: bool
  rq_thinkingLevel :: "string option"
  rq_fastMode :: "bool option"
  rq_readOnly :: bool
  rq_turnWallClockMs :: "ms option"
  rq_triggerDestination :: "destination option"
  rq_surfaceTools :: bool
  rq_addressed :: bool
  rq_ownerKeychainUnion :: bool
  rq_idempotencyKey :: string

record 'x trigger_world =
  tw_deliveries :: delivery_store
  tw_idem :: idem_store
  tw_identity :: identity_service
  tw_rest :: 'x

record trigger_directory =
  td_visibility :: visibility_directory
  td_displayName :: "string \<Rightarrow> string option outcome"
  td_channelPrivacy :: "(string \<Rightarrow> bool option) option"

record 'x trigger_deps =
  tg_idemOptions :: idem_options
  tg_run :: "trigger_request \<Rightarrow> 'x trigger_world \<Rightarrow> 'x trigger_world \<times> turn_result outcome"
  tg_currentScopeMembers :: "(scope_id \<Rightarrow> principal list option outcome) option"
  tg_directory :: "trigger_directory option"

text \<open>Clock readings and fresh identifiers of one call, in the order they are taken.\<close>

record trigger_times =
  tt_refresh :: ms
  tt_refreshed :: ms
  tt_check :: ms
  tt_enqueue :: ms
  tt_uid :: string
  tt_done :: ms
  tt_notice :: ms
  tt_noticeUid :: string

fun turn_status_name :: "turn_status \<Rightarrow> string" where
  "turn_status_name OkT = ''ok''"
| "turn_status_name Refused = ''refused''"
| "turn_status_name FailedT = ''failed''"
| "turn_status_name PendingApproval = ''pending_approval''"
| "turn_status_name Queued = ''queued''"
| "turn_status_name Silent = ''silent''"
| "turn_status_name React = ''react''"

section \<open>Helpers of a fire\<close>

definition isTriggerFailure :: "trigger_outcome \<Rightarrow> bool" where
  "isTriggerFailure o' \<longleftrightarrow> to_ran o' \<and> to_status o' \<noteq> None \<and> to_status o' \<noteq> Some OkT \<and> to_status o' \<noteq> Some Silent"

definition NO_UPDATE_SENTINEL :: string where
  "NO_UPDATE_SENTINEL = ''[no-update]''"

definition SILENT_POLL_MARKERS :: "string list" where
  "SILENT_POLL_MARKERS = [NO_UPDATE_SENTINEL, ''no_reply'', ''[silent]'']"

definition isPollSurface :: "string \<Rightarrow> bool" where
  "isPollSurface s \<longleftrightarrow> s \<in> {''cron'', ''monitor''}"

text \<open>Trimming a line also drops the carriage return that the split leaves at its end.\<close>

definition isSilentPollReply :: "string \<Rightarrow> bool" where
  "isSilentPollReply reply =
     (case List.find (\<lambda>l. js_trim l \<noteq> []) (rev (js_split (js_trimEnd reply) NL)) of
        None \<Rightarrow> True
      | Some l \<Rightarrow> js_toLowerCase (js_trim l) \<in> set SILENT_POLL_MARKERS)"

definition deliveryProvenance :: "trigger_spec \<Rightarrow> string \<Rightarrow> turn_result option \<Rightarrow> delivery_provenance" where
  "deliveryProvenance spec threadRef res =
     \<lparr>dp_trigger = sp_surface spec, dp_surface = sp_surface spec, dp_fireKey = sp_fireKey spec,
      dp_sourceScopeId = sp_ownerScopeId spec, dp_sourceThreadRef = threadRef,
      dp_sourceSessionId = (case res of None \<Rightarrow> None | Some r \<Rightarrow> if truthy (tr_sessionId r) then tr_sessionId r else None),
      dp_sourceUserSeq = Option.bind res tr_sourceUserSeq,
      dp_sourceAssistantEntrySeq = Option.bind res tr_sourceAssistantEntrySeq\<rparr>"

definition relayAttribution :: "'x trigger_deps \<Rightarrow> trigger_spec \<Rightarrow> string option" where
  "relayAttribution deps spec =
     (case (sp_message spec, tg_directory deps) of
        (Some _, Some d) \<Rightarrow> caught None (td_displayName d (sp_owner spec))
      | _ \<Rightarrow> None)"

definition actorMayReadScope :: "'x trigger_deps \<Rightarrow> string \<Rightarrow> scope_kind option \<Rightarrow> string \<Rightarrow> bool" where
  "actorMayReadScope deps actorId kind ref =
     (if ref = [] then False
      else if kind = Some Personal then samePerson (Some actorId) (Some ref)
      else (case tg_directory deps of
              None \<Rightarrow> kind \<noteq> Some Group \<and> kind \<noteq> Some Channel
            | Some d \<Rightarrow>
                if kind = Some Group then isVisible (td_visibility d) actorId (GroupTarget ref)
                else if kind \<noteq> Some Channel then True
                else (case Option.bind (td_channelPrivacy d) (\<lambda>f. f ref) of
                        None \<Rightarrow> False
                      | Some priv \<Rightarrow> isVisible (td_visibility d) actorId (ChannelTarget ref (Some priv)))))"

definition destinationVisible :: "'x trigger_deps \<Rightarrow> string \<Rightarrow> destination \<Rightarrow> bool" where
  "destinationVisible deps actorId dest =
     (case tg_directory deps of
        None \<Rightarrow> True
      | Some d \<Rightarrow>
          let i = hd (js_split (de_target dest) CHR '':''); see = isVisible (td_visibility d) actorId in
          if de_type dest = ''slack''
          then (let audience = (if truthy (de_audienceScopeId dest) then Some (parseScopeId (the (de_audienceScopeId dest))) else None) in
                if Option.bind audience fst = Some Personal then see (DmTarget (snd (the audience)))
                else if Option.bind audience fst = Some Group then see (GroupTarget i)
                else see (ChannelTarget i None))
          else if de_type dest = ''group'' then see (GroupTarget i)
          else True)"

definition NON_INTERACTIVE_THINKING_LEVEL :: string where
  "NON_INTERACTIVE_THINKING_LEVEL = ''xhigh''"

definition NON_INTERACTIVE_FAST_MODE :: bool where
  "NON_INTERACTIVE_FAST_MODE = False"

definition resolveTurnFastMode :: "bool option \<Rightarrow> bool \<Rightarrow> bool \<Rightarrow> bool option" where
  "resolveTurnFastMode requested humanTurn interactiveDefault =
     (if requested \<noteq> None then requested else if humanTurn \<and> interactiveDefault then Some True else None)"

definition turnModelOptions :: "bool \<Rightarrow> string option \<Rightarrow> bool option \<Rightarrow> string option \<times> bool option" where
  "turnModelOptions triggered thinkingLevel fastMode =
     (let level = (if \<not> truthy thinkingLevel \<and> triggered then Some NON_INTERACTIVE_THINKING_LEVEL else thinkingLevel);
          fast = (if fastMode = None \<and> triggered then Some NON_INTERACTIVE_FAST_MODE else fastMode)
      in (if truthy level then level else None, fast))"

section \<open>Who acts\<close>

definition scope_members :: "principal list option \<Rightarrow> trigger_spec \<Rightarrow> principal list" where
  "scope_members cur spec =
     (case cur of Some ms \<Rightarrow> ms | None \<Rightarrow> (case sp_members spec of Some ms \<Rightarrow> ms | None \<Rightarrow> []))"

definition authz_failed :: "string \<Rightarrow> trigger_outcome" where
  "authz_failed note =
     \<lparr>to_authzFailed = True, to_ran = False, to_status = None, to_note = Some note, to_reply = None, to_sessionId = None\<rparr>"

definition is_internal_id :: "identity_service \<Rightarrow> string \<Rightarrow> bool" where
  "is_internal_id ids i \<longleftrightarrow> p_type (classify ids i False) = Internal"

text \<open>The acting person, or the outcome of a failed authorisation.\<close>

definition trigger_actor :: "identity_service \<Rightarrow> principal list option \<Rightarrow> trigger_spec \<Rightarrow> trigger_outcome + string" where
  "trigger_actor ids cur spec =
     (if sp_runAs spec = Some RunAsScopeFloor
      then (let internalMembers = filter (\<lambda>m. p_type m = Internal \<and> is_internal_id ids (p_id m)) (scope_members cur spec) in
            case internalMembers of
              [] \<Rightarrow> Inl (authz_failed ''scopeFloor cron has no internal members left'')
            | m # _ \<Rightarrow>
                Inr (if list_ex (\<lambda>m. samePerson (Some (p_id m)) (Some (sp_owner spec))) internalMembers
                     then sp_owner spec else p_id m))
      else if \<not> is_internal_id ids (sp_owner spec) then Inl (authz_failed ''owner is no longer an internal principal'')
      else if sp_runAs spec = Some RunAsScopeShared \<and>
              (case cur of
                 None \<Rightarrow> False
               | Some ms \<Rightarrow> \<not> list_ex (\<lambda>m. samePerson (Some (p_id m)) (Some (sp_owner spec))) ms)
      then Inl (authz_failed ''scopeShared owner is no longer a cur scope member'')
      else Inr (sp_owner spec))"

definition trigger_conversation :: "principal list option \<Rightarrow> trigger_spec \<Rightarrow> conversation" where
  "trigger_conversation cur spec =
     (let members = scope_members cur spec;
          audience = (if (sp_runAs spec = Some RunAsScopeFloor \<or> sp_runAs spec = Some RunAsScopeShared) \<and> members \<noteq> []
                      then Some (map (\<lambda>m. (p_id m, p_teamIds m)) members) else None);
          threadRef = (case sp_threadRef spec of Some t \<Rightarrow> t | None \<Rightarrow> sp_fireKey spec)
      in case parseScopeId (sp_ownerScopeId spec) of
           (Some Channel, ref) \<Rightarrow>
             \<lparr>cv_kind = ConvChannel, cv_threadRef = threadRef, cv_channelRef = Some ref, cv_audience = audience\<rparr>
         | (Some Group, ref) \<Rightarrow>
             \<lparr>cv_kind = ConvGroup, cv_threadRef = threadRef, cv_channelRef = Some ref, cv_audience = audience\<rparr>
         | _ \<Rightarrow> \<lparr>cv_kind = ConvDm, cv_threadRef = threadRef, cv_channelRef = None, cv_audience = None\<rparr>)"

definition deliverable :: "'x trigger_deps \<Rightarrow> string \<Rightarrow> trigger_spec \<Rightarrow> bool" where
  "deliverable deps actorId spec = (case sp_destination spec of None \<Rightarrow> True | Some d \<Rightarrow> destinationVisible deps actorId d)"

definition consented :: "trigger_spec \<Rightarrow> bool" where
  "consented spec =
     recipientConsentSatisfied (sp_recipientConsent spec)
       (consentRequiredRecipient (sp_owner spec) (sp_recipientConsentRequired spec) (sp_destination spec))"

definition not_visible_note :: string where
  "not_visible_note = ''destination is no longer visible to the cron owner '' @ [CHR 0x97] @ '' delivery skipped''"

definition consent_note :: "trigger_spec \<Rightarrow> string" where
  "consent_note spec =
     (if map_option rc_status (sp_recipientConsent spec) = Some ConsentDeclined
      then ''recipient turned this delivery off '' @ [CHR 0x97] @ '' skipped''
      else ''awaiting the recipient's consent '' @ [CHR 0x97] @ '' delivery skipped'')"

definition left_home_note :: string where
  "left_home_note =
     ''the acting person is no longer a member of this trigger's home scope '' @ [CHR 0x97] @ '' run skipped''"

definition needs_approval_note :: string where
  "needs_approval_note =
     ''hit a require_approval command '' @ [CHR 0x97] @ '' failed closed (no human at fire/event time)''"

definition live_delivery :: "'x trigger_deps \<Rightarrow> string \<Rightarrow> trigger_spec \<Rightarrow> bool" where
  "live_delivery deps actorId spec \<longleftrightarrow>
     sp_surface spec = ''monitor'' \<and> sp_destination spec \<noteq> None \<and> consented spec \<and> deliverable deps actorId spec"

definition can_read_home :: "'x trigger_deps \<Rightarrow> principal list option \<Rightarrow> string \<Rightarrow> trigger_spec \<Rightarrow> bool" where
  "can_read_home deps cur actorId spec =
     (case cur of
        None \<Rightarrow>
          tg_directory deps = None \<or>
          (case parseScopeId (sp_ownerScopeId spec) of (k, ref) \<Rightarrow> actorMayReadScope deps actorId k ref)
      | Some ms \<Rightarrow> list_ex (\<lambda>m. samePerson (Some (p_id m)) (Some actorId)) ms)"

section \<open>The fire\<close>

text \<open>What the body leaves in \<open>status\<close>, \<open>note\<close>, \<open>reply\<close> and \<open>sessionId\<close>.\<close>

record trigger_notes =
  tn_status :: "turn_status option"
  tn_note :: "string option"
  tn_reply :: "string option"
  tn_sessionId :: "string option"

definition no_notes :: trigger_notes where
  "no_notes = \<lparr>tn_status = None, tn_note = None, tn_reply = None, tn_sessionId = None\<rparr>"

definition trigger_thread :: "trigger_spec \<Rightarrow> string" where
  "trigger_thread spec = (case sp_threadRef spec of Some t \<Rightarrow> t | None \<Rightarrow> sp_fireKey spec)"

definition trigger_enqueue ::
  "trigger_times \<Rightarrow> trigger_spec \<Rightarrow> destination \<Rightarrow> string \<Rightarrow> attachment list option \<Rightarrow> turn_result option \<Rightarrow> string option \<Rightarrow>
   'x trigger_world \<Rightarrow> 'x trigger_world" where
  "trigger_enqueue tt spec dest text attachments res attributeAs w =
     w\<lparr>tw_deliveries := fst (reachEnqueue (tt_uid tt) (tt_enqueue tt)
         \<lparr>en_destination = dest, en_text = text, en_attachments = nonempty_list attachments,
          en_provenance = Some (deliveryProvenance spec (trigger_thread spec) res), en_idempotencyKey = sp_fireKey spec,
          en_shadow = sp_shadow spec, ri_attributeAs = (if truthy attributeAs then attributeAs else None)\<rparr>
         (tw_deliveries w))\<rparr>"

definition trigger_request_of :: "'x trigger_deps \<Rightarrow> principal list option \<Rightarrow> string \<Rightarrow> trigger_spec \<Rightarrow> trigger_request" where
  "trigger_request_of deps cur actorId spec =
     (let (level, fast) = turnModelOptions True (if truthy (sp_thinkingLevel spec) then sp_thinkingLevel spec else None) None;
          live = live_delivery deps actorId spec
      in \<lparr>rq_surface = sp_surface spec, rq_actor = actorId, rq_conversation = trigger_conversation cur spec,
          rq_text = sp_input spec, rq_securityScreenData = sp_securityScreenData spec, rq_triggered = True,
          rq_thinkingLevel = level, rq_fastMode = fast, rq_readOnly = sp_readOnly spec,
          rq_turnWallClockMs = sp_turnWallClockMs spec, rq_triggerDestination = sp_destination spec,
          rq_surfaceTools = live, rq_addressed = live, rq_ownerKeychainUnion = (sp_runAs spec = Some RunAsScopeShared),
          rq_idempotencyKey = sp_fireKey spec\<rparr>)"

text \<open>Delivering a fixed message.\<close>

definition relay_message ::
  "'x trigger_deps \<Rightarrow> trigger_times \<Rightarrow> string \<Rightarrow> trigger_spec \<Rightarrow> string \<Rightarrow> 'x trigger_world \<Rightarrow> 'x trigger_world \<times> trigger_notes" where
  "relay_message deps tt actorId spec message w =
     (let ok = no_notes\<lparr>tn_status := Some OkT\<rparr> in
      case sp_destination spec of
        None \<Rightarrow> (w, ok)
      | Some dest \<Rightarrow>
          if \<not> consented spec then (w, ok\<lparr>tn_note := Some (consent_note spec)\<rparr>)
          else if \<not> deliverable deps actorId spec then (w, ok\<lparr>tn_note := Some not_visible_note\<rparr>)
          else (trigger_enqueue tt spec dest message None None (relayAttribution deps spec) w, ok))"

text \<open>What happens with the answer of a turn.\<close>

definition deliver_answer ::
  "'x trigger_deps \<Rightarrow> trigger_times \<Rightarrow> string \<Rightarrow> trigger_spec \<Rightarrow> turn_result \<Rightarrow> 'x trigger_world \<Rightarrow> 'x trigger_world \<times> trigger_notes" where
  "deliver_answer deps tt actorId spec res w =
     (let got = \<lparr>tn_status = Some (tr_status res), tn_note = None, tn_reply = tr_reply res, tn_sessionId = tr_sessionId res\<rparr> in
      if tr_status res = Silent then (w, got)
      else if tr_status res = PendingApproval
      then (w, got\<lparr>tn_note := Some needs_approval_note\<rparr>)
      else if tr_status res = OkT \<and> (truthy (tr_reply res) \<or> nonempty_list (tr_attachments res) \<noteq> None)
      then (case sp_destination spec of
              None \<Rightarrow> (w, got)
            | Some dest \<Rightarrow>
                if live_delivery deps actorId spec then (w, got)
                else if \<not> consented spec then (w, got\<lparr>tn_note := Some (consent_note spec)\<rparr>)
                else if \<not> deliverable deps actorId spec then (w, got\<lparr>tn_note := Some not_visible_note\<rparr>)
                else (trigger_enqueue tt spec dest (case tr_reply res of None \<Rightarrow> [] | Some r \<Rightarrow> r) (tr_attachments res) (Some res) None w, got))
      else if tr_status res = OkT then (w, got\<lparr>tn_note := Some ''produced no reply''\<rparr>)
      else (w, got\<lparr>tn_note := Some (if truthy (tr_reason res) then turn_status_name (tr_status res) @ '': '' @ the (tr_reason res)
                                    else turn_status_name (tr_status res))\<rparr>))"

definition trigger_body ::
  "'x trigger_deps \<Rightarrow> trigger_times \<Rightarrow> principal list option \<Rightarrow> string \<Rightarrow> trigger_spec \<Rightarrow> 'x trigger_world \<Rightarrow>
   'x trigger_world \<times> trigger_notes outcome" where
  "trigger_body deps tt cur actorId spec w =
     (case sp_message spec of
        Some message \<Rightarrow> map_prod id Inr (relay_message deps tt actorId spec message w)
      | None \<Rightarrow>
          if \<not> can_read_home deps cur actorId spec
          then (w, Inr (no_notes\<lparr>tn_note := Some left_home_note\<rparr>))
          else (case tg_run deps (trigger_request_of deps cur actorId spec) w of
                  (w', Inl e) \<Rightarrow> (w', Inl e)
                | (w', Inr res) \<Rightarrow> map_prod id Inr (deliver_answer deps tt actorId spec res w')))"

text \<open>\<open>once\<close> around a body, without other calls in between: no result when the key is taken or committed.\<close>

definition run_once ::
  "idem_options \<Rightarrow> string \<Rightarrow> ms \<Rightarrow> ms \<Rightarrow> ('x trigger_world \<Rightarrow> 'x trigger_world \<times> 'r outcome) \<Rightarrow> 'x trigger_world \<Rightarrow>
   'x trigger_world \<times> 'r option outcome" where
  "run_once opts k check finish body w =
     (case once_enter k (tw_idem w) of
        None \<Rightarrow> (w, Inr None)
      | Some s \<Rightarrow>
          (case isCommitted opts k check s of
             (s', True) \<Rightarrow> (w\<lparr>tw_idem := once_leave k s'\<rparr>, Inr None)
           | (s', False) \<Rightarrow>
               (case body (w\<lparr>tw_idem := s'\<rparr>) of
                  (w', Inl e) \<Rightarrow> (w'\<lparr>tw_idem := once_leave k (tw_idem w')\<rparr>, Inl e)
                | (w', Inr r) \<Rightarrow>
                    (w'\<lparr>tw_idem := once_leave k (once_done opts k finish (once_put k finish (tw_idem w')))\<rparr>, Inr (Some r)))))"

definition trigger_outcome_of :: "trigger_notes option \<Rightarrow> trigger_outcome" where
  "trigger_outcome_of r =
     (let n = (case r of None \<Rightarrow> no_notes | Some n \<Rightarrow> n) in
      \<lparr>to_authzFailed = False, to_ran = (r \<noteq> None), to_status = tn_status n,
       to_note = (if truthy (tn_note n) then tn_note n else None), to_reply = tn_reply n,
       to_sessionId = (if truthy (tn_sessionId n) then tn_sessionId n else None)\<rparr>)"

definition error_notice ::
  "'x trigger_deps \<Rightarrow> trigger_times \<Rightarrow> string \<Rightarrow> trigger_spec \<Rightarrow> trigger_outcome \<Rightarrow> 'x trigger_world \<Rightarrow> 'x trigger_world" where
  "error_notice deps tt actorId spec o' w =
     (case (sp_errorNotice spec, sp_destination spec) of
        (Some notice, Some dest) \<Rightarrow>
          if consented spec \<and> deliverable deps actorId spec \<and> isTriggerFailure o'
          then w\<lparr>tw_deliveries := fst (dl_enqueue (tt_noticeUid tt) (tt_notice tt)
                  \<lparr>en_destination = dest,
                   en_text = notice (case to_note o' of Some n \<Rightarrow> n | None \<Rightarrow> turn_status_name (the (to_status o'))),
                   en_attachments = None, en_provenance = Some (deliveryProvenance spec (trigger_thread spec) None),
                   en_idempotencyKey = sp_fireKey spec @ '':err'', en_shadow = sp_shadow spec\<rparr> (tw_deliveries w))\<rparr>
          else w
      | _ \<Rightarrow> w)"

definition runTrigger ::
  "'x trigger_deps \<Rightarrow> trigger_times \<Rightarrow> trigger_spec \<Rightarrow> 'x trigger_world \<Rightarrow> 'x trigger_world \<times> trigger_outcome outcome" where
  "runTrigger deps tt spec w0 =
     (let w = w0\<lparr>tw_identity := refresh (tt_refresh tt) (tt_refreshed tt) (tw_identity w0)\<rparr> in
      case (case tg_currentScopeMembers deps of None \<Rightarrow> Inr None | Some f \<Rightarrow> f (sp_ownerScopeId spec)) of
        Inl e \<Rightarrow> (w, Inl e)
      | Inr cur \<Rightarrow>
          (case trigger_actor (tw_identity w) cur spec of
             Inl failed \<Rightarrow> (w, Inr failed)
           | Inr actorId \<Rightarrow>
               (case run_once (tg_idemOptions deps) (sp_fireKey spec) (tt_check tt) (tt_done tt)
                       (trigger_body deps tt cur actorId spec) w of
                  (w', Inl e) \<Rightarrow> (w', Inl e)
                | (w', Inr r) \<Rightarrow>
                    (let o' = trigger_outcome_of r in (error_notice deps tt actorId spec o' w', Inr o')))))"

section \<open>Who a fire acts as and what it delivers\<close>

text \<open>The members the trigger's scope has now, if they are listed.\<close>

definition listed_members :: "'x trigger_deps \<Rightarrow> trigger_spec \<Rightarrow> principal list option outcome" where
  "listed_members deps spec = (case tg_currentScopeMembers deps of None \<Rightarrow> Inr None | Some f \<Rightarrow> f (sp_ownerScopeId spec))"

text \<open>The principals known when the fire starts.\<close>

definition known_identity :: "trigger_times \<Rightarrow> 'x trigger_world \<Rightarrow> identity_service" where
  "known_identity tt w = refresh (tt_refresh tt) (tt_refreshed tt) (tw_identity w)"

lemma internal_same_person: "samePerson (Some i) (Some j) \<Longrightarrow> is_internal_id ids i = is_internal_id ids j"
  by (simp add: is_internal_id_def classify_def samePerson_def)

lemma actor_internal:
  assumes "trigger_actor ids cur spec = Inr actorId"
  shows "is_internal_id ids actorId"
proof (cases "sp_runAs spec = Some RunAsScopeFloor")
  case True
  define ms where "ms = filter (\<lambda>m. p_type m = Internal \<and> is_internal_id ids (p_id m)) (scope_members cur spec)"
  have ms: "is_internal_id ids (p_id m)" if "m \<in> set ms" for m
    using that by (simp add: ms_def)
  obtain m ms' where ms': "ms = m # ms'"
    using assms True by (cases ms) (simp_all add: trigger_actor_def Let_def ms_def [symmetric])
  show ?thesis
  proof (cases "list_ex (\<lambda>m. samePerson (Some (p_id m)) (Some (sp_owner spec))) ms")
    case same: True
    then have "actorId = sp_owner spec"
      using assms True ms' by (simp add: trigger_actor_def Let_def ms_def [symmetric])
    then show ?thesis
      using same ms internal_same_person by (auto simp: list_ex_iff)
  next
    case False
    then have "actorId = p_id m"
      using assms True ms' by (simp add: trigger_actor_def Let_def ms_def [symmetric])
    then show ?thesis
      using ms ms' by simp
  qed
next
  case False
  then show ?thesis
    using assms by (auto simp: trigger_actor_def split: if_splits)
qed

text \<open>The turn only matters through the requests it is given.\<close>

definition allowed_request :: "'x trigger_deps \<Rightarrow> trigger_times \<Rightarrow> trigger_spec \<Rightarrow> 'x trigger_world \<Rightarrow> trigger_request \<Rightarrow> bool" where
  "allowed_request deps tt spec w req \<longleftrightarrow>
     sp_message spec = None \<and> rq_idempotencyKey req = sp_fireKey spec \<and> is_internal_id (known_identity tt w) (rq_actor req) \<and>
     (\<exists>cur. listed_members deps spec = Inr cur \<and> can_read_home deps cur (rq_actor req) spec) \<and>
     (rq_surfaceTools req \<longrightarrow> consented spec \<and> deliverable deps (rq_actor req) spec)"

lemma run_frame_destinationVisible [simp]: "destinationVisible (deps\<lparr>tg_run := run\<rparr>) = destinationVisible deps"
  by (simp add: fun_eq_iff destinationVisible_def Let_def cong: option.case_cong prod.case_cong if_cong)

lemma run_frame_deliverable [simp]: "deliverable (deps\<lparr>tg_run := run\<rparr>) = deliverable deps"
  by (simp add: fun_eq_iff deliverable_def Let_def cong: option.case_cong prod.case_cong if_cong)

lemma run_frame_live_delivery [simp]: "live_delivery (deps\<lparr>tg_run := run\<rparr>) = live_delivery deps"
  by (simp add: fun_eq_iff live_delivery_def Let_def cong: option.case_cong prod.case_cong if_cong)

lemma run_frame_relayAttribution [simp]: "relayAttribution (deps\<lparr>tg_run := run\<rparr>) = relayAttribution deps"
  by (simp add: fun_eq_iff relayAttribution_def Let_def cong: option.case_cong prod.case_cong if_cong)

lemma run_frame_actorMayReadScope [simp]: "actorMayReadScope (deps\<lparr>tg_run := run\<rparr>) = actorMayReadScope deps"
  by (simp add: fun_eq_iff actorMayReadScope_def Let_def cong: option.case_cong prod.case_cong if_cong)

lemma run_frame_can_read_home [simp]: "can_read_home (deps\<lparr>tg_run := run\<rparr>) = can_read_home deps"
  by (simp add: fun_eq_iff can_read_home_def Let_def cong: option.case_cong prod.case_cong if_cong)

lemma run_frame_trigger_request_of [simp]: "trigger_request_of (deps\<lparr>tg_run := run\<rparr>) = trigger_request_of deps"
  by (simp add: fun_eq_iff trigger_request_of_def Let_def cong: option.case_cong prod.case_cong if_cong)

lemma run_frame_relay_message [simp]: "relay_message (deps\<lparr>tg_run := run\<rparr>) = relay_message deps"
  by (simp add: fun_eq_iff relay_message_def Let_def cong: option.case_cong prod.case_cong if_cong)

lemma run_frame_deliver_answer [simp]: "deliver_answer (deps\<lparr>tg_run := run\<rparr>) = deliver_answer deps"
  by (simp add: fun_eq_iff deliver_answer_def Let_def cong: option.case_cong prod.case_cong if_cong)

lemma run_frame_error_notice [simp]: "error_notice (deps\<lparr>tg_run := run\<rparr>) = error_notice deps"
  by (simp add: fun_eq_iff error_notice_def Let_def cong: option.case_cong prod.case_cong if_cong)

lemma request_allowed:
  assumes "trigger_actor (known_identity tt w) cur spec = Inr actorId" "listed_members deps spec = Inr cur"
    "sp_message spec = None" "can_read_home deps cur actorId spec"
  shows "allowed_request deps tt spec w (trigger_request_of deps cur actorId spec)"
  using assms actor_internal [OF assms(1)]
  by (auto simp: allowed_request_def trigger_request_of_def live_delivery_def Let_def split: prod.split)

lemma body_only_allowed:
  assumes "\<forall>req s. allowed_request deps tt spec w req \<longrightarrow> run req s = run' req s"
    and "trigger_actor (known_identity tt w) cur spec = Inr actorId" "listed_members deps spec = Inr cur"
  shows "trigger_body (deps\<lparr>tg_run := run\<rparr>) tt cur actorId spec = trigger_body (deps\<lparr>tg_run := run'\<rparr>) tt cur actorId spec"
proof
  fix v
  show "trigger_body (deps\<lparr>tg_run := run\<rparr>) tt cur actorId spec v = trigger_body (deps\<lparr>tg_run := run'\<rparr>) tt cur actorId spec v"
  proof (cases "sp_message spec = None \<and> can_read_home deps cur actorId spec")
    case True
    then have "run (trigger_request_of deps cur actorId spec) v = run' (trigger_request_of deps cur actorId spec) v"
      using assms request_allowed by blast
    then show ?thesis
      using True by (simp add: trigger_body_def cong: sum.case_cong prod.case_cong)
  next
    case False
    then show ?thesis
      by (cases "sp_message spec") (auto simp: trigger_body_def)
  qed
qed

text \<open>C21: A turn of a trigger is only ever run for its own fire key, as somebody who is internal when the fire
  starts and may read the trigger's home scope, and with tools of the surface only when the recipient consented
  and the destination is visible to the actor: two turn functions that agree on such requests cannot be told
  apart by a fire.\<close>

theorem trigger_runs_only_allowed:
  assumes "\<forall>req s. allowed_request deps tt spec w req \<longrightarrow> run req s = run' req s"
  shows "runTrigger (deps\<lparr>tg_run := run\<rparr>) tt spec w = runTrigger (deps\<lparr>tg_run := run'\<rparr>) tt spec w"
proof (cases "listed_members deps spec")
  case (Inl e)
  then show ?thesis
    by (simp add: runTrigger_def Let_def listed_members_def)
next
  case (Inr cur)
  show ?thesis
  proof (cases "trigger_actor (known_identity tt w) cur spec")
    case (Inl o')
    then show ?thesis
      using Inr by (simp add: runTrigger_def Let_def listed_members_def known_identity_def)
  next
    case actor: (Inr actorId)
    then show ?thesis
      using Inr body_only_allowed [OF assms actor Inr]
      by (simp add: runTrigger_def Let_def listed_members_def known_identity_def)
  qed
qed

text \<open>Messages put into the outbox one after another.\<close>

definition enqueues :: "(string \<times> ms \<times> enqueue_input) list \<Rightarrow> delivery_store \<Rightarrow> delivery_store" where
  "enqueues es st = fold (\<lambda>(uid, now, inp) s. fst (dl_enqueue uid now inp s)) es st"

text \<open>A message of the fire: to its destination, under its fire key or the key of its error notice.\<close>

fun fire_message :: "trigger_spec \<Rightarrow> destination \<Rightarrow> string \<times> ms \<times> enqueue_input \<Rightarrow> bool" where
  "fire_message spec dest (uid, now, inp) \<longleftrightarrow>
     en_destination inp = dest \<and> en_idempotencyKey inp \<in> {sp_fireKey spec, sp_fireKey spec @ '':err''} \<and>
     en_shadow inp = sp_shadow spec"

text \<open>A state with the deliveries of \<open>w\<close>, or one that a turn left from such a state.\<close>

definition turned :: "'x trigger_deps \<Rightarrow> 'x trigger_world \<Rightarrow> 'x trigger_world \<Rightarrow> bool" where
  "turned deps w u \<longleftrightarrow>
     tw_deliveries u = tw_deliveries w \<or> (\<exists>req s. tw_deliveries s = tw_deliveries w \<and> u = fst (tg_run deps req s))"

text \<open>The ways a step of the fire may change the outbox.\<close>

definition delivers :: "'x trigger_deps \<Rightarrow> string \<Rightarrow> trigger_spec \<Rightarrow> nat \<Rightarrow> delivery_store \<Rightarrow> delivery_store \<Rightarrow> bool" where
  "delivers deps actorId spec n st st' \<longleftrightarrow>
     st' = st \<or> (\<exists>dest es. sp_destination spec = Some dest \<and> consented spec \<and> destinationVisible deps actorId dest \<and>
       length es \<le> n \<and> list_all (fire_message spec dest) es \<and> st' = enqueues es st)"

lemma delivers_refl [simp]: "delivers deps actorId spec n st st"
  by (simp add: delivers_def)

lemma delivers_trans:
  assumes "delivers deps actorId spec n st st'" "delivers deps actorId spec k st' st''"
  shows "delivers deps actorId spec (n + k) st st''"
proof (cases "st' = st \<or> st'' = st'")
  case True
  then show ?thesis
    using assms unfolding delivers_def by (metis trans_le_add1 trans_le_add2)
next
  case False
  then obtain dest es es' where "sp_destination spec = Some dest" "consented spec" "destinationVisible deps actorId dest"
      "length es \<le> n" "list_all (fire_message spec dest) es" "st' = enqueues es st"
      "length es' \<le> k" "list_all (fire_message spec dest) es'" "st'' = enqueues es' st'"
    using assms unfolding delivers_def by fastforce
  then have "length (es @ es') \<le> n + k" "list_all (fire_message spec dest) (es @ es')" "st'' = enqueues (es @ es') st"
    by (simp_all add: enqueues_def)
  then show ?thesis
    using \<open>sp_destination spec = Some dest\<close> \<open>consented spec\<close> \<open>destinationVisible deps actorId dest\<close> unfolding delivers_def by blast
qed

lemma trigger_enqueue_delivers:
  assumes "sp_destination spec = Some dest" "consented spec" "deliverable deps actorId spec"
  shows "delivers deps actorId spec (Suc 0) (tw_deliveries w) (tw_deliveries (trigger_enqueue tt spec dest text atts res as w))"
proof -
  let ?w' = "trigger_enqueue tt spec dest text atts res as w"
  obtain e where "tw_deliveries ?w' = enqueues [e] (tw_deliveries w)" "fire_message spec dest e"
    by (rule that [of "(tt_uid tt, tt_enqueue tt, reach_plain \<lparr>en_destination = dest, en_text = text, en_attachments = nonempty_list atts,
        en_provenance = Some (deliveryProvenance spec (trigger_thread spec) res), en_idempotencyKey = sp_fireKey spec,
        en_shadow = sp_shadow spec, ri_attributeAs = (if truthy as then as else None)\<rparr>)"])
      (simp_all add: enqueues_def trigger_enqueue_def reachEnqueue_def)
  then show ?thesis
    using assms unfolding delivers_def deliverable_def
    by (intro disjI2 exI [of _ dest] exI [of _ "[e]"]) simp
qed

lemma relay_delivers:
  "relay_message deps tt actorId spec message w = (w', n) \<Longrightarrow> delivers deps actorId spec (Suc 0) (tw_deliveries w) (tw_deliveries w')"
  by (auto simp: relay_message_def Let_def trigger_enqueue_delivers split: option.splits if_splits)

lemma answer_delivers:
  "deliver_answer deps tt actorId spec res w = (w', n) \<Longrightarrow> delivers deps actorId spec (Suc 0) (tw_deliveries w) (tw_deliveries w')"
  by (auto simp: deliver_answer_def Let_def trigger_enqueue_delivers split: option.splits if_splits)

lemma body_delivers:
  assumes "fst (trigger_body deps tt cur actorId spec w) = w'"
  shows "\<exists>u. turned deps w u \<and> delivers deps actorId spec (Suc 0) (tw_deliveries u) (tw_deliveries w')"
proof (cases "sp_message spec")
  case (Some message)
  then have "delivers deps actorId spec (Suc 0) (tw_deliveries w) (tw_deliveries w')"
    using assms by (auto simp: trigger_body_def map_prod_def split: prod.splits dest: relay_delivers)
  then show ?thesis
    by (auto simp: turned_def)
next
  case None
  show ?thesis
  proof (cases "can_read_home deps cur actorId spec")
    case False
    then show ?thesis
      using assms None by (auto simp: trigger_body_def turned_def intro!: exI [of _ w])
  next
    case True
    define u where "u = fst (tg_run deps (trigger_request_of deps cur actorId spec) w)"
    have "turned deps w u"
      by (auto simp: turned_def u_def)
    moreover have "delivers deps actorId spec (Suc 0) (tw_deliveries u) (tw_deliveries w')"
      using assms None True
      by (auto simp: trigger_body_def u_def map_prod_def split: prod.splits sum.splits dest: answer_delivers)
    ultimately show ?thesis by blast
  qed
qed

lemma once_delivers:
  assumes "run_once opts k check finish body w = (w', r)"
  shows "r = Inr None \<and> tw_deliveries w' = tw_deliveries w \<or>
    r \<noteq> Inr None \<and> (\<exists>s. tw_deliveries w' = tw_deliveries (fst (body (w\<lparr>tw_idem := s\<rparr>))))"
proof (cases "once_enter k (tw_idem w)")
  case (Some s)
  show ?thesis
  proof (cases "snd (isCommitted opts k check s)")
    case True
    then show ?thesis
      using assms Some by (auto simp: run_once_def split: prod.splits)
  next
    case False
    then have "r \<noteq> Inr None \<and> tw_deliveries w' = tw_deliveries (fst (body (w\<lparr>tw_idem := fst (isCommitted opts k check s)\<rparr>)))"
      using assms Some by (auto simp: run_once_def split: prod.splits sum.splits)
    then show ?thesis by blast
  qed
qed (use assms in \<open>simp add: run_once_def\<close>)

lemma turned_idem: "turned deps (w\<lparr>tw_idem := s\<rparr>) = turned deps w" "turned deps (w\<lparr>tw_identity := i\<rparr>) = turned deps w"
  by (simp_all add: fun_eq_iff turned_def)

lemma notice_delivers:
  "delivers deps actorId spec (Suc 0) (tw_deliveries w) (tw_deliveries (error_notice deps tt actorId spec o' w))"
proof (cases "sp_destination spec")
  case (Some dest)
  show ?thesis
  proof (cases "sp_errorNotice spec \<noteq> None \<and> consented spec \<and> deliverable deps actorId spec \<and> isTriggerFailure o'")
    case True
    then obtain inp where "tw_deliveries (error_notice deps tt actorId spec o' w) = enqueues [(tt_noticeUid tt, tt_notice tt, inp)] (tw_deliveries w)"
        "list_all (fire_message spec dest) [(tt_noticeUid tt, tt_notice tt, inp)]"
      using Some by (fastforce simp: error_notice_def enqueues_def)
    then show ?thesis
      using True Some unfolding delivers_def deliverable_def
      by (intro disjI2 exI [of _ dest] exI [of _ "[(tt_noticeUid tt, tt_notice tt, inp)]"]) simp
  next
    case False
    then show ?thesis
      using Some by (auto simp: error_notice_def split: option.split)
  qed
qed (simp add: error_notice_def split: option.split)

definition fire_once ::
  "'x trigger_deps \<Rightarrow> trigger_times \<Rightarrow> principal list option \<Rightarrow> string \<Rightarrow> trigger_spec \<Rightarrow> 'x trigger_world \<Rightarrow>
   'x trigger_world \<times> trigger_notes option outcome" where
  "fire_once deps tt cur actorId spec w =
     run_once (tg_idemOptions deps) (sp_fireKey spec) (tt_check tt) (tt_done tt) (trigger_body deps tt cur actorId spec)
       (w\<lparr>tw_identity := known_identity tt w\<rparr>)"

lemma runTrigger_refused:
  assumes "listed_members deps spec = Inr cur" "trigger_actor (known_identity tt w) cur spec = Inl failed"
  shows "runTrigger deps tt spec w = (w\<lparr>tw_identity := known_identity tt w\<rparr>, Inr failed)"
  using assms by (simp add: runTrigger_def Let_def listed_members_def known_identity_def)

lemma runTrigger_acts:
  assumes "listed_members deps spec = Inr cur" "trigger_actor (known_identity tt w) cur spec = Inr actorId"
  shows "runTrigger deps tt spec w =
    (case snd (fire_once deps tt cur actorId spec w) of
       Inl e \<Rightarrow> (fst (fire_once deps tt cur actorId spec w), Inl e)
     | Inr r \<Rightarrow> (error_notice deps tt actorId spec (trigger_outcome_of r) (fst (fire_once deps tt cur actorId spec w)),
                Inr (trigger_outcome_of r)))"
proof -
  obtain v q where v: "fire_once deps tt cur actorId spec w = (v, q)"
    by (cases "fire_once deps tt cur actorId spec w")
  then show ?thesis
    using assms by (cases q) (simp_all add: runTrigger_def Let_def listed_members_def known_identity_def fire_once_def)
qed

lemma runTrigger_cases:
  assumes "runTrigger deps tt spec w = (w', Inr o')"
  obtains (refused) cur where "trigger_actor (known_identity tt w) cur spec = Inl o'"
      "w' = w\<lparr>tw_identity := known_identity tt w\<rparr>"
    | (acts) cur actorId v r where "listed_members deps spec = Inr cur" "trigger_actor (known_identity tt w) cur spec = Inr actorId"
      "fire_once deps tt cur actorId spec w = (v, Inr r)"
      "w' = error_notice deps tt actorId spec (trigger_outcome_of r) v" "o' = trigger_outcome_of r"
proof (cases "listed_members deps spec")
  case (Inl e)
  then show ?thesis
    using assms by (simp add: runTrigger_def Let_def listed_members_def)
next
  case cur: (Inr cur)
  show ?thesis
  proof (cases "trigger_actor (known_identity tt w) cur spec")
    case (Inl failed)
    then show ?thesis
      using assms runTrigger_refused [OF cur Inl] by (intro refused) simp_all
  next
    case (Inr actorId)
    obtain v q where v: "fire_once deps tt cur actorId spec w = (v, q)"
      by (cases "fire_once deps tt cur actorId spec w")
    show ?thesis
    proof (cases q)
      case (Inl e)
      then show ?thesis
        using assms runTrigger_acts [OF cur Inr] v by simp
    next
      case r: (Inr r)
      then have "w' = error_notice deps tt actorId spec (trigger_outcome_of r) v" "o' = trigger_outcome_of r"
        using assms runTrigger_acts [OF cur Inr] v by auto
      then show ?thesis
        using acts [OF cur Inr] v r by blast
    qed
  qed
qed

text \<open>C22: Besides what its turn does, a fire puts at most two messages into the outbox, under its fire key and the
  key of its error notice, and only when it ran and its destination's recipient consented and the destination is
  visible to an acting person who is internal; otherwise the outbox is as the turn left it.\<close>

theorem trigger_delivers_consented:
  assumes fired: "runTrigger deps tt spec w = (w', Inr o')"
  shows "\<exists>u. turned deps w u \<and>
    (tw_deliveries w' = tw_deliveries u \<or>
     (to_ran o' \<and> (\<exists>dest actorId es. sp_destination spec = Some dest \<and> consented spec \<and>
        is_internal_id (known_identity tt w) actorId \<and> destinationVisible deps actorId dest \<and>
        length es \<le> 2 \<and> list_all (fire_message spec dest) es \<and> tw_deliveries w' = enqueues es (tw_deliveries u))))"
  using fired
proof (cases rule: runTrigger_cases)
  case (refused cur)
  then show ?thesis
    by (auto simp: turned_def)
next
  case (acts cur actorId v r)
  note once = once_delivers [OF acts(3) [unfolded fire_once_def]]
  show ?thesis
  proof (cases r)
    case None
    then have "tw_deliveries w' = tw_deliveries v"
      by (simp add: acts(4) error_notice_def trigger_outcome_of_def isTriggerFailure_def split: option.split)
    moreover have "turned deps w v"
      using once None by (simp add: turned_def)
    ultimately show ?thesis by blast
  next
    case (Some n)
    let ?w = "\<lambda>s. w\<lparr>tw_identity := known_identity tt w, tw_idem := s\<rparr>"
    obtain s where s: "tw_deliveries v = tw_deliveries (fst (trigger_body deps tt cur actorId spec (?w s)))"
      using once Some by auto
    obtain u where "turned deps (?w s) u" and d: "delivers deps actorId spec (Suc 0) (tw_deliveries u) (tw_deliveries v)"
      using body_delivers [OF refl, where w = "?w s"] unfolding s by blast
    then have u: "turned deps w u"
      by (simp add: turned_idem)
    have "delivers deps actorId spec (Suc 0 + Suc 0) (tw_deliveries u) (tw_deliveries w')"
      unfolding acts(4) by (rule delivers_trans [OF d notice_delivers])
    then have "delivers deps actorId spec 2 (tw_deliveries u) (tw_deliveries w')"
      by (simp add: numeral_2_eq_2)
    moreover have "to_ran o'"
      by (simp add: acts(5) Some trigger_outcome_of_def Let_def)
    ultimately show ?thesis
      using u actor_internal [OF acts(2)] unfolding delivers_def by blast
  qed
qed

lemma map_get_filter: "map_get m k = Some v \<Longrightarrow> P (k, v) \<Longrightarrow> map_get (filter P m) k = Some v"
  by (induction m) (auto split: if_splits)

lemma run_done_remembers:
  "0 \<le> io_retentionMs opts \<Longrightarrow> map_get (is_done (once_done opts k t s)) k = Some t"
  by (auto simp: once_done_def pruneIfDue_def Let_def intro!: map_get_filter)

lemma run_once_remembers:
  assumes "run_once opts k check finish body w = (w', Inr (Some r))" "0 \<le> io_retentionMs opts"
  shows "map_get (is_done (tw_idem w')) k = Some finish"
proof -
  obtain v where "w' = v\<lparr>tw_idem := once_leave k (once_done opts k finish (once_put k finish (tw_idem v)))\<rparr>"
    using assms(1) by (auto simp: run_once_def split: option.splits prod.splits bool.splits sum.splits)
  then show ?thesis
    using run_done_remembers [OF assms(2)] by (simp add: once_leave_def)
qed

lemma run_once_skips:
  assumes "map_get (is_done (tw_idem w)) k = Some t" "check - io_retentionMs opts \<le> t"
  shows "\<exists>s. run_once opts k check finish body w = (w\<lparr>tw_idem := s\<rparr>, Inr None)"
proof (cases "once_enter k (tw_idem w)")
  case None
  then show ?thesis
    by (auto simp: run_once_def intro: exI [of _ "tw_idem w"])
next
  case (Some s)
  then have "isCommitted opts k check s = (s, True)"
    using assms by (auto simp: isCommitted_def Let_def once_enter_def split: if_splits)
  then show ?thesis
    using Some by (auto simp: run_once_def)
qed

lemma notice_frame [simp]:
  "tw_idem (error_notice deps tt actorId spec o' w) = tw_idem w"
  "tw_rest (error_notice deps tt actorId spec o' w) = tw_rest w"
  by (auto simp: error_notice_def split: option.split)


section \<open>An example\<close>

definition demo_times :: "ms \<Rightarrow> string \<Rightarrow> trigger_times" where
  "demo_times t uid =
     \<lparr>tt_refresh = t, tt_refreshed = t, tt_check = t, tt_enqueue = t, tt_uid = uid, tt_done = t, tt_notice = t, tt_noticeUid = uid @ ''!''\<rparr>"

definition demo_fire_deps :: "nat trigger_deps" where
  "demo_fire_deps =
     \<lparr>tg_idemOptions = idem_options_of None None,
      tg_run = (\<lambda>req w. (w\<lparr>tw_rest := tw_rest w + 1\<rparr>, Inr (turn_result_of OkT\<lparr>tr_reply := Some ''done''\<rparr>))),
      tg_currentScopeMembers = None, tg_directory = None\<rparr>"

definition demo_fire_world :: "nat trigger_world" where
  "demo_fire_world =
     \<lparr>tw_deliveries = empty_delivery_store, tw_idem = idem_start None 0, tw_identity = identity_start [], tw_rest = 0\<rparr>"

definition demo_spec :: trigger_spec where
  "demo_spec =
     \<lparr>sp_owner = ''a@x'', sp_ownerScopeId = ''personal:a@x'', sp_input = ''report'', sp_securityScreenData = None,
      sp_fireKey = ''cron:1:5'', sp_surface = ''cron'', sp_destination = Some (principalDestination ''b@x'' ''a@x''),
      sp_message = None, sp_threadRef = None, sp_runAs = None, sp_members = None,
      sp_recipientConsent = Some \<lparr>rc_recipientId = ''B@x'', rc_status = ConsentAccepted, rc_decidedAt = None\<rparr>,
      sp_recipientConsentRequired = True, sp_shadow = False, sp_thinkingLevel = None, sp_readOnly = False,
      sp_turnWallClockMs = None, sp_errorNotice = None\<rparr>"

definition demo_outcome :: "bool \<Rightarrow> trigger_outcome" where
  "demo_outcome b =
     \<lparr>to_authzFailed = False, to_ran = b, to_status = (if b then Some OkT else None), to_note = None,
      to_reply = (if b then Some ''done'' else None), to_sessionId = None\<rparr>"

definition demo_fired :: "nat trigger_world" where
  "demo_fired = fst (runTrigger demo_fire_deps (demo_times 7 ''d1'') demo_spec demo_fire_world)"

definition demo_again :: "nat trigger_world" where
  "demo_again = fst (runTrigger demo_fire_deps (demo_times 9 ''d2'') demo_spec demo_fired)"

lemma demo_fire: "runTrigger demo_fire_deps (demo_times 7 ''d1'') demo_spec demo_fire_world = (demo_fired, Inr (demo_outcome True))"
proof (rule prod_eqI)
  show "snd (runTrigger demo_fire_deps (demo_times 7 ''d1'') demo_spec demo_fire_world) = snd (demo_fired, Inr (demo_outcome True))"
    by code_simp
qed (simp add: demo_fired_def)

lemma demo_fire_again: "runTrigger demo_fire_deps (demo_times 9 ''d2'') demo_spec demo_fired = (demo_again, Inr (demo_outcome False))"
proof (rule prod_eqI)
  show "snd (runTrigger demo_fire_deps (demo_times 9 ''d2'') demo_spec demo_fired) = snd (demo_again, Inr (demo_outcome False))"
    by code_simp
qed (simp add: demo_again_def)


lemma trigger_delivers_consented_witness:
  "\<exists>u. turned demo_fire_deps demo_fire_world u \<and> (tw_deliveries demo_fired = tw_deliveries u \<or> consented demo_spec)"
  using trigger_delivers_consented [OF demo_fire] by blast

text \<open>A turn that answers other fire keys differently makes no difference.\<close>

lemma trigger_runs_only_allowed_witness:
  "let run = tg_run demo_fire_deps; run' = (\<lambda>req w. if rq_idempotencyKey req = ''cron:1:5'' then run req w else (w, Inl (Error ''other''))) in
   runTrigger (demo_fire_deps\<lparr>tg_run := run\<rparr>) (demo_times 7 ''d1'') demo_spec demo_fire_world =
   runTrigger (demo_fire_deps\<lparr>tg_run := run'\<rparr>) (demo_times 7 ''d1'') demo_spec demo_fire_world"
  unfolding Let_def by (rule trigger_runs_only_allowed) (simp add: allowed_request_def demo_spec_def)

end
