(* ===== verification/Cron_Scheduler.thy ===== *)
theory Cron_Scheduler
  imports Cron_Store Run_Trigger
begin

text \<open>
  The cron scheduler: \<open>cron/scheduler.ts\<close> over the cron store and \<open>runTrigger\<close>. The job queue is the list of
  jobs handed to it; the hash, the leader lease, the sweep of asks, clock readings and fresh identifiers are
  parameters. The timers that start and stop the sweeps are not modelled. The em dash U+2014 and the ellipsis
  U+2026 lie outside the modelled code units and are written as 0x97 and 0x85.
\<close>

section \<open>Data\<close>

record cron_job =
  jb_cronId :: string
  jb_scheduledAt :: ms

record 'y sched_rest =
  sr_crons :: cron_store
  sr_jobs :: "cron_job list"
  sr_turns :: 'y

type_synonym 'y sched_world = "'y sched_rest trigger_world"

text \<open>\<open>sc_roster\<close> is the listing of the directory, if there is one.\<close>

record 'y sched_deps =
  sc_trigger :: "'y sched_rest trigger_deps"
  sc_env :: calendar_env
  sc_hash :: "string \<Rightarrow> string"
  sc_roster :: "directory_member list outcome"
  sc_maxFiresPerTick :: nat
  sc_sweepAsks :: "ms \<Rightarrow> 'y sched_world \<Rightarrow> 'y sched_world"
  sc_hasQueue :: bool

definition on_crons :: "(cron_store \<Rightarrow> cron_store) \<Rightarrow> 'y sched_world \<Rightarrow> 'y sched_world" where
  "on_crons f w = w\<lparr>tw_rest := (tw_rest w)\<lparr>sr_crons := f (sr_crons (tw_rest w))\<rparr>\<rparr>"

abbreviation crons_of :: "'y sched_world \<Rightarrow> cron_store" where
  "crons_of w \<equiv> sr_crons (tw_rest w)"

definition enqueue_fire :: "cron_job \<Rightarrow> 'y sched_world \<Rightarrow> 'y sched_world" where
  "enqueue_fire job w = w\<lparr>tw_rest := (tw_rest w)\<lparr>sr_jobs := sr_jobs (tw_rest w) @ [job]\<rparr>\<rparr>"

section \<open>What a fire says\<close>

definition CRON_FIRE_REPLY_MAX_CHARS :: nat where
  "CRON_FIRE_REPLY_MAX_CHARS = 2000"

definition truncate_to :: "string \<Rightarrow> nat \<Rightarrow> string" where
  "truncate_to s n = (if length s \<le> n then s else take (n - 3) s @ ''...'')"

definition cronFireLogReply :: "string \<Rightarrow> string" where
  "cronFireLogReply s =
     (if js_includes s ''[Cron runtime context]'' \<or> js_includes s ''[End cron runtime context]''
      then ''[reply echoed cron runtime context; omitted]''
      else truncate_to s CRON_FIRE_REPLY_MAX_CHARS)"

definition cronFireThreadRef :: "(string \<Rightarrow> string) \<Rightarrow> string \<Rightarrow> string \<Rightarrow> string" where
  "cronFireThreadRef hash cronId fireKey = ''cron:'' @ cronId @ '':fire:'' @ hash fireKey"

definition CRON_MENTION_ROSTER_MAX :: nat where
  "CRON_MENTION_ROSTER_MAX = 40"

text \<open>\<open>/^[A-Z0-9]+$/i\<close>.\<close>

definition slack_like :: "string \<Rightarrow> bool" where
  "slack_like s \<longleftrightarrow> s \<noteq> [] \<and>
     list_all (\<lambda>c. CHR ''a'' \<le> js_lower_char c \<and> js_lower_char c \<le> CHR ''z'' \<or> CHR ''0'' \<le> c \<and> c \<le> CHR ''9'') s"

definition mentionable :: "directory_member \<Rightarrow> string" where
  "mentionable m =
     (let mention = (case dmem_slackId m of
                       Some s \<Rightarrow> Some s
                     | None \<Rightarrow> if slack_like (dmem_principalId m) then Some (dmem_principalId m) else None)
      in ''@'' @ dmem_displayName m @ (if truthy mention then '' (<@'' @ the mention @ ''>)'' else []))"

definition cronMentionRoster :: "'y sched_deps \<Rightarrow> cron \<Rightarrow> string option" where
  "cronMentionRoster deps c =
     (let scope = Option.bind (tb_destination c) de_audienceScopeId;
          kind = fst (parseScopeId (case scope of None \<Rightarrow> [] | Some s \<Rightarrow> s));
          members = (case co_members c of None \<Rightarrow> [] | Some ms \<Rightarrow> ms) in
      if tg_directory (sc_trigger deps) = None \<or> \<not> truthy scope then None
      else if kind \<noteq> Some Channel \<and> kind \<noteq> Some Group then None
      else if members = [] \<or> length members > CRON_MENTION_ROSTER_MAX then None
      else
        (let byId = map (\<lambda>m. (dmem_principalId m, m)) (rev (caught [] (sc_roster deps)));
             roster = map mentionable (filter (\<lambda>m. dmem_type m = Internal) (List.map_filter (\<lambda>p. map_get byId (p_id p)) members))
         in if roster = [] then None else Some (js_join '', '' roster)))"

definition starts_command :: "string \<Rightarrow> string \<Rightarrow> bool" where
  "starts_command s cmd \<longleftrightarrow> js_startsWith s cmd \<and> (case drop (length cmd) s of [] \<Rightarrow> False | c # _ \<Rightarrow> js_ws c)"

definition persistence_lines :: "cron \<Rightarrow> string list" where
  "persistence_lines c =
     [''Each fire runs as a fresh thread with no memory of previous fires. Two things persist between fires:'',
      ''- Your workspace disk. Durable state '' @ [CHR 0x97] @ '' notes, queues, checkpoints, anything a future fire should know '' @
        [CHR 0x97] @ '' lives in files there.'',
      ''- The stored task below: the standing instructions every fire receives. Edit it (via the cron tool) only to change what future fires are told to do.'',
      ''The retained fire log (cron tool, action=\"runs\", id=\"'' @ tb_id c @
        ''\") shows how prior fires went '' @ [CHR 0x97] @ '' useful when this run hits errors or surprising state.'']"

definition roster_lines :: "string option \<Rightarrow> string list" where
  "roster_lines roster =
     (if \<not> truthy roster then []
      else [''People here: '' @ the roster @ ''.'',
            ''If this reminder is for a specific person, @-mention them with their <@'' @ [CHR 0x85] @
              ''> id so they're actually notified '' @ [CHR 0x97] @ '' addressing them by name alone does not ping them.''])"

definition renderCronFireInput :: "cron \<Rightarrow> string option \<Rightarrow> string" where
  "renderCronFireInput c roster =
     (let task = (case co_action c of None \<Rightarrow> [] | Some a \<Rightarrow> a); start = dropWhile js_ws task in
      if js_trim task = [] then task
      else if starts_command start ''!run'' \<or> starts_command start ''!scratch'' then task
      else js_join [NL]
        ([''[Cron runtime context]'',
          ''Cron id: '' @ tb_id c @ (if truthy (co_title c) then '' ('' @ the (co_title c) @ '')'' else []) @ ''.''] @
         persistence_lines c @ roster_lines roster @
         [''[End cron runtime context]'', [], ''Stored cron task:'', task]))"

section \<open>Firing a cron\<close>

definition one_shot :: "cron \<Rightarrow> bool" where
  "one_shot c \<longleftrightarrow> cs_everyMs (co_schedule c) = None \<and> cs_cron (co_schedule c) = None"

definition cron_trigger_spec :: "'y sched_deps \<Rightarrow> cron \<Rightarrow> string \<Rightarrow> string \<Rightarrow> trigger_spec" where
  "cron_trigger_spec deps c fireKey threadRef =
     \<lparr>sp_owner = tb_owner c, sp_ownerScopeId = tb_ownerScopeId c, sp_input = renderCronFireInput c (cronMentionRoster deps c),
      sp_securityScreenData = None, sp_fireKey = fireKey, sp_surface = ''cron'', sp_destination = tb_destination c,
      sp_message = co_message c, sp_threadRef = Some threadRef, sp_runAs = co_runAs c, sp_members = co_members c,
      sp_recipientConsent = tb_recipientConsent c, sp_recipientConsentRequired = (\<not> one_shot c), sp_shadow = False,
      sp_thinkingLevel = None, sp_readOnly = False, sp_turnWallClockMs = None, sp_errorNotice = None\<rparr>"

definition failed_fire :: "string \<Rightarrow> string \<Rightarrow> ms \<Rightarrow> ms option \<Rightarrow> js_error \<Rightarrow> cron_fire" where
  "failed_fire fireKey threadRef t scheduledAt e =
     \<lparr>cf_fireKey = fireKey, cf_threadRef = threadRef, cf_firedAt = t, cf_scheduledAt = scheduledAt,
      cf_status = Some FailedT, cf_note = Some (truncate_to (errMessage e) CRON_FIRE_REPLY_MAX_CHARS),
      cf_reply = None, cf_sessionId = None\<rparr>"

definition logged_fire :: "string \<Rightarrow> string \<Rightarrow> ms \<Rightarrow> ms option \<Rightarrow> trigger_outcome \<Rightarrow> cron_fire" where
  "logged_fire fireKey threadRef t scheduledAt o' =
     \<lparr>cf_fireKey = fireKey, cf_threadRef = threadRef, cf_firedAt = t, cf_scheduledAt = scheduledAt,
      cf_status = to_status o',
      cf_note = (if truthy (to_note o') then Some (truncate_to (the (to_note o')) CRON_FIRE_REPLY_MAX_CHARS) else None),
      cf_reply = map_option cronFireLogReply (to_reply o'),
      cf_sessionId = (if truthy (to_sessionId o') then to_sessionId o' else None)\<rparr>"

text \<open>The answer tells whether authorisation failed.\<close>

definition cron_fire_op ::
  "'y sched_deps \<Rightarrow> trigger_times \<Rightarrow> cron \<Rightarrow> ms \<Rightarrow> string \<Rightarrow> ms option \<Rightarrow> 'y sched_world \<Rightarrow> 'y sched_world \<times> bool outcome" where
  "cron_fire_op deps tt c t fireKey scheduledAt w =
     (let threadRef = cronFireThreadRef (sc_hash deps) (tb_id c) fireKey in
      case runTrigger (sc_trigger deps) tt (cron_trigger_spec deps c fireKey threadRef) w of
        (w', Inl e) \<Rightarrow> (on_crons (recordFire (tb_id c) (failed_fire fireKey threadRef t scheduledAt e)) w', Inl e)
      | (w', Inr o') \<Rightarrow>
          (let w1 = (if to_ran o' \<or> to_authzFailed o'
                     then on_crons (recordFire (tb_id c) (logged_fire fireKey threadRef t scheduledAt o')) w' else w')
           in if to_authzFailed o' then (on_crons (cron_setEnabled (tb_id c) False) w1, Inr True)
              else (if one_shot c then on_crons (cron_setEnabled (tb_id c) False) w1 else w1, Inr False)))"

definition slot_key :: "cron \<Rightarrow> ms \<Rightarrow> string" where
  "slot_key c slot = ''cron:'' @ tb_id c @ '':'' @ js_of_int slot"

text \<open>The due crons of one tick, one after another; an error ends the tick.\<close>

fun fire_batch ::
  "'y sched_deps \<Rightarrow> (nat \<Rightarrow> trigger_times) \<Rightarrow> nat \<Rightarrow> ms \<Rightarrow> (cron \<times> ms) list \<Rightarrow> 'y sched_world \<Rightarrow>
   'y sched_world \<times> unit outcome" where
  "fire_batch deps tts n t [] w = (w, Inr ())"
| "fire_batch deps tts n t ((c, slot) # due) w =
     (case cron_fire_op deps (tts n) c t (slot_key c slot) (Some slot) w of
        (w', Inl e) \<Rightarrow> (w', Inl e)
      | (w', Inr True) \<Rightarrow> fire_batch deps tts (Suc n) t due w'
      | (w', Inr False) \<Rightarrow>
          (case markFired (sc_env deps) (tb_id c) t (Some slot) (crons_of w') of
             Inl e \<Rightarrow> (w', Inl e)
           | Inr st \<Rightarrow> fire_batch deps tts (Suc n) t due (on_crons (\<lambda>u. st) w')))"

definition fireDue ::
  "'y sched_deps \<Rightarrow> (nat \<Rightarrow> trigger_times) \<Rightarrow> ms \<Rightarrow> 'y sched_world \<Rightarrow> 'y sched_world \<times> unit outcome" where
  "fireDue deps tts t w =
     (case cron_due (sc_env deps) t (crons_of w) of
        Inl e \<Rightarrow> (w, Inl e)
      | Inr due \<Rightarrow> fire_batch deps tts 0 t (take (sc_maxFiresPerTick deps) due) w)"

text \<open>\<open>held\<close> is whether the leader lease runs the tick.\<close>

definition scheduler_tick ::
  "'y sched_deps \<Rightarrow> (nat \<Rightarrow> trigger_times) \<Rightarrow> bool \<Rightarrow> ms \<Rightarrow> 'y sched_world \<Rightarrow> 'y sched_world \<times> unit outcome" where
  "scheduler_tick deps tts held t w =
     (if \<not> held then (w, Inr ())
      else (case fireDue deps tts t w of
              (w', Inl e) \<Rightarrow> (w', Inl e)
            | (w', Inr u) \<Rightarrow> (sc_sweepAsks deps t w', Inr ())))"

section \<open>Jobs\<close>

definition enqueueNext :: "'y sched_deps \<Rightarrow> string \<Rightarrow> 'y sched_world \<Rightarrow> 'y sched_world \<times> unit outcome" where
  "enqueueNext deps cronId w =
     (case cron_get cronId (crons_of w) of
        None \<Rightarrow> (w, Inr ())
      | Some c \<Rightarrow>
          if co_archived c \<or> \<not> tb_enabled c then (w, Inr ())
          else (case cron_next_slot (sc_env deps) c of
                  Inl e \<Rightarrow> (w, Inl e)
                | Inr None \<Rightarrow> (w, Inr ())
                | Inr (Some slot) \<Rightarrow> (enqueue_fire \<lparr>jb_cronId = cronId, jb_scheduledAt = slot\<rparr> w, Inr ())))"

text \<open>The claimed part of \<open>fireJob\<close>; \<open>c\<close> is the cron read before the claim.\<close>

definition fire_claimed ::
  "'y sched_deps \<Rightarrow> trigger_times \<Rightarrow> cron_job \<Rightarrow> ms \<Rightarrow> cron \<Rightarrow> 'y sched_world \<Rightarrow> 'y sched_world \<times> unit outcome" where
  "fire_claimed deps tt job t c w =
     (let slot = jb_scheduledAt job;
          unclaim = on_crons (unclaimSlot (jb_cronId job) slot t (tb_lastFiredAt c))
      in case cron_fire_op deps tt c t (slot_key c slot) (Some slot) w of
           (w', Inl e) \<Rightarrow> (unclaim w', Inr ())
         | (w', Inr True) \<Rightarrow> (unclaim w', Inr ())
         | (w', Inr False) \<Rightarrow> enqueueNext deps (jb_cronId job) w')"

definition fireJob ::
  "'y sched_deps \<Rightarrow> trigger_times \<Rightarrow> ms \<Rightarrow> cron_job \<Rightarrow> 'y sched_world \<Rightarrow> 'y sched_world \<times> unit outcome" where
  "fireJob deps tt t job w =
     (case cron_get (jb_cronId job) (crons_of w) of
        None \<Rightarrow> (w, Inr ())
      | Some c \<Rightarrow>
          if co_archived c \<or> \<not> tb_enabled c then (w, Inr ())
          else (case cron_next_slot (sc_env deps) c of
                  Inl e \<Rightarrow> (w, Inl e)
                | Inr slot \<Rightarrow>
                    if slot \<noteq> Some (jb_scheduledAt job) then (w, Inr ())
                    else if t < jb_scheduledAt job then (enqueue_fire job w, Inr ())
                    else (case claimSlot (sc_env deps) (jb_cronId job) (jb_scheduledAt job) t (crons_of w) of
                            Inl e \<Rightarrow> (w, Inl e)
                          | Inr (st, False) \<Rightarrow> (on_crons (\<lambda>u. st) w, Inr ())
                          | Inr (st, True) \<Rightarrow> fire_claimed deps tt job t c (on_crons (\<lambda>u. st) w))))"

text \<open>\<open>reconcile\<close> hands every next slot to the queue; an error ends the loop and is logged.\<close>

fun enqueue_slots :: "'y sched_deps \<Rightarrow> cron list \<Rightarrow> 'y sched_world \<Rightarrow> 'y sched_world" where
  "enqueue_slots deps [] w = w"
| "enqueue_slots deps (c # cs) w =
     (if co_archived c \<or> \<not> tb_enabled c then enqueue_slots deps cs w
      else (case cron_next_slot (sc_env deps) c of
              Inl e \<Rightarrow> w
            | Inr None \<Rightarrow> enqueue_slots deps cs w
            | Inr (Some slot) \<Rightarrow> enqueue_slots deps cs (enqueue_fire \<lparr>jb_cronId = tb_id c, jb_scheduledAt = slot\<rparr> w)))"

definition reconcile :: "'y sched_deps \<Rightarrow> ms \<Rightarrow> 'y sched_world \<Rightarrow> 'y sched_world" where
  "reconcile deps now w = sc_sweepAsks deps now (enqueue_slots deps (cron_list (crons_of w)) w)"

definition runNow ::
  "'y sched_deps \<Rightarrow> trigger_times \<Rightarrow> ms \<Rightarrow> string \<Rightarrow> string \<Rightarrow> 'y sched_world \<Rightarrow> 'y sched_world \<times> unit outcome" where
  "runNow deps tt now uid cronId w =
     (case cron_get cronId (crons_of w) of
        None \<Rightarrow> (w, Inr ())
      | Some c \<Rightarrow>
          if co_archived c \<or> \<not> tb_enabled c then (w, Inr ())
          else map_prod id (map_sum id (\<lambda>b. ())) (cron_fire_op deps tt c now (''cron:'' @ tb_id c @ '':manual:'' @ uid) None w))"

definition notifyChanged :: "'y sched_deps \<Rightarrow> string \<Rightarrow> 'y sched_world \<Rightarrow> 'y sched_world" where
  "notifyChanged deps cronId w = (if \<not> sc_hasQueue deps then w else fst (enqueueNext deps cronId w))"

section \<open>A fire is accounted for\<close>

text \<open>The log of a cron has the fire, with its status when one is given.\<close>

definition fire_logged :: "string \<Rightarrow> ms \<Rightarrow> turn_status option \<Rightarrow> cron \<Rightarrow> bool" where
  "fire_logged fireKey t status c \<longleftrightarrow>
     (\<exists>e \<in> set (case co_fireLog c of None \<Rightarrow> [] | Some es \<Rightarrow> es). cf_fireKey e = fireKey \<and> cf_firedAt e = t \<and>
        (status = None \<or> cf_status e = status))"

lemma merge_fire_fields:
  "cf_fireKey (merge_fire old e) = cf_fireKey e" "cf_firedAt (merge_fire old e) = cf_firedAt e"
  "cf_status e = Some st \<Longrightarrow> cf_status (merge_fire old e) = Some st"
  by (auto simp: merge_fire_def newer_def split: option.split)

lemma add_fire_logged: "fire_logged (cf_fireKey e) (cf_firedAt e) (cf_status e) (add_fire e c)"
proof -
  define byKey where "byKey = fold (\<lambda>x m. map_set (cf_fireKey x) x m) (case co_fireLog c of None \<Rightarrow> [] | Some es \<Rightarrow> es) []"
  define new where "new = merge_fire (map_get byKey (cf_fireKey e)) e"
  have "new \<in> set (map_values (map_set (cf_fireKey e) new byKey))"
    by (rule map_get_in_values [of _ "cf_fireKey e"]) simp
  then have "new \<in> set (the (co_fireLog (add_fire e c)))" "co_fireLog (add_fire e c) \<noteq> None"
    by (simp_all add: add_fire_def Let_def byKey_def new_def)
  moreover have "cf_status e = None \<or> cf_status new = cf_status e"
    by (cases "cf_status e") (simp_all add: new_def merge_fire_fields)
  ultimately show ?thesis
    unfolding fire_logged_def by (auto simp: new_def merge_fire_fields split: option.split intro!: bexI [of _ new])
qed

lemma fire_logged_enabled [simp]: "fire_logged k t st (c\<lparr>tb_enabled := b\<rparr>) = fire_logged k t st c"
  by (simp add: fire_logged_def)

lemma fire_logged_any: "fire_logged k t st c \<Longrightarrow> fire_logged k t None c"
  by (auto simp: fire_logged_def)

lemma crons_on_crons [simp]: "crons_of (on_crons f w) = f (crons_of w)"
  by (simp add: on_crons_def)

lemma get_recordFire: "cron_get i (recordFire i e st) = map_option (add_fire e) (cron_get i st)"
  by (simp add: cron_get_def recordFire_def dm_get_update)

lemma get_disabled: "cron_get i (cron_setEnabled i False st) = map_option (\<lambda>c. c\<lparr>tb_enabled := False\<rparr>) (cron_get i st)"
  by (simp add: cron_get_def cron_setEnabled_def dm_get_merge)

lemmas fire_record = cron_fire_op_def get_recordFire get_disabled failed_fire_def logged_fire_def

lemma logged_by_record:
  "cf_fireKey e = k \<Longrightarrow> cf_firedAt e = t \<Longrightarrow> cf_status e = st \<Longrightarrow> fire_logged k t st (add_fire e c)"
  using add_fire_logged by blast

text \<open>C24: A fire of a cron leaves its trace, whatever the turn did: if the cron still exists, a fire that threw is
  logged as failed under its key, one that was not authorised is logged and disables the cron, and a cron
  without a recurring schedule is disabled by every fire that did not throw.\<close>

theorem cron_fire_accounted:
  assumes fired: "cron_fire_op deps tt c t key slot w = (w', r)" and here: "cron_get (tb_id c) (crons_of w') = Some c'"
  shows "(case r of
            Inl e \<Rightarrow> fire_logged key t (Some FailedT) c'
          | Inr unauthorised \<Rightarrow>
              (if unauthorised then fire_logged key t None c' \<and> \<not> tb_enabled c'
               else (if one_shot c then \<not> tb_enabled c' else True)))"
proof -
  define ref where "ref = cronFireThreadRef (sc_hash deps) (tb_id c) key"
  obtain w1 q where run: "runTrigger (sc_trigger deps) tt (cron_trigger_spec deps c key ref) w = (w1, q)"
    by fastforce
  show ?thesis
  proof (cases q)
    case (Inl e)
    then have "r = Inl e" "map_option (add_fire (failed_fire key ref t slot e)) (cron_get (tb_id c) (crons_of w1)) = Some c'"
      using fired here run by (auto simp: cron_fire_op_def Let_def ref_def [symmetric] get_recordFire)
    then show ?thesis
      by (auto intro: logged_by_record simp: failed_fire_def)
  next
    case (Inr o')
    show ?thesis
    proof (cases "to_authzFailed o'")
      case True
      then have "r = Inr True" "map_option (\<lambda>c. c\<lparr>tb_enabled := False\<rparr>)
          (map_option (add_fire (logged_fire key ref t slot o')) (cron_get (tb_id c) (crons_of w1))) = Some c'"
        using Inr fired here run by (auto simp: cron_fire_op_def Let_def ref_def [symmetric] get_recordFire get_disabled)
      moreover have "cf_fireKey (logged_fire key ref t slot o') = key" "cf_firedAt (logged_fire key ref t slot o') = t"
        by (simp_all add: logged_fire_def)
      then have "fire_logged key t None (add_fire (logged_fire key ref t slot o') d)" for d
        using add_fire_logged [of "logged_fire key ref t slot o'" d] by (auto intro: fire_logged_any)
      ultimately show ?thesis
        by auto
    next
      case False
      then show ?thesis
        using Inr fired here run by (auto simp: cron_fire_op_def Let_def ref_def [symmetric] get_disabled split: if_splits)
    qed
  qed
qed

section \<open>Enabled crons keep a job\<close>

lemma enqueue_slots_jobs:
  "set (sr_jobs (tw_rest w)) \<subseteq> set (sr_jobs (tw_rest (enqueue_slots deps cs w))) \<and> crons_of (enqueue_slots deps cs w) = crons_of w"
  by (induction deps cs w rule: enqueue_slots.induct)
    (auto simp: enqueue_fire_def split: sum.split option.split)

lemma enqueue_slots_complete:
  "list_all (\<lambda>c. \<exists>s. cron_next_slot (sc_env deps) c = Inr s) cs \<Longrightarrow> c \<in> set cs \<Longrightarrow> tb_enabled c \<Longrightarrow> \<not> co_archived c \<Longrightarrow>
     cron_next_slot (sc_env deps) c = Inr (Some slot) \<Longrightarrow>
     \<lparr>jb_cronId = tb_id c, jb_scheduledAt = slot\<rparr> \<in> set (sr_jobs (tw_rest (enqueue_slots deps cs w)))"
proof (induction deps cs w rule: enqueue_slots.induct)
  case (2 deps d cs w)
  show ?case
  proof (cases "c = d")
    case True
    let ?w = "enqueue_fire \<lparr>jb_cronId = tb_id c, jb_scheduledAt = slot\<rparr> w"
    have "\<lparr>jb_cronId = tb_id c, jb_scheduledAt = slot\<rparr> \<in> set (sr_jobs (tw_rest ?w))"
      by (simp add: enqueue_fire_def)
    then show ?thesis
      using 2 True enqueue_slots_jobs [of ?w deps cs] by auto
  next
    case False
    then show ?thesis
      using 2 by (auto split: option.split)
  qed
qed simp


section \<open>Examples\<close>

text \<open>The cron of \<^const>\<open>demo_cron_store\<close>, given a task, and a turn that throws.\<close>

definition demo_cron :: cron where
  "demo_cron = (the (cron_get ''c1'' demo_cron_store))\<lparr>co_action := Some ''report''\<rparr>"

definition demo_sched_deps :: "unit sched_deps" where
  "demo_sched_deps =
     \<lparr>sc_trigger = \<lparr>tg_idemOptions = idem_options_of None None, tg_run = (\<lambda>req w. (w, Inl (Error ''down''))),
                    tg_currentScopeMembers = None, tg_directory = None\<rparr>,
      sc_env = demo_env, sc_hash = id, sc_roster = Inr [], sc_maxFiresPerTick = 100, sc_sweepAsks = (\<lambda>t w. w), sc_hasQueue = True\<rparr>"

definition demo_sched_world :: "unit sched_world" where
  "demo_sched_world =
     \<lparr>tw_deliveries = empty_delivery_store, tw_idem = idem_start None 0, tw_identity = identity_start [],
      tw_rest = \<lparr>sr_crons = [(''c1'', demo_cron)], sr_jobs = [], sr_turns = ()\<rparr>\<rparr>"

definition demo_failed_fire :: "unit sched_world" where
  "demo_failed_fire = fst (cron_fire_op demo_sched_deps (demo_times 12 ''d'') demo_cron 12 ''k'' (Some 10) demo_sched_world)"

lemma demo_fails:
  "cron_fire_op demo_sched_deps (demo_times 12 ''d'') demo_cron 12 ''k'' (Some 10) demo_sched_world = (demo_failed_fire, Inl (Error ''down''))"
proof (rule prod_eqI)
  show "snd (cron_fire_op demo_sched_deps (demo_times 12 ''d'') demo_cron 12 ''k'' (Some 10) demo_sched_world) =
      snd (demo_failed_fire, Inl (Error ''down''))"
    by code_simp
qed (simp add: demo_failed_fire_def)

lemma demo_fails_cron:
  "cron_get (tb_id demo_cron) (crons_of demo_failed_fire) = Some (the (cron_get ''c1'' (crons_of demo_failed_fire)))"
  by code_simp

lemma cron_fire_accounted_witness:
  "fire_logged ''k'' 12 (Some FailedT) (the (cron_get ''c1'' (crons_of demo_failed_fire)))"
  using cron_fire_accounted [OF demo_fails demo_fails_cron] by simp


text \<open>
  A cron whose fire throws ends the tick before \<open>markFired\<close>, so it stays due and, listed first, keeps the crons
  after it from firing at this tick and at every later one that it fails.
\<close>

definition demo_two_crons :: "unit sched_world" where
  "demo_two_crons = demo_sched_world\<lparr>tw_rest := \<lparr>sr_crons = [(''c1'', demo_cron), (''c2'', demo_cron\<lparr>tb_id := ''c2'', tb_owner := ''zoe''\<rparr>)],
     sr_jobs = [], sr_turns = ()\<rparr>\<rparr>"

definition fails_only_first :: "unit sched_deps" where
  "fails_only_first = demo_sched_deps\<lparr>sc_trigger := (sc_trigger demo_sched_deps)\<lparr>tg_run := (\<lambda>req w.
     if rq_actor req = tb_owner demo_cron then (w, Inl (Error ''down'')) else (w, Inr (turn_result_of OkT)))\<rparr>\<rparr>"

lemma failing_cron_starves_the_rest:
  "let w1 = scheduler_tick fails_only_first (\<lambda>n. demo_times 12 ''d'') True 12 demo_two_crons;
       w2 = scheduler_tick fails_only_first (\<lambda>n. demo_times 13 ''e'') True 13 (fst w1)
   in snd w1 = Inl (Error ''down'') \<and> snd w2 = Inl (Error ''down'') \<and>
      map_option co_fireLog (cron_get ''c2'' (crons_of (fst w2))) = Some None"
  by code_simp

lemma second_cron_alone_fires:
  "let w = fst (scheduler_tick fails_only_first (\<lambda>n. demo_times 12 ''d'') True 12
          (on_crons (cron_setEnabled ''c1'' False) demo_two_crons))
   in map_option (map cf_status) (Option.bind (cron_get ''c2'' (crons_of w)) co_fireLog) = Some [Some OkT]"
  by code_simp

end
