(* ===== verification/JS_Regex.thy ===== *)
theory JS_Regex
  imports Core_Types
begin

text \<open>
  The regular expressions of the language, as far as the program's own patterns use them: a backtracking
  matcher in the style of the language definition, with greedy and lazy repetition, groups, back references
  and anchors, and the searches built on it (\<open>test\<close>, \<open>exec\<close>, \<open>match\<close>, \<open>replace\<close>). A pattern of the source is
  a value of type \<open>rx\<close> here. A group under a repetition keeps the text of its last turn.
\<close>

section \<open>Patterns\<close>

datatype rx =
    RChar "char \<Rightarrow> bool"
  | REps
  | RSeq rx rx
  | RAlt rx rx
  | RStar bool rx
  | RGroup nat rx
  | RBack nat
  | RBol bool
  | REol bool
  | RWordB

text \<open>\<open>RStar True\<close> is greedy; \<open>RBol True\<close> and \<open>REol True\<close> are the anchors under the flag \<open>m\<close>.\<close>

definition rx_between :: "char \<Rightarrow> char \<Rightarrow> char \<Rightarrow> bool" where
  "rx_between low high c \<longleftrightarrow> low \<le> c \<and> c \<le> high"

definition rx_digit :: "char \<Rightarrow> bool" where
  "rx_digit c \<longleftrightarrow> rx_between (CHR ''0'') (CHR ''9'') c"

definition rx_alpha :: "char \<Rightarrow> bool" where
  "rx_alpha c \<longleftrightarrow> rx_between (CHR ''a'') (CHR ''z'') c \<or> rx_between (CHR ''A'') (CHR ''Z'') c"

definition rx_word :: "char \<Rightarrow> bool" where
  "rx_word c \<longleftrightarrow> rx_alpha c \<or> rx_digit c \<or> c = CHR ''_''"

definition rx_newline :: "char \<Rightarrow> bool" where
  "rx_newline c \<longleftrightarrow> c = CHR 0x0A \<or> c = CHR 0x0D"

definition rx_lit :: "char \<Rightarrow> rx" where
  "rx_lit c = RChar (\<lambda>d. d = c)"

definition rx_one_of :: "string \<Rightarrow> rx" where
  "rx_one_of cs = RChar (\<lambda>d. d \<in> set cs)"

definition rx_none_of :: "string \<Rightarrow> rx" where
  "rx_none_of cs = RChar (\<lambda>d. d \<notin> set cs)"

definition rx_dot :: rx where
  "rx_dot = RChar (\<lambda>c. \<not> rx_newline c)"

definition rx_any :: rx where
  "rx_any = RChar (\<lambda>c. True)"

fun rx_seq :: "rx list \<Rightarrow> rx" where
  "rx_seq [] = REps"
| "rx_seq [r] = r"
| "rx_seq (r # rs) = RSeq r (rx_seq rs)"

fun rx_alt :: "rx list \<Rightarrow> rx" where
  "rx_alt [] = REps"
| "rx_alt [r] = r"
| "rx_alt (r # rs) = RAlt r (rx_alt rs)"

definition rx_text :: "string \<Rightarrow> rx" where
  "rx_text s = rx_seq (map rx_lit s)"

definition rx_star :: "rx \<Rightarrow> rx" where
  "rx_star r = RStar True r"

definition rx_plus :: "rx \<Rightarrow> rx" where
  "rx_plus r = RSeq r (RStar True r)"

definition rx_opt :: "rx \<Rightarrow> rx" where
  "rx_opt r = RAlt r REps"

text \<open>\<open>r{n}\<close> and the greedy \<open>r{n,n+k}\<close>.\<close>

fun rx_upto :: "nat \<Rightarrow> rx \<Rightarrow> rx" where
  "rx_upto 0 r = REps"
| "rx_upto (Suc k) r = rx_opt (RSeq r (rx_upto k r))"

definition rx_rep :: "nat \<Rightarrow> nat \<Rightarrow> rx \<Rightarrow> rx" where
  "rx_rep n k r = RSeq (rx_seq (replicate n r)) (rx_upto k r)"

section \<open>Matching\<close>

text \<open>Where a match stands: the character before, the rest of the text and the groups so far.\<close>

record rx_state =
  rs_prev :: "char option"
  rs_rest :: string
  rs_caps :: "(nat \<times> string) list"

definition rx_advance :: "nat \<Rightarrow> rx_state \<Rightarrow> rx_state" where
  "rx_advance n st =
     (if n = 0 then st
      else st\<lparr>rs_prev := Some (rs_rest st ! (n - 1)), rs_rest := drop n (rs_rest st)\<rparr>)"

definition taken :: "rx_state \<Rightarrow> rx_state \<Rightarrow> string" where
  "taken st st' = take (length (rs_rest st) - length (rs_rest st')) (rs_rest st)"

type_synonym rx_cont = "rx_state \<Rightarrow> rx_state option"

text \<open>A repetition; a turn that takes nothing ends it. The bound is the length of the text.\<close>

primrec rx_repeat :: "(rx_cont \<Rightarrow> rx_cont) \<Rightarrow> bool \<Rightarrow> nat \<Rightarrow> rx_cont \<Rightarrow> rx_cont" where
  "rx_repeat f greedy 0 k st = k st"
| "rx_repeat f greedy (Suc n) k st =
     (let turn = (\<lambda>st'. if length (rs_rest st') < length (rs_rest st) then rx_repeat f greedy n k st' else None) in
      if greedy then (case f turn st of Some x \<Rightarrow> Some x | None \<Rightarrow> k st)
      else (case k st of Some x \<Rightarrow> Some x | None \<Rightarrow> f turn st))"

definition at_word_border :: "rx_state \<Rightarrow> bool" where
  "at_word_border st \<longleftrightarrow>
     (case rs_prev st of None \<Rightarrow> False | Some c \<Rightarrow> rx_word c) \<noteq> (case rs_rest st of [] \<Rightarrow> False | c # _ \<Rightarrow> rx_word c)"

primrec rx_run :: "rx \<Rightarrow> rx_cont \<Rightarrow> rx_cont" where
  "rx_run (RChar p) k st = (case rs_rest st of [] \<Rightarrow> None | c # cs \<Rightarrow> if p c then k (rx_advance 1 st) else None)"
| "rx_run REps k st = k st"
| "rx_run (RSeq a b) k st = rx_run a (rx_run b k) st"
| "rx_run (RAlt a b) k st = (case rx_run a k st of Some x \<Rightarrow> Some x | None \<Rightarrow> rx_run b k st)"
| "rx_run (RStar greedy a) k st = rx_repeat (rx_run a) greedy (length (rs_rest st)) k st"
| "rx_run (RGroup i a) k st = rx_run a (\<lambda>st'. k (st'\<lparr>rs_caps := (i, taken st st') # rs_caps st'\<rparr>)) st"
| "rx_run (RBack i) k st =
     (case map_of (rs_caps st) i of
        None \<Rightarrow> k st
      | Some w \<Rightarrow> if js_startsWith (rs_rest st) w then k (rx_advance (length w) st) else None)"
| "rx_run (RBol multi) k st =
     (if rs_prev st = None \<or> multi \<and> rx_newline (the (rs_prev st)) then k st else None)"
| "rx_run (REol multi) k st =
     (if rs_rest st = [] \<or> multi \<and> rx_newline (hd (rs_rest st)) then k st else None)"
| "rx_run RWordB k st = (if at_word_border st then k st else None)"

record rx_match =
  mt_text :: string
  mt_caps :: "(nat \<times> string) list"

definition rx_start :: "char option \<Rightarrow> string \<Rightarrow> rx_state" where
  "rx_start prev s = \<lparr>rs_prev = prev, rs_rest = s, rs_caps = []\<rparr>"

text \<open>The match at the start of a text that follows the character \<open>prev\<close>.\<close>

definition rx_here :: "rx \<Rightarrow> char option \<Rightarrow> string \<Rightarrow> rx_match option" where
  "rx_here r prev s =
     map_option (\<lambda>st. \<lparr>mt_text = taken (rx_start prev s) st, mt_caps = rs_caps st\<rparr>) (rx_run r Some (rx_start prev s))"

text \<open>A group, if it took part in the match.\<close>

definition mt_group :: "nat \<Rightarrow> rx_match \<Rightarrow> string option" where
  "mt_group i m = map_of (mt_caps m) i"

fun rx_find :: "rx \<Rightarrow> char option \<Rightarrow> string \<Rightarrow> rx_match option" where
  "rx_find r prev [] = rx_here r prev []"
| "rx_find r prev (c # cs) = (case rx_here r prev (c # cs) of Some m \<Rightarrow> Some m | None \<Rightarrow> rx_find r (Some c) cs)"

definition rx_exec :: "rx \<Rightarrow> string \<Rightarrow> rx_match option" where
  "rx_exec r s = rx_find r None s"

definition rx_test :: "rx \<Rightarrow> string \<Rightarrow> bool" where
  "rx_test r s \<longleftrightarrow> rx_exec r s \<noteq> None"

section \<open>Global searches\<close>

text \<open>\<open>s.matchAll(r)\<close>: after a match the search goes on behind it, after an empty one a character later.\<close>

function rx_all :: "rx \<Rightarrow> char option \<Rightarrow> string \<Rightarrow> rx_match list" where
  "rx_all r prev s =
     (case rx_here r prev s of
        None \<Rightarrow> (case s of [] \<Rightarrow> [] | c # cs \<Rightarrow> rx_all r (Some c) cs)
      | Some m \<Rightarrow>
          (case s of
             [] \<Rightarrow> [m]
           | c # cs \<Rightarrow>
               if mt_text m = [] then m # rx_all r (Some c) cs
               else m # rx_all r (Some (last (mt_text m))) (drop (length (mt_text m)) s)))"
  by pat_completeness auto
termination
  by (relation "measure (\<lambda>(r, prev, s). length s)") auto

declare rx_all.simps [simp del]

text \<open>\<open>s.replace(r, f)\<close> under the flag \<open>g\<close>; \<open>f\<close> may throw.\<close>

function rx_replace :: "rx \<Rightarrow> (rx_match \<Rightarrow> string outcome) \<Rightarrow> char option \<Rightarrow> string \<Rightarrow> string outcome" where
  "rx_replace r f prev s =
     (case rx_here r prev s of
        None \<Rightarrow> (case s of [] \<Rightarrow> Inr [] | c # cs \<Rightarrow> obind (rx_replace r f (Some c) cs) (\<lambda>t. Inr (c # t)))
      | Some m \<Rightarrow>
          (case s of
             [] \<Rightarrow> f m
           | c # cs \<Rightarrow>
               if mt_text m = [] then obind (f m) (\<lambda>t. obind (rx_replace r f (Some c) cs) (\<lambda>u. Inr (t @ c # u)))
               else obind (f m) (\<lambda>t.
                      obind (rx_replace r f (Some (last (mt_text m))) (drop (length (mt_text m)) s)) (\<lambda>u. Inr (t @ u)))))"
  by pat_completeness auto
termination
  by (relation "measure (\<lambda>(r, f, prev, s). length s)") auto

declare rx_replace.simps [simp del]

text \<open>\<open>s.replace(r, f)\<close> without the flag: the first match only.\<close>

fun rx_replace_first :: "rx \<Rightarrow> (rx_match \<Rightarrow> string) \<Rightarrow> char option \<Rightarrow> string \<Rightarrow> string" where
  "rx_replace_first r f prev [] = (case rx_here r prev [] of None \<Rightarrow> [] | Some m \<Rightarrow> f m)"
| "rx_replace_first r f prev (c # cs) =
     (case rx_here r prev (c # cs) of
        Some m \<Rightarrow> f m @ drop (length (mt_text m)) (c # cs)
      | None \<Rightarrow> c # rx_replace_first r f (Some c) cs)"

text \<open>A replacement that does not throw.\<close>

definition rx_replace_pure :: "rx \<Rightarrow> (rx_match \<Rightarrow> string) \<Rightarrow> string \<Rightarrow> string" where
  "rx_replace_pure r f s = projr (rx_replace r (\<lambda>m. Inr (f m)) None s)"

section \<open>What a match takes\<close>

text \<open>The least number of characters of a match.\<close>

primrec rx_min :: "rx \<Rightarrow> nat" where
  "rx_min (RChar p) = 1"
| "rx_min REps = 0"
| "rx_min (RSeq a b) = rx_min a + rx_min b"
| "rx_min (RAlt a b) = min (rx_min a) (rx_min b)"
| "rx_min (RStar greedy a) = 0"
| "rx_min (RGroup i a) = rx_min a"
| "rx_min (RBack i) = 0"
| "rx_min (RBol multi) = 0"
| "rx_min (REol multi) = 0"
| "rx_min RWordB = 0"

text \<open>A match goes forward by at least \<open>n\<close> characters, and every new group lies within what it took.\<close>

definition rx_forward :: "nat \<Rightarrow> rx_state \<Rightarrow> rx_state \<Rightarrow> bool" where
  "rx_forward n st st' \<longleftrightarrow>
     length (rs_rest st') + n \<le> length (rs_rest st) \<and>
     (\<forall>(i, w) \<in> set (rs_caps st'). (i, w) \<in> set (rs_caps st) \<or> length w + length (rs_rest st') \<le> length (rs_rest st))"

lemma rx_forward_refl: "rx_forward 0 st st"
  by (auto simp: rx_forward_def)

lemma rx_forward_trans: "rx_forward m st st1 \<Longrightarrow> rx_forward n st1 st2 \<Longrightarrow> rx_forward (m + n) st st2"
  unfolding rx_forward_def by (fastforce split: prod.splits)

lemma rx_forward_less: "rx_forward n st st' \<Longrightarrow> m \<le> n \<Longrightarrow> rx_forward m st st'"
  by (auto simp: rx_forward_def)

lemma rx_forward_advance: "n \<le> length (rs_rest st) \<Longrightarrow> rx_forward n st (rx_advance n st)"
  by (auto simp: rx_forward_def rx_advance_def)

lemma rx_repeat_forward:
  assumes turn: "\<And>k st x. rx_run a k st = Some x \<Longrightarrow> \<exists>st'. k st' = Some x \<and> rx_forward (rx_min a) st st'"
  shows "rx_repeat (rx_run a) greedy n k st = Some x \<Longrightarrow> \<exists>st'. k st' = Some x \<and> rx_forward 0 st st'"
proof (induction n arbitrary: st)
  case 0
  then show ?case
    using rx_forward_refl by auto
next
  case (Suc n)
  let ?turn = "\<lambda>st'. if length (rs_rest st') < length (rs_rest st) then rx_repeat (rx_run a) greedy n k st' else None"
  have step: "rx_run a ?turn st = Some x \<Longrightarrow> \<exists>st'. k st' = Some x \<and> rx_forward 0 st st'"
  proof -
    assume "rx_run a ?turn st = Some x"
    then obtain st1 where "?turn st1 = Some x" "rx_forward (rx_min a) st st1"
      using turn by blast
    moreover from this obtain st2 where "k st2 = Some x" "rx_forward 0 st1 st2"
      using Suc.IH [of st1] by (auto split: if_splits)
    ultimately show ?thesis
      using rx_forward_trans rx_forward_less by (metis le0)
  qed
  show ?case
    using Suc.prems step rx_forward_refl [of st] by (auto simp: Let_def split: if_splits option.splits)
qed

lemma rx_run_forward: "rx_run r k st = Some x \<Longrightarrow> \<exists>st'. k st' = Some x \<and> rx_forward (rx_min r) st st'"
proof (induction r arbitrary: k st x)
  case (RChar p)
  then show ?case
    using rx_forward_advance [of 1 st] by (auto split: list.splits if_splits)
next
  case (RSeq a b)
  then obtain st1 where "rx_run b k st1 = Some x" "rx_forward (rx_min a) st st1"
    by fastforce
  then show ?case
    using RSeq.IH(2) rx_forward_trans by fastforce
next
  case (RAlt a b)
  then show ?case
    using rx_forward_less by (fastforce split: option.splits)
next
  case (RStar greedy a)
  then show ?case
    using rx_repeat_forward [of a greedy] by auto
next
  case (RGroup i a)
  then obtain st1 where st1: "k (st1\<lparr>rs_caps := (i, taken st st1) # rs_caps st1\<rparr>) = Some x" "rx_forward (rx_min a) st st1"
    by fastforce
  then have "rx_forward (rx_min a) st (st1\<lparr>rs_caps := (i, taken st st1) # rs_caps st1\<rparr>)"
    by (auto simp: rx_forward_def taken_def)
  with st1 show ?case
    by auto
next
  case (RBack i)
  have "js_startsWith (rs_rest st) w \<Longrightarrow> rx_forward 0 st (rx_advance (length w) st)" for w
    by (rule rx_forward_less [OF rx_forward_advance]) (auto simp: js_startsWith_iff)
  with RBack rx_forward_refl [of st] show ?case
    by (auto split: option.splits if_splits)
qed (use rx_forward_refl in \<open>auto split: if_splits\<close>)

text \<open>A match lies at the front of the text, has its least length, and holds its groups.\<close>

lemma rx_hereD:
  assumes "rx_here r prev s = Some m"
  shows "mt_text m = take (length (mt_text m)) s" "rx_min r \<le> length (mt_text m)"
    "mt_group i m = Some w \<Longrightarrow> length w \<le> length (mt_text m)"
proof -
  obtain st where run: "rx_run r Some (rx_start prev s) = Some st"
    and m: "m = \<lparr>mt_text = taken (rx_start prev s) st, mt_caps = rs_caps st\<rparr>"
    using assms by (auto simp: rx_here_def)
  obtain st' where "Some st' = Some st" "rx_forward (rx_min r) (rx_start prev s) st'"
    using rx_run_forward [OF run] by auto
  then have fwd: "rx_forward (rx_min r) (rx_start prev s) st"
    by simp
  have len: "length (mt_text m) = length s - length (rs_rest st)"
    by (simp add: m taken_def rx_start_def)
  show "mt_text m = take (length (mt_text m)) s" "rx_min r \<le> length (mt_text m)"
    using fwd unfolding len by (auto simp: m taken_def rx_start_def rx_forward_def)
  show "mt_group i m = Some w \<Longrightarrow> length w \<le> length (mt_text m)"
    using fwd unfolding len by (auto simp: m mt_group_def rx_start_def rx_forward_def dest!: map_of_SomeD)
qed

lemma rx_here_length: "rx_here r prev s = Some m \<Longrightarrow> length (mt_text m) \<le> length s"
  using rx_hereD(1) by (metis length_take min.cobounded1)

text \<open>A replacement that never writes more than it matched does not lengthen the text.\<close>

lemma rx_replace_length:
  assumes "\<And>m prev s t. rx_here r prev s = Some m \<Longrightarrow> f m = Inr t \<Longrightarrow> length t \<le> length (mt_text m)"
  shows "rx_replace r f prev s = Inr t \<Longrightarrow> length t \<le> length s"
proof (induction "length s" arbitrary: prev s t rule: less_induct)
  case less
  show ?case
  proof (cases "rx_here r prev s")
    case None
    then show ?thesis
      using less by (subst (asm) rx_replace.simps) (auto split: list.splits simp: obind_Inr_iff)
  next
    case (Some m)
    note m = rx_here_length [OF Some] assms [OF Some]
    show ?thesis
    proof (cases s)
      case Nil
      then show ?thesis
        using less.prems m Some by (subst (asm) rx_replace.simps) auto
    next
      case (Cons c cs)
      show ?thesis
      proof (cases "mt_text m = []")
        case True
        then show ?thesis
          using less.prems less.hyps [of cs] m Some Cons
          by (subst (asm) rx_replace.simps) (fastforce simp: obind_Inr_iff)
      next
        case False
        let ?rest = "drop (length (mt_text m)) s"
        have "length ?rest < length s"
          using False Cons by simp
        moreover obtain t1 t2 where "f m = Inr t1" "rx_replace r f (Some (last (mt_text m))) ?rest = Inr t2" "t = t1 @ t2"
          using less.prems Some Cons False by (subst (asm) rx_replace.simps) (auto simp: obind_Inr_iff)
        ultimately show ?thesis
          using less.hyps [of ?rest] m by fastforce
      qed
    qed
  qed
qed

lemma rx_replace_total:
  assumes "\<And>m. \<exists>t. f m = Inr t"
  shows "\<exists>t. rx_replace r f prev s = Inr t"
proof (induction "length s" arbitrary: prev s rule: less_induct)
  case less
  have tail: "\<exists>t. rx_replace r f p (drop (Suc n) s) = Inr t" if "s \<noteq> []" for p n
    using less [of "drop (Suc n) s"] that by simp
  show ?case
  proof (cases s)
    case Nil
    then show ?thesis
      using assms by (subst rx_replace.simps) (auto split: option.splits)
  next
    case (Cons c cs)
    obtain u where u: "\<And>p. \<exists>t. rx_replace r f p cs = Inr t"
      using tail [of _ 0] Cons by auto
    show ?thesis
    proof (cases "rx_here r prev s")
      case None
      then show ?thesis
        using u [of "Some c"] Cons by (subst rx_replace.simps) auto
    next
      case (Some m)
      obtain t1 where t1: "f m = Inr t1"
        using assms by blast
      obtain t2 where "mt_text m = [] \<or> rx_replace r f (Some (last (mt_text m))) (drop (length (mt_text m)) s) = Inr t2"
        using tail [of "Some (last (mt_text m))" "length (mt_text m) - 1"] Cons by (cases "mt_text m") auto
      then show ?thesis
        using u [of "Some c"] Cons Some t1 by (subst rx_replace.simps) auto
    qed
  qed
qed

section \<open>Searches within lines\<close>

text \<open>A pattern without anchors and back references.\<close>

primrec rx_plain :: "rx \<Rightarrow> bool" where
  "rx_plain (RChar p) \<longleftrightarrow> True"
| "rx_plain REps \<longleftrightarrow> True"
| "rx_plain (RSeq a b) \<longleftrightarrow> rx_plain a \<and> rx_plain b"
| "rx_plain (RAlt a b) \<longleftrightarrow> rx_plain a \<and> rx_plain b"
| "rx_plain (RStar greedy a) \<longleftrightarrow> rx_plain a"
| "rx_plain (RGroup i a) \<longleftrightarrow> rx_plain a"
| "rx_plain (RBack i) \<longleftrightarrow> False"
| "rx_plain (RBol multi) \<longleftrightarrow> False"
| "rx_plain (REol multi) \<longleftrightarrow> False"
| "rx_plain RWordB \<longleftrightarrow> True"

text \<open>The same place in a longer text, which begins and goes on with a line end.\<close>

definition rx_embed :: "string \<Rightarrow> rx_state \<Rightarrow> rx_state \<Rightarrow> bool" where
  "rx_embed post st st' \<longleftrightarrow>
     rs_rest st' = rs_rest st @ post \<and> (rs_prev st' = rs_prev st \<or> rs_prev st = None \<and> rs_prev st' = Some (CHR 0x0A))"

definition line_end :: "string \<Rightarrow> bool" where
  "line_end post \<longleftrightarrow> post = [] \<or> hd post = CHR 0x0A"

lemma newline_no_word [simp]: "\<not> rx_word (CHR 0x0A)"
  by code_simp

lemma line_end_border: "line_end post \<Longrightarrow> rx_embed post st st' \<Longrightarrow> at_word_border st' = at_word_border st"
proof -
  assume stop: "line_end post" and embed: "rx_embed post st st'"
  have "(case rs_prev st' of None \<Rightarrow> False | Some c \<Rightarrow> rx_word c) = (case rs_prev st of None \<Rightarrow> False | Some c \<Rightarrow> rx_word c)"
    using embed by (auto simp: rx_embed_def)
  moreover have "(case rs_rest st' of [] \<Rightarrow> False | c # _ \<Rightarrow> rx_word c) = (case rs_rest st of [] \<Rightarrow> False | c # _ \<Rightarrow> rx_word c)"
    using stop embed by (cases "rs_rest st"; cases post) (simp_all add: rx_embed_def line_end_def)
  ultimately show ?thesis
    by (simp add: at_word_border_def)
qed

lemma rx_embed_advance: "rx_embed post st st' \<Longrightarrow> n \<le> length (rs_rest st) \<Longrightarrow> rx_embed post (rx_advance n st) (rx_advance n st')"
  by (auto simp: rx_embed_def rx_advance_def nth_append)

definition goes_on :: "string \<Rightarrow> rx_cont \<Rightarrow> rx_cont \<Rightarrow> bool" where
  "goes_on post k k' \<longleftrightarrow> (\<forall>st st'. rx_embed post st st' \<longrightarrow> k st \<noteq> None \<longrightarrow> k' st' \<noteq> None)"

lemma goes_onD: "goes_on post k k' \<Longrightarrow> rx_embed post st st' \<Longrightarrow> k st \<noteq> None \<Longrightarrow> k' st' \<noteq> None"
  unfolding goes_on_def by blast

lemma rx_repeat_embed:
  assumes run: "\<And>k k'. goes_on post k k' \<Longrightarrow> goes_on post (rx_run a k) (rx_run a k')" and on: "goes_on post k k'"
  shows "rx_repeat (rx_run a) g n k st \<noteq> None \<Longrightarrow> n \<le> m \<Longrightarrow> rx_embed post st st' \<Longrightarrow> rx_repeat (rx_run a) g m k' st' \<noteq> None"
proof (induction n arbitrary: m st st')
  case 0
  then have "k' st' \<noteq> None"
    using goes_onD [OF on] by simp
  then show ?case
    by (cases m) (auto simp: Let_def split: option.splits)
next
  case (Suc n)
  then obtain j where m: "m = Suc j" "n \<le> j"
    by (cases m) auto
  let ?turn = "\<lambda>x. if length (rs_rest x) < length (rs_rest st) then rx_repeat (rx_run a) g n k x else None"
  let ?turn' = "\<lambda>x. if length (rs_rest x) < length (rs_rest st') then rx_repeat (rx_run a) g j k' x else None"
  have "goes_on post ?turn ?turn'"
    using Suc.IH m(2) Suc.prems(3) unfolding goes_on_def by (auto simp: rx_embed_def split: if_splits)
  then have "rx_run a ?turn st \<noteq> None \<Longrightarrow> rx_run a ?turn' st' \<noteq> None"
    using goes_onD [OF run] Suc.prems(3) by blast
  moreover have "k st \<noteq> None \<Longrightarrow> k' st' \<noteq> None"
    using goes_onD [OF on Suc.prems(3)] .
  ultimately show ?case
    using Suc.prems(1) unfolding m by (auto simp: Let_def split: if_splits option.splits)
qed

lemma rx_run_embed: "rx_plain r \<Longrightarrow> line_end post \<Longrightarrow> goes_on post k k' \<Longrightarrow> goes_on post (rx_run r k) (rx_run r k')"
proof (induction r arbitrary: k k')
  case (RChar p)
  show ?case
    unfolding goes_on_def
  proof (intro allI impI)
    fix st st'
    assume e: "rx_embed post st st'" and "rx_run (RChar p) k st \<noteq> None"
    then obtain c s where "rs_rest st = c # s" "p c" "k (rx_advance 1 st) \<noteq> None"
      by (auto split: list.splits if_splits)
    then show "rx_run (RChar p) k' st' \<noteq> None"
      using goes_onD [OF RChar.prems(3) rx_embed_advance [OF e, of 1]] e by (auto simp: rx_embed_def)
  qed
next
  case (RSeq a b)
  then have "goes_on post (rx_run a (rx_run b k)) (rx_run a (rx_run b k'))"
    by simp
  then show ?case
    by (simp add: goes_on_def)
next
  case (RAlt a b)
  then have "goes_on post (rx_run a k) (rx_run a k')" "goes_on post (rx_run b k) (rx_run b k')"
    by simp_all
  then have "rx_embed post st st' \<Longrightarrow> rx_run a k' st' = None \<Longrightarrow> rx_run a k st = None"
    "rx_embed post st st' \<Longrightarrow> rx_run b k st \<noteq> None \<Longrightarrow> rx_run b k' st' \<noteq> None" for st st'
    using goes_onD by blast+
  then show ?case
    unfolding goes_on_def by (auto split: option.splits)
next
  case (RStar g a)
  then have run: "\<And>k k'. goes_on post k k' \<Longrightarrow> goes_on post (rx_run a k) (rx_run a k')"
    by simp
  show ?case
    unfolding goes_on_def rx_run.simps(5)
  proof (intro allI impI)
    fix st st'
    assume e: "rx_embed post st st'" and "rx_repeat (rx_run a) g (length (rs_rest st)) k st \<noteq> None"
    then show "rx_repeat (rx_run a) g (length (rs_rest st')) k' st' \<noteq> None"
      using rx_repeat_embed [OF run RStar.prems(3) _ _ e] by (simp add: rx_embed_def)
  qed
next
  case (RGroup i a)
  have caps: "rx_embed post x x' \<Longrightarrow> rx_embed post (x\<lparr>rs_caps := u\<rparr>) (x'\<lparr>rs_caps := v\<rparr>)" for x x' u v
    by (simp add: rx_embed_def)
  have "goes_on post (\<lambda>x. k (x\<lparr>rs_caps := (i, taken st x) # rs_caps x\<rparr>)) (\<lambda>x. k' (x\<lparr>rs_caps := (i, taken st' x) # rs_caps x\<rparr>))" for st st'
    using goes_onD [OF RGroup.prems(3) caps] unfolding goes_on_def by blast
  then have "goes_on post (rx_run a (\<lambda>x. k (x\<lparr>rs_caps := (i, taken st x) # rs_caps x\<rparr>)))
      (rx_run a (\<lambda>x. k' (x\<lparr>rs_caps := (i, taken st' x) # rs_caps x\<rparr>)))" for st st'
    using RGroup.IH RGroup.prems by simp
  then show ?case
    unfolding goes_on_def rx_run.simps by blast
next
  case RWordB
  then show ?case
    unfolding goes_on_def using line_end_border by (auto split: if_splits)
qed (auto simp: goes_on_def)

definition last_char :: "char option \<Rightarrow> string \<Rightarrow> char option" where
  "last_char prev a = (if a = [] then prev else Some (last a))"

lemma last_char_simps [simp]: "last_char prev [] = prev" "last_char prev (c # a) = last_char (Some c) a"
  by (simp_all add: last_char_def)

lemma rx_find_iff: "rx_find r prev s \<noteq> None \<longleftrightarrow> (\<exists>a b. s = a @ b \<and> rx_here r (last_char prev a) b \<noteq> None)"
proof (induction s arbitrary: prev)
  case (Cons c s)
  have "(\<exists>a b. c # s = a @ b \<and> P a b) \<longleftrightarrow> P [] (c # s) \<or> (\<exists>a b. s = a @ b \<and> P (c # a) b)" for P
    by (simp add: Cons_eq_append_conv) blast
  then show ?case
    using Cons.IH [of "Some c"] by (simp split: option.split)
qed simp

text \<open>Such a pattern finds in a text what it finds in some of its lines.\<close>

lemma rx_exec_lines:
  assumes "rx_plain r" "pre = [] \<or> last pre = CHR 0x0A" "post = [] \<or> hd post = CHR 0x0A" "rx_exec r t \<noteq> None"
  shows "rx_exec r (pre @ t @ post) \<noteq> None"
proof -
  obtain a b where ab: "t = a @ b" "rx_here r (last_char None a) b \<noteq> None"
    using assms(4) unfolding rx_exec_def rx_find_iff by blast
  have "goes_on post (rx_run r Some) (rx_run r Some)"
    using assms(1, 3) by (intro rx_run_embed) (auto simp: line_end_def goes_on_def)
  moreover have "rx_embed post (rx_start (last_char None a) b) (rx_start (last_char None (pre @ a)) (b @ post))"
    using assms(2) by (auto simp: rx_embed_def rx_start_def last_char_def)
  ultimately have "rx_here r (last_char None (pre @ a)) (b @ post) \<noteq> None"
    using ab(2) goes_onD by (auto simp: rx_here_def)
  then show ?thesis
    unfolding rx_exec_def rx_find_iff using ab(1) by (intro exI [of _ "pre @ a"] exI [of _ "b @ post"]) simp
qed

end
