(* ===== verification/Shell_Scan.thy ===== *)
theory Shell_Scan
  imports JS_Regex
begin

text \<open>
  The shell scanner of \<open>policy/command-policy.ts\<close>: words, commands and nested commands of a command line, the
  decoding of ANSI-C strings, pipelines, and the quoting of \<open>util/shell.ts\<close>. A scan works on what is left of
  the input, where the code has an index. Code units from 256 on come from \<open>\u\<close> and \<open>\U\<close> escapes only; the
  parameter \<open>cu\<close> is the character that stands for such a unit.
\<close>

abbreviation "backslash \<equiv> CHR 0x5C"
abbreviation "dquote \<equiv> CHR 0x22"
abbreviation "squote \<equiv> CHR 0x27"
abbreviation "newline \<equiv> CHR 0x0A"

section \<open>ANSI-C strings\<close>

type_synonym units = "nat \<Rightarrow> char"

definition code_unit :: "units \<Rightarrow> nat \<Rightarrow> char" where
  "code_unit cu n = (if n < 256 then char_of n else cu n)"

definition fromCodePoint :: "units \<Rightarrow> nat \<Rightarrow> string outcome" where
  "fromCodePoint cu n =
     (if n > 0x10FFFF then Inl (Error (''Invalid code point '' @ js_of_nat n))
      else if n \<ge> 0x10000 then
        Inr [code_unit cu (0xD800 + (n - 0x10000) div 1024), code_unit cu (0xDC00 + (n - 0x10000) mod 1024)]
      else Inr [code_unit cu n])"

definition digit_value :: "char \<Rightarrow> nat" where
  "digit_value c =
     (let n = of_char c in if 97 \<le> n then n - 87 else if 65 \<le> n then n - 55 else n - 48)"

definition radix_value :: "nat \<Rightarrow> string \<Rightarrow> nat" where
  "radix_value base s = fold (\<lambda>c n. n * base + digit_value c) s 0"

definition escaped_code :: "units \<Rightarrow> nat \<Rightarrow> rx_match \<Rightarrow> string outcome" where
  "escaped_code cu base m =
     (case mt_group 1 m of None \<Rightarrow> Inr [] | Some digits \<Rightarrow> fromCodePoint cu (radix_value base digits))"

definition rx_hex :: rx where
  "rx_hex = rx_one_of ''0123456789abcdefABCDEF''"

definition rx_ansi_hex :: "char \<Rightarrow> nat \<Rightarrow> nat \<Rightarrow> rx" where
  "rx_ansi_hex c n k = rx_seq [rx_lit backslash, rx_lit c, RGroup 1 (rx_rep n k rx_hex)]"

definition rx_ansi_octal :: rx where
  "rx_ansi_octal = rx_seq [rx_lit backslash, RGroup 1 (rx_rep 1 2 (rx_one_of ''01234567''))]"

definition rx_ansi_letter :: rx where
  "rx_ansi_letter = rx_seq [rx_lit backslash, RGroup 1 (rx_one_of ([backslash, squote, dquote] @ ''abefnrtv''))]"

definition ansi_letter :: "string \<Rightarrow> string" where
  "ansi_letter e =
     (case map_of [(''a'', CHR 0x07), (''b'', CHR 0x08), (''e'', CHR 0x1B), (''f'', CHR 0x0C), (''n'', CHR 0x0A),
                   (''r'', CHR 0x0D), (''t'', CHR 0x09), (''v'', CHR 0x0B)] e of
        Some c \<Rightarrow> [c] | None \<Rightarrow> e)"

definition escaped_letter :: "rx_match \<Rightarrow> string outcome" where
  "escaped_letter m = Inr (case mt_group 1 m of None \<Rightarrow> [] | Some e \<Rightarrow> ansi_letter e)"

definition decodeAnsiC :: "units \<Rightarrow> string \<Rightarrow> string outcome" where
  "decodeAnsiC cu v =
     obind (rx_replace (rx_ansi_hex (CHR ''x'') 1 1) (escaped_code cu 16) None v) (\<lambda>v.
     obind (rx_replace (rx_ansi_hex (CHR ''u'') 4 0) (escaped_code cu 16) None v) (\<lambda>v.
     obind (rx_replace (rx_ansi_hex (CHR ''U'') 8 0) (escaped_code cu 16) None v) (\<lambda>v.
     obind (rx_replace rx_ansi_octal (escaped_code cu 8) None v) (\<lambda>v.
     rx_replace rx_ansi_letter escaped_letter None v))))"

lemma fromCodePoint_length: "fromCodePoint cu n = Inr t \<Longrightarrow> length t \<le> 2"
  by (auto simp: fromCodePoint_def split: if_splits)

lemma escaped_code_length:
  "rx_here r prev s = Some m \<Longrightarrow> 2 \<le> rx_min r \<Longrightarrow> escaped_code cu base m = Inr t \<Longrightarrow> length t \<le> length (mt_text m)"
  using rx_hereD(2) [of r prev s m] fromCodePoint_length by (fastforce simp: escaped_code_def split: option.splits)

lemma escaped_letter_length:
  "rx_here rx_ansi_letter prev s = Some m \<Longrightarrow> escaped_letter m = Inr t \<Longrightarrow> length t \<le> length (mt_text m)"
  using rx_hereD(2, 3) [of rx_ansi_letter prev s m]
  by (fastforce simp: escaped_letter_def ansi_letter_def rx_ansi_letter_def rx_lit_def rx_one_of_def split: option.splits dest!: map_of_SomeD)

lemma rx_min_ansi: "2 \<le> rx_min (rx_ansi_hex c n k)" "2 \<le> rx_min rx_ansi_octal"
  by (simp_all add: rx_ansi_hex_def rx_ansi_octal_def rx_lit_def rx_rep_def rx_one_of_def)

lemma decodeAnsiC_length: "decodeAnsiC cu v = Inr d \<Longrightarrow> length d \<le> length v"
proof -
  assume "decodeAnsiC cu v = Inr d"
  then obtain v1 v2 v3 v4 where
    "rx_replace (rx_ansi_hex (CHR ''x'') 1 1) (escaped_code cu 16) None v = Inr v1"
    "rx_replace (rx_ansi_hex (CHR ''u'') 4 0) (escaped_code cu 16) None v1 = Inr v2"
    "rx_replace (rx_ansi_hex (CHR ''U'') 8 0) (escaped_code cu 16) None v2 = Inr v3"
    "rx_replace rx_ansi_octal (escaped_code cu 8) None v3 = Inr v4"
    "rx_replace rx_ansi_letter escaped_letter None v4 = Inr d"
    by (auto simp: decodeAnsiC_def obind_Inr_iff)
  then have "length v1 \<le> length v" "length v2 \<le> length v1" "length v3 \<le> length v2" "length v4 \<le> length v3" "length d \<le> length v4"
    using escaped_code_length rx_min_ansi escaped_letter_length by (blast intro: rx_replace_length)+
  then show ?thesis
    by simp
qed

section \<open>Scanning\<close>

text \<open>The rest of the input after the first \<open>c\<close>, with what comes before it.\<close>

definition split_char :: "char \<Rightarrow> string \<Rightarrow> (string \<times> string) option" where
  "split_char c s = (if c \<in> set s then Some (takeWhile (\<lambda>d. d \<noteq> c) s, tl (dropWhile (\<lambda>d. d \<noteq> c) s)) else None)"

lemma split_at_char: "c \<in> set s \<Longrightarrow> takeWhile (\<lambda>d. d \<noteq> c) s @ c # tl (dropWhile (\<lambda>d. d \<noteq> c) s) = s"
  by (induction s) auto

lemma split_charD: "split_char c s = Some (a, b) \<Longrightarrow> s = a @ c # b \<and> c \<notin> set a"
  using split_at_char [of c s] by (auto simp: split_char_def dest: set_takeWhileD split: if_splits)

lemma split_char_append [simp]: "c \<notin> set a \<Longrightarrow> split_char c (a @ c # b) = Some (a, b)"
  by (induction a) (auto simp: split_char_def)

text \<open>\<open>commandSubstitution\<close>, from behind its opening: the body and the rest of the input.\<close>

fun cs_scan :: "nat \<Rightarrow> char option \<Rightarrow> string \<Rightarrow> string \<Rightarrow> (string \<times> string) option" where
  "cs_scan depth quote body [] = None"
| "cs_scan depth quote body (c # s) =
     (if c = backslash then (case s of [] \<Rightarrow> None | d # s' \<Rightarrow> cs_scan depth quote (body @ [c, d]) s')
      else if quote \<noteq> None then cs_scan depth (if quote = Some c then None else quote) (body @ [c]) s
      else if c = squote \<or> c = dquote then cs_scan depth (Some c) (body @ [c]) s
      else if c = CHR ''$'' \<and> js_startsWith s ''('' then cs_scan (depth + 1) quote (body @ [c, CHR ''('']) (tl s)
      else if c = CHR '')'' then (if depth = 1 then Some (body, s) else cs_scan (depth - 1) quote (body @ [c]) s)
      else cs_scan depth quote (body @ [c]) s)"

definition commandSubstitution :: "string \<Rightarrow> (string \<times> string) option" where
  "commandSubstitution s = cs_scan 1 None [] s"

lemma cs_scan_length:
  "cs_scan depth quote body s = Some (b, r) \<Longrightarrow> length b + length r < length body + length s"
proof (induction "length s" arbitrary: depth quote body s rule: less_induct)
  case less
  have ih: "cs_scan d q v t = Some (b, r) \<Longrightarrow> length t < length s \<Longrightarrow> length b + length r < length v + length t" for d q v t
    using less.hyps by blast
  show ?case
    using less.prems by (cases s) (auto split: if_splits list.splits dest!: ih simp: js_startsWith_iff)
qed

lemma commandSubstitution_length: "commandSubstitution s = Some (b, r) \<Longrightarrow> length b + length r < length s"
  using cs_scan_length unfolding commandSubstitution_def by fastforce

text \<open>The inside of a double-quoted string, with the word and the nested commands so far.\<close>

function scan_dq :: "string \<Rightarrow> string list \<Rightarrow> string \<Rightarrow> string \<times> string list \<times> string" where
  "scan_dq w n [] = (w, n, [])"
| "scan_dq w n (c # s) =
     (if c = dquote then (w, n, s)
      else if c = backslash \<and> s \<noteq> [] then scan_dq (w @ [hd s]) n (tl s)
      else if c = CHR ''$'' \<and> js_startsWith s ''('' then
        (case commandSubstitution (tl s) of None \<Rightarrow> scan_dq (w @ [c]) n s | Some (b, r) \<Rightarrow> scan_dq w (n @ [b]) r)
      else if c = CHR 0x60 then
        (case split_char (CHR 0x60) s of None \<Rightarrow> scan_dq w n s | Some (b, r) \<Rightarrow> scan_dq w (n @ [b]) r)
      else scan_dq (w @ [c]) n s)"
  by pat_completeness auto
termination
  by (relation "measure (\<lambda>(w, n, s). length s)")
    (auto dest!: commandSubstitution_length split_charD)

definition shell_op :: "char \<Rightarrow> bool" where
  "shell_op c \<longleftrightarrow> c \<in> set '';|&(){}''"

definition ends_with_angle :: "string \<Rightarrow> bool" where
  "ends_with_angle w \<longleftrightarrow> w \<noteq> [] \<and> (last w = CHR ''<'' \<or> last w = CHR ''>'')"

definition word_ends :: "string \<Rightarrow> char \<Rightarrow> bool" where
  "word_ends w c \<longleftrightarrow> js_ws c \<or> shell_op c \<and> \<not> (c = CHR ''&'' \<and> ends_with_angle w)"

lemma scan_dq_length: "scan_dq w n s = (w', n', r) \<Longrightarrow> length r \<le> length s"
proof (induction "length s" arbitrary: w n s rule: less_induct)
  case less
  have ih: "scan_dq v m t = (w', n', r) \<Longrightarrow> length t < length s \<Longrightarrow> length r \<le> length t" for v m t
    using less.hyps by blast
  show ?case
    using less.prems
    by (cases s) (auto split: if_splits option.splits dest!: ih dest: commandSubstitution_length split_charD)
qed

text \<open>One word: the word, whether one was started, the nested commands and the rest of the input.\<close>

function scan_word ::
  "units \<Rightarrow> string \<Rightarrow> bool \<Rightarrow> string list \<Rightarrow> string \<Rightarrow> (string \<times> bool \<times> string list \<times> string) outcome" where
  "scan_word cu w st n [] = Inr (w, st, n, [])"
| "scan_word cu w st n (c # s) =
     (if word_ends w c then Inr (w, st, n, c # s)
      else if c = backslash then
        (case s of
           [] \<Rightarrow> scan_word cu w st n []
         | d # s' \<Rightarrow> if d = newline then scan_word cu w st n s' else scan_word cu (w @ [d]) True n s')
      else if c = squote then
        (case split_char squote s of
           None \<Rightarrow> scan_word cu (w @ s) True n []
         | Some (b, r) \<Rightarrow> scan_word cu (w @ b) True n r)
      else if c = CHR ''$'' \<and> js_startsWith s [squote] then
        (case split_char squote (tl s) of
           None \<Rightarrow> scan_word cu (w @ tl s) True n []
         | Some (b, r) \<Rightarrow> obind (decodeAnsiC cu b) (\<lambda>d. scan_word cu (w @ d) True n r))
      else if c = dquote then
        (case scan_dq w n s of (w', n', r) \<Rightarrow> scan_word cu w' True n' r)
      else if c = CHR ''$'' \<and> js_startsWith s ''('' then
        (case commandSubstitution (tl s) of
           None \<Rightarrow> scan_word cu (w @ [c]) True n s
         | Some (b, r) \<Rightarrow> scan_word cu w True (n @ [b]) r)
      else if c = CHR 0x60 then
        (case split_char (CHR 0x60) s of
           None \<Rightarrow> scan_word cu w True n s
         | Some (b, r) \<Rightarrow> scan_word cu w True (n @ [b]) r)
      else scan_word cu (w @ [c]) True n s)"
  by pat_completeness auto
termination
  by (relation "measure (\<lambda>(cu, w, st, n, s). length s)")
    (auto dest!: commandSubstitution_length split_charD scan_dq_length [OF sym] simp: js_startsWith_iff)

text \<open>The sizes of words and nested commands, each with the separator it needs.\<close>

definition wsize :: "string list \<Rightarrow> nat" where
  "wsize ws = sum_list (map (\<lambda>w. length w + 1) ws)"

lemma wsize_simps [simp]: "wsize [] = 0" "wsize (w # ws) = length w + 1 + wsize ws" "wsize (ws @ vs) = wsize ws + wsize vs"
  by (simp_all add: wsize_def)

lemma scan_dq_size: "scan_dq w n s = (w', n', r) \<Longrightarrow> wsize n' + length w' + length r \<le> wsize n + length w + length s"
proof (induction "length s" arbitrary: w n s rule: less_induct)
  case less
  have ih: "scan_dq v m t = (w', n', r) \<Longrightarrow> length t < length s \<Longrightarrow>
      wsize n' + length w' + length r \<le> wsize m + length v + length t" for v m t
    using less.hyps by blast
  show ?case
    using less.prems
    by (cases s) (auto split: if_splits option.splits dest!: ih dest: commandSubstitution_length split_charD)
qed

lemma scan_dq_bounds:
  "scan_dq w n s = (w', n', r) \<Longrightarrow> length r \<le> length s \<and> wsize n' + length w' + length r \<le> wsize n + length w + length s"
  using scan_dq_length scan_dq_size by blast

lemma scan_word_size:
  "scan_word cu w st n s = Inr (w', st', n', r) \<Longrightarrow> wsize n' + length w' + length r \<le> wsize n + length w + length s"
proof (induction "length s" arbitrary: w st n s rule: less_induct)
  case less
  have ih: "scan_word cu v u m t = Inr (w', st', n', r) \<Longrightarrow> length t < length s \<Longrightarrow>
      wsize n' + length w' + length r \<le> wsize m + length v + length t" for v u m t
    using less.hyps by blast
  show ?case
    using less.prems
    by (cases s) (auto split: if_splits option.splits list.splits prod.splits simp: obind_Inr_iff js_startsWith_iff
        dest!: ih commandSubstitution_length split_charD scan_dq_bounds decodeAnsiC_length)
qed

lemma scan_word_length: "scan_word cu w st n s = Inr (w', st', n', r) \<Longrightarrow> length r \<le> length s"
proof (induction "length s" arbitrary: w st n s rule: less_induct)
  case less
  have ih: "scan_word cu v u m t = Inr (w', st', n', r) \<Longrightarrow> length t < length s \<Longrightarrow> length r \<le> length t" for v u m t
    using less.hyps by blast
  show ?case
    using less.prems
    by (cases s) (auto split: if_splits option.splits list.splits prod.splits simp: obind_Inr_iff js_startsWith_iff
        dest!: ih commandSubstitution_length split_charD scan_dq_bounds)
qed

lemma scan_word_progress:
  "scan_word cu w st n (c # s) = Inr (w', st', n', r) \<Longrightarrow> \<not> word_ends w c \<Longrightarrow> length r \<le> length s"
  by (auto split: if_splits option.splits list.splits prod.splits simp: obind_Inr_iff js_startsWith_iff
      dest!: scan_word_length commandSubstitution_length split_charD scan_dq_bounds)

text \<open>A word ends at the end of the input or before a blank or an operator.\<close>

definition at_separator :: "string \<Rightarrow> bool" where
  "at_separator s \<longleftrightarrow> (case s of [] \<Rightarrow> True | c # _ \<Rightarrow> js_ws c \<or> shell_op c)"

lemma scan_word_stops: "scan_word cu w st n s = Inr (w', st', n', r) \<Longrightarrow> at_separator r"
proof (induction "length s" arbitrary: w st n s rule: less_induct)
  case less
  have ih: "scan_word cu v u m t = Inr (w', st', n', r) \<Longrightarrow> length t < length s \<Longrightarrow> at_separator r" for v u m t
    using less.hyps by blast
  have fin: "at_separator []" "at_separator (CHR ''('' # t)" "word_ends w c \<Longrightarrow> at_separator (c # t)" for c t
    by (auto simp: at_separator_def word_ends_def shell_op_def)
  show ?case
    using less.prems
    by (cases s) (auto split: if_splits option.splits list.splits prod.splits simp: obind_Inr_iff js_startsWith_iff fin
        dest: ih dest!: commandSubstitution_length split_charD scan_dq_bounds)
qed

declare scan_word.simps(2) [simp del]

definition flush_words :: "string list \<Rightarrow> string list list \<Rightarrow> string list list" where
  "flush_words words cmds = (if words \<noteq> [] then cmds @ [words] else cmds)"

function scan_loop ::
  "units \<Rightarrow> string list \<Rightarrow> string list list \<Rightarrow> string list \<Rightarrow> string \<Rightarrow> (string list list \<times> string list) outcome" where
  "scan_loop cu words cmds n [] = Inr (flush_words words cmds, n)"
| "scan_loop cu words cmds n (c # s) =
     (if js_ws c then (if c = newline then scan_loop cu [] (flush_words words cmds) n s else scan_loop cu words cmds n s)
      else if c = CHR ''#'' \<and> words = [] then scan_loop cu words cmds n (dropWhile (\<lambda>d. d \<noteq> newline) s)
      else if shell_op c then scan_loop cu [] (flush_words words cmds) n (dropWhile shell_op s)
      else (case scan_word cu [] False n (c # s) of
              Inl e \<Rightarrow> Inl e
            | Inr (w, st, n', r) \<Rightarrow> scan_loop cu (if st then words @ [w] else words) cmds n' r))"
  by pat_completeness auto
termination
  by (relation "measure (\<lambda>(cu, words, cmds, n, s). length s)")
    (auto simp: le_imp_less_Suc length_dropWhile_le word_ends_def dest!: sym [of "Inr _"] scan_word_progress)

text \<open>The commands of the input and the nested ones.\<close>

definition scanShell :: "units \<Rightarrow> string \<Rightarrow> (string list list \<times> string list) outcome" where
  "scanShell cu input = scan_loop cu [] [] [] input"

section \<open>What a scan finds fits into its input\<close>

definition scan_room :: "string \<Rightarrow> nat" where
  "scan_room s = length s + (if at_separator s then 0 else 1)"

lemma scan_room_le: "scan_room s \<le> length s + 1"
  by (simp add: scan_room_def)

lemma flush_words_size: "wsize (concat (flush_words words cmds)) = wsize (concat cmds) + wsize words"
  by (simp add: flush_words_def)

lemma scan_room_dropWhile:
  "scan_room (dropWhile shell_op s) \<le> length s + 1" "scan_room (dropWhile (\<lambda>d. d \<noteq> newline) s) \<le> length s"
proof -
  show "scan_room (dropWhile shell_op s) \<le> length s + 1"
    using scan_room_le [of "dropWhile shell_op s"] length_dropWhile_le [of shell_op s] by linarith
  have "at_separator (dropWhile (\<lambda>d. d \<noteq> newline) s)"
    by (induction s) (auto simp: at_separator_def js_ws_def)
  then show "scan_room (dropWhile (\<lambda>d. d \<noteq> newline) s) \<le> length s"
    using length_dropWhile_le [of "\<lambda>d. d \<noteq> newline" s] by (simp add: scan_room_def)
qed

lemma scan_loop_size:
  "scan_loop cu words cmds n s = Inr (cmds', n') \<Longrightarrow>
     wsize (concat cmds') + wsize n' \<le> wsize (concat cmds) + wsize words + wsize n + scan_room s"
proof (induction "length s" arbitrary: words cmds n s rule: less_induct)
  case less
  show ?case
  proof (cases s)
    case Nil
    then show ?thesis
      using less.prems flush_words_size [of words cmds] by simp
  next
    case (Cons c t)
    have ih: "scan_loop cu v d m u = Inr (cmds', n') \<Longrightarrow> length u \<le> length t \<Longrightarrow>
        wsize (concat cmds') + wsize n' \<le> wsize (concat d) + wsize v + wsize m + scan_room u" for v d m u
      using less.hyps [of u v d m] Cons by simp
    consider (ws) "js_ws c" | (comment) "c = CHR ''#''" "words = []" "\<not> js_ws c"
      | (op) "shell_op c" "\<not> js_ws c" "\<not> (c = CHR ''#'' \<and> words = [])"
      | (word) "\<not> shell_op c" "\<not> js_ws c" "\<not> (c = CHR ''#'' \<and> words = [])"
      by blast
    then show ?thesis
    proof cases
      case ws
      then have "scan_room s = length t + 1"
        by (simp add: Cons scan_room_def at_separator_def)
      then show ?thesis
        using ih [of _ _ _ t] less.prems ws scan_room_le [of t] by (fastforce simp: Cons flush_words_size split: if_splits)
    next
      case comment
      then have "scan_room s = length t + 2"
        by (simp add: Cons scan_room_def at_separator_def shell_op_def)
      then show ?thesis
        using ih [of _ _ _ "dropWhile (\<lambda>d. d \<noteq> newline) t"] less.prems comment scan_room_dropWhile(2) [of t]
          length_dropWhile_le [of "\<lambda>d. d \<noteq> newline" t] by (fastforce simp: Cons)
    next
      case op
      then have "scan_room s = length t + 1"
        by (simp add: Cons scan_room_def at_separator_def)
      moreover have "scan_loop cu [] (flush_words words cmds) n (dropWhile shell_op t) = Inr (cmds', n')"
        using less.prems op by (auto simp: Cons)
      ultimately show ?thesis
        using ih [of "[]" "flush_words words cmds" n "dropWhile shell_op t"] scan_room_dropWhile(1) [of t]
          length_dropWhile_le [of shell_op t] by (simp add: flush_words_size)
    next
      case word
      then have room: "scan_room s = length s + 1" and go: "\<not> word_ends [] c"
        by (simp_all add: Cons scan_room_def at_separator_def word_ends_def)
      obtain w st m r where w: "scan_word cu [] False n s = Inr (w, st, m, r)"
          "scan_loop cu (if st then words @ [w] else words) cmds m r = Inr (cmds', n')"
        using less.prems word by (auto simp: Cons split: sum.splits)
      have "wsize m + length w + length r \<le> wsize n + length s"
        using scan_word_size [OF w(1)] by simp
      moreover have "scan_room r = length r"
        using scan_word_stops [OF w(1)] by (simp add: scan_room_def)
      moreover have "length r \<le> length t"
        using scan_word_progress go w(1) Cons by blast
      ultimately show ?thesis
        using ih [OF w(2)] room by (auto split: if_splits)
    qed
  qed
qed

lemma scanShell_size: "scanShell cu input = Inr (cmds, nested) \<Longrightarrow> wsize (concat cmds) + wsize nested \<le> length input + 1"
  using scan_loop_size [of cu "[]" "[]" "[]" input cmds nested] scan_room_le [of input] by (simp add: scanShell_def)

section \<open>Quoting\<close>

text \<open>\<open>shq\<close> of \<open>util/shell.ts\<close>.\<close>

definition quote_char :: "char \<Rightarrow> string" where
  "quote_char c = (if c = squote then [squote, backslash, squote, squote] else [c])"

definition shq :: "string \<Rightarrow> string" where
  "shq s = squote # concat (map quote_char s) @ [squote]"

lemma no_separator [simp]: "\<not> js_ws squote" "\<not> shell_op squote" "\<not> word_ends w squote" "\<not> word_ends w backslash"
  by (simp_all add: js_ws_def shell_op_def word_ends_def)

lemma scan_word_quoted:
  "scan_word cu w st n (squote # concat (map quote_char s) @ squote # r) = scan_word cu (w @ s) True n r"
proof (induction "length s" arbitrary: s w st rule: less_induct)
  case less
  show ?case
  proof (cases "squote \<in> set s")
    case False
    then have "concat (map quote_char s) = s"
      by (induction s) (auto simp: quote_char_def)
    with False show ?thesis
      by (simp add: scan_word.simps(2))
  next
    case True
    then obtain a b where s: "s = a @ squote # b" "squote \<notin> set a"
      by (meson split_list_first)
    then have "concat (map quote_char a) = a"
      by (induction a arbitrary: s) (auto simp: quote_char_def)
    then have parts: "concat (map quote_char s) = a @ squote # backslash # squote # squote # concat (map quote_char b)"
      by (simp add: s quote_char_def)
    show ?thesis
      unfolding parts using s less.hyps [of b "w @ a @ [squote]" True]
      by (simp add: scan_word.simps(2) [of _ _ _ _ squote] scan_word.simps(2) [of _ _ _ _ backslash])
  qed
qed

lemma scan_loop_quoted:
  "r = [] \<or> js_ws (hd r) \<Longrightarrow> scan_loop cu ws cmds n (shq s @ r) = scan_loop cu (ws @ [s]) cmds n r"
proof -
  assume "r = [] \<or> js_ws (hd r)"
  then have "scan_word cu s True n r = Inr (s, True, n, r)"
    by (cases r) (auto simp: scan_word.simps(2) word_ends_def)
  then have "scan_word cu [] False n (shq s @ r) = Inr (s, True, n, r)"
    by (simp add: shq_def scan_word_quoted)
  then show ?thesis
    by (simp add: shq_def)
qed

lemma scan_loop_quoted_words:
  "vs \<noteq> [] \<Longrightarrow> scan_loop cu ws cmds n (js_join '' '' (map shq vs)) = Inr (cmds @ [ws @ vs], n)"
proof (induction vs arbitrary: ws)
  case (Cons v vs)
  show ?case
  proof (cases vs)
    case Nil
    then show ?thesis
      using scan_loop_quoted [of "[]" cu ws cmds n v] by (simp add: flush_words_def)
  next
    case (Cons u us)
    then show ?thesis
      using Cons.IH [of "ws @ [v]"] scan_loop_quoted [of "CHR '' '' # js_join '' '' (map shq vs)" cu ws cmds n v]
      by (simp add: js_ws_def)
  qed
qed simp

text \<open>C28: Quoted words come back from the scan: a command line built from words with \<open>shq\<close> is one command of exactly
  those words, whatever characters they hold, and nothing in them is taken for a nested command.\<close>

theorem quoted_words_scan_back:
  "scanShell cu (js_join '' '' (map shq words)) = Inr (if words = [] then [] else [words], [])"
  using scan_loop_quoted_words [of words cu "[]" "[]" "[]"] by (simp add: scanShell_def flush_words_def)

text \<open>A scan does not grow its input: all the words it finds and all the nested commands, each with a separator,
  fit into the input and one separator more, which is what the recursions over them descend by.\<close>

theorem scan_fits_input:
  assumes "scanShell cu input = Inr (cmds, nested)"
  shows "wsize (concat cmds) + wsize nested \<le> length input + 1"
  using assms by (rule scanShell_size)

end
