(* ===== verification/Shell_Payloads.thy ===== *)
theory Shell_Payloads
  imports Shell_Scan
begin

text \<open>
  What a command line makes a shell run: the payload part of \<open>policy/command-policy.ts\<close>. The code skips the
  commands that only run another one (\<open>env\<close>, \<open>sudo\<close>, \<open>timeout\<close>, \dots), and collects the scripts of \<open>sh -c\<close>,
  \<open>eval\<close>, pipes into a shell, here-strings and plain variables. An index that runs past the end, as
  \<open>optionCommand\<close> may return, stays past the end here; a slice from there is empty.
\<close>

section \<open>Where a command starts\<close>

definition rx_name_start :: rx where
  "rx_name_start = RChar (\<lambda>c. rx_alpha c \<or> c = CHR ''_'')"

definition rx_name :: rx where
  "rx_name = RSeq rx_name_start (rx_star (RChar rx_word))"

text \<open>\<open>/^[A-Za-z_]\w*=/\<close>\<close>

definition is_assignment :: "string \<Rightarrow> bool" where
  "is_assignment w \<longleftrightarrow> rx_test (rx_seq [RBol False, rx_name, rx_lit (CHR ''='')]) w"

definition shell_keyword :: "string \<Rightarrow> bool" where
  "shell_keyword w \<longleftrightarrow> w \<in> set [''if'', ''then'', ''elif'', ''else'', ''while'', ''until'', ''do'', ''!'']"

text \<open>\<open>/^\d*(?:>>?|<<?|<>|>&|<&)\<close> followed by \<open>$/\<close> or \<open>.+/\<close>\<close>

definition rx_redirect :: "rx \<Rightarrow> rx" where
  "rx_redirect tail =
     rx_seq [RBol False, rx_star (rx_one_of ''0123456789''),
       rx_alt [RSeq (rx_lit (CHR ''>'')) (rx_opt (rx_lit (CHR ''>''))),
               RSeq (rx_lit (CHR ''<'')) (rx_opt (rx_lit (CHR ''<''))),
               rx_text ''<>'', rx_text ''>&'', rx_text ''<&''], tail]"

fun commandStart :: "string list \<Rightarrow> nat" where
  "commandStart [] = 0"
| "commandStart (w # ws) =
     (if is_assignment w \<or> shell_keyword w then 1 + commandStart ws
      else if rx_test (rx_redirect (REol False)) w then 2 + commandStart (tl ws)
      else if rx_test (rx_redirect (rx_plus rx_dot)) w then 1 + commandStart ws
      else 0)"

definition executable_of :: "string \<Rightarrow> string" where
  "executable_of w = last (js_split w (CHR ''/''))"

section \<open>Options of wrapping commands\<close>

text \<open>\<open>word.replace(/=.*/, "")\<close>\<close>

definition option_name :: "string \<Rightarrow> string" where
  "option_name w = rx_replace_first (RSeq (rx_lit (CHR ''='')) (rx_star rx_dot)) (\<lambda>m. []) None w"

fun skip_options :: "string list \<Rightarrow> string list \<Rightarrow> nat" where
  "skip_options vs [] = 0"
| "skip_options vs (w # ws) =
     (if w = ''--'' then 1
      else if \<not> js_startsWith w ''-'' \<or> w = ''-'' then 0
      else if option_name w \<in> set vs \<and> CHR ''='' \<notin> set w then 2 + skip_options vs (tl ws)
      else 1 + skip_options vs ws)"

definition optionCommand :: "string list \<Rightarrow> nat \<Rightarrow> string list \<Rightarrow> nat" where
  "optionCommand ws start vs = start + skip_options vs (drop start ws)"

definition sudo_options :: "string list" where
  "sudo_options = [''-u'', ''--user'', ''-g'', ''--group'', ''-h'', ''--host'', ''-p'', ''--prompt'', ''-C'', ''--chdir'',
     ''-T'', ''--command-timeout'', ''-R'', ''--chroot'', ''-t'', ''--type'']"

definition xargs_options :: "string list" where
  "xargs_options = [''-a'', ''--arg-file'', ''-d'', ''--delimiter'', ''-E'', ''--eof'', ''-I'', ''--replace'', ''-L'', ''--max-lines'',
     ''-n'', ''--max-args'', ''-P'', ''--max-procs'', ''-s'', ''--max-chars'']"

text \<open>Where the wrapped command begins among the arguments of the wrappers that every walk skips alike.\<close>

definition wrapped_at :: "string \<Rightarrow> string list \<Rightarrow> nat option" where
  "wrapped_at exe args =
     (if exe = ''exec'' then Some (optionCommand args 0 [''-a''])
      else if exe = ''sudo'' then Some (optionCommand args 0 sudo_options)
      else if exe = ''nice'' then Some (optionCommand args 0 [''-n'', ''--adjustment''])
      else if exe = ''timeout'' then Some (optionCommand args 0 [''-s'', ''--signal'', ''-k'', ''--kill-after''] + 1)
      else if exe = ''time'' then Some (optionCommand args 0 [''-o'', ''--output'', ''-f'', ''--format''])
      else if exe = ''nohup'' then Some (optionCommand args 0 [])
      else None)"

definition stdbuf_at :: "string list \<Rightarrow> nat" where
  "stdbuf_at args = optionCommand args 0 [''-i'', ''--input'', ''-o'', ''--output'', ''-e'', ''--error'']"

definition env_at :: "string list \<Rightarrow> string list \<Rightarrow> nat" where
  "env_at vs args = (let i = optionCommand args 0 vs in i + length (takeWhile is_assignment (drop i args)))"

definition env_options :: "string list" where
  "env_options = [''-u'', ''--unset'', ''-C'', ''--chdir'']"

definition env_split_options :: "string list" where
  "env_split_options = env_options @ [''-S'', ''--split-string'']"

text \<open>\<open>env -S\<close>: the string to split, if there is one, and the words after it.\<close>

definition split_option :: "string \<Rightarrow> bool" where
  "split_option arg \<longleftrightarrow> js_startsWith arg ''-S'' \<or> arg = ''--split-string'' \<or> js_startsWith arg ''--split-string=''"

fun find_index :: "('a \<Rightarrow> bool) \<Rightarrow> 'a list \<Rightarrow> nat option" where
  "find_index p [] = None"
| "find_index p (x # xs) = (if p x then Some 0 else map_option Suc (find_index p xs))"

definition splitStringPayload :: "string list \<Rightarrow> nat \<Rightarrow> string option \<times> string list" where
  "splitStringPayload args i =
     (let arg = args ! i;
          compact = js_startsWith arg ''-S'' \<and> 2 < length arg;
          inline = CHR ''='' \<in> set arg;
          val = (if inline then Some (tl (dropWhile (\<lambda>c. c \<noteq> CHR ''='') arg))
                   else if compact then Some (drop 2 arg)
                   else if i + 1 < length args then Some (args ! (i + 1)) else None)
      in (val, drop (i + (if inline \<or> compact then 1 else 2)) args))"

definition envSplitWords :: "units \<Rightarrow> string list \<Rightarrow> string list option outcome" where
  "envSplitWords cu args =
     (case find_index split_option args of
        None \<Rightarrow> Inr None
      | Some i \<Rightarrow>
          (case splitStringPayload args i of
             (None, rest) \<Rightarrow> Inr (Some [])
           | (Some v, rest) \<Rightarrow>
               obind (scanShell cu (js_join '' '' (v # rest))) (\<lambda>(cmds, nested). Inr (Some (case cmds of [] \<Rightarrow> [] | c # _ \<Rightarrow> c)))))"

section \<open>Every unwrapping makes the words fewer\<close>

lemma find_index_Some: "find_index p xs = Some i \<Longrightarrow> i < length xs \<and> p (xs ! i)"
  by (induction xs arbitrary: i) (auto split: if_splits)

lemma wsize_drop: "wsize (drop k ws) \<le> wsize ws"
  by (metis append_take_drop_id le_add2 wsize_simps(3))

lemma wsize_args: "start < length ws \<Longrightarrow> wsize (drop (Suc start) ws) < wsize ws"
proof -
  assume "start < length ws"
  then have "drop start ws = ws ! start # drop (Suc start) ws"
    by (simp add: Cons_nth_drop_Suc)
  then show ?thesis
    using wsize_drop [of start ws] by simp
qed

lemma wsize_pos [simp]: "0 < wsize ws \<longleftrightarrow> ws \<noteq> []"
  by (cases ws) auto

lemma wsize_drop_less: "0 < j \<Longrightarrow> ws \<noteq> [] \<Longrightarrow> wsize (drop j ws) < wsize ws"
  using wsize_drop [of "j - 1" "tl ws"] by (cases ws; cases j) auto

lemma wsize_join: "ws \<noteq> [] \<Longrightarrow> length (js_join '' '' ws) + 1 = wsize ws"
  by (induction "'' '' :: string" ws rule: js_join.induct) auto

lemma splitStringPayload_size:
  assumes "i < length args" "splitStringPayload args i = (Some v, rest)"
  shows "wsize (v # rest) \<le> wsize args"
proof -
  have split: "drop i args = args ! i # drop (Suc i) args"
    using assms(1) by (simp add: Cons_nth_drop_Suc)
  have short: "length (tl (dropWhile q (args ! i))) \<le> length (args ! i)" for q
    using length_dropWhile_le [of q "args ! i"] by simp
  have "wsize (v # rest) \<le> wsize (drop i args)"
  proof (cases "i + 1 < length args")
    case True
    then have "wsize (drop (Suc i) args) = length (args ! Suc i) + 1 + wsize (drop (Suc (Suc i)) args)"
      by (simp add: Cons_nth_drop_Suc [symmetric])
    then show ?thesis
      using assms(2) short split by (auto simp: splitStringPayload_def Let_def split: if_splits)
  next
    case False
    then show ?thesis
      using assms(2) short split by (auto simp: splitStringPayload_def Let_def split: if_splits)
  qed
  then show ?thesis
    using wsize_drop le_trans by blast
qed

lemma envSplitWords_size: "envSplitWords cu args = Inr (Some ws) \<Longrightarrow> wsize ws \<le> wsize args"
proof -
  assume split: "envSplitWords cu args = Inr (Some ws)"
  then obtain i where i: "find_index split_option args = Some i"
    by (auto simp: envSplitWords_def split: option.splits)
  show ?thesis
  proof (cases "splitStringPayload args i")
    case (Pair val rest)
    show ?thesis
    proof (cases val)
      case None
      then show ?thesis
        using split i Pair by (simp add: envSplitWords_def)
    next
      case (Some v)
      then obtain cmds inner where scan: "scanShell cu (js_join '' '' (v # rest)) = Inr (cmds, inner)"
          and ws: "ws = (case cmds of [] \<Rightarrow> [] | c # _ \<Rightarrow> c)"
        using split i Pair by (auto simp: envSplitWords_def obind_Inr_iff)
      have "wsize ws \<le> wsize (concat cmds)"
        by (cases cmds) (simp_all add: ws)
      also have "\<dots> \<le> wsize (v # rest)"
        using scanShell_size [OF scan] wsize_join [of "v # rest"] by simp
      also have "\<dots> \<le> wsize args"
        using splitStringPayload_size find_index_Some [OF i] Pair Some by blast
      finally show ?thesis .
    qed
  qed
qed

section \<open>Commands that read a script from their input\<close>

definition shells :: "string list" where
  "shells = [''bash'', ''sh'', ''dash'', ''zsh'', ''ksh'']"

definition shell_value_options :: "string list" where
  "shell_value_options = [''-O'', ''-o'', ''--rcfile'', ''--init-file'']"

definition stdin_scripts :: "string list" where
  "stdin_scripts = [''-'', ''/dev/stdin'', ''/dev/fd/0'', ''/proc/self/fd/0'']"

text \<open>\<open>/^-[^-]*c/\<close>\<close>

definition dash_c :: "string \<Rightarrow> bool" where
  "dash_c arg \<longleftrightarrow> rx_test (rx_seq [RBol False, rx_lit (CHR ''-''), rx_star (rx_none_of ''-''), rx_lit (CHR ''c'')]) arg"

fun shell_reads_stdin :: "string list \<Rightarrow> bool" where
  "shell_reads_stdin [] = True"
| "shell_reads_stdin (arg # args) =
     (if dash_c arg then False
      else if arg = ''-s'' then True
      else if arg \<in> set shell_value_options then shell_reads_stdin (tl args)
      else if arg = ''--'' then (case args of [] \<Rightarrow> True | x # _ \<Rightarrow> x \<in> set stdin_scripts)
      else if \<not> js_startsWith arg ''-'' \<or> arg = ''-'' then arg \<in> set stdin_scripts
      else shell_reads_stdin args)"

function segmentConsumesShellStdin :: "units \<Rightarrow> string list \<Rightarrow> bool outcome" where
  "segmentConsumesShellStdin cu words =
     (let start = commandStart words in
      if length words \<le> start then Inr False
      else
        (let exe = executable_of (words ! start); args = drop (Suc start) words in
         if exe \<in> set shells then Inr (shell_reads_stdin args)
         else if exe = ''env'' then
           (case envSplitWords cu args of
              Inl e \<Rightarrow> Inl e
            | Inr (Some split) \<Rightarrow> segmentConsumesShellStdin cu split
            | Inr None \<Rightarrow> segmentConsumesShellStdin cu (drop (env_at env_split_options args) args))
         else if exe = ''command'' then segmentConsumesShellStdin cu (drop (optionCommand args 0 []) args)
         else if exe = ''stdbuf'' then segmentConsumesShellStdin cu (drop (stdbuf_at args) args)
         else (case wrapped_at exe args of
                 None \<Rightarrow> Inr False
               | Some k \<Rightarrow> segmentConsumesShellStdin cu (drop k args))))"
  by pat_completeness auto
termination
  by (relation "measure (\<lambda>(cu, words). wsize words)")
    (auto simp: not_le intro!: wsize_drop_less intro: le_less_trans [OF envSplitWords_size wsize_args] dest!: sym [of "Inr _"])

declare segmentConsumesShellStdin.simps [simp del]

section \<open>What a command writes\<close>

fun command_skip :: "string list \<Rightarrow> nat option" where
  "command_skip [] = Some 0"
| "command_skip (a # args) =
     (if a = ''--'' then Some 1
      else if a = ''-v'' \<or> a = ''-V'' then None
      else if a \<noteq> ''-p'' then Some 0
      else map_option Suc (command_skip args))"

text \<open>\<open>/^-[neE]+$/\<close>; the options of \<open>echo\<close> decide whether escapes are decoded.\<close>

definition echo_option :: "string \<Rightarrow> bool" where
  "echo_option w \<longleftrightarrow> rx_test (rx_seq [RBol False, rx_lit (CHR ''-''), rx_plus (rx_one_of ''neE''), REol False]) w"

fun echo_options :: "bool \<Rightarrow> string list \<Rightarrow> bool \<times> string list" where
  "echo_options decode [] = (decode, [])"
| "echo_options decode (a # args) =
     (if echo_option a
      then echo_options (fold (\<lambda>c b. if c = CHR ''e'' then True else if c = CHR ''E'' then False else b) (tl a) decode) args
      else (decode, a # args))"

text \<open>\<open>printf\<close>: each \<open>%s\<close> and \<open>%b\<close> takes the next value; the values left over follow.\<close>

fun printf_render :: "units \<Rightarrow> string list \<Rightarrow> string \<Rightarrow> (string \<times> string list) outcome" where
  "printf_render cu vs [] = Inr ([], vs)"
| "printf_render cu vs [c] = Inr ([c], vs)"
| "printf_render cu vs (c # d # s) =
     (if c = CHR ''%'' \<and> d = CHR ''%'' then obind (printf_render cu vs s) (\<lambda>(t, r). Inr (CHR ''%'' # t, r))
      else if c = CHR ''%'' \<and> (d = CHR ''s'' \<or> d = CHR ''b'') then
        (let v = (case vs of [] \<Rightarrow> [] | v # _ \<Rightarrow> v) in
         obind (if d = CHR ''b'' then decodeAnsiC cu v else Inr v) (\<lambda>w.
         obind (printf_render cu (tl vs) s) (\<lambda>(t, r). Inr (w @ t, r))))
      else obind (printf_render cu vs (d # s)) (\<lambda>(t, r). Inr (c # t, r)))"

definition printf_payload :: "units \<Rightarrow> string list \<Rightarrow> string outcome" where
  "printf_payload cu args =
     obind (decodeAnsiC cu (hd args)) (\<lambda>format.
     obind (printf_render cu (tl args) format) (\<lambda>(rendered, left).
     Inr (js_join [newline] ([rendered] @ left @ [js_join '' '' args]))))"

definition written_text :: "units \<Rightarrow> string \<Rightarrow> string list \<Rightarrow> string option outcome" where
  "written_text cu exe args0 =
     (let args = (if args0 \<noteq> [] \<and> hd args0 = ''--'' then tl args0 else args0) in
      if exe = ''echo'' then
        (case echo_options False args of (decode, ws) \<Rightarrow>
           if decode then map_sum id Some (decodeAnsiC cu (js_join '' '' ws)) else Inr (Some (js_join '' '' ws)))
      else if exe \<noteq> ''printf'' \<or> args = [] then Inr None
      else map_sum id Some (printf_payload cu args))"

function literalProducerPayload :: "units \<Rightarrow> string list \<Rightarrow> string option outcome" where
  "literalProducerPayload cu words =
     (let start = commandStart words in
      if length words \<le> start then Inr None
      else
        (let exe = executable_of (words ! start); args = drop (Suc start) words in
         if exe = ''command'' then
           (case command_skip args of None \<Rightarrow> Inr None | Some k \<Rightarrow> literalProducerPayload cu (drop k args))
         else if exe = ''builtin'' then
           (if args \<noteq> [] \<and> js_startsWith (hd args) ''-'' \<and> hd args \<noteq> ''--'' then Inr None
            else literalProducerPayload cu (drop (if args \<noteq> [] \<and> hd args = ''--'' then 1 else 0) args))
         else if exe = ''env'' then
           (case envSplitWords cu args of
              Inl e \<Rightarrow> Inl e
            | Inr (Some split) \<Rightarrow> literalProducerPayload cu split
            | Inr None \<Rightarrow> literalProducerPayload cu (drop (env_at env_options args) args))
         else if exe = ''stdbuf'' then literalProducerPayload cu (drop (stdbuf_at args) args)
         else (case wrapped_at exe args of
                 None \<Rightarrow> written_text cu exe args
               | Some k \<Rightarrow> literalProducerPayload cu (drop k args))))"
  by pat_completeness auto
termination
  by (relation "measure (\<lambda>(cu, words). wsize words)")
    (auto simp: not_le intro!: wsize_drop_less intro: le_less_trans [OF envSplitWords_size wsize_args] dest!: sym [of "Inr _"])

declare literalProducerPayload.simps [simp del]

section \<open>Pipelines into a shell\<close>

definition finish_segment :: "string \<Rightarrow> string list \<Rightarrow> string list" where
  "finish_segment seg pipeline = (let t = js_trim seg in if t \<noteq> [] then pipeline @ [t] else pipeline)"

definition finish_pipeline :: "string \<Rightarrow> string list \<Rightarrow> string list list \<Rightarrow> string list list" where
  "finish_pipeline seg pipeline pls =
     (let p = finish_segment seg pipeline in if 1 < length p then pls @ [p] else pls)"

text \<open>\<open>seg\<close> is the input since the last separator.\<close>

function pipe_scan :: "string list list \<Rightarrow> string list \<Rightarrow> char option \<Rightarrow> string \<Rightarrow> string \<Rightarrow> string list list" where
  "pipe_scan pls pipeline quote seg [] = finish_pipeline seg pipeline pls"
| "pipe_scan pls pipeline quote seg (c # s) =
     (if c = backslash then pipe_scan pls pipeline quote (seg @ c # take 1 s) (drop 1 s)
      else if quote \<noteq> None then pipe_scan pls pipeline (if quote = Some c then None else quote) (seg @ [c]) s
      else if c = squote \<or> c = dquote \<or> c = CHR 0x60 then pipe_scan pls pipeline (Some c) (seg @ [c]) s
      else if (c = CHR ''|'' \<or> c = CHR ''&'') \<and> js_startsWith s [c]
      then pipe_scan (finish_pipeline seg pipeline pls) [] None [] (drop 1 s)
      else if c = CHR ''|''
      then pipe_scan pls (finish_segment seg pipeline) None [] (if js_startsWith s ''&'' then drop 1 s else s)
      else if c = CHR '';'' \<or> c = newline \<or> c = CHR ''&''
      then pipe_scan (finish_pipeline seg pipeline pls) [] None [] s
      else pipe_scan pls pipeline None (seg @ [c]) s)"
  by pat_completeness auto
termination
  by (relation "measure (\<lambda>(pls, pipeline, quote, seg, s). length s)") auto

definition shellPipelines :: "string \<Rightarrow> string list list" where
  "shellPipelines input = pipe_scan [] [] None [] input"

definition piped_payload :: "units \<Rightarrow> string \<Rightarrow> string \<Rightarrow> string list outcome" where
  "piped_payload cu producer consumer =
     obind (scanShell cu consumer) (\<lambda>(cs, _).
       case cs of
         [] \<Rightarrow> Inr []
       | c # _ \<Rightarrow>
           obind (segmentConsumesShellStdin cu c) (\<lambda>reads.
             if \<not> reads then Inr []
             else obind (scanShell cu producer) (\<lambda>(ps, _).
               if ps = [] then Inr []
               else obind (literalProducerPayload cu (last ps)) (\<lambda>p. Inr (if truthy p then [the p] else [])))))"

fun piped_pairs :: "units \<Rightarrow> string list \<Rightarrow> string list outcome" where
  "piped_pairs cu (p # q # rest) =
     obind (piped_payload cu p q) (\<lambda>xs. obind (piped_pairs cu (q # rest)) (\<lambda>ys. Inr (xs @ ys)))"
| "piped_pairs cu _ = Inr []"

fun omap_concat :: "('a \<Rightarrow> 'b list outcome) \<Rightarrow> 'a list \<Rightarrow> 'b list outcome" where
  "omap_concat f [] = Inr []"
| "omap_concat f (x # xs) = obind (f x) (\<lambda>ys. obind (omap_concat f xs) (\<lambda>zs. Inr (ys @ zs)))"

definition pipedShellPayloads :: "units \<Rightarrow> string \<Rightarrow> string list outcome" where
  "pipedShellPayloads cu input = omap_concat (piped_pairs cu) (shellPipelines input)"

section \<open>Here-strings\<close>

function space_here :: "char option \<Rightarrow> string \<Rightarrow> string" where
  "space_here quote [] = []"
| "space_here quote (c # s) =
     (if c = backslash then c # take 1 s @ space_here quote (drop 1 s)
      else if quote \<noteq> None then c # space_here (if quote = Some c then None else quote) s
      else if c = squote \<or> c = dquote \<or> c = CHR 0x60 then c # space_here (Some c) s
      else if js_startsWith (c # s) ''<<<'' then '' <<< '' @ space_here None (drop 2 s)
      else c # space_here None s)"
  by pat_completeness auto
termination
  by (relation "measure (\<lambda>(quote, s). length s)") auto

definition here_payload :: "units \<Rightarrow> string list \<Rightarrow> string list outcome" where
  "here_payload cu words =
     (case find_index (\<lambda>w. w = ''<<<'') words of
        None \<Rightarrow> Inr []
      | Some i \<Rightarrow>
          if i = 0 then Inr []
          else obind (segmentConsumesShellStdin cu (take i words)) (\<lambda>reads.
                 Inr (if reads \<and> i + 1 < length words \<and> words ! (i + 1) \<noteq> [] then [words ! (i + 1)] else [])))"

definition hereStringShellPayloads :: "units \<Rightarrow> string \<Rightarrow> string list outcome" where
  "hereStringShellPayloads cu input =
     obind (scanShell cu (space_here None input)) (\<lambda>(cmds, _). omap_concat (here_payload cu) cmds)"

section \<open>Commands named by a variable\<close>

function executableIndex :: "string list \<Rightarrow> nat \<Rightarrow> nat option" where
  "executableIndex words offset =
     (let start = commandStart words in
      if length words \<le> start then None
      else
        (let exe = executable_of (words ! start); args = drop (Suc start) words;
             skip = (if exe = ''command'' then Some (optionCommand args 0 [])
                     else if exe = ''env'' then Some (env_at env_split_options args)
                     else if exe = ''stdbuf'' then Some (stdbuf_at args)
                     else wrapped_at exe args)
         in case skip of
              None \<Rightarrow> Some (offset + start)
            | Some k \<Rightarrow> executableIndex (drop k args) (offset + start + 1 + k)))"
  by pat_completeness auto
termination
  by (relation "measure (\<lambda>(words, offset). wsize words)") (auto simp: not_le intro!: wsize_drop_less)

declare executableIndex.simps [simp del]

text \<open>\<open>/^([A-Za-z_]\w*)=([\w./-]+)$/\<close> and \<open>/^\$(?:\{([A-Za-z_]\w*)\}|([A-Za-z_]\w*))$/\<close>\<close>

definition rx_simple_assignment :: rx where
  "rx_simple_assignment =
     rx_seq [RBol False, RGroup 1 rx_name, rx_lit (CHR ''=''),
       RGroup 2 (rx_plus (RChar (\<lambda>c. rx_word c \<or> c \<in> set ''./-''))), REol False]"

definition rx_variable :: rx where
  "rx_variable =
     rx_seq [RBol False, rx_lit (CHR ''$''),
       RAlt (rx_seq [rx_lit (CHR ''{''), RGroup 1 rx_name, rx_lit (CHR ''}'')]) (RGroup 2 rx_name), REol False]"

definition note_assignment :: "string \<Rightarrow> (string, string) jsmap \<Rightarrow> (string, string) jsmap" where
  "note_assignment w vals =
     (case rx_exec rx_simple_assignment w of
        None \<Rightarrow> vals
      | Some m \<Rightarrow>
          (case (mt_group 1 m, mt_group 2 m) of
             (Some k, Some v) \<Rightarrow> map_set k v vals
           | _ \<Rightarrow> vals))"

definition variable_name :: "string \<Rightarrow> string" where
  "variable_name w =
     (case rx_exec rx_variable w of
        None \<Rightarrow> []
      | Some m \<Rightarrow>
          (case mt_group 1 m of
             Some k \<Rightarrow> k
           | None \<Rightarrow> (case mt_group 2 m of Some k \<Rightarrow> k | None \<Rightarrow> [])))"

definition variable_payload :: "(string, string) jsmap \<Rightarrow> string list \<Rightarrow> string list" where
  "variable_payload vals words =
     (case executableIndex words 0 of
        None \<Rightarrow> []
      | Some i \<Rightarrow>
          (case map_get vals (variable_name (words ! i)) of
             None \<Rightarrow> []
           | Some v \<Rightarrow> if v = [] then [] else [js_join '' '' (take i words @ [v] @ drop (Suc i) words)]))"

fun variable_payloads :: "(string, string) jsmap \<Rightarrow> string list list \<Rightarrow> string list" where
  "variable_payloads vals [] = []"
| "variable_payloads vals (words # cmds) =
     (if length words \<le> commandStart words then variable_payloads (fold note_assignment words vals) cmds
      else variable_payload vals words @ variable_payloads vals cmds)"

definition simpleVariablePayloads :: "units \<Rightarrow> string \<Rightarrow> string list outcome" where
  "simpleVariablePayloads cu input = obind (scanShell cu input) (\<lambda>(cmds, _). Inr (variable_payloads [] cmds))"

section \<open>Scripts given as arguments\<close>

fun shell_script :: "string list \<Rightarrow> string list" where
  "shell_script [] = []"
| "shell_script (a # args) =
     (if a = ''--'' \<or> \<not> js_startsWith a ''-'' then []
      else if a \<in> set shell_value_options then shell_script (tl args)
      else if dash_c a then take 1 args
      else shell_script args)"

function segmentShellPayloads :: "string list \<Rightarrow> string list" where
  "segmentShellPayloads words =
     (let start = commandStart words in
      if length words \<le> start then []
      else
        (let exe = executable_of (words ! start); args = drop (Suc start) words in
         if exe \<in> set shells then shell_script args
         else if exe = ''eval'' then (if args \<noteq> [] then [js_join '' '' args] else [])
         else if exe = ''env'' then
           (case find_index split_option args of
              Some i \<Rightarrow> (case splitStringPayload args i of (None, rest) \<Rightarrow> [] | (Some v, rest) \<Rightarrow> [js_join '' '' (v # rest)])
            | None \<Rightarrow> segmentShellPayloads (drop (env_at env_split_options args) args))
         else if exe = ''command'' then
           (case command_skip args of None \<Rightarrow> [] | Some k \<Rightarrow> segmentShellPayloads (drop k args))
         else if exe = ''coproc'' then segmentShellPayloads args
         else if exe = ''xargs'' then segmentShellPayloads (drop (optionCommand args 0 xargs_options) args)
         else (case wrapped_at exe args of None \<Rightarrow> [] | Some k \<Rightarrow> segmentShellPayloads (drop k args))))"
  by pat_completeness auto
termination
  by (relation "measure wsize") (auto simp: not_le intro!: wsize_drop_less)

declare segmentShellPayloads.simps [simp del]

definition executedShellPayloads :: "units \<Rightarrow> string \<Rightarrow> string list outcome" where
  "executedShellPayloads cu input =
     obind (scanShell cu input) (\<lambda>(cmds, nested).
     obind (pipedShellPayloads cu input) (\<lambda>piped.
     obind (hereStringShellPayloads cu input) (\<lambda>here.
     obind (simpleVariablePayloads cu input) (\<lambda>variables.
     Inr (nested @ concat (map segmentShellPayloads cmds) @ piped @ here @ variables)))))"

section \<open>Splitting descends\<close>

text \<open>The unwrapping of nested commands ends: whatever string \<open>env -S\<close> gives to be split again, the words it
  splits into are together smaller than the words of the command they come from, so the walks that
  unwrap \<open>env\<close>, \<open>sudo\<close> and their like reach a command that wraps no other.\<close>

theorem split_words_shrink:
  assumes "commandStart words < length words" "envSplitWords cu (drop (Suc (commandStart words)) words) = Inr (Some split)"
  shows "wsize split < wsize words"
  using le_less_trans [OF envSplitWords_size [OF assms(2)] wsize_args [OF assms(1)]] .

lemma split_words_shrink_witness: "wsize [''ls'', ''-l'', ''/x''] < wsize [''env'', ''-S'', ''ls -l'', ''/x'']"
  by (rule split_words_shrink [where cu = "\<lambda>n. CHR ''?''"]) code_simp+

end
