(* ===== verification/Command_Policy.thy ===== *)
theory Command_Policy
  imports Shell_Payloads
begin

text \<open>
  Command policies: \<open>policy/command-policy.ts\<close> with \<open>util/safe-regex.ts\<close>. What a command would run is unfolded
  into a text (\<open>scannableCommand\<close>), the rules of the organisation come before those of the scope and the
  first rule whose pattern matches decides. The patterns of rules are values given by users: the engine that
  runs them, \<open>new RegExp(pattern, flags)\<close>, is the parameter \<open>engine\<close>, which throws or yields the search of the
  first match.
\<close>

section \<open>Policies\<close>

datatype command_decision = Allow | Deny | RequireApproval

record command_rule =
  cr_pattern :: string
  cr_decision :: command_decision
  cr_reason :: "string option"

datatype policy_mode = Denylist | Allowlist

record command_policy =
  cp_mode :: policy_mode
  cp_rules :: "command_rule list"

definition rule_of :: "string \<Rightarrow> command_decision \<Rightarrow> string \<Rightarrow> command_rule" where
  "rule_of pattern decision reason = \<lparr>cr_pattern = pattern, cr_decision = decision, cr_reason = Some reason\<rparr>"

text \<open>In the patterns a backslash is written \<open>~\<close> and replaced.\<close>

definition pattern_text :: "string \<Rightarrow> string" where
  "pattern_text s = map (\<lambda>c. if c = CHR ''~'' then backslash else c) s"

definition ORG_FLOOR_RULES :: "command_rule list" where
  "ORG_FLOOR_RULES =
     [rule_of (pattern_text ''~brm~b[^~n]*(?:-[a-zA-Z]*r|--recursive)'') RequireApproval ''recursive delete'',
      rule_of (pattern_text ''~bgit~s+push~b.*(?:--force~b|(?:^|~s)-[a-zA-Z]*f~b)'') RequireApproval ''force push'',
      rule_of (pattern_text ''~b(drop|truncate)~s+table~b'') RequireApproval ''destructive SQL'',
      rule_of (pattern_text ''~bmkfs~b|:~(~)~s*~{'') Deny ''destructive / fork bomb'',
      rule_of (pattern_text ''~bcurl~b.*~|~s*(sh|bash)~b'') RequireApproval ''pipe-to-shell'']"

definition defaultOrgPolicy :: command_policy where
  "defaultOrgPolicy = \<lparr>cp_mode = Denylist, cp_rules = ORG_FLOOR_RULES\<rparr>"

definition composePolicy :: "command_policy \<Rightarrow> command_policy option \<Rightarrow> command_policy" where
  "composePolicy orgFloor scope =
     (case scope of
        None \<Rightarrow> orgFloor
      | Some s \<Rightarrow>
          \<lparr>cp_mode = (if cp_mode orgFloor = Allowlist then Allowlist else cp_mode s),
           cp_rules = cp_rules orgFloor @ cp_rules s\<rparr>)"

section \<open>Safe patterns\<close>

type_synonym regexp_engine = "string \<Rightarrow> string \<Rightarrow> (string \<Rightarrow> string option) outcome"

definition MAX_PATTERN_CHARS :: nat where
  "MAX_PATTERN_CHARS = 256"

text \<open>\<open>/\\[1-9]|\\k<|\(\?[=!<]/\<close>\<close>

definition rx_unsupported :: rx where
  "rx_unsupported =
     rx_alt [RSeq (rx_lit backslash) (rx_one_of ''123456789''), rx_text (backslash # ''k<''),
             RSeq (rx_text ''(?'') (rx_one_of ''=!<'')]"

text \<open>The loop of \<open>compileSafeRegex\<close>; a group is quantified or has an alternation, the innermost comes first.\<close>

record pattern_scan =
  ps_groups :: "(bool \<times> bool) list"
  ps_escaped :: bool
  ps_inClass :: bool
  ps_previousQuantifier :: bool
  ps_closed :: "(bool \<times> bool) option"

definition pattern_scan_start :: pattern_scan where
  "pattern_scan_start =
     \<lparr>ps_groups = [], ps_escaped = False, ps_inClass = False, ps_previousQuantifier = False, ps_closed = None\<rparr>"

definition plain_char :: "pattern_scan \<Rightarrow> pattern_scan" where
  "plain_char p = p\<lparr>ps_previousQuantifier := False, ps_closed := None\<rparr>"

fun mark_group :: "(bool \<times> bool \<Rightarrow> bool \<times> bool) \<Rightarrow> (bool \<times> bool) list \<Rightarrow> (bool \<times> bool) list" where
  "mark_group f [] = []"
| "mark_group f (g # gs) = f g # gs"

definition is_quantifier :: "char option \<Rightarrow> char \<Rightarrow> bool" where
  "is_quantifier prev c \<longleftrightarrow>
     c = CHR ''*'' \<or> c = CHR ''+'' \<or> c = CHR ''?'' \<and> prev \<noteq> Some (CHR ''('') \<or> c = CHR ''{''"

text \<open>\<^term>\<open>None\<close> is the error about nested repetition.\<close>

definition scan_pattern_char :: "char option \<Rightarrow> char \<Rightarrow> pattern_scan \<Rightarrow> pattern_scan option" where
  "scan_pattern_char prev c p =
     (if ps_escaped p then Some (plain_char (p\<lparr>ps_escaped := False\<rparr>))
      else if c = backslash then Some (p\<lparr>ps_escaped := True\<rparr>)
      else if c = CHR ''['' then Some (plain_char (p\<lparr>ps_inClass := True\<rparr>))
      else if c = CHR '']'' \<and> ps_inClass p then Some (p\<lparr>ps_inClass := False\<rparr>)
      else if ps_inClass p then Some p
      else if c = CHR ''('' then Some (plain_char (p\<lparr>ps_groups := (False, False) # ps_groups p\<rparr>))
      else if c = CHR ''|'' then Some (plain_char (p\<lparr>ps_groups := mark_group (\<lambda>(q, b). (q, True)) (ps_groups p)\<rparr>))
      else if c = CHR '')'' then
        Some (p\<lparr>ps_closed := Some (case ps_groups p of [] \<Rightarrow> (False, False) | g # _ \<Rightarrow> g), ps_groups := tl (ps_groups p),
                ps_previousQuantifier := False\<rparr>)
      else if is_quantifier prev c then
        (if ps_previousQuantifier p \<or> (case ps_closed p of None \<Rightarrow> False | Some (q, b) \<Rightarrow> q \<or> b) then None
         else Some (p\<lparr>ps_groups := mark_group (\<lambda>(q, b). (True, b)) (ps_groups p), ps_previousQuantifier := True,
                      ps_closed := None\<rparr>))
      else Some (plain_char p))"

fun scan_pattern :: "char option \<Rightarrow> string \<Rightarrow> pattern_scan \<Rightarrow> bool" where
  "scan_pattern prev [] p = True"
| "scan_pattern prev (c # cs) p =
     (case scan_pattern_char prev c p of None \<Rightarrow> False | Some p' \<Rightarrow> scan_pattern (Some c) cs p')"

definition compileSafeRegex :: "regexp_engine \<Rightarrow> string \<Rightarrow> string \<Rightarrow> (string \<Rightarrow> string option) outcome" where
  "compileSafeRegex engine pattern flags =
     (if pattern = [] \<or> MAX_PATTERN_CHARS < length pattern
      then Inl (Error (''pattern must be 1-'' @ js_of_nat MAX_PATTERN_CHARS @ '' characters''))
      else if rx_test rx_unsupported pattern then Inl (Error ''backreferences and lookarounds are not supported'')
      else if \<not> scan_pattern None pattern pattern_scan_start
      then Inl (Error ''nested or ambiguous repetition is not supported'')
      else engine pattern flags)"

section \<open>Reading a policy\<close>

definition decision_of_name :: "string \<Rightarrow> command_decision option" where
  "decision_of_name s =
     (if s = ''allow'' then Some Allow else if s = ''deny'' then Some Deny
      else if s = ''require_approval'' then Some RequireApproval else None)"

definition mode_of_name :: "string \<Rightarrow> policy_mode option" where
  "mode_of_name s = (if s = ''denylist'' then Some Denylist else if s = ''allowlist'' then Some Allowlist else None)"

definition string_field :: "js_value \<Rightarrow> string \<Rightarrow> string option" where
  "string_field v k = (case js_prop v k of Some (JStr s) \<Rightarrow> Some s | _ \<Rightarrow> None)"

definition rule_error :: "nat \<Rightarrow> string \<Rightarrow> string" where
  "rule_error i s = ''rules['' @ js_of_nat i @ '']'' @ s"

definition parse_rule :: "regexp_engine \<Rightarrow> nat \<Rightarrow> js_value \<Rightarrow> string + command_rule" where
  "parse_rule engine i raw =
     (if \<not> (case raw of JObj _ \<Rightarrow> True | JArr _ \<Rightarrow> True | _ \<Rightarrow> False) then Inl (rule_error i '' must be an object'')
      else
        (case string_field raw ''pattern'' of
           None \<Rightarrow> Inl (rule_error i ''.pattern must be a non-empty string'')
         | Some pattern \<Rightarrow>
             if pattern = [] then Inl (rule_error i ''.pattern must be a non-empty string'')
             else
               (case compileSafeRegex engine pattern ''i'' of
                  Inl e \<Rightarrow> Inl (rule_error i (''.pattern is not a valid regex: '' @ errMessage e))
                | Inr re \<Rightarrow>
                    (case Option.bind (string_field raw ''decision'') decision_of_name of
                       None \<Rightarrow> Inl (rule_error i (''.decision must be \"allow\", \"deny\", or \"require_approval\"''))
                     | Some d \<Rightarrow>
                         if js_prop raw ''reason'' \<noteq> None \<and> string_field raw ''reason'' = None
                         then Inl (rule_error i ''.reason must be a string'')
                         else Inr \<lparr>cr_pattern = pattern, cr_decision = d, cr_reason = string_field raw ''reason''\<rparr>))))"

fun parse_rules :: "regexp_engine \<Rightarrow> nat \<Rightarrow> js_value list \<Rightarrow> string + command_rule list" where
  "parse_rules engine i [] = Inr []"
| "parse_rules engine i (raw # raws) =
     (case parse_rule engine i raw of
        Inl e \<Rightarrow> Inl e
      | Inr r \<Rightarrow> (case parse_rules engine (Suc i) raws of Inl e \<Rightarrow> Inl e | Inr rs \<Rightarrow> Inr (r # rs)))"

definition parseCommandPolicy :: "regexp_engine \<Rightarrow> js_value \<Rightarrow> string + command_policy" where
  "parseCommandPolicy engine input =
     (if \<not> (case input of JObj _ \<Rightarrow> True | _ \<Rightarrow> False) then Inl ''command policy must be an object''
      else
        (case Option.bind (string_field input ''mode'') mode_of_name of
           None \<Rightarrow> Inl (''mode must be \"denylist\" or \"allowlist\"'')
         | Some mode \<Rightarrow>
             (case js_prop input ''rules'' of
                Some (JArr raws) \<Rightarrow>
                  (case parse_rules engine 0 raws of
                     Inl e \<Rightarrow> Inl e
                   | Inr rules \<Rightarrow> Inr \<lparr>cp_mode = mode, cp_rules = rules\<rparr>)
              | _ \<Rightarrow> Inl ''rules must be an array'')))"

section \<open>The text that rules scan\<close>

definition rx_ws :: rx where
  "rx_ws = RChar js_ws"

definition rx_nonws :: rx where
  "rx_nonws = RChar (\<lambda>c. \<not> js_ws c)"

text \<open>\<open>[\w@%+=:,./-]\<close>\<close>

definition bare_char :: "char \<Rightarrow> bool" where
  "bare_char c \<longleftrightarrow> rx_word c \<or> c \<in> set ''@%+=:,./-''"

definition unquoteBareWord :: "string \<Rightarrow> string option" where
  "unquoteBareWord inner = (if list_all bare_char inner then Some inner else None)"

text \<open>\<open>/(?:^|[|;&]\s*)(?:\S*\/)?(?:ba|da|k|z)?sh((?:\s+[^|;&]*)?)/g\<close> and \<open>/(?:^|\s)-[^-\s]*c(?:\s|$)/\<close>\<close>

definition rx_heredoc_shell :: rx where
  "rx_heredoc_shell =
     rx_seq [RAlt (RBol False) (RSeq (rx_one_of ''|;&'') (rx_star rx_ws)),
       rx_opt (RSeq (rx_star rx_nonws) (rx_lit (CHR ''/''))),
       rx_opt (rx_alt [rx_text ''ba'', rx_text ''da'', rx_lit (CHR ''k''), rx_lit (CHR ''z'')]), rx_text ''sh'',
       RGroup 1 (rx_opt (RSeq (rx_plus rx_ws) (rx_star (rx_none_of ''|;&''))))]"

definition rx_script_argument :: rx where
  "rx_script_argument =
     rx_seq [RAlt (RBol False) rx_ws, rx_lit (CHR ''-''), rx_star (RChar (\<lambda>c. c \<noteq> CHR ''-'' \<and> \<not> js_ws c)),
       rx_lit (CHR ''c''), RAlt rx_ws (REol False)]"

definition heredocRunsShell :: "string \<Rightarrow> bool" where
  "heredocRunsShell commandLine \<longleftrightarrow>
     list_ex (\<lambda>m. \<not> rx_test rx_script_argument (case mt_group 1 m of None \<Rightarrow> [] | Some a \<Rightarrow> a))
       (rx_all rx_heredoc_shell None commandLine)"

text \<open>\<open>/^([^\n]*)<<-?\s*(["']?)([A-Za-z_]\w*)\2([^\n]*)\n([\s\S]*?)^\s*\3\s*$/gm\<close>\<close>

definition rx_heredoc :: rx where
  "rx_heredoc =
     rx_seq [RBol True, RGroup 1 (rx_star (rx_none_of [newline])), rx_text ''<<'', rx_opt (rx_lit (CHR ''-'')), rx_star rx_ws,
       RGroup 2 (rx_opt (rx_one_of [dquote, squote])), RGroup 3 rx_name, RBack 2,
       RGroup 4 (rx_star (rx_none_of [newline])), rx_lit newline, RGroup 5 (RStar False rx_any),
       RBol True, rx_star rx_ws, RBack 3, rx_star rx_ws, REol True]"

definition group_text :: "nat \<Rightarrow> rx_match \<Rightarrow> string" where
  "group_text i m = (case mt_group i m of None \<Rightarrow> [] | Some s \<Rightarrow> s)"

definition stripWrittenHeredocs :: "string \<Rightarrow> string" where
  "stripWrittenHeredocs command =
     rx_replace_pure rx_heredoc
       (\<lambda>m. let line = group_text 1 m @ group_text 4 m in
            if CHR ''>'' \<in> set line \<and> \<not> heredocRunsShell line then [] else mt_text m) command"

text \<open>\<open>m.slice(1, -1)\<close>\<close>

definition inner_text :: "string \<Rightarrow> string" where
  "inner_text m = butlast (tl m)"

definition or_quotes :: "string \<Rightarrow> string option \<Rightarrow> string" where
  "or_quotes quotes w = (case w of None \<Rightarrow> quotes | Some s \<Rightarrow> s)"

text \<open>\<open>/"(?:[^"\\]|\\.)*"/g\<close>, \<open>/\$\([^)]*\)|`[^`]*`/g\<close>, \<open>/\$'((?:[^'\\]|\\.)*)'/g\<close>, \<open>/'[^']*'/g\<close>, \<open>/\\([\w@%+=:,./-])/g\<close>\<close>

definition rx_quoted_body :: "char \<Rightarrow> rx" where
  "rx_quoted_body q = rx_star (RAlt (rx_none_of [q, backslash]) (RSeq (rx_lit backslash) rx_dot))"

definition rx_double_quoted :: rx where
  "rx_double_quoted = rx_seq [rx_lit dquote, rx_quoted_body dquote, rx_lit dquote]"

definition rx_substitution :: rx where
  "rx_substitution =
     RAlt (rx_seq [rx_text ''$('', rx_star (rx_none_of '')''), rx_lit (CHR '')'')])
          (rx_seq [rx_lit (CHR 0x60), rx_star (rx_none_of [CHR 0x60]), rx_lit (CHR 0x60)])"

definition rx_ansi_quoted :: rx where
  "rx_ansi_quoted = rx_seq [rx_lit (CHR ''$''), rx_lit squote, RGroup 1 (rx_quoted_body squote), rx_lit squote]"

definition rx_single_quoted :: rx where
  "rx_single_quoted = rx_seq [rx_lit squote, rx_star (rx_none_of [squote]), rx_lit squote]"

definition rx_escaped_bare :: rx where
  "rx_escaped_bare = RSeq (rx_lit backslash) (RGroup 1 (RChar bare_char))"

definition unquote_double :: "rx_match \<Rightarrow> string" where
  "unquote_double m =
     (case rx_all rx_substitution None (mt_text m) of
        [] \<Rightarrow> or_quotes [dquote, dquote] (unquoteBareWord (inner_text (mt_text m)))
      | subs \<Rightarrow> js_join '' '' (map mt_text subs))"

definition unquote_ansi :: "units \<Rightarrow> rx_match \<Rightarrow> string outcome" where
  "unquote_ansi cu m =
     obind (decodeAnsiC cu (group_text 1 m)) (\<lambda>d. Inr (or_quotes [squote, squote] (unquoteBareWord d)))"

text \<open>The chain of replacements on the stripped command.\<close>

definition scannable_base :: "units \<Rightarrow> string \<Rightarrow> string outcome" where
  "scannable_base cu stripped =
     obind (rx_replace rx_ansi_quoted (unquote_ansi cu) None (rx_replace_pure rx_double_quoted unquote_double stripped)) (\<lambda>t.
       Inr (rx_replace_pure rx_escaped_bare (group_text 1)
              (rx_replace_pure rx_single_quoted (\<lambda>m. or_quotes [squote, squote] (unquoteBareWord (inner_text (mt_text m)))) t)))"

definition omap :: "('a \<Rightarrow> 'b outcome) \<Rightarrow> 'a list \<Rightarrow> 'b list outcome" where
  "omap f xs = omap_concat (\<lambda>x. obind (f x) (\<lambda>y. Inr [y])) xs"

definition MAX_SCAN_DEPTH :: nat where
  "MAX_SCAN_DEPTH = 8"

text \<open>The scan with \<open>left\<close> levels to go; the code counts the depth up to its bound.\<close>

primrec scannable_left :: "units \<Rightarrow> nat \<Rightarrow> string \<Rightarrow> string outcome" where
  "scannable_left cu 0 = (\<lambda>command. scannable_base cu (stripWrittenHeredocs command))"
| "scannable_left cu (Suc left) = (\<lambda>command.
     let stripped = stripWrittenHeredocs command in
     obind (scannable_base cu stripped) (\<lambda>base.
     obind (executedShellPayloads cu stripped) (\<lambda>executed.
     if executed = [] then Inr base
     else obind (omap (scannable_left cu left) executed) (\<lambda>parts. Inr (js_join [newline] (base # parts))))))"

definition scannableCommandAtDepth :: "units \<Rightarrow> string \<Rightarrow> nat \<Rightarrow> string outcome" where
  "scannableCommandAtDepth cu command depth = scannable_left cu (MAX_SCAN_DEPTH - depth) command"

definition scannableCommand :: "units \<Rightarrow> string \<Rightarrow> string outcome" where
  "scannableCommand cu command = scannableCommandAtDepth cu command 0"

section \<open>Evaluating a command\<close>

record command_evaluation =
  ev_decision :: command_decision
  ev_reason :: "string option"
  ev_matched :: "string option"
  ev_approvalKey :: "string option"

definition rule_evaluation :: "command_rule \<Rightarrow> string \<Rightarrow> command_evaluation" where
  "rule_evaluation r hit =
     \<lparr>ev_decision = cr_decision r, ev_reason = (if truthy (cr_reason r) then cr_reason r else None),
      ev_matched = Some hit, ev_approvalKey = Some (cr_pattern r)\<rparr>"

fun firstMatch :: "regexp_engine \<Rightarrow> string \<Rightarrow> command_rule list \<Rightarrow> command_evaluation option" where
  "firstMatch engine scannable [] = None"
| "firstMatch engine scannable (r # rules) =
     (case compileSafeRegex engine (cr_pattern r) ''i'' of
        Inl e \<Rightarrow> firstMatch engine scannable rules
      | Inr exec \<Rightarrow>
          (case exec scannable of
             Some hit \<Rightarrow> Some (rule_evaluation r hit)
           | None \<Rightarrow> firstMatch engine scannable rules))"

definition allowed_command :: command_evaluation where
  "allowed_command = \<lparr>ev_decision = Allow, ev_reason = None, ev_matched = None, ev_approvalKey = None\<rparr>"

definition not_in_allowlist :: command_evaluation where
  "not_in_allowlist = \<lparr>ev_decision = Deny, ev_reason = Some ''not in allowlist'', ev_matched = None, ev_approvalKey = None\<rparr>"

definition evaluateCommand :: "units \<Rightarrow> regexp_engine \<Rightarrow> string \<Rightarrow> command_policy \<Rightarrow> command_evaluation outcome" where
  "evaluateCommand cu engine command policy =
     obind (scannableCommand cu command) (\<lambda>scannable.
       Inr (case firstMatch engine scannable (cp_rules policy) of
              Some ev \<Rightarrow> ev
            | None \<Rightarrow> if cp_mode policy = Allowlist then not_in_allowlist else allowed_command))"

definition evaluateCommandWithLayer ::
  "units \<Rightarrow> regexp_engine \<Rightarrow> string \<Rightarrow> command_policy \<Rightarrow> command_rule list \<Rightarrow> command_evaluation outcome" where
  "evaluateCommandWithLayer cu engine command policy layerRules =
     obind (scannableCommand cu command) (\<lambda>scannable.
       Inr (case firstMatch engine scannable (cp_rules policy) of
              Some ev \<Rightarrow> ev
            | None \<Rightarrow>
                if cp_mode policy = Allowlist then not_in_allowlist
                else (case firstMatch engine scannable layerRules of Some ev \<Rightarrow> ev | None \<Rightarrow> allowed_command)))"

section \<open>The first matching rule decides\<close>

definition rule_hit :: "regexp_engine \<Rightarrow> string \<Rightarrow> command_rule \<Rightarrow> string option" where
  "rule_hit engine text r = (case compileSafeRegex engine (cr_pattern r) ''i'' of Inl e \<Rightarrow> None | Inr exec \<Rightarrow> exec text)"

lemma firstMatch_append:
  "firstMatch engine text (rs @ qs) = (case firstMatch engine text rs of Some ev \<Rightarrow> Some ev | None \<Rightarrow> firstMatch engine text qs)"
  by (induction rs) (auto split: sum.split option.split)

lemma firstMatch_None: "firstMatch engine text rs = None \<longleftrightarrow> list_all (\<lambda>r. rule_hit engine text r = None) rs"
  by (induction rs) (auto simp: rule_hit_def split: sum.split option.split)

lemma firstMatch_hit:
  "firstMatch engine text rs = None \<Longrightarrow> rule_hit engine text r = Some hit \<Longrightarrow>
     firstMatch engine text (rs @ r # qs) = Some (rule_evaluation r hit)"
  by (auto simp: firstMatch_append rule_hit_def split: sum.splits)

lemma firstMatch_Some: "firstMatch engine text rs = Some ev \<Longrightarrow> \<exists>r \<in> set rs. \<exists>hit. ev = rule_evaluation r hit"
  by (induction rs) (auto split: sum.splits option.splits)

text \<open>A rule of the organisation cannot be overridden: where the first rule of the organisation's policy that finds
  something in the text of a command has found it, neither the rules and the mode of a scope nor the rules
  of a deployment layer change the decision, its reason, or the pattern an approval is recorded under.\<close>

theorem floor_rule_decides:
  assumes "scannableCommand cu command = Inr text" "cp_rules orgFloor = before @ r # after"
    and "list_all (\<lambda>q. rule_hit engine text q = None) before" "rule_hit engine text r = Some hit"
  shows "evaluateCommand cu engine command (composePolicy orgFloor scope) = Inr (rule_evaluation r hit) \<and>
    evaluateCommandWithLayer cu engine command (composePolicy orgFloor scope) layer = Inr (rule_evaluation r hit)"
proof -
  have "firstMatch engine text (cp_rules orgFloor) = Some (rule_evaluation r hit)"
    using assms firstMatch_None firstMatch_hit by metis
  then have "firstMatch engine text (cp_rules (composePolicy orgFloor scope)) = Some (rule_evaluation r hit)"
    by (simp add: composePolicy_def firstMatch_append split: option.split)
  with assms(1) show ?thesis
    by (simp add: evaluateCommand_def evaluateCommandWithLayer_def)
qed

section \<open>Nested commands are scanned\<close>

text \<open>\<open>inner\<close> is run by \<open>command\<close> through \<open>n\<close> shells, one inside the other.\<close>

primrec nested_in :: "units \<Rightarrow> nat \<Rightarrow> string \<Rightarrow> string \<Rightarrow> bool" where
  "nested_in cu 0 command inner \<longleftrightarrow> inner = command"
| "nested_in cu (Suc n) command inner \<longleftrightarrow>
     (\<exists>ps. executedShellPayloads cu (stripWrittenHeredocs command) = Inr ps \<and> (\<exists>p \<in> set ps. nested_in cu n p inner))"

text \<open>\<open>t\<close> makes up whole lines of \<open>text\<close>.\<close>

definition lines_of :: "string \<Rightarrow> string \<Rightarrow> bool" where
  "lines_of t text \<longleftrightarrow>
     (\<exists>pre post. text = pre @ t @ post \<and> (pre = [] \<or> last pre = newline) \<and> (post = [] \<or> hd post = newline))"

lemma lines_of_refl: "lines_of t t"
  unfolding lines_of_def by (rule exI [of _ "[]"]) simp

lemma lines_of_trans: "lines_of s t \<Longrightarrow> lines_of t u \<Longrightarrow> lines_of s u"
proof -
  assume "lines_of s t" "lines_of t u"
  then obtain a b c d where st: "t = a @ s @ b" "a = [] \<or> last a = newline" "b = [] \<or> hd b = newline"
    and tu: "u = c @ t @ d" "c = [] \<or> last c = newline" "d = [] \<or> hd d = newline"
    unfolding lines_of_def by blast
  have "u = (c @ a) @ s @ (b @ d)" "c @ a = [] \<or> last (c @ a) = newline" "b @ d = [] \<or> hd (b @ d) = newline"
    using st tu by (auto simp: last_append hd_append)
  then show ?thesis
    unfolding lines_of_def by blast
qed

lemma lines_of_join: "t \<in> set ws \<Longrightarrow> lines_of t (js_join [newline] ws)"
proof (induction "[newline]" ws rule: js_join.induct)
  case (3 w v ws)
  let ?rest = "js_join [newline] (v # ws)"
  have head: "lines_of w (js_join [newline] (w # v # ws))"
    unfolding lines_of_def by (rule exI [of _ "[]"], rule exI [of _ "newline # ?rest"]) simp
  have tail: "lines_of ?rest (js_join [newline] (w # v # ws))"
    unfolding lines_of_def by (rule exI [of _ "w @ [newline]"], rule exI [of _ "[]"]) simp
  show ?case
  proof (cases "t = w")
    case True
    then show ?thesis
      using head by simp
  next
    case False
    then show ?thesis
      using 3 tail lines_of_trans by auto
  qed
qed (auto simp: lines_of_refl)

lemma omap_concat_member: "omap_concat f xs = Inr ys \<Longrightarrow> x \<in> set xs \<Longrightarrow> \<exists>zs. f x = Inr zs \<and> set zs \<subseteq> set ys"
  by (induction xs arbitrary: ys) (fastforce simp: obind_Inr_iff)+

lemma omap_member: "omap f xs = Inr ys \<Longrightarrow> x \<in> set xs \<Longrightarrow> \<exists>y \<in> set ys. f x = Inr y"
  unfolding omap_def by (drule (1) omap_concat_member) (auto simp: obind_Inr_iff)

lemma scannable_base_lines:
  "scannable_left cu left cmd = Inr out \<Longrightarrow> \<exists>b. scannable_base cu (stripWrittenHeredocs cmd) = Inr b \<and> lines_of b out"
proof (cases left)
  case (Suc k)
  assume "scannable_left cu left cmd = Inr out"
  then obtain b ps where b: "scannable_base cu (stripWrittenHeredocs cmd) = Inr b"
    and t: "out = b \<or> (\<exists>parts. out = js_join [newline] (b # parts))"
    by (auto simp: Suc Let_def obind_Inr_iff split: if_splits)
  then show ?thesis
    using lines_of_refl lines_of_join [of b] by (metis list.set_intros(1))
qed (auto simp: lines_of_refl)

lemma nested_lines:
  "scannable_left cu left cmd = Inr out \<Longrightarrow> nested_in cu n cmd inner \<Longrightarrow> n \<le> left \<Longrightarrow>
     \<exists>b. scannable_base cu (stripWrittenHeredocs inner) = Inr b \<and> lines_of b out"
proof (induction n arbitrary: left cmd out)
  case 0
  then show ?case
    using scannable_base_lines by auto
next
  case (Suc n)
  then obtain k where k: "left = Suc k" "n \<le> k"
    by (cases left) auto
  obtain ps p where ps: "executedShellPayloads cu (stripWrittenHeredocs cmd) = Inr ps" "p \<in> set ps" "nested_in cu n p inner"
    using Suc.prems(2) by auto
  then obtain b parts where parts: "omap (scannable_left cu k) ps = Inr parts" "out = js_join [newline] (b # parts)"
    using Suc.prems(1) by (auto simp: k Let_def obind_Inr_iff split: if_splits)
  obtain t where "t \<in> set parts" "scannable_left cu k p = Inr t"
    using omap_member [OF parts(1) ps(2)] by blast
  with Suc.IH ps(3) k(2) obtain c where "scannable_base cu (stripWrittenHeredocs inner) = Inr c" "lines_of c t"
    by blast
  moreover have "lines_of t out"
    using \<open>t \<in> set parts\<close> parts(2) lines_of_join [of t "b # parts"] by simp
  ultimately show ?case
    using lines_of_trans by blast
qed

text \<open>A search that finds in a text what it finds in one of its lines, as one for a pattern without anchors does.\<close>

definition finds_in_lines :: "(string \<Rightarrow> string option) \<Rightarrow> bool" where
  "finds_in_lines search \<longleftrightarrow> (\<forall>t out. lines_of t out \<longrightarrow> search t \<noteq> None \<longrightarrow> search out \<noteq> None)"


lemma plain_finds_in_lines: "rx_plain r \<Longrightarrow> finds_in_lines (\<lambda>s. map_option mt_text (rx_exec r s))"
  unfolding finds_in_lines_def lines_of_def using rx_exec_lines by fastforce

section \<open>Accepted policies\<close>

definition compiles :: "regexp_engine \<Rightarrow> command_rule \<Rightarrow> bool" where
  "compiles engine r \<longleftrightarrow> (case compileSafeRegex engine (cr_pattern r) ''i'' of Inl e \<Rightarrow> False | Inr exec \<Rightarrow> True)"

fun decision_name :: "command_decision \<Rightarrow> string" where
  "decision_name Allow = ''allow''"
| "decision_name Deny = ''deny''"
| "decision_name RequireApproval = ''require_approval''"

fun mode_name :: "policy_mode \<Rightarrow> string" where
  "mode_name Denylist = ''denylist''"
| "mode_name Allowlist = ''allowlist''"

text \<open>A policy as the JSON value that it is stored and sent as.\<close>

definition rule_json :: "command_rule \<Rightarrow> js_value" where
  "rule_json r =
     JObj ([(''pattern'', JStr (cr_pattern r)), (''decision'', JStr (decision_name (cr_decision r)))] @
           (case cr_reason r of None \<Rightarrow> [] | Some s \<Rightarrow> [(''reason'', JStr s)]))"

definition policy_json :: "command_policy \<Rightarrow> js_value" where
  "policy_json p = JObj [(''mode'', JStr (mode_name (cp_mode p))), (''rules'', JArr (map rule_json (cp_rules p)))]"

lemma names_back [simp]: "decision_of_name (decision_name d) = Some d" "mode_of_name (mode_name m) = Some m"
  by (cases d; simp add: decision_of_name_def) (cases m; simp add: mode_of_name_def)

lemma compiles_nonempty: "compiles engine r \<Longrightarrow> cr_pattern r \<noteq> []"
  by (auto simp: compiles_def compileSafeRegex_def)

lemma parse_rule_compiles: "parse_rule engine i raw = Inr r \<Longrightarrow> compiles engine r"
  by (auto simp: parse_rule_def compiles_def split: if_splits option.splits sum.splits)

lemma parse_rules_compile: "parse_rules engine i raws = Inr rs \<Longrightarrow> list_all (compiles engine) rs"
  by (induction raws arbitrary: i rs) (auto split: sum.splits dest: parse_rule_compiles)

lemma parse_rule_json: "compiles engine r \<Longrightarrow> parse_rule engine i (rule_json r) = Inr r"
  using compiles_nonempty [of engine r]
  by (cases r) (auto simp: parse_rule_def rule_json_def string_field_def js_prop_def compiles_def split: sum.splits option.split)

lemma parse_rules_json: "list_all (compiles engine) rs \<Longrightarrow> parse_rules engine i (map rule_json rs) = Inr rs"
  by (induction rs arbitrary: i) (auto simp: parse_rule_json)

text \<open>C27: Reading a policy checks it: every rule of an accepted policy has a pattern that compiles, so no rule of it is
  skipped when a command is evaluated, and a policy whose patterns compile reads back from its JSON value
  unchanged.\<close>

theorem accepted_policies_compile:
  "(parseCommandPolicy engine input = Inr p \<longrightarrow> list_all (compiles engine) (cp_rules p)) \<and>
   (list_all (compiles engine) (cp_rules q) \<longrightarrow> parseCommandPolicy engine (policy_json q) = Inr q)"
proof (intro conjI impI)
  show "parseCommandPolicy engine input = Inr p \<Longrightarrow> list_all (compiles engine) (cp_rules p)"
    by (auto simp: parseCommandPolicy_def split: if_splits option.splits js_value.splits sum.splits dest: parse_rules_compile)
  show "list_all (compiles engine) (cp_rules q) \<Longrightarrow> parseCommandPolicy engine (policy_json q) = Inr q"
    by (simp add: parseCommandPolicy_def policy_json_def string_field_def js_prop_def parse_rules_json)
qed

section \<open>Examples\<close>

text \<open>An engine for the patterns of the organisation's floor, with the flag \<open>i\<close>.\<close>

definition rx_ci :: "char \<Rightarrow> rx" where
  "rx_ci c = RChar (\<lambda>d. js_lower_char d = c)"

definition rx_ci_text :: "string \<Rightarrow> rx" where
  "rx_ci_text s = rx_seq (map rx_ci s)"

definition rx_letter :: rx where
  "rx_letter = RChar rx_alpha"

definition floor_rxs :: "rx list" where
  "floor_rxs =
     [rx_seq [RWordB, rx_ci_text ''rm'', RWordB, rx_star (rx_none_of [newline]),
        RAlt (rx_seq [rx_lit (CHR ''-''), rx_star rx_letter, rx_ci (CHR ''r'')]) (rx_ci_text ''--recursive'')],
      rx_seq [RWordB, rx_ci_text ''git'', rx_plus rx_ws, rx_ci_text ''push'', RWordB, rx_star rx_dot,
        RAlt (RSeq (rx_ci_text ''--force'') RWordB)
          (rx_seq [RAlt (RBol False) rx_ws, rx_lit (CHR ''-''), rx_star rx_letter, rx_ci (CHR ''f''), RWordB])],
      rx_seq [RWordB, RGroup 1 (RAlt (rx_ci_text ''drop'') (rx_ci_text ''truncate'')), rx_plus rx_ws, rx_ci_text ''table'', RWordB],
      RAlt (rx_seq [RWordB, rx_ci_text ''mkfs'', RWordB]) (rx_seq [rx_text '':()'', rx_star rx_ws, rx_lit (CHR ''{'')]),
      rx_seq [RWordB, rx_ci_text ''curl'', RWordB, rx_star rx_dot, rx_lit (CHR ''|''), rx_star rx_ws,
        RGroup 1 (RAlt (rx_ci_text ''sh'') (rx_ci_text ''bash'')), RWordB]]"

definition floor_engine :: regexp_engine where
  "floor_engine pattern flags =
     (case map_of (zip (map cr_pattern ORG_FLOOR_RULES) floor_rxs) pattern of
        None \<Rightarrow> Inl (Error ''unknown pattern'')
      | Some r \<Rightarrow> Inr (\<lambda>s. map_option mt_text (rx_exec r s)))"

definition ascii_units :: units where
  "ascii_units n = CHR ''?''"

text \<open>A recursive delete two shells deep.\<close>

definition wrapped_delete :: string where
  "wrapped_delete = ''timeout 5 bash -c \"bash -c 'rm -rf x'\"''"

lemma wrapped_delete_payloads:
  "executedShellPayloads ascii_units (stripWrittenHeredocs wrapped_delete) = Inr [''bash -c 'rm -rf x'' @ [squote]]"
  "executedShellPayloads ascii_units (stripWrittenHeredocs (''bash -c 'rm -rf x'' @ [squote])) = Inr [''rm -rf x'']"
  by code_simp+

lemma floor_delete_compiles:
  "compileSafeRegex floor_engine (cr_pattern (hd ORG_FLOOR_RULES)) flags = Inr (\<lambda>s. map_option mt_text (rx_exec (hd floor_rxs) s))"
proof -
  let ?p = "cr_pattern (hd ORG_FLOOR_RULES)"
  have "?p \<noteq> [] \<and> \<not> MAX_PATTERN_CHARS < length ?p \<and> \<not> rx_test rx_unsupported ?p \<and> scan_pattern None ?p pattern_scan_start"
    by code_simp
  moreover have "floor_engine ?p flags = Inr (\<lambda>s. map_option mt_text (rx_exec (hd floor_rxs) s))"
    by (simp add: floor_engine_def ORG_FLOOR_RULES_def floor_rxs_def)
  ultimately show ?thesis
    by (simp add: compileSafeRegex_def)
qed


text \<open>A scope that would allow everything.\<close>

definition lenient_scope :: command_policy where
  "lenient_scope = \<lparr>cp_mode = Denylist, cp_rules = [\<lparr>cr_pattern = ''.'', cr_decision = Allow, cr_reason = None\<rparr>]\<rparr>"

lemma floor_rule_decides_witness:
  "evaluateCommand ascii_units floor_engine ''rm -rf x'' (composePolicy defaultOrgPolicy (Some lenient_scope)) =
     Inr \<lparr>ev_decision = RequireApproval, ev_reason = Some ''recursive delete'', ev_matched = Some ''rm -r'',
          ev_approvalKey = Some (cr_pattern (hd ORG_FLOOR_RULES))\<rparr>"
proof -
  have scan: "scannableCommand ascii_units ''rm -rf x'' = Inr ''rm -rf x''"
    by code_simp
  have hit: "rule_hit floor_engine ''rm -rf x'' (hd ORG_FLOOR_RULES) = Some ''rm -r''"
    by code_simp
  have rules: "cp_rules defaultOrgPolicy = [] @ hd ORG_FLOOR_RULES # tl ORG_FLOOR_RULES"
    by (simp add: defaultOrgPolicy_def ORG_FLOOR_RULES_def)
  from floor_rule_decides [OF scan rules _ hit, where scope = "Some lenient_scope"] show ?thesis
    by (simp add: rule_evaluation_def ORG_FLOOR_RULES_def rule_of_def)
qed

lemma accepted_policies_compile_witness:
  "parseCommandPolicy floor_engine (policy_json defaultOrgPolicy) = Inr defaultOrgPolicy \<and>
   list_all (compiles floor_engine) (cp_rules defaultOrgPolicy)"
proof -
  have "list_all (compiles floor_engine) (cp_rules defaultOrgPolicy)"
    by code_simp
  with accepted_policies_compile [where engine = floor_engine and q = defaultOrgPolicy and input = "policy_json defaultOrgPolicy"
      and p = defaultOrgPolicy] show ?thesis
    by blast
qed

text \<open>
  Two gaps. \<open>segmentShellPayloads\<close> does not skip \<open>stdbuf\<close>, which the walks for pipes and variables do: a script
  given to a shell that way is not scanned. And a \<open>\U\<close> escape above the last code point makes the evaluation throw.
\<close>

lemma stdbuf_hides_script:
  "executedShellPayloads ascii_units ''stdbuf -oL bash -c 'rm -rf x' '' = Inr []"
  "executedShellPayloads ascii_units ''timeout 5 bash -c 'rm -rf x' '' = Inr [''rm -rf x'']"
  by code_simp+

definition bad_escape :: string where
  "bad_escape = backslash # ''U00110000''"

lemma bad_escape_throws: "decodeAnsiC ascii_units bad_escape = Inl (Error (''Invalid code point '' @ js_of_nat 1114112))"
proof -
  have skip: "rx_replace (rx_ansi_hex (CHR ''x'') 1 1) (escaped_code ascii_units 16) None bad_escape = Inr bad_escape"
    "rx_replace (rx_ansi_hex (CHR ''u'') 4 0) (escaped_code ascii_units 16) None bad_escape = Inr bad_escape"
    by code_simp+
  have hit: "rx_here (rx_ansi_hex (CHR ''U'') 8 0) None bad_escape = Some \<lparr>mt_text = bad_escape, mt_caps = [(1, ''00110000'')]\<rparr>"
    by code_simp
  have "radix_value 16 ''00110000'' = 1114112"
    by (simp add: radix_value_def digit_value_def of_char_def)
  then have "rx_replace (rx_ansi_hex (CHR ''U'') 8 0) (escaped_code ascii_units 16) None bad_escape =
      Inl (Error (''Invalid code point '' @ js_of_nat 1114112))"
    by (subst rx_replace.simps, subst hit) (simp add: bad_escape_def escaped_code_def mt_group_def fromCodePoint_def)
  with skip show ?thesis
    by (simp add: decodeAnsiC_def)
qed

lemma bad_escape_stops_evaluation:
  "evaluateCommand ascii_units engine (''$'' @ squote # bad_escape @ [squote]) policy =
     Inl (Error (''Invalid code point '' @ js_of_nat 1114112))"
proof -
  let ?c = "''$'' @ squote # bad_escape @ [squote]"
  have strip: "stripWrittenHeredocs ?c = ?c" "rx_replace_pure rx_double_quoted unquote_double ?c = ?c"
    by code_simp+
  have hit: "rx_here rx_ansi_quoted None ?c = Some \<lparr>mt_text = ?c, mt_caps = [(1, bad_escape)]\<rparr>"
    by code_simp
  have "rx_replace rx_ansi_quoted (unquote_ansi ascii_units) None ?c = Inl (Error (''Invalid code point '' @ js_of_nat 1114112))"
    by (subst rx_replace.simps, subst hit) (simp add: unquote_ansi_def group_text_def mt_group_def bad_escape_throws)
  then have "scannable_base ascii_units ?c = Inl (Error (''Invalid code point '' @ js_of_nat 1114112))"
    by (simp only: strip scannable_base_def obind_simps)
  then have "scannable_left ascii_units (Suc 7) ?c = Inl (Error (''Invalid code point '' @ js_of_nat 1114112))"
    by (simp only: scannable_left.simps Let_def strip obind_simps)
  moreover have "MAX_SCAN_DEPTH - 0 = Suc 7"
    by (simp add: MAX_SCAN_DEPTH_def)
  ultimately show ?thesis
    by (simp only: evaluateCommand_def scannableCommand_def scannableCommandAtDepth_def obind_simps)
qed

end
