(* ===== verification/Admin_Service.thy ===== *)
theory Admin_Service
  imports Durable_Map Security_Posture
begin

text \<open>
  Administrators: \<open>admin/admin-grant-store.ts\<close> with its map persistence and \<open>admin/admin-service.ts\<close>. A role is
  the string a caller sends; the only one is \<open>org_admin\<close>. The organisation of the deployment is the parameter
  \<open>org\<close>, \<open>now()\<close> an argument. A revocation reads the grants and then removes the ones it matched: the two
  halves are definitions of their own, and a call is one after the other.
\<close>

section \<open>Stored grants\<close>

record admin_grant =
  ag_principalId :: string
  ag_scopeId :: scope_id
  ag_role :: string
  ag_grantedBy :: "string option"
  ag_createdAt :: "ms option"

text \<open>\<open>grantKey\<close>: the JSON text of the triple.\<close>

definition grantKey :: "string \<Rightarrow> scope_id \<Rightarrow> string \<Rightarrow> string" where
  "grantKey p s r = ''['' @ json_string p @ '','' @ json_string s @ '','' @ json_string r @ '']''"

type_synonym admin_grants = "(string, admin_grant) jsmap"

definition persist_all :: "admin_grants \<Rightarrow> admin_grant list" where
  "persist_all m = dm_all m"

definition persist_put :: "admin_grant \<Rightarrow> admin_grants \<Rightarrow> admin_grants" where
  "persist_put g m = dm_put (grantKey (ag_principalId g) (ag_scopeId g) (ag_role g)) g m"

definition persist_remove :: "string \<Rightarrow> scope_id \<Rightarrow> string \<Rightarrow> admin_grants \<Rightarrow> admin_grants" where
  "persist_remove p s r m = dm_delete (grantKey p s r) m"

text \<open>The store seeds an empty persistence once.\<close>

record admin_store =
  as_grants :: admin_grants
  as_seeded :: bool

definition seed_grant :: "admin_grant \<Rightarrow> admin_grant" where
  "seed_grant g =
     g\<lparr>ag_grantedBy := (case ag_grantedBy g of None \<Rightarrow> Some ''system'' | Some b \<Rightarrow> Some b),
       ag_createdAt := (case ag_createdAt g of None \<Rightarrow> Some 0 | Some t \<Rightarrow> Some t)\<rparr>"

definition ensureSeeded :: "admin_grant list \<Rightarrow> admin_store \<Rightarrow> admin_store" where
  "ensureSeeded seeds st =
     (if as_seeded st then st
      else if seeds = [] \<or> persist_all (as_grants st) \<noteq> [] then st\<lparr>as_seeded := True\<rparr>
      else st\<lparr>as_grants := fold (\<lambda>g. persist_put (seed_grant g)) seeds (as_grants st), as_seeded := True\<rparr>)"

definition admin_list :: "admin_grant list \<Rightarrow> admin_store \<Rightarrow> admin_store \<times> admin_grant list" where
  "admin_list seeds st = (let st' = ensureSeeded seeds st in (st', persist_all (as_grants st')))"

definition admin_add :: "admin_grant list \<Rightarrow> admin_grant \<Rightarrow> admin_store \<Rightarrow> admin_store" where
  "admin_add seeds g st = (let st' = ensureSeeded seeds st in st'\<lparr>as_grants := persist_put g (as_grants st')\<rparr>)"

definition admin_remove :: "admin_grant list \<Rightarrow> string \<Rightarrow> scope_id \<Rightarrow> string \<Rightarrow> admin_store \<Rightarrow> admin_store" where
  "admin_remove seeds p s r st =
     (let st' = ensureSeeded seeds st in st'\<lparr>as_grants := persist_remove p s r (as_grants st')\<rparr>)"

section \<open>The service\<close>

datatype admin_error = AdminError nat string

record admin_status =
  ad_isAdmin :: bool
  ad_role :: "string option"
  ad_scopeId :: "scope_id option"

definition ORG_ADMIN :: string where
  "ORG_ADMIN = ''org_admin''"

fun adminStatusFromGrants :: "admin_grant list \<Rightarrow> string \<Rightarrow> admin_status" where
  "adminStatusFromGrants [] p = \<lparr>ad_isAdmin = False, ad_role = None, ad_scopeId = None\<rparr>"
| "adminStatusFromGrants (g # gs) p =
     (if samePerson (Some (ag_principalId g)) (Some p) \<and> ag_role g = ORG_ADMIN
      then \<lparr>ad_isAdmin = True, ad_role = Some ORG_ADMIN, ad_scopeId = Some (ag_scopeId g)\<rparr>
      else adminStatusFromGrants gs p)"

definition isOrgAdmin :: "admin_grant list \<Rightarrow> string \<Rightarrow> bool" where
  "isOrgAdmin gs p \<longleftrightarrow> ad_role (adminStatusFromGrants gs p) = Some ORG_ADMIN"

text \<open>\<open>header.lastIndexOf("@")\<close> splits the header into the actor and the organisation.\<close>

fun last_index :: "char \<Rightarrow> string \<Rightarrow> nat option" where
  "last_index c [] = None"
| "last_index c (d # s) = (case last_index c s of Some i \<Rightarrow> Some (Suc i) | None \<Rightarrow> if d = c then Some 0 else None)"

definition resolveActor :: "string \<Rightarrow> string option \<Rightarrow> principal option" where
  "resolveActor org header =
     (if \<not> truthy header then None
      else (case last_index (CHR ''@'') (the header) of
              None \<Rightarrow> None
            | Some i \<Rightarrow>
                if i = 0 \<or> Suc i = length (the header) \<or> drop (Suc i) (the header) \<noteq> org then None
                else Some \<lparr>p_id = take i (the header), p_type = Internal, p_teamIds = None, p_displayName = None\<rparr>))"

definition new_admin_grant :: "string \<Rightarrow> scope_id \<Rightarrow> string \<Rightarrow> string \<Rightarrow> ms \<Rightarrow> admin_grant" where
  "new_admin_grant p s r by now =
     \<lparr>ag_principalId = p, ag_scopeId = s, ag_role = r, ag_grantedBy = Some by, ag_createdAt = Some now\<rparr>"

definition createGrant ::
  "string \<Rightarrow> admin_grant list \<Rightarrow> string \<Rightarrow> string option \<Rightarrow> string \<Rightarrow> scope_id \<Rightarrow> ms \<Rightarrow> admin_store \<Rightarrow>
   admin_store \<times> (admin_error + admin_grant)" where
  "createGrant org seeds actor principalId role sid now st =
     (case admin_list seeds st of
        (st', gs) \<Rightarrow>
          if \<not> isOrgAdmin gs actor then (st', Inl (AdminError 403 ''only an org admin may grant admin roles''))
          else
            (let p = (case principalId of None \<Rightarrow> [] | Some s \<Rightarrow> js_trim s) in
             if p = [] then (st', Inl (AdminError 400 ''principalId required''))
             else if role \<noteq> ORG_ADMIN then (st', Inl (AdminError 400 ''role must be org_admin''))
             else if parseScopeId sid \<noteq> (Some Org, org)
             then (st', Inl (AdminError 400 (''org_admin scope must be org:'' @ org)))
             else (let g = new_admin_grant p sid role actor now in (admin_add seeds g st', Inr g))))"

definition org_admin_people :: "admin_grant list \<Rightarrow> string list" where
  "org_admin_people gs = js_dedup (map (\<lambda>g. personKey (Some (ag_principalId g))) (filter (\<lambda>g. ag_role g = ORG_ADMIN) gs))"

text \<open>What \<open>revokeGrant\<close> decides to remove, from the grants it read.\<close>

definition revoke_decision ::
  "admin_grant list \<Rightarrow> string \<Rightarrow> string \<Rightarrow> scope_id \<Rightarrow> string \<Rightarrow> admin_error + admin_grant list" where
  "revoke_decision gs actor principalId sid role =
     (if \<not> isOrgAdmin gs actor then Inl (AdminError 403 ''only an org admin may revoke admin roles'')
      else
        (let matched = filter (\<lambda>g. samePerson (Some (ag_principalId g)) (Some principalId) \<and> ag_scopeId g = sid \<and> ag_role g = role) gs in
         if samePerson (Some actor) (Some principalId) then Inl (AdminError 400 ''you cannot revoke your own admin grant'')
         else if role = ORG_ADMIN \<and> matched \<noteq> [] \<and> length (org_admin_people gs) \<le> 1
         then Inl (AdminError 400 ''cannot revoke the last org admin'')
         else Inr matched))"

definition remove_grants :: "admin_grant list \<Rightarrow> admin_grant list \<Rightarrow> admin_store \<Rightarrow> admin_store" where
  "remove_grants seeds gs st = fold (\<lambda>g. admin_remove seeds (ag_principalId g) (ag_scopeId g) (ag_role g)) gs st"

definition revokeGrant ::
  "admin_grant list \<Rightarrow> string \<Rightarrow> string \<Rightarrow> scope_id \<Rightarrow> string \<Rightarrow> admin_store \<Rightarrow> admin_store \<times> (admin_error + unit)" where
  "revokeGrant seeds actor principalId sid role st =
     (case admin_list seeds st of
        (st', gs) \<Rightarrow>
          (case revoke_decision gs actor principalId sid role of
             Inl e \<Rightarrow> (st', Inl e)
           | Inr matched \<Rightarrow> (remove_grants seeds matched st', Inr ())))"

definition departed_grants :: "admin_grant list \<Rightarrow> string \<Rightarrow> admin_grant list" where
  "departed_grants gs principalId =
     filter (\<lambda>g. \<not> (ag_role g = ORG_ADMIN \<and> length (org_admin_people gs) \<le> 1))
       (filter (\<lambda>g. samePerson (Some (ag_principalId g)) (Some principalId)) gs)"

definition revokeDepartedGrants :: "admin_grant list \<Rightarrow> string \<Rightarrow> admin_store \<Rightarrow> admin_store \<times> admin_grant list" where
  "revokeDepartedGrants seeds principalId st =
     (case admin_list seeds st of
        (st', gs) \<Rightarrow> (let revoked = departed_grants gs principalId in (remove_grants seeds revoked st', revoked)))"

section \<open>Configured administrators\<close>

text \<open>\<open>parseAdminGrants\<close>; without a separator the entry lacks its last character as the principal and is its own role.\<close>

definition parse_admin_entry :: "string \<Rightarrow> string \<Rightarrow> admin_grant list" where
  "parse_admin_entry org e =
     (let p = js_trim (case last_index (CHR '':'') e of Some i \<Rightarrow> take i e | None \<Rightarrow> butlast e);
          r = js_trim (case last_index (CHR '':'') e of Some i \<Rightarrow> drop (Suc i) e | None \<Rightarrow> e)
      in if p = [] \<or> r \<noteq> ORG_ADMIN then []
         else [\<lparr>ag_principalId = p, ag_scopeId = scopeId Org org, ag_role = r, ag_grantedBy = None, ag_createdAt = None\<rparr>])"

definition parseAdminGrants :: "string option \<Rightarrow> string \<Rightarrow> admin_grant list option" where
  "parseAdminGrants raw org =
     map_option (\<lambda>s. concat (map (parse_admin_entry org) (filter (\<lambda>e. e \<noteq> []) (map js_trim (js_split s (CHR '',''))))) ) raw"

definition defaultAdminGrants :: "string \<Rightarrow> admin_grant list" where
  "defaultAdminGrants org =
     map (\<lambda>p. \<lparr>ag_principalId = p, ag_scopeId = scopeId Org org, ag_role = ORG_ADMIN, ag_grantedBy = None, ag_createdAt = None\<rparr>)
       [''admin-alice'', ''admin-bob'']"

definition bootAdminGrantSeed :: "string option \<Rightarrow> string \<Rightarrow> bool \<Rightarrow> admin_grant list" where
  "bootAdminGrantSeed raw org durable =
     (case parseAdminGrants raw org of
        Some gs \<Rightarrow> gs
      | None \<Rightarrow> if durable then [] else defaultAdminGrants org)"

section \<open>Keys name one grant\<close>

definition unhex :: "char \<Rightarrow> nat" where
  "unhex c = (let n = of_char c in if n < 58 then n - 48 else n - 87)"

fun json_first :: "string \<Rightarrow> nat \<times> string" where
  "json_first [] = (0, [])"
| "json_first (c # s) =
     (if c \<noteq> CHR 0x5C \<or> s = [] then (of_char c, s)
      else (let n = (of_char (hd s) :: nat); r = tl s in
            if n = 117 then (16 * unhex (r ! 2) + unhex (r ! 3), drop 4 r)
            else if n = 98 then (8, r) else if n = 116 then (9, r) else if n = 110 then (10, r)
            else if n = 102 then (12, r) else if n = 114 then (13, r) else (n, r)))"

lemma unhex_digit: "n < 16 \<Longrightarrow> unhex (hex_digit n) = n"
  by (auto simp: unhex_def hex_digit_def Let_def)

lemma json_first_char: "json_first (json_char c @ s) = (of_char c, s)"
proof -
  define n where "n = (of_char c :: nat)"
  have slash: "c = CHR 0x5C \<Longrightarrow> n = 92"
    by (simp add: n_def)
  have "n < 32 \<Longrightarrow> 16 * unhex (hex_digit (n div 16)) + unhex (hex_digit (n mod 16)) = n"
    by (simp add: unhex_digit)
  then show ?thesis
    using slash by (auto simp: json_char_def Let_def n_def [symmetric])
qed

lemma json_char_nonempty [simp]: "json_char c \<noteq> []"
  by (simp add: json_char_def Let_def)

lemma json_char_quote: "json_char c = d # s \<Longrightarrow> d \<noteq> CHR 0x22"
  by (auto simp: json_char_def Let_def split: if_splits)

lemma json_body_inject:
  "concat (map json_char a) @ CHR 0x22 # x = concat (map json_char b) @ CHR 0x22 # y \<Longrightarrow> a = b \<and> x = y"
proof (induction a arbitrary: b)
  case Nil
  then show ?case
    by (cases b; cases "json_char (hd b)") (auto dest: json_char_quote)
next
  case (Cons c a)
  then obtain d b' where b: "b = d # b'"
    by (cases b; cases "json_char c") (auto dest: json_char_quote)
  have "json_first (json_char c @ concat (map json_char a) @ CHR 0x22 # x) = json_first (json_char d @ concat (map json_char b') @ CHR 0x22 # y)"
    using Cons.prems by (simp add: b)
  then have "c = d" "concat (map json_char a) @ CHR 0x22 # x = concat (map json_char b') @ CHR 0x22 # y"
    unfolding json_first_char by simp_all
  then show ?case
    using Cons.IH by (simp add: b)
qed

lemma json_chars_inject: "concat (map json_char a) = concat (map json_char b) \<Longrightarrow> a = b"
  using json_body_inject [of a "[]" b "[]"] by simp

lemma grantKey_inject: "grantKey p s r = grantKey p' s' r' \<longleftrightarrow> p = p' \<and> s = s' \<and> r = r'"
  by (auto simp: grantKey_def json_string_def dest!: json_body_inject json_chars_inject)

section \<open>An administrator always remains\<close>

definition grant_id :: "admin_grant \<Rightarrow> string" where
  "grant_id g = grantKey (ag_principalId g) (ag_scopeId g) (ag_role g)"

definition grants_wf :: "admin_grants \<Rightarrow> bool" where
  "grants_wf m \<longleftrightarrow> map_wf m \<and> map_all (\<lambda>k g. k = grant_id g) m \<and>
     (\<forall>g \<in> set (persist_all m). personKey (Some (ag_principalId g)) \<noteq> [])"

definition has_admin :: "admin_grants \<Rightarrow> bool" where
  "has_admin m \<longleftrightarrow> (\<exists>g \<in> set (persist_all m). ag_role g = ORG_ADMIN)"

lemma persist_all_get: "grants_wf m \<Longrightarrow> g \<in> set (persist_all m) \<longleftrightarrow> map_get m (grant_id g) = Some g"
  unfolding grants_wf_def persist_all_def set_dm_all
  using map_wf_value_get map_get_in_values by (fastforce dest: map_allD)

lemma put_subset: "set (persist_all (persist_put g m)) \<subseteq> insert g (set (persist_all m))"
  unfolding persist_all_def persist_put_def set_dm_all dm_put_def by (rule values_map_set_subset)

lemma remove_subset: "set (persist_all (persist_remove p s r m)) \<subseteq> set (persist_all m)"
  unfolding persist_all_def persist_remove_def set_dm_all dm_delete_def by (rule values_map_delete_subset)

lemma put_wf: "grants_wf m \<Longrightarrow> personKey (Some (ag_principalId g)) \<noteq> [] \<Longrightarrow> grants_wf (persist_put g m)"
  using put_subset [of g m] unfolding grants_wf_def persist_put_def dm_put_def
  by (auto simp: grant_id_def intro: map_all_set map_wf_set)

lemma put_keeps_others:
  "grants_wf m \<Longrightarrow> personKey (Some (ag_principalId g)) \<noteq> [] \<Longrightarrow>
     h = g \<or> h \<in> set (persist_all m) \<and> grant_id h \<noteq> grant_id g \<Longrightarrow> h \<in> set (persist_all (persist_put g m))"
  by (auto simp: persist_all_get put_wf) (auto simp: persist_put_def dm_put_def map_get_set grant_id_def)

lemma remove_wf: "grants_wf m \<Longrightarrow> grants_wf (persist_remove p s r m)"
  using remove_subset [of p s r m] unfolding grants_wf_def persist_remove_def dm_delete_def
  by (auto intro: map_all_delete map_wf_delete)

lemma set_remove:
  "grants_wf m \<Longrightarrow> g \<in> set (persist_all (persist_remove p s r m)) \<longleftrightarrow> g \<in> set (persist_all m) \<and> grant_id g \<noteq> grantKey p s r"
  by (simp add: persist_all_get remove_wf) (simp add: persist_remove_def dm_delete_def map_get_delete grants_wf_def)

lemma seeded_fixed [simp]: "as_seeded (ensureSeeded seeds st)" "ensureSeeded seeds (ensureSeeded seeds st) = ensureSeeded seeds st"
  by (auto simp: ensureSeeded_def)

lemma ensureSeeded_id: "as_seeded st \<Longrightarrow> ensureSeeded seeds st = st"
  by (simp add: ensureSeeded_def)

lemma remove_grants_wf:
  "grants_wf (as_grants st) \<Longrightarrow> as_seeded st \<Longrightarrow>
     grants_wf (as_grants (remove_grants seeds gs st)) \<and> as_seeded (remove_grants seeds gs st) \<and>
     set (persist_all (as_grants (remove_grants seeds gs st))) = {g \<in> set (persist_all (as_grants st)). \<forall>h \<in> set gs. grant_id g \<noteq> grant_id h}"
proof (induction gs arbitrary: st)
  case (Cons h gs)
  let ?st = "admin_remove seeds (ag_principalId h) (ag_scopeId h) (ag_role h) st"
  have "as_grants ?st = persist_remove (ag_principalId h) (ag_scopeId h) (ag_role h) (as_grants st)" "as_seeded ?st"
    using Cons.prems by (simp_all add: admin_remove_def ensureSeeded_id)
  then show ?case
    using Cons.IH [of ?st] Cons.prems remove_wf [OF Cons.prems(1)] set_remove [OF Cons.prems(1)]
    by (auto simp: remove_grants_def grant_id_def)
qed (simp add: remove_grants_def)

lemma isOrgAdmin_iff: "isOrgAdmin gs p \<longleftrightarrow> (\<exists>g \<in> set gs. samePerson (Some (ag_principalId g)) (Some p) \<and> ag_role g = ORG_ADMIN)"
  by (induction gs) (auto simp: isOrgAdmin_def)

lemma two_admins:
  assumes "\<not> length (org_admin_people gs) \<le> 1"
  shows "\<exists>g \<in> set gs. ag_role g = ORG_ADMIN \<and> personKey (Some (ag_principalId g)) \<noteq> k"
proof (rule ccontr)
  assume "\<not> ?thesis"
  then have "set (org_admin_people gs) \<subseteq> {k}"
    by (auto simp: org_admin_people_def)
  moreover have "distinct (org_admin_people gs)"
    by (simp add: org_admin_people_def)
  ultimately have "length (org_admin_people gs) \<le> 1"
    using card_mono [of "{k}" "set (org_admin_people gs)"] by (simp add: distinct_card)
  then show False
    using assms by simp
qed

text \<open>The calls of the service.\<close>

datatype admin_call =
    CallGrant string "string option" string scope_id ms
  | CallRevoke string string scope_id string
  | CallDeparted string

fun admin_apply :: "string \<Rightarrow> admin_grant list \<Rightarrow> admin_call \<Rightarrow> admin_store \<Rightarrow> admin_store" where
  "admin_apply org seeds (CallGrant actor p role sid now) st = fst (createGrant org seeds actor p role sid now st)"
| "admin_apply org seeds (CallRevoke actor p sid role) st = fst (revokeGrant seeds actor p sid role st)"
| "admin_apply org seeds (CallDeparted p) st = fst (revokeDepartedGrants seeds p st)"

definition admin_ok :: "admin_grant list \<Rightarrow> admin_store \<Rightarrow> bool" where
  "admin_ok seeds st \<longleftrightarrow> grants_wf (as_grants (ensureSeeded seeds st)) \<and> has_admin (as_grants (ensureSeeded seeds st))"

lemma js_trim_idem: "js_trim (js_trim s) = js_trim s"
proof -
  define u where "u = dropWhile js_ws s"
  define v where "v = js_trimEnd u"
  have "v = [] \<or> \<not> js_ws (hd v)"
  proof (cases v)
    case (Cons c w)
    then have "u = v @ rev (takeWhile js_ws (rev u))"
      unfolding v_def js_trimEnd_def by (metis rev_append rev_rev_ident takeWhile_dropWhile_id)
    then have "hd u = hd v" "u \<noteq> []"
      using Cons by (metis hd_append2 list.discI, metis Cons append_is_Nil_conv list.discI)
    then show ?thesis
      using hd_dropWhile [of js_ws s] by (auto simp: u_def)
  qed simp
  then have "dropWhile js_ws v = v"
    by (cases v) auto
  moreover have "js_trimEnd v = v"
    by (simp add: v_def js_trimEnd_def)
  ultimately show ?thesis
    by (simp add: js_trim_def u_def [symmetric] v_def [symmetric])
qed

lemma trim_key: "js_trim s \<noteq> [] \<Longrightarrow> personKey (Some (js_trim s)) \<noteq> []"
  by (simp add: personKey_def Let_def js_trim_idem js_toLowerCase_def)

lemma key_of_person: "samePerson (Some a) (Some b) \<Longrightarrow> samePerson (Some c) (Some b) \<longleftrightarrow> personKey (Some c) = personKey (Some a)"
  by (auto simp: samePerson_def)

lemma seeded_list: "admin_list seeds st = (ensureSeeded seeds st, persist_all (as_grants (ensureSeeded seeds st)))"
  by (simp add: admin_list_def Let_def)

lemma create_ok: "admin_ok seeds st \<Longrightarrow> admin_ok seeds (fst (createGrant org seeds actor p role sid now st))"
proof -
  let ?st = "ensureSeeded seeds st"
  assume ok: "admin_ok seeds st"
  show ?thesis
  proof (cases "\<exists>g. createGrant org seeds actor p role sid now st = (?st, g)")
    case True
    then show ?thesis
      using ok by (auto simp: admin_ok_def)
  next
    case False
    define q where "q = (case p of None \<Rightarrow> [] | Some s \<Rightarrow> js_trim s)"
    let ?g = "new_admin_grant q sid role actor now"
    have new: "fst (createGrant org seeds actor p role sid now st) = admin_add seeds ?g ?st" and q: "q \<noteq> []" and r: "role = ORG_ADMIN"
      using False by (auto simp: createGrant_def seeded_list Let_def q_def split: if_splits)
    have g: "personKey (Some (ag_principalId ?g)) \<noteq> []" "ag_role ?g = ORG_ADMIN"
      using q r trim_key by (auto simp: new_admin_grant_def q_def split: option.splits)
    have wf: "grants_wf (as_grants ?st)"
      using ok by (simp add: admin_ok_def)
    have st: "ensureSeeded seeds (admin_add seeds ?g ?st) = admin_add seeds ?g ?st"
      "as_grants (admin_add seeds ?g ?st) = persist_put ?g (as_grants ?st)"
      by (simp_all add: admin_add_def ensureSeeded_id Let_def)
    have "?g \<in> set (persist_all (persist_put ?g (as_grants ?st)))"
      using put_keeps_others [OF wf g(1), of ?g] by blast
    then show ?thesis
      unfolding new admin_ok_def st has_admin_def using put_wf [OF wf g(1)] g(2) by blast
  qed
qed

lemma removal_ok:
  assumes "admin_ok seeds st" "list_all (\<lambda>g. g \<in> set (persist_all (as_grants (ensureSeeded seeds st)))) gs"
    and "\<exists>h \<in> set (persist_all (as_grants (ensureSeeded seeds st))). ag_role h = ORG_ADMIN \<and>
           list_all (\<lambda>g. ag_principalId g \<noteq> ag_principalId h \<or> ag_role g \<noteq> ag_role h) gs"
  shows "admin_ok seeds (remove_grants seeds gs (ensureSeeded seeds st))"
proof -
  have "list_all (\<lambda>g. grant_id h \<noteq> grant_id g) gs"
    if "list_all (\<lambda>g. ag_principalId g \<noteq> ag_principalId h \<or> ag_role g \<noteq> ag_role h) gs" for h
    using that by (auto simp: grant_id_def grantKey_inject list_all_iff)
  then show ?thesis
    using assms remove_grants_wf [of "ensureSeeded seeds st" seeds gs]
    by (auto simp: admin_ok_def has_admin_def ensureSeeded_id list_all_iff)
qed

lemma revoke_ok: "admin_ok seeds st \<Longrightarrow> admin_ok seeds (fst (revokeGrant seeds actor p sid role st))"
proof -
  let ?st = "ensureSeeded seeds st" and ?gs = "persist_all (as_grants (ensureSeeded seeds st))"
  assume ok: "admin_ok seeds st"
  show ?thesis
  proof (cases "revoke_decision ?gs actor p sid role")
    case (Inl e)
    then show ?thesis
      using ok by (simp add: revokeGrant_def seeded_list admin_ok_def)
  next
    case (Inr matched)
    then obtain h where h: "h \<in> set ?gs" "samePerson (Some (ag_principalId h)) (Some actor)" "ag_role h = ORG_ADMIN"
      and other: "\<not> samePerson (Some actor) (Some p)"
      and m: "matched = filter (\<lambda>g. samePerson (Some (ag_principalId g)) (Some p) \<and> ag_scopeId g = sid \<and> ag_role g = role) ?gs"
      by (auto simp: revoke_decision_def isOrgAdmin_iff Let_def split: if_splits)
    have "list_all (\<lambda>g. ag_principalId g \<noteq> ag_principalId h) matched"
      using h(2) other by (auto simp: m list_all_iff samePerson_def)
    then have "admin_ok seeds (remove_grants seeds matched ?st)"
      using ok h(1, 3) by (intro removal_ok) (auto simp: m list_all_iff)
    then show ?thesis
      using Inr by (simp add: revokeGrant_def seeded_list)
  qed
qed

lemma departed_ok: "admin_ok seeds st \<Longrightarrow> admin_ok seeds (fst (revokeDepartedGrants seeds p st))"
proof -
  let ?st = "ensureSeeded seeds st" and ?gs = "persist_all (as_grants (ensureSeeded seeds st))"
  assume ok: "admin_ok seeds st"
  have "\<exists>h \<in> set ?gs. ag_role h = ORG_ADMIN \<and>
          list_all (\<lambda>g. ag_principalId g \<noteq> ag_principalId h \<or> ag_role g \<noteq> ag_role h) (departed_grants ?gs p)"
  proof (cases "length (org_admin_people ?gs) \<le> 1")
    case True
    then show ?thesis
      using ok by (auto simp: admin_ok_def has_admin_def departed_grants_def list_all_iff)
  next
    case False
    then obtain h where "h \<in> set ?gs" "ag_role h = ORG_ADMIN" "personKey (Some (ag_principalId h)) \<noteq> personKey (Some p)"
      using two_admins by blast
    then show ?thesis
      by (intro bexI [of _ h]) (auto simp: departed_grants_def list_all_iff samePerson_def)
  qed
  then have "admin_ok seeds (remove_grants seeds (departed_grants ?gs p) ?st)"
    using ok by (intro removal_ok) (auto simp: departed_grants_def list_all_iff)
  then show ?thesis
    by (simp add: revokeDepartedGrants_def seeded_list Let_def)
qed

lemma admin_calls_ok: "admin_ok seeds st \<Longrightarrow> admin_ok seeds (fold (admin_apply org seeds) calls st)"
proof (induction calls arbitrary: st)
  case (Cons c calls)
  have "admin_ok seeds (admin_apply org seeds c st)"
    using Cons.prems by (cases c) (simp_all add: create_ok revoke_ok departed_ok)
  then show ?case
    using Cons.IH by simp
qed simp

lemma ok_has_caller: "admin_ok seeds st \<Longrightarrow> \<exists>p. isOrgAdmin (snd (admin_list seeds st)) p"
  by (fastforce simp: admin_ok_def has_admin_def grants_wf_def seeded_list isOrgAdmin_iff samePerson_def)

lemma stranger_changes_nothing:
  assumes "\<not> isOrgAdmin (snd (admin_list seeds st)) a"
  shows "createGrant org seeds a p role sid now st =
           (ensureSeeded seeds st, Inl (AdminError 403 ''only an org admin may grant admin roles''))"
    "revokeGrant seeds a q sid role st =
           (ensureSeeded seeds st, Inl (AdminError 403 ''only an org admin may revoke admin roles''))"
  using assms by (auto simp: createGrant_def revokeGrant_def revoke_decision_def seeded_list)

text \<open>C29: from a store with an org admin, any sequence of grants, revocations and departures leaves somebody who can
  administer, and in the state it leaves a caller without the role is refused and changes no grant.\<close>

theorem an_admin_remains:
  assumes "admin_ok seeds st" "end_st = fold (admin_apply org seeds) calls st"
  shows "(\<exists>p. isOrgAdmin (snd (admin_list seeds end_st)) p) \<and>
         (\<not> isOrgAdmin (snd (admin_list seeds end_st)) a \<longrightarrow>
            as_grants (fst (createGrant org seeds a p role sid now end_st)) = as_grants (ensureSeeded seeds end_st) \<and>
            as_grants (fst (revokeGrant seeds a q sid role end_st)) = as_grants (ensureSeeded seeds end_st))"
  using ok_has_caller [OF admin_calls_ok [OF assms(1)]] by (auto simp: assms(2) stranger_changes_nothing)

definition two_seeds :: "admin_grant list" where
  "two_seeds = the (parseAdminGrants (Some ''ann:org_admin, bob :org_admin, eve:viewer'') ''acme'')"

definition no_grants :: admin_store where
  "no_grants = \<lparr>as_grants = [], as_seeded = False\<rparr>"

lemma two_seeds_value:
  "two_seeds =
     [\<lparr>ag_principalId = ''ann'', ag_scopeId = ''org:acme'', ag_role = ''org_admin'', ag_grantedBy = None, ag_createdAt = None\<rparr>,
      \<lparr>ag_principalId = ''bob'', ag_scopeId = ''org:acme'', ag_role = ''org_admin'', ag_grantedBy = None, ag_createdAt = None\<rparr>]"
  by code_simp

text \<open>A store seeded from the configuration is well formed.\<close>

lemma seeding_wf:
  "grants_wf m \<Longrightarrow> list_all (\<lambda>g. personKey (Some (ag_principalId g)) \<noteq> []) gs \<Longrightarrow>
     grants_wf (fold (\<lambda>g. persist_put (seed_grant g)) gs m)"
  by (induction gs arbitrary: m) (simp_all add: put_wf seed_grant_def)

lemma two_seeds_ok: "admin_ok two_seeds no_grants"
proof -
  have "list_all (\<lambda>g. personKey (Some (ag_principalId g)) \<noteq> []) two_seeds"
    unfolding two_seeds_value by code_simp
  moreover have "grants_wf []"
    by (simp add: grants_wf_def persist_all_def set_dm_all)
  ultimately have "grants_wf (as_grants (ensureSeeded two_seeds no_grants))"
    using seeding_wf [of "[]" two_seeds] by (simp add: ensureSeeded_def no_grants_def)
  moreover have "has_admin (as_grants (ensureSeeded two_seeds no_grants))"
    unfolding has_admin_def by code_simp
  ultimately show ?thesis
    by (simp add: admin_ok_def)
qed

lemma an_admin_remains_witness:
  "let end_st = fold (admin_apply ''acme'' two_seeds)
                  [CallRevoke ''ann'' ''bob'' ''org:acme'' ''org_admin'', CallDeparted ''ann'',
                   CallGrant ''eve'' (Some ''eve'') ''org_admin'' ''org:acme'' 5] no_grants
   in (\<exists>p. isOrgAdmin (snd (admin_list two_seeds end_st)) p) \<and>
      as_grants (fst (revokeGrant two_seeds ''bob'' ''ann'' ''org:acme'' ''org_admin'' end_st)) =
        as_grants (ensureSeeded two_seeds end_st)"
proof -
  define calls where "calls = [CallRevoke ''ann'' ''bob'' ''org:acme'' ''org_admin'', CallDeparted ''ann'',
                   CallGrant ''eve'' (Some ''eve'') ''org_admin'' ''org:acme'' 5]"
  define end_st where "end_st = fold (admin_apply ''acme'' two_seeds) calls no_grants"
  have "\<not> isOrgAdmin (snd (admin_list two_seeds end_st)) ''bob''"
    unfolding end_st_def calls_def by code_simp
  then show ?thesis
    using an_admin_remains [OF two_seeds_ok end_st_def, where a = "''bob''" and q = "''ann''" and role = "''org_admin''" and sid = "''org:acme''"]
    by (simp add: end_st_def calls_def Let_def)
qed

text \<open>
  The guard of a revocation is checked on the grants that call read. Two revocations that cross, each of the two
  administrators removing the other on the same reading, are both decided and leave nobody.
\<close>

lemma crossed_revocations_leave_nobody:
  "let st = ensureSeeded two_seeds no_grants; gs = persist_all (as_grants st) in
     revoke_decision gs ''ann'' ''bob'' ''org:acme'' ''org_admin'' = Inr [gs ! 1] \<and>
     revoke_decision gs ''bob'' ''ann'' ''org:acme'' ''org_admin'' = Inr [gs ! 0] \<and>
     \<not> has_admin (as_grants (remove_grants two_seeds [gs ! 0] (remove_grants two_seeds [gs ! 1] st)))"
  by code_simp

end
