(* ===== verification/Project_Store.thy ===== *)
theory Project_Store
  imports Durable_Map Scope_Membership
begin

text \<open>
  Projects: \<open>projects/project-store.ts\<close>. The organisation is the parameter \<open>org\<close>, \<open>isActiveMember\<close> the function
  \<open>act\<close>; both locks are taken around a whole call, so a call is one step. \<open>effect\<close> runs after the update and may
  throw; without one it is \<^term>\<open>\<lambda>_ _. Inr ()\<close>. A project is a managed group of the membership checks.
\<close>

section \<open>Data\<close>

record project =
  pr_id :: string
  pr_orgId :: string
  pr_name :: string
  pr_ownerId :: string
  pr_memberIds :: "string list"
  pr_createdAt :: ms
  pr_updatedAt :: ms

datatype project_refusal = ProjectNotFound | ProjectForbidden | InvalidMember | InvalidName

datatype project_mutation = Mutated project bool | Refused project_refusal

type_synonym project_store = "(string, project) jsmap"
type_synonym mutation_effect = "project \<Rightarrow> bool \<Rightarrow> unit outcome"

definition PROJECT_GROUP_PREFIX :: string where
  "PROJECT_GROUP_PREFIX = ''web-project-''"

definition projectGroupRef :: "string \<Rightarrow> string" where
  "projectGroupRef i = PROJECT_GROUP_PREFIX @ i"

definition projectScopeId :: "string \<Rightarrow> scope_id" where
  "projectScopeId i = scopeId Group (projectGroupRef i)"

definition isProjectGroupRef :: "string \<Rightarrow> bool" where
  "isProjectGroupRef r = js_startsWith r PROJECT_GROUP_PREFIX"

definition projectIdFromGroupRef :: "string \<Rightarrow> string option" where
  "projectIdFromGroupRef r =
     (if \<not> isProjectGroupRef r then None
      else (let i = drop (length PROJECT_GROUP_PREFIX) r in if i \<noteq> [] \<and> CHR '':'' \<notin> set i then Some i else None))"

definition cleanName :: "string \<Rightarrow> string" where
  "cleanName name = take 200 (js_collapse_ws False (js_trim name))"

section \<open>Operations\<close>

definition project_create :: "string \<Rightarrow> ms \<Rightarrow> string \<Rightarrow> string \<Rightarrow> string \<Rightarrow> project_store \<Rightarrow> project_store \<times> project outcome" where
  "project_create org at_ms newId name ownerId st =
     (let clean = cleanName name in
      if clean = [] \<or> ownerId = [] then (st, Inl (Error ''project requires name and ownerId''))
      else
        (let p = \<lparr>pr_id = newId, pr_orgId = org, pr_name = clean, pr_ownerId = ownerId, pr_memberIds = [ownerId],
                  pr_createdAt = at_ms, pr_updatedAt = at_ms\<rparr>
         in case dm_putIfAbsent newId p st of
              (st', stored) \<Rightarrow>
                if pr_createdAt stored \<noteq> pr_createdAt p \<or> pr_ownerId stored \<noteq> pr_ownerId p
                then (st', Inl (Error ''project id collision''))
                else (st', Inr stored)))"

definition project_get :: "string \<Rightarrow> project_store \<Rightarrow> project option" where
  "project_get i st = dm_get i st"

definition listForMember :: "string \<Rightarrow> (string \<Rightarrow> bool) \<Rightarrow> string \<Rightarrow> project_store \<Rightarrow> project list" where
  "listForMember org act principalId st =
     js_sort (\<lambda>a b. pr_updatedAt b - pr_updatedAt a)
       (filter (\<lambda>p. pr_orgId p = org \<and> act (pr_ownerId p) \<and> act principalId \<and> principalId \<in> set (pr_memberIds p)) (dm_all st))"

text \<open>What the closure of \<open>mutate\<close> makes of the stored project: the status, whether it changed, and the project.\<close>

definition roster_change ::
  "(string \<Rightarrow> bool) \<Rightarrow> ms \<Rightarrow> string \<Rightarrow> string \<Rightarrow> bool \<Rightarrow> project \<Rightarrow> project_refusal option \<times> bool \<times> project" where
  "roster_change act now actorId memberId add p =
     (let canChangeRoster =
            (if add then list_ex (\<lambda>m. samePerson (Some m) (Some actorId)) (pr_memberIds p)
             else samePerson (Some (pr_ownerId p)) (Some actorId))
      in if \<not> canChangeRoster \<or> \<not> act (pr_ownerId p) \<or> \<not> act actorId then (Some ProjectForbidden, False, p)
         else if samePerson (Some memberId) (Some (pr_ownerId p)) then (Some InvalidMember, False, p)
         else (let ids = (if add then js_dedup (pr_memberIds p @ [memberId]) else filter (\<lambda>m. m \<noteq> memberId) (pr_memberIds p))
               in if ids = pr_memberIds p then (None, False, p)
                  else (None, True, p\<lparr>pr_memberIds := ids, pr_updatedAt := max now (pr_updatedAt p + 1)\<rparr>)))"

text \<open>The rest of a mutation, shared by \<open>mutate\<close> and \<open>rename\<close>: update, answer, effect.\<close>

definition apply_change ::
  "(project \<Rightarrow> project_refusal option \<times> bool \<times> project) \<Rightarrow> mutation_effect \<Rightarrow> string \<Rightarrow> project_store \<Rightarrow>
   project_store \<times> project_mutation outcome" where
  "apply_change change eff i st =
     (case dm_get i st of
        None \<Rightarrow> (st, Inr (Refused ProjectNotFound))
      | Some p \<Rightarrow>
          (case change p of
             (refused, changed, _) \<Rightarrow>
               (case dm_update i (\<lambda>q. snd (snd (change q))) st of
                  (st', updated) \<Rightarrow>
                    (case updated of
                       None \<Rightarrow> (st', Inr (Refused ProjectNotFound))
                     | Some q \<Rightarrow>
                         (case refused of
                            Some r \<Rightarrow> (st', Inr (Refused r))
                          | None \<Rightarrow> (st', obind (eff q changed) (\<lambda>_. Inr (Mutated q changed))))))))"

definition project_mutate ::
  "(string \<Rightarrow> bool) \<Rightarrow> ms \<Rightarrow> string \<Rightarrow> string \<Rightarrow> string \<Rightarrow> bool \<Rightarrow> mutation_effect \<Rightarrow> project_store \<Rightarrow>
   project_store \<times> project_mutation outcome" where
  "project_mutate act now i actorId memberId add eff st =
     (if memberId = [] then (st, Inr (Refused InvalidMember))
      else apply_change (roster_change act now actorId memberId add) eff i st)"

definition addMember where
  "addMember act now i ownerId memberId eff st = project_mutate act now i ownerId memberId True eff st"

definition removeMember where
  "removeMember act now i ownerId memberId eff st = project_mutate act now i ownerId memberId False eff st"

definition name_change :: "(string \<Rightarrow> bool) \<Rightarrow> string \<Rightarrow> string \<Rightarrow> project \<Rightarrow> project_refusal option \<times> bool \<times> project" where
  "name_change act ownerId clean p =
     (if pr_ownerId p \<noteq> ownerId \<or> \<not> act ownerId then (Some ProjectForbidden, False, p)
      else if pr_name p = clean then (None, False, p)
      else (None, True, p\<lparr>pr_name := clean\<rparr>))"

definition project_rename ::
  "(string \<Rightarrow> bool) \<Rightarrow> string \<Rightarrow> string \<Rightarrow> string \<Rightarrow> mutation_effect \<Rightarrow> project_store \<Rightarrow> project_store \<times> project_mutation outcome" where
  "project_rename act i ownerId name eff st =
     (let clean = cleanName name in
      if clean = [] then (st, Inr (Refused InvalidName))
      else apply_change (name_change act ownerId clean) eff i st)"

definition projectForGroup :: "string \<Rightarrow> string \<Rightarrow> project_store \<Rightarrow> project option" where
  "projectForGroup org r st =
     (case projectIdFromGroupRef r of
        None \<Rightarrow> None
      | Some i \<Rightarrow>
          (case dm_get i st of None \<Rightarrow> None | Some p \<Rightarrow> if pr_orgId p = org then Some p else None))"

definition project_membership :: "string \<Rightarrow> (string \<Rightarrow> bool) \<Rightarrow> string \<Rightarrow> string \<Rightarrow> project_store \<Rightarrow> bool option" where
  "project_membership org act r principalId st =
     map_option (\<lambda>p. act (pr_ownerId p) \<and> act principalId \<and> principalId \<in> set (pr_memberIds p)) (projectForGroup org r st)"

definition project_members :: "string \<Rightarrow> (string \<Rightarrow> bool) \<Rightarrow> string \<Rightarrow> project_store \<Rightarrow> string list option" where
  "project_members org act r st =
     map_option (\<lambda>p. if act (pr_ownerId p) then filter act (pr_memberIds p) else []) (projectForGroup org r st)"

definition project_version :: "string \<Rightarrow> string \<Rightarrow> project_store \<Rightarrow> string option" where
  "project_version org r st = map_option (\<lambda>p. js_of_int (pr_updatedAt p)) (projectForGroup org r st)"

definition withVersion :: "string \<Rightarrow> string \<Rightarrow> string option \<Rightarrow> (project_store \<Rightarrow> 'w) \<Rightarrow> project_store \<Rightarrow> 'w option" where
  "withVersion org r version f st =
     (case projectIdFromGroupRef r of
        None \<Rightarrow> None
      | Some i \<Rightarrow>
          (case dm_get i st of
             None \<Rightarrow> None
           | Some p \<Rightarrow> if pr_orgId p \<noteq> org \<or> Some (js_of_int (pr_updatedAt p)) \<noteq> version then None else Some (f st)))"

definition project_name :: "string \<Rightarrow> (string \<Rightarrow> bool) \<Rightarrow> string \<Rightarrow> project_store \<Rightarrow> string option" where
  "project_name org act r st =
     (case projectForGroup org r st of None \<Rightarrow> None | Some p \<Rightarrow> if act (pr_ownerId p) then Some (pr_name p) else None)"

definition withRosterLock :: "string \<Rightarrow> (project \<Rightarrow> 'w) \<Rightarrow> project_store \<Rightarrow> 'w option" where
  "withRosterLock i f st = map_option f (dm_get i st)"

text \<open>The store as the managed groups of the membership checks.\<close>

definition project_groups :: "string \<Rightarrow> (string \<Rightarrow> bool) \<Rightarrow> project_store \<Rightarrow> managed_groups" where
  "project_groups org act st =
     \<lparr>mg_recognizes = isProjectGroupRef, mg_membership = \<lambda>r p. Inr (project_membership org act r p st),
      mg_members = \<lambda>r. Inr (project_members org act r st)\<rparr>"

section \<open>Versions name rosters\<close>

text \<open>What a caller that reads a roster with its version and writes under that version relies on.\<close>

locale versioned_groups =
  fixes step :: "'s \<Rightarrow> 's \<Rightarrow> bool"
    and roster :: "'s \<Rightarrow> 'g \<Rightarrow> string list option"
    and stamp :: "'s \<Rightarrow> 'g \<Rightarrow> int option"
  assumes stamp_grows:
    "step s s' \<Longrightarrow> stamp s g = Some v \<Longrightarrow>
       \<exists>v'. stamp s' g = Some v' \<and> v \<le> v' \<and> (v' = v \<longrightarrow> roster s' g = roster s g)"
begin

lemma stamps_grow:
  assumes "step\<^sup>*\<^sup>* s s'" "stamp s g = Some v"
  shows "\<exists>v'. stamp s' g = Some v' \<and> v \<le> v' \<and> (v' = v \<longrightarrow> roster s' g = roster s g)"
  using assms(1)
proof (induction rule: rtranclp_induct)
  case (step t u)
  then obtain w where "stamp t g = Some w" "v \<le> w" "w = v \<longrightarrow> roster t g = roster s g"
    by blast
  then show ?case
    using stamp_grows [OF step.hyps(2), of g w] by fastforce
qed (simp add: assms(2))

lemma stamp_names_roster: "step\<^sup>*\<^sup>* s s' \<Longrightarrow> stamp s g = Some v \<Longrightarrow> stamp s' g = Some v \<Longrightarrow> roster s' g = roster s g"
  using stamps_grow by fastforce

end

datatype project_call =
    ProjectCreate ms string string string
  | ProjectRoster "string \<Rightarrow> bool" ms string string string bool mutation_effect
  | ProjectRename "string \<Rightarrow> bool" string string string mutation_effect

fun project_apply :: "string \<Rightarrow> project_call \<Rightarrow> project_store \<Rightarrow> project_store" where
  "project_apply org (ProjectCreate t i name owner) st = fst (project_create org t i name owner st)"
| "project_apply org (ProjectRoster act now i actor m add eff) st = fst (project_mutate act now i actor m add eff st)"
| "project_apply org (ProjectRename act i owner name eff) st = fst (project_rename act i owner name eff st)"

definition project_step :: "string \<Rightarrow> project_store \<Rightarrow> project_store \<Rightarrow> bool" where
  "project_step org st st' \<longleftrightarrow> (\<exists>c. st' = project_apply org c st)"

lemma apply_change_get:
  "dm_get j (fst (apply_change change eff i st)) =
     (if j = i then map_option (\<lambda>p. snd (snd (change p))) (dm_get i st) else dm_get j st)"
  by (auto simp: apply_change_def dm_get_def dm_update_def split: option.splits prod.splits)

lemma roster_change_stamp:
  "snd (snd (roster_change act now a m add p)) = p \<or>
     pr_updatedAt p < pr_updatedAt (snd (snd (roster_change act now a m add p)))"
  by (auto simp: roster_change_def Let_def)

text \<open>What no call changes in a project, and what a later version may change.\<close>

definition same_project :: "project \<Rightarrow> project \<Rightarrow> bool" where
  "same_project p q \<longleftrightarrow>
     pr_id q = pr_id p \<and> pr_orgId q = pr_orgId p \<and> pr_ownerId q = pr_ownerId p \<and> pr_createdAt q = pr_createdAt p \<and>
     pr_updatedAt p \<le> pr_updatedAt q \<and> (pr_updatedAt q = pr_updatedAt p \<longrightarrow> pr_memberIds q = pr_memberIds p)"

lemma same_project_refl [simp]: "same_project p p"
  by (simp add: same_project_def)

lemma roster_change_same: "same_project p (snd (snd (roster_change act now a m add p)))"
  by (auto simp: same_project_def roster_change_def Let_def)

lemma name_change_same: "same_project p (snd (snd (name_change act o' n p)))"
  by (auto simp: same_project_def name_change_def)

lemma project_create_get:
  "dm_get j (fst (project_create org t i name owner st)) = dm_get j st \<or>
     j = i \<and> dm_get j st = None \<and> cleanName name \<noteq> [] \<and> owner \<noteq> [] \<and>
     dm_get j (fst (project_create org t i name owner st)) =
       Some \<lparr>pr_id = i, pr_orgId = org, pr_name = cleanName name, pr_ownerId = owner, pr_memberIds = [owner], pr_createdAt = t, pr_updatedAt = t\<rparr>"
  by (auto simp: project_create_def Let_def dm_get_def dm_putIfAbsent_def split: option.splits)

lemma project_apply_same:
  assumes "dm_get i st = Some p"
  shows "\<exists>q. dm_get i (project_apply org c st) = Some q \<and> same_project p q"
proof (cases c)
  case (ProjectCreate t j name owner)
  then have "dm_get i (project_apply org c st) = Some p"
    using project_create_get [of i org t j name owner st] assms by auto
  then show ?thesis
    by simp
qed (auto simp: assms project_mutate_def project_rename_def apply_change_get roster_change_same name_change_same Let_def)

interpretation projects: versioned_groups "project_step org" "\<lambda>st i. map_option pr_memberIds (dm_get i st)"
    "\<lambda>st i. map_option pr_updatedAt (dm_get i st)" for org
proof unfold_locales
  fix st st' i v
  assume "project_step org st st'" "map_option pr_updatedAt (dm_get i st) = Some v"
  then obtain p q where "dm_get i st = Some p" "dm_get i st' = Some q" "same_project p q" "v = pr_updatedAt p"
    using project_apply_same by (fastforce simp: project_step_def)
  then show "\<exists>v'. map_option pr_updatedAt (dm_get i st') = Some v' \<and> v \<le> v' \<and>
               (v' = v \<longrightarrow> map_option pr_memberIds (dm_get i st') = map_option pr_memberIds (dm_get i st))"
    by (simp add: same_project_def)
qed

lemma project_step_owner:
  "(project_step org)\<^sup>*\<^sup>* st st' \<Longrightarrow> dm_get i st = Some p \<Longrightarrow>
     \<exists>q. dm_get i st' = Some q \<and> pr_ownerId q = pr_ownerId p"
proof (induction rule: rtranclp_induct)
  case (step st' st'')
  then obtain q c where q: "dm_get i st' = Some q" "pr_ownerId q = pr_ownerId p" "st'' = project_apply org c st'"
    by (auto simp: project_step_def)
  then show ?case
    using project_apply_same [OF q(1), of org c] by (auto simp: same_project_def)
qed simp

text \<open>The owner stays a member, nobody is listed twice and the name is never blank.\<close>

definition project_ok :: "string \<Rightarrow> project \<Rightarrow> bool" where
  "project_ok i p \<longleftrightarrow> pr_id p = i \<and> pr_ownerId p \<in> set (pr_memberIds p) \<and> distinct (pr_memberIds p) \<and> pr_name p \<noteq> []"

definition projects_ok :: "project_store \<Rightarrow> bool" where
  "projects_ok st \<longleftrightarrow> (\<forall>i p. dm_get i st = Some p \<longrightarrow> project_ok i p)"

lemma roster_change_ok: "project_ok i p \<Longrightarrow> project_ok i (snd (snd (roster_change act now a m add p)))"
proof -
  assume ok: "project_ok i p"
  have "pr_ownerId p \<in> set (filter (\<lambda>x. x \<noteq> m) (pr_memberIds p))"
    if "samePerson (Some (pr_ownerId p)) (Some a)" "\<not> samePerson (Some m) (Some (pr_ownerId p))"
    using that ok by (auto simp: project_ok_def samePerson_def)
  then show ?thesis
    using ok by (auto simp: project_ok_def roster_change_def Let_def)
qed

lemma name_change_ok: "project_ok i p \<Longrightarrow> n \<noteq> [] \<Longrightarrow> project_ok i (snd (snd (name_change act o' n p)))"
  by (auto simp: project_ok_def name_change_def)

lemma project_create_ok: "projects_ok st \<Longrightarrow> projects_ok (fst (project_create org t i name owner st))"
  unfolding projects_ok_def
proof (intro allI impI)
  fix j p
  assume "\<forall>i p. dm_get i st = Some p \<longrightarrow> project_ok i p" "dm_get j (fst (project_create org t i name owner st)) = Some p"
  then show "project_ok j p"
    using project_create_get [of j org t i name owner st] by (auto simp: project_ok_def)
qed

lemma apply_change_ok:
  "projects_ok st \<Longrightarrow> (\<And>p. project_ok i p \<Longrightarrow> project_ok i (snd (snd (change p)))) \<Longrightarrow> projects_ok (fst (apply_change change eff i st))"
  by (auto simp: projects_ok_def apply_change_get)

lemma project_apply_ok: "projects_ok st \<Longrightarrow> projects_ok (project_apply org c st)"
  by (cases c)
    (auto simp: project_mutate_def project_rename_def Let_def project_create_ok intro!: apply_change_ok roster_change_ok name_change_ok)

lemma reachable_projects_ok: "(project_step org)\<^sup>*\<^sup>* [] st \<Longrightarrow> projects_ok st"
proof (induction rule: rtranclp_induct)
  case base
  show ?case by (simp add: projects_ok_def dm_get_def)
next
  case (step st st')
  then show ?case
    by (auto simp: project_step_def project_apply_ok)
qed

text \<open>C30: work done under a version that was read earlier runs only on the roster of that reading: whatever calls
  came between, the owner and the members are the same, the owner is among them and nobody is listed twice.\<close>

theorem version_names_roster:
  assumes "(project_step org)\<^sup>*\<^sup>* [] st" "(project_step org)\<^sup>*\<^sup>* st st'"
    and "withVersion org r (project_version org r st) f st' = Some w"
  shows "\<exists>p q. projectForGroup org r st = Some p \<and> projectForGroup org r st' = Some q \<and> w = f st' \<and>
           pr_memberIds q = pr_memberIds p \<and> pr_ownerId q = pr_ownerId p \<and>
           pr_ownerId q \<in> set (pr_memberIds q) \<and> distinct (pr_memberIds q)"
proof -
  obtain i q where q: "projectIdFromGroupRef r = Some i" "dm_get i st' = Some q" "pr_orgId q = org" "w = f st'"
      and "project_version org r st = Some (js_of_int (pr_updatedAt q))"
    using assms(3) by (auto simp: withVersion_def split: option.splits if_splits)
  then obtain p where p: "dm_get i st = Some p" "pr_orgId p = org" "pr_updatedAt p = pr_updatedAt q"
    by (auto simp: project_version_def projectForGroup_def split: option.splits if_splits)
  have "pr_memberIds q = pr_memberIds p"
    using projects.stamp_names_roster [OF assms(2), of i "pr_updatedAt q"] p q by simp
  moreover have "pr_ownerId q = pr_ownerId p"
    using project_step_owner [OF assms(2) p(1)] q(2) by simp
  moreover have "project_ok i q"
    using reachable_projects_ok [OF rtranclp_trans [OF assms(1, 2)]] q(2) by (simp add: projects_ok_def)
  ultimately show ?thesis
    using p q by (auto simp: projectForGroup_def project_ok_def)
qed

section \<open>Projects govern their scope\<close>

lemma project_group_id: "projectIdFromGroupRef (projectGroupRef i) = (if i \<noteq> [] \<and> CHR '':'' \<notin> set i then Some i else None)"
  by (simp add: projectIdFromGroupRef_def projectGroupRef_def isProjectGroupRef_def js_startsWith_def Let_def)

definition project_access :: "string \<Rightarrow> (string \<Rightarrow> bool) \<Rightarrow> project_store \<Rightarrow> string \<Rightarrow> string \<Rightarrow> bool" where
  "project_access org act st i p \<longleftrightarrow> project_membership org act (projectGroupRef i) p st = Some True"

lemma project_scope_checks:
  assumes "md_managedGroups deps = Some (project_groups org act st)"
  shows "canReadScope deps p (projectScopeId i) = (p \<noteq> [] \<and> activePrincipal deps p \<and> project_access org act st i p)"
    "canWriteScope deps p (projectScopeId i) = (p \<noteq> [] \<and> activePrincipal deps p \<and> project_access org act st i p)"
    "canManageScope deps p (projectScopeId i) = (p \<noteq> [] \<and> activePrincipal deps p \<and> project_access org act st i p)"
  using assms
  by (auto simp: scope_checks projectScopeId_def memberOfSharedScope_def sharedScopeMembership_def currentSharedScopeMember_def
      recognized_group_def project_groups_def isProjectGroupRef_def projectGroupRef_def js_startsWith_def project_access_def)

lemma project_access_iff:
  "i \<noteq> [] \<Longrightarrow> CHR '':'' \<notin> set i \<Longrightarrow>
     project_access org act st i p \<longleftrightarrow>
       (\<exists>q. dm_get i st = Some q \<and> pr_orgId q = org \<and> act (pr_ownerId q) \<and> act p \<and> p \<in> set (pr_memberIds q))"
  by (auto simp: project_access_def project_membership_def projectForGroup_def project_group_id split: option.splits if_splits)

lemma mutated_roster:
  assumes "project_mutate act now i actor m add eff st = (st', Inr (Mutated q changed))"
  shows "\<exists>p. dm_get i st = Some p \<and> dm_get i st' = Some q \<and> same_project p q \<and> act (pr_ownerId p) \<and> act actor \<and>
           set (pr_memberIds q) = (if add then insert m (set (pr_memberIds p)) else set (pr_memberIds p) - {m}) \<and>
           (if add then \<exists>x \<in> set (pr_memberIds p). samePerson (Some x) (Some actor)
            else samePerson (Some (pr_ownerId p)) (Some actor) \<and> \<not> samePerson (Some m) (Some (pr_ownerId p)))"
proof -
  obtain p where p: "dm_get i st = Some p" and ch: "roster_change act now actor m add p = (None, changed, q)"
    and st': "dm_get i st' = Some q"
    using assms
    by (auto simp: project_mutate_def apply_change_def dm_update_def dm_get_def obind_Inr_iff split: if_splits option.splits prod.splits)
  have "same_project p q"
    using roster_change_same [of p act now actor m add] ch by simp
  moreover have "pr_memberIds q = (if add then js_dedup (pr_memberIds p @ [m]) else filter (\<lambda>x. x \<noteq> m) (pr_memberIds p))"
    using ch by (auto simp: roster_change_def Let_def split: if_split_asm)
  then have "set (pr_memberIds q) = (if add then insert m (set (pr_memberIds p)) else set (pr_memberIds p) - {m})"
    by auto
  moreover have "act (pr_ownerId p) \<and> act actor \<and>
      (if add then \<exists>x \<in> set (pr_memberIds p). samePerson (Some x) (Some actor)
       else samePerson (Some (pr_ownerId p)) (Some actor) \<and> \<not> samePerson (Some m) (Some (pr_ownerId p)))"
    using ch by (simp add: roster_change_def list_ex_iff Let_def split: if_split_asm)
  ultimately show ?thesis
    using p st' by blast
qed


section \<open>A concrete project\<close>

definition plan :: project where
  "plan = \<lparr>pr_id = ''p1'', pr_orgId = ''acme'', pr_name = ''The plan'', pr_ownerId = ''ann'', pr_memberIds = [''ann'', ''bob''],
           pr_createdAt = 5, pr_updatedAt = 9\<rparr>"

definition plan_store :: project_store where
  "plan_store = [(''p1'', plan)]"

definition no_effect :: mutation_effect where
  "no_effect p changed = Inr ()"

definition everybody :: "string \<Rightarrow> bool" where
  "everybody p \<longleftrightarrow> True"

definition free_deps :: membership_deps where
  "free_deps = \<lparr>md_managedGroups = None, md_directory = None, md_identity = None, md_sessions = None\<rparr>"

lemma plan_reachable: "(project_step ''acme'')\<^sup>*\<^sup>* [] plan_store"
proof -
  let ?p = "\<lparr>pr_id = ''p1'', pr_orgId = ''acme'', pr_name = ''The plan'', pr_ownerId = ''ann'', pr_memberIds = [''ann''], pr_createdAt = 5, pr_updatedAt = 5\<rparr>"
  have "cleanName '' The  plan '' = ''The plan''"
    by (simp add: cleanName_def js_trim_def js_trimEnd_def js_ws_def)
  then have "fst (project_create ''acme'' 5 ''p1'' '' The  plan '' ''ann'' []) = [(''p1'', ?p)]"
    by (simp add: project_create_def Let_def dm_putIfAbsent_def)
  then have "project_step ''acme'' [] [(''p1'', ?p)]"
    unfolding project_step_def by (intro exI [of _ "ProjectCreate 5 ''p1'' '' The  plan '' ''ann''"]) simp
  moreover have "fst (project_mutate everybody 9 ''p1'' ''ann'' ''bob'' True no_effect [(''p1'', ?p)]) = plan_store"
    by code_simp
  then have "project_step ''acme'' [(''p1'', ?p)] plan_store"
    unfolding project_step_def
    by (intro exI [of _ "ProjectRoster everybody 9 ''p1'' ''ann'' ''bob'' True no_effect"]) simp
  ultimately show ?thesis
    by (rule rtranclp.rtrancl_into_rtrancl [OF r_into_rtranclp])
qed

lemma version_names_roster_witness:
  "\<exists>p q. projectForGroup ''acme'' ''web-project-p1'' plan_store = Some p \<and>
     projectForGroup ''acme'' ''web-project-p1'' [(''p1'', plan\<lparr>pr_name := ''Other''\<rparr>)] = Some q \<and>
     pr_memberIds q = pr_memberIds p"
proof -
  let ?t = "[(''p1'', plan\<lparr>pr_name := ''Other''\<rparr>)]"
  have "cleanName ''Other'' = ''Other''"
    by (simp add: cleanName_def js_trim_def js_trimEnd_def js_ws_def)
  then have "fst (project_rename everybody ''p1'' ''ann'' ''Other'' no_effect plan_store) = ?t"
    by (simp add: project_rename_def apply_change_def name_change_def plan_store_def plan_def dm_get_def dm_update_def everybody_def no_effect_def Let_def)
  then have "project_step ''acme'' plan_store ?t"
    unfolding project_step_def by (intro exI [of _ "ProjectRename everybody ''p1'' ''ann'' ''Other'' no_effect"]) simp
  then have later: "(project_step ''acme'')\<^sup>*\<^sup>* plan_store ?t"
    by blast
  have run: "withVersion ''acme'' ''web-project-p1'' (project_version ''acme'' ''web-project-p1'' plan_store) (\<lambda>_. 1 :: nat) ?t = Some 1"
    by code_simp
  show ?thesis
    using version_names_roster [OF plan_reachable later run] by blast
qed


text \<open>Authority is decided by person, removal by spelling: a removal under another spelling of the name answers ok and
  leaves the member in, with the right to change the roster.\<close>

lemma respelled_removal_keeps_member:
  "let p = plan\<lparr>pr_memberIds := [''ann'', ''bob@x.co'']\<rparr> in
     removeMember everybody 20 ''p1'' ''ann'' ''Bob@x.co'' no_effect [(''p1'', p)] = ([(''p1'', p)], Inr (Mutated p False)) \<and>
     fst (roster_change everybody 30 ''Bob@x.co'' ''eve'' True p) = None"
  by code_simp

end
