(* ===== verification/Config_Cell.thy ===== *)
theory Config_Cell
  imports Durable_Map
begin

text \<open>
  What each kind of configuration of \<open>resolution/config-store.ts\<close> has: a cache, the rows of its durable map, and the
  writes that \<open>persist\<close> queued and that have not run yet, first in first out per scope. \<open>pendingWrites\<close> keeps a scope
  from its first queued write until its last one has succeeded. A write that fails changes no row. The row stored
  under a scope carries that scope, so a row is its value.
\<close>

section \<open>Cells\<close>

datatype 'v config_write = WritePut 'v | WriteDelete

record 'v cell =
  ce_cache :: "(scope_id, 'v) jsmap"
  ce_rows :: "(scope_id, 'v) jsmap"
  ce_queue :: "(scope_id, 'v config_write list) jsmap"
  ce_pending :: "scope_id list"

definition cell_queue :: "'v cell \<Rightarrow> scope_id \<Rightarrow> 'v config_write list" where
  "cell_queue c i = (case map_get (ce_queue c) i of None \<Rightarrow> [] | Some ws \<Rightarrow> ws)"

definition persist :: "scope_id \<Rightarrow> 'v config_write \<Rightarrow> 'v cell \<Rightarrow> 'v cell" where
  "persist i w c = c\<lparr>ce_queue := map_set i (cell_queue c i @ [w]) (ce_queue c), ce_pending := List.insert i (ce_pending c)\<rparr>"

fun run_write :: "scope_id \<Rightarrow> 'v config_write \<Rightarrow> (scope_id, 'v) jsmap \<Rightarrow> (scope_id, 'v) jsmap" where
  "run_write i (WritePut v) rows = dm_put i v rows"
| "run_write i WriteDelete rows = dm_delete i rows"

text \<open>The oldest queued write of a scope runs; \<open>ok\<close> tells whether it succeeds.\<close>

definition settle_write :: "bool \<Rightarrow> scope_id \<Rightarrow> 'v cell \<Rightarrow> 'v cell" where
  "settle_write ok i c =
     (case cell_queue c i of
        [] \<Rightarrow> c
      | w # ws \<Rightarrow>
          c\<lparr>ce_rows := (if ok then run_write i w (ce_rows c) else ce_rows c), ce_queue := map_set i ws (ce_queue c),
            ce_pending := (if ok \<and> ws = [] then removeAll i (ce_pending c) else ce_pending c)\<rparr>)"

text \<open>The setters. \<open>fallback\<close> is what the cache of the organisation falls back to, if anything.\<close>

definition cell_put :: "scope_id \<Rightarrow> 'v \<Rightarrow> 'v cell \<Rightarrow> 'v cell" where
  "cell_put i v c = persist i (WritePut v) (c\<lparr>ce_cache := map_set i v (ce_cache c)\<rparr>)"

definition reset_cache :: "(scope_id \<Rightarrow> 'v option) \<Rightarrow> scope_id \<Rightarrow> (scope_id, 'v) jsmap \<Rightarrow> (scope_id, 'v) jsmap" where
  "reset_cache fallback i m = (case fallback i of Some d \<Rightarrow> map_set i d m | None \<Rightarrow> map_delete i m)"

definition cell_drop :: "(scope_id \<Rightarrow> 'v option) \<Rightarrow> scope_id \<Rightarrow> 'v cell \<Rightarrow> 'v cell" where
  "cell_drop fallback i c = persist i WriteDelete (c\<lparr>ce_cache := reset_cache fallback i (ce_cache c)\<rparr>)"

text \<open>A write the caller awaits runs after the queued ones of its scope and reaches the cache when it succeeded.\<close>

definition cell_through :: "scope_id \<Rightarrow> 'v \<Rightarrow> 'v cell \<Rightarrow> 'v cell" where
  "cell_through i v c = c\<lparr>ce_rows := dm_put i v (ce_rows c), ce_cache := map_set i v (ce_cache c)\<rparr>"

definition cell_through_drop :: "scope_id \<Rightarrow> 'v cell \<Rightarrow> 'v cell" where
  "cell_through_drop i c = c\<lparr>ce_rows := dm_delete i (ce_rows c), ce_cache := map_delete i (ce_cache c)\<rparr>"

definition cell_get :: "'v cell \<Rightarrow> scope_id \<Rightarrow> 'v option" where
  "cell_get c i = map_get (ce_cache c) i"

definition cell_stored :: "'v cell \<Rightarrow> scope_id \<Rightarrow> 'v option" where
  "cell_stored c i = dm_get i (ce_rows c)"

text \<open>\<open>refreshSecurity\<close> reads the row and installs it unless a write is pending by then.\<close>

definition install_row :: "bool \<Rightarrow> scope_id \<Rightarrow> 'v option \<Rightarrow> 'v cell \<Rightarrow> 'v cell" where
  "install_row isOrg i row c =
     (if i \<in> set (ce_pending c) then c
      else (case row of
              Some v \<Rightarrow> c\<lparr>ce_cache := map_set i v (ce_cache c)\<rparr>
            | None \<Rightarrow> if isOrg then c else c\<lparr>ce_cache := map_delete i (ce_cache c)\<rparr>))"

definition cell_refresh :: "bool \<Rightarrow> scope_id \<Rightarrow> 'v cell \<Rightarrow> 'v cell" where
  "cell_refresh isOrg i c = install_row isOrg i (cell_stored c i) c"

text \<open>\<open>refreshScope\<close> installs the row whatever is pending.\<close>

definition cell_load :: "(scope_id \<Rightarrow> 'v option) \<Rightarrow> scope_id \<Rightarrow> 'v option \<Rightarrow> 'v cell \<Rightarrow> 'v cell" where
  "cell_load fallback i row c =
     c\<lparr>ce_cache := (case row of Some v \<Rightarrow> map_set i v (ce_cache c) | None \<Rightarrow> reset_cache fallback i (ce_cache c))\<rparr>"

definition cell_new :: "(scope_id, 'v) jsmap \<Rightarrow> (scope_id, 'v) jsmap \<Rightarrow> 'v cell" where
  "cell_new cache rows = \<lparr>ce_cache = cache, ce_rows = rows, ce_queue = [], ce_pending = []\<rparr>"

definition cell_hydrate :: "'v cell \<Rightarrow> 'v cell" where
  "cell_hydrate c = c\<lparr>ce_cache := fold (\<lambda>(i, v). map_set i v) (dm_entries (ce_rows c)) (ce_cache c)\<rparr>"

section \<open>The cache is what the rows will be\<close>

definition cell_future :: "'v cell \<Rightarrow> scope_id \<Rightarrow> 'v option" where
  "cell_future c i = dm_get i (fold (run_write i) (cell_queue c i) (ce_rows c))"

definition cell_agrees :: "(scope_id \<Rightarrow> 'v option) \<Rightarrow> 'v cell \<Rightarrow> bool" where
  "cell_agrees fallback c \<longleftrightarrow>
     (\<forall>i. cell_get c i = (case cell_future c i of Some v \<Rightarrow> Some v | None \<Rightarrow> fallback i) \<and>
          (cell_queue c i \<noteq> [] \<longrightarrow> i \<in> set (ce_pending c)))"

lemma run_write_other: "j \<noteq> i \<Longrightarrow> dm_get j (run_write i w rows) = dm_get j rows"
  by (cases w) (simp_all add: memory_map.lookup_store memory_map.lookup_remove)

lemma run_write_same: "dm_get i (run_write i w rows) = (case w of WritePut v \<Rightarrow> Some v | WriteDelete \<Rightarrow> None)"
  by (cases w) (simp_all add: memory_map.lookup_store memory_map.lookup_remove)

lemma run_writes_cong: "dm_get i r = dm_get i r' \<Longrightarrow> dm_get i (fold (run_write i) ws r) = dm_get i (fold (run_write i) ws r')"
  by (induction ws arbitrary: r r') (simp_all add: run_write_same)

lemma cell_queue_persist: "cell_queue (persist i w c) j = (if j = i then cell_queue c i @ [w] else cell_queue c j)"
  by (simp add: cell_queue_def persist_def)

lemma cell_queue_cache [simp]: "cell_queue (c\<lparr>ce_cache := m\<rparr>) i = cell_queue c i"
  by (simp add: cell_queue_def)

lemma persist_simps [simp]: "ce_cache (persist i w c) = ce_cache c" "ce_rows (persist i w c) = ce_rows c"
  "ce_pending (persist i w c) = List.insert i (ce_pending c)"
  by (simp_all add: persist_def)

lemma cell_future_persist:
  "cell_future (persist i w c) j = (if j = i then (case w of WritePut v \<Rightarrow> Some v | WriteDelete \<Rightarrow> None) else cell_future c j)"
  by (simp add: cell_future_def cell_queue_persist run_write_same)

lemma cell_future_cache [simp]: "cell_future (c\<lparr>ce_cache := m\<rparr>) i = cell_future c i"
  by (simp add: cell_future_def)

lemma persist_agrees:
  assumes "cell_agrees fallback c" "\<And>j. j \<noteq> i \<Longrightarrow> map_get m j = cell_get c j"
    and "map_get m i = (case w of WritePut v \<Rightarrow> Some v | WriteDelete \<Rightarrow> fallback i)"
  shows "cell_agrees fallback (persist i w (c\<lparr>ce_cache := m\<rparr>))"
  using assms by (auto simp: cell_agrees_def cell_future_persist cell_queue_persist cell_get_def split: config_write.splits)

lemma cell_put_agrees: "cell_agrees fallback c \<Longrightarrow> cell_agrees fallback (cell_put i v c)"
  unfolding cell_put_def by (rule persist_agrees) (auto simp: cell_get_def)

lemma reset_cache_get: "map_get (reset_cache fallback i m) j = (if j = i then fallback i else map_get m j)"
  by (auto simp: reset_cache_def map_get_delete split: option.splits)

lemma cell_drop_agrees: "cell_agrees fallback c \<Longrightarrow> cell_agrees fallback (cell_drop fallback i c)"
  unfolding cell_drop_def by (rule persist_agrees) (auto simp: cell_get_def reset_cache_get)

lemma cell_through_agrees: "cell_agrees fallback c \<Longrightarrow> cell_queue c i = [] \<Longrightarrow> cell_agrees fallback (cell_through i v c)"
  by (auto simp: cell_agrees_def cell_future_def cell_get_def cell_through_def cell_queue_def memory_map.lookup_store
      intro!: arg_cong [where f = "case_option _ _"] run_writes_cong)

lemma settle_agrees: "cell_agrees fallback c \<Longrightarrow> cell_agrees fallback (settle_write True i c)"
proof (cases "cell_queue c i")
  case (Cons w ws)
  assume agrees: "cell_agrees fallback c"
  let ?c = "settle_write True i c"
  have q: "cell_queue ?c j = (if j = i then ws else cell_queue c j)" for j
    using Cons by (simp add: settle_write_def) (simp add: cell_queue_def)
  have rows: "ce_rows ?c = run_write i w (ce_rows c)" "ce_cache ?c = ce_cache c"
    "ce_pending ?c = (if ws = [] then removeAll i (ce_pending c) else ce_pending c)"
    using Cons by (simp_all add: settle_write_def)
  have "cell_future ?c j = cell_future c j" for j
    using Cons run_write_other [of j i w "ce_rows c"]
    by (cases "j = i") (auto simp: cell_future_def q rows intro: run_writes_cong)
  then show ?thesis
    using agrees Cons by (auto simp: cell_agrees_def cell_get_def q rows)
qed (simp add: settle_write_def)

lemma unpending_future: "cell_agrees fallback c \<Longrightarrow> i \<notin> set (ce_pending c) \<Longrightarrow> cell_future c i = cell_stored c i"
proof -
  assume "cell_agrees fallback c" "i \<notin> set (ce_pending c)"
  then have "cell_queue c i = []"
    unfolding cell_agrees_def by blast
  then show ?thesis
    by (simp add: cell_future_def cell_stored_def)
qed

lemma cell_refresh_same:
  assumes "cell_agrees fallback c" "\<And>j. fallback j \<noteq> None \<longleftrightarrow> isOrg j"
  shows "cell_get (cell_refresh (isOrg i) i c) j = cell_get c j"
proof (cases "i \<in> set (ce_pending c)")
  case False
  have "cell_get c i = (case cell_stored c i of Some v \<Rightarrow> Some v | None \<Rightarrow> fallback i)"
    using assms(1) unpending_future [OF assms(1) False] by (simp add: cell_agrees_def)
  then show ?thesis
    using assms(2) [of i]
    by (auto simp: cell_refresh_def install_row_def cell_get_def split: option.splits)
qed (simp add: cell_refresh_def install_row_def)

lemma cell_refresh_agrees:
  assumes "cell_agrees fallback c" "\<And>j. fallback j \<noteq> None \<longleftrightarrow> isOrg j"
  shows "cell_agrees fallback (cell_refresh (isOrg i) i c)"
proof -
  have "ce_queue (cell_refresh b i c) = ce_queue c" "ce_rows (cell_refresh b i c) = ce_rows c" "ce_pending (cell_refresh b i c) = ce_pending c" for b
    by (simp_all add: cell_refresh_def install_row_def split: option.split)
  then show ?thesis
    using assms cell_refresh_same [OF assms] by (simp add: cell_agrees_def cell_future_def cell_queue_def)
qed

section \<open>Restarts\<close>

text \<open>A process of its own: the calls that reach one kind of configuration, and the writes as they run.\<close>

datatype 'v cell_call =
    CellPut scope_id 'v
  | CellDrop scope_id
  | CellThrough scope_id 'v
  | CellRefresh scope_id
  | CellWrite scope_id

fun cell_apply :: "(scope_id \<Rightarrow> 'v option) \<Rightarrow> 'v cell_call \<Rightarrow> 'v cell \<Rightarrow> 'v cell" where
  "cell_apply fallback (CellPut i v) c = cell_put i v c"
| "cell_apply fallback (CellDrop i) c = cell_drop fallback i c"
| "cell_apply fallback (CellThrough i v) c = (if cell_queue c i = [] then cell_through i v c else c)"
| "cell_apply fallback (CellRefresh i) c = cell_refresh (fallback i \<noteq> None) i c"
| "cell_apply fallback (CellWrite i) c = settle_write True i c"

lemma cell_apply_agrees: "cell_agrees fallback c \<Longrightarrow> cell_agrees fallback (cell_apply fallback call c)"
  by (cases call)
    (simp_all add: cell_put_agrees cell_drop_agrees cell_through_agrees settle_agrees
      cell_refresh_agrees [where isOrg = "\<lambda>i. fallback i \<noteq> None"] del: not_None_eq)

lemma cell_calls_agree: "cell_agrees fallback c \<Longrightarrow> cell_agrees fallback (fold (cell_apply fallback) calls c)"
  by (induction calls arbitrary: c) (simp_all add: cell_apply_agrees)

lemma fold_map_set_get:
  "distinct (map fst es) \<Longrightarrow> map_get (fold (\<lambda>(i, v). map_set i v) es m) j = (case map_of es j of Some v \<Rightarrow> Some v | None \<Rightarrow> map_get m j)"
proof (induction es arbitrary: m)
  case (Cons e es)
  obtain k v where e: "e = (k, v)" by fastforce
  have "map_of es k = None"
    using Cons.prems by (simp add: e map_of_eq_None_iff)
  then show ?case
    using Cons by (simp add: e split: option.split)
qed simp

lemma map_wf_dm_entries: "map_wf m \<Longrightarrow> distinct (map fst (dm_entries m))"
  by (simp add: map_wf_def dm_entries_def)

lemma map_of_dm_entries: "map_wf m \<Longrightarrow> map_of (dm_entries m) i = map_get m i"
proof -
  assume wf: "map_wf m"
  then have "map_wf (dm_entries m)"
    by (simp add: map_wf_def map_wf_dm_entries)
  then have "map_of (dm_entries m) i = Some v \<longleftrightarrow> map_get m i = Some v" for v
    using map_wf_get_iff [OF wf, of i v] map_wf_get_iff [of "dm_entries m" i v] by simp
  then show ?thesis
    by (cases "map_get m i") auto
qed

text \<open>A process that starts on the rows another one left.\<close>

definition cell_boot :: "(scope_id, 'v) jsmap \<Rightarrow> 'v cell \<Rightarrow> 'v cell" where
  "cell_boot cache c = cell_hydrate (cell_new cache (ce_rows c))"

lemma cell_boot_agrees:
  assumes "map_wf (ce_rows c)" "\<And>i. map_get cache i = fallback i"
  shows "cell_agrees fallback (cell_boot cache c)"
  using assms(1)
  by (auto simp: assms(2) cell_agrees_def cell_boot_def cell_hydrate_def cell_new_def cell_get_def cell_future_def cell_queue_def dm_get_def
      fold_map_set_get map_of_dm_entries map_wf_dm_entries split: option.split)

lemma rows_wf: "map_wf (ce_rows c) \<Longrightarrow> map_wf (ce_rows (cell_apply fallback call c))"
proof -
  have "map_wf (run_write i w rows)" if "map_wf rows" for i rows and w :: "'a config_write"
    using that by (cases w) (simp_all add: dm_put_def dm_delete_def)
  then show "map_wf (ce_rows c) \<Longrightarrow> map_wf (ce_rows (cell_apply fallback call c))"
    by (cases call)
      (auto simp: cell_put_def cell_drop_def cell_through_def cell_refresh_def install_row_def settle_write_def dm_put_def
        split: list.split option.split)
qed

lemma rows_wf_calls: "map_wf (ce_rows c) \<Longrightarrow> map_wf (ce_rows (fold (cell_apply fallback) calls c))"
  by (induction calls arbitrary: c) (simp_all add: rows_wf)

text \<open>Once nothing is queued a restart answers as before it.\<close>

lemma cell_restart:
  assumes "cell_agrees fallback c" "map_wf (ce_rows c)" "\<And>i. map_get cache i = fallback i" "cell_queue c i = []"
  shows "cell_get (cell_boot cache c) i = cell_get c i"
proof -
  have "cell_agrees fallback (cell_boot cache c)"
    by (rule cell_boot_agrees) (use assms in auto)
  moreover have "cell_future (cell_boot cache c) i = dm_get i (ce_rows c)"
    by (simp add: cell_boot_def cell_hydrate_def cell_new_def cell_future_def cell_queue_def)
  moreover have "cell_future c i = dm_get i (ce_rows c)"
    using assms(4) by (simp add: cell_future_def)
  ultimately show ?thesis
    using assms(1) by (simp add: cell_agrees_def)
qed

text \<open>The invariant of a cell under the calls, one rule for each.\<close>

definition cell_sound :: "(scope_id \<Rightarrow> 'v option) \<Rightarrow> 'v cell \<Rightarrow> bool" where
  "cell_sound fallback c \<longleftrightarrow> cell_agrees fallback c \<and> map_wf (ce_rows c)"

lemma cell_sound_apply: "cell_sound fallback c \<Longrightarrow> cell_sound fallback (cell_apply fallback call c)"
  by (simp add: cell_sound_def cell_apply_agrees rows_wf)

lemma cell_sound_put [step_inv]: "cell_sound fallback c \<Longrightarrow> cell_sound fallback (cell_put i v c)"
  using cell_sound_apply [of fallback c "CellPut i v"] by simp

lemma cell_sound_drop [step_inv]: "cell_sound fallback c \<Longrightarrow> cell_sound fallback (cell_drop fallback i c)"
  using cell_sound_apply [of fallback c "CellDrop i"] by simp

lemma cell_sound_settle [step_inv]: "cell_sound fallback c \<Longrightarrow> cell_sound fallback (settle_write True i c)"
  using cell_sound_apply [of fallback c "CellWrite i"] by simp

lemma cell_sound_refresh: "cell_sound fallback c \<Longrightarrow> cell_sound fallback (cell_refresh (fallback i \<noteq> None) i c)"
  using cell_sound_apply [of fallback c "CellRefresh i"] by (simp del: not_None_eq)

lemma cell_sound_through [step_inv]: "cell_sound fallback c \<Longrightarrow> cell_queue c i = [] \<Longrightarrow> cell_sound fallback (cell_through i v c)"
  using cell_sound_apply [of fallback c "CellThrough i v"] by simp

lemma cell_sound_through_drop [step_inv]:
  assumes "cell_sound (\<lambda>_. None) c" "cell_queue c i = []"
  shows "cell_sound (\<lambda>_. None) (cell_through_drop i c)"
proof -
  let ?c = "cell_through_drop i c"
  have "cell_future ?c j = (if j = i then None else cell_future c j)" for j
    using assms(2) run_writes_cong [of j "dm_delete i (ce_rows c)" "ce_rows c"]
    by (auto simp: cell_future_def cell_through_drop_def cell_queue_def memory_map.lookup_remove)
  then show ?thesis
    using assms by (auto simp: cell_sound_def cell_agrees_def cell_get_def cell_through_drop_def cell_queue_def dm_delete_def)
qed

lemma cell_sound_load [step_inv]:
  assumes "cell_sound fallback c" "cell_queue c i = []"
  shows "cell_sound fallback (cell_load fallback i (cell_stored c i) c)"
proof -
  have "cell_get (cell_load fallback i (cell_stored c i) c) j =
          (if j = i then (case cell_stored c i of Some v \<Rightarrow> Some v | None \<Rightarrow> fallback i) else cell_get c j)" for j
    by (auto simp: cell_load_def cell_get_def reset_cache_get split: option.split)
  moreover have "cell_future c i = cell_stored c i"
    using assms(2) by (simp add: cell_future_def cell_stored_def)
  ultimately show ?thesis
    using assms(1)
    by (auto simp: cell_sound_def cell_agrees_def cell_load_def cell_queue_def cell_future_def split: if_splits)
qed

lemma cell_sound_boot: "map_wf (ce_rows c) \<Longrightarrow> (\<And>i. map_get cache i = fallback i) \<Longrightarrow> cell_sound fallback (cell_boot cache c)"
  by (simp add: cell_sound_def cell_boot_agrees) (simp add: cell_boot_def cell_hydrate_def cell_new_def)

lemma cell_sound_restart:
  "cell_sound fallback c \<Longrightarrow> (\<And>i. map_get cache i = fallback i) \<Longrightarrow> cell_queue c i = [] \<Longrightarrow>
     cell_get (cell_boot cache c) i = cell_get c i"
  by (rule cell_restart) (simp_all add: cell_sound_def)

section \<open>Where the cache stays behind\<close>

text \<open>A read that comes back after the write it missed has settled puts the old value into the cache.\<close>

lemma late_refresh_restores_old:
  "let c0 = cell_new [(''org:o'', 1 :: nat)] [(''org:o'', 1)]; seen = cell_stored c0 ''org:o'';
       c1 = settle_write True ''org:o'' (cell_put ''org:o'' 2 c0)
   in cell_stored c1 ''org:o'' = Some 2 \<and> cell_get (install_row True ''org:o'' seen c1) ''org:o'' = Some 1"
  by code_simp

text \<open>After a write that failed a scope stays pending, and the cache follows no later row.\<close>

lemma failed_write_blocks_refresh:
  "let c0 = settle_write False ''org:o'' (cell_put ''org:o'' 2 (cell_new [] [(''org:o'', 1 :: nat)]));
       c1 = c0\<lparr>ce_rows := [(''org:o'', 3)]\<rparr>
   in cell_get (cell_refresh True ''org:o'' (cell_load (\<lambda>_. None) ''org:o'' (cell_stored c0 ''org:o'') c1)) ''org:o'' = Some 1"
  by code_simp

text \<open>A reload while a write is queued: the cache goes back to the old row and stays there when the write has settled.\<close>

lemma reload_undoes_queued_write:
  "let c0 = cell_put ''org:o'' False (cell_new [(''org:o'', True)] [(''org:o'', True)]);
       c1 = settle_write True ''org:o'' (cell_load (\<lambda>_. None) ''org:o'' (cell_stored c0 ''org:o'') c0)
   in cell_stored c1 ''org:o'' = Some False \<and> cell_get c1 ''org:o'' = Some True"
  by code_simp

end
