(* ===== verification/Soul_Store.thy ===== *)
theory Soul_Store
  imports Config_Cell
begin

text \<open>
  The souls of the scopes, their instructions to the agent: the part of \<open>resolution/config-store.ts\<close> that versions
  them. Processes share the rows and each has caches of its own. What other processes do to the rows while a call waits
  is an argument of the call (\<open>env\<close>), as are the time, the fresh mutation id and, for \<open>setSoulIfVersion\<close>, the row
  read before the update. \<open>ss_rows\<close> is a cell for its rows and queue; the caches of souls are the three maps beside it.
\<close>

section \<open>Data\<close>

record soul_revision =
  sr_scopeId :: scope_id
  sr_content :: string
  sr_version :: int
  sr_updatedAt :: ms
  sr_updatedBy :: "string option"

record persisted_soul =
  ps_scopeId :: scope_id
  ps_content :: string
  ps_version :: int
  ps_updatedAt :: "ms option"
  ps_updatedBy :: "string option"
  ps_history :: "soul_revision list option"
  ps_mutationId :: "string option"

record soul_store =
  ss_souls :: "(scope_id, string \<times> int) jsmap"
  ss_history :: "(scope_id, soul_revision list) jsmap"
  ss_legacy :: "(scope_id, soul_revision list) jsmap"
  ss_rows :: "persisted_soul cell"
  ss_oldRows :: "(string, soul_revision) jsmap"

type_synonym soul_rows = "(scope_id, persisted_soul) jsmap"

definition defaultOrgSoul :: "string \<times> int" where
  "defaultOrgSoul =
     (''You are a helpful internal assistant for this organization. Be concise, accurate, and respect data boundaries: never reveal information to people who are not party to the current conversation.'', 1)"

definition soul_rows :: "soul_store \<Rightarrow> soul_rows" where
  "soul_rows s = ce_rows (ss_rows s)"

definition with_rows :: "soul_rows \<Rightarrow> soul_store \<Rightarrow> soul_store" where
  "with_rows rows s = s\<lparr>ss_rows := (ss_rows s)\<lparr>ce_rows := rows\<rparr>\<rparr>"

section \<open>Caches and histories\<close>

definition loadSoulCache :: "scope_id \<Rightarrow> scope_id \<Rightarrow> persisted_soul option \<Rightarrow> soul_store \<Rightarrow> soul_store" where
  "loadSoulCache org i soul s =
     s\<lparr>ss_souls := (case soul of
                      Some r \<Rightarrow> map_set i (ps_content r, ps_version r) (ss_souls s)
                    | None \<Rightarrow> if i = org then map_set org defaultOrgSoul (ss_souls s) else map_delete i (ss_souls s)),
       ss_history := (case Option.bind soul ps_history of
                        Some h \<Rightarrow> map_set i h (ss_history s)
                      | None \<Rightarrow> map_delete i (ss_history s))\<rparr>"

definition newest_first :: "soul_revision list \<Rightarrow> soul_revision list" where
  "newest_first rs = js_sort (\<lambda>a b. sr_version b - sr_version a) rs"

definition mergeSoulHistory :: "soul_revision list option \<Rightarrow> soul_revision list \<Rightarrow> soul_revision list" where
  "mergeSoulHistory embedded legacy =
     (let byVersion = fold (\<lambda>r. map_set (sr_version r) r) (legacy @ (case embedded of None \<Rightarrow> [] | Some h \<Rightarrow> h)) []
      in newest_first (map_values byVersion))"

definition current_revision :: "persisted_soul \<Rightarrow> soul_revision" where
  "current_revision c =
     \<lparr>sr_scopeId = ps_scopeId c, sr_content = ps_content c, sr_version = ps_version c,
      sr_updatedAt = (case ps_updatedAt c of None \<Rightarrow> 0 | Some t \<Rightarrow> t),
      sr_updatedBy = (if truthy (ps_updatedBy c) then ps_updatedBy c else None)\<rparr>"

definition historyIncludingCurrent :: "persisted_soul \<Rightarrow> soul_revision list \<Rightarrow> soul_revision list" where
  "historyIncludingCurrent c legacy =
     (let history = mergeSoulHistory (ps_history c) legacy in
      if list_ex (\<lambda>r. sr_version r = ps_version c) history then history
      else newest_first (history @ [current_revision c]))"

definition new_revision :: "scope_id \<Rightarrow> string \<Rightarrow> string option \<Rightarrow> ms \<Rightarrow> int \<Rightarrow> soul_revision" where
  "new_revision i content by_whom now v =
     \<lparr>sr_scopeId = i, sr_content = content, sr_version = v, sr_updatedAt = now,
      sr_updatedBy = (if truthy by_whom then by_whom else None)\<rparr>"

definition soul_of_revision :: "soul_revision \<Rightarrow> soul_revision list \<Rightarrow> string option \<Rightarrow> persisted_soul" where
  "soul_of_revision r history mutation =
     \<lparr>ps_scopeId = sr_scopeId r, ps_content = sr_content r, ps_version = sr_version r, ps_updatedAt = Some (sr_updatedAt r),
      ps_updatedBy = sr_updatedBy r, ps_history = Some history, ps_mutationId = mutation\<rparr>"

definition soul_legacy :: "soul_store \<Rightarrow> scope_id \<Rightarrow> soul_revision list" where
  "soul_legacy s i = (case map_get (ss_legacy s) i of None \<Rightarrow> [] | Some rs \<Rightarrow> rs)"

definition legacy_for :: "persisted_soul \<Rightarrow> soul_revision list \<Rightarrow> soul_revision list" where
  "legacy_for c legacy = (if ps_history c = None then legacy else [])"

section \<open>Operations\<close>

definition getSoul :: "soul_store \<Rightarrow> scope_id \<Rightarrow> string option" where
  "getSoul s i = map_option fst (map_get (ss_souls s) i)"

definition soulVersion :: "soul_store \<Rightarrow> scope_id \<Rightarrow> int" where
  "soulVersion s i = (case map_get (ss_souls s) i of None \<Rightarrow> 0 | Some (_, v) \<Rightarrow> v)"

definition all_soul_history :: "soul_store \<Rightarrow> scope_id \<Rightarrow> soul_revision list" where
  "all_soul_history s i = (case map_get (ss_history s) i of None \<Rightarrow> [] | Some h \<Rightarrow> h)"

definition soulHistory :: "soul_store \<Rightarrow> scope_id \<Rightarrow> soul_revision list" where
  "soulHistory s i = take 25 (all_soul_history s i)"

definition setSoul :: "scope_id \<Rightarrow> string \<Rightarrow> string option \<Rightarrow> ms \<Rightarrow> soul_store \<Rightarrow> soul_store \<times> int" where
  "setSoul i content by_whom now s =
     (let v = soulVersion s i + 1; revision = new_revision i content by_whom now v;
          history = revision # all_soul_history s i
      in (s\<lparr>ss_souls := map_set i (content, v) (ss_souls s), ss_history := map_set i history (ss_history s),
            ss_rows := persist i (WritePut (soul_of_revision revision history None)) (ss_rows s)\<rparr>, v))"

text \<open>The queued write of a soul; a deletion also deletes the old rows of the scope.\<close>

definition settle_soul :: "bool \<Rightarrow> scope_id \<Rightarrow> soul_store \<Rightarrow> soul_store" where
  "settle_soul ok i s =
     s\<lparr>ss_rows := settle_write ok i (ss_rows s),
       ss_oldRows := (case cell_queue (ss_rows s) i of
                        WriteDelete # _ \<Rightarrow> if ok then filter (\<lambda>(k, r). sr_scopeId r \<noteq> i) (ss_oldRows s) else ss_oldRows s
                      | _ \<Rightarrow> ss_oldRows s)\<rparr>"

definition append_soul :: "scope_id \<Rightarrow> string \<Rightarrow> string option \<Rightarrow> ms \<Rightarrow> string \<Rightarrow> soul_revision list \<Rightarrow> persisted_soul \<Rightarrow> persisted_soul" where
  "append_soul i content by_whom now mutation legacy c =
     (let revision = new_revision i content by_whom now (ps_version c + 1)
      in soul_of_revision revision (revision # historyIncludingCurrent c (legacy_for c legacy)) (Some mutation))"

definition finish_soul :: "scope_id \<Rightarrow> scope_id \<Rightarrow> persisted_soul option \<Rightarrow> soul_store \<Rightarrow> soul_store \<times> int outcome" where
  "finish_soul org i saved s =
     (case saved of
        None \<Rightarrow> (s, Inl (Error ''SOUL disappeared during atomic update''))
      | Some r \<Rightarrow> (loadSoulCache org i (Some r) (s\<lparr>ss_legacy := map_delete i (ss_legacy s)\<rparr>), Inr (ps_version r)))"

text \<open>\<open>env1\<close> runs between the update that found no row and the insertion, \<open>env2\<close> before the second update.\<close>

definition setSoulLatest ::
  "scope_id \<Rightarrow> (soul_rows \<Rightarrow> soul_rows) \<Rightarrow> (soul_rows \<Rightarrow> soul_rows) \<Rightarrow> scope_id \<Rightarrow> string \<Rightarrow> string option \<Rightarrow> ms \<Rightarrow> string \<Rightarrow>
   soul_store \<Rightarrow> soul_store \<times> int outcome" where
  "setSoulLatest org env1 env2 i content by_whom now mutation s =
     (let append = append_soul i content by_whom now mutation (soul_legacy s i) in
      case dm_update i append (soul_rows s) of
        (rows1, Some r) \<Rightarrow> finish_soul org i (Some r) (with_rows rows1 s)
      | (rows1, None) \<Rightarrow>
          (let revision = new_revision i content by_whom now (soulVersion s i + 1) in
           case dm_putIfAbsent i (soul_of_revision revision [revision] (Some mutation)) (env1 rows1) of
             (rows2, canonical) \<Rightarrow>
               if ps_mutationId canonical = Some mutation then finish_soul org i (Some canonical) (with_rows rows2 s)
               else (case dm_update i append (env2 rows2) of
                       (rows3, saved) \<Rightarrow> finish_soul org i saved (with_rows rows3 s))))"

definition clearSoul :: "scope_id \<Rightarrow> scope_id \<Rightarrow> soul_store \<Rightarrow> soul_store" where
  "clearSoul org i s =
     s\<lparr>ss_souls := (if i = org then map_set org defaultOrgSoul (ss_souls s) else map_delete i (ss_souls s)),
       ss_history := map_delete i (ss_history s), ss_legacy := map_delete i (ss_legacy s),
       ss_rows := persist i WriteDelete (ss_rows s)\<rparr>"

definition note_soul :: "scope_id \<Rightarrow> soul_revision \<Rightarrow> persisted_soul \<Rightarrow> soul_store \<Rightarrow> soul_store" where
  "note_soul i revision saved s =
     s\<lparr>ss_souls := map_set i (ps_content saved, ps_version saved) (ss_souls s),
       ss_history := map_set i (case ps_history saved of None \<Rightarrow> [revision] | Some h \<Rightarrow> h) (ss_history s),
       ss_legacy := map_delete i (ss_legacy s)\<rparr>"

text \<open>\<open>env\<close> runs between the read of the row and the write.\<close>

definition setSoulIfVersion ::
  "(soul_rows \<Rightarrow> soul_rows) \<Rightarrow> scope_id \<Rightarrow> int \<Rightarrow> string \<Rightarrow> string option \<Rightarrow> ms \<Rightarrow> string \<Rightarrow> soul_store \<Rightarrow> soul_store \<times> int option" where
  "setSoulIfVersion env i expected content by_whom now mutation s =
     (let revision = new_revision i content by_whom now (expected + 1);
          candidate = soul_of_revision revision [revision] (Some mutation)
      in case dm_get i (soul_rows s) of
           None \<Rightarrow>
             if soulVersion s i \<noteq> expected then (s, None)
             else (case dm_putIfAbsent i candidate (env (soul_rows s)) of
                     (rows, canonical) \<Rightarrow>
                       if ps_mutationId canonical \<noteq> Some mutation then (with_rows rows s, None)
                       else (note_soul i revision canonical (with_rows rows s), Some (ps_version canonical)))
         | Some _ \<Rightarrow>
             (let rows = env (soul_rows s); accepted = (case dm_get i rows of None \<Rightarrow> False | Some c \<Rightarrow> ps_version c = expected) in
              case dm_update i (\<lambda>c. if ps_version c \<noteq> expected then c
                                     else candidate\<lparr>ps_history := Some (revision # historyIncludingCurrent c (legacy_for c (soul_legacy s i)))\<rparr>)
                     rows of
                (rows', updated) \<Rightarrow>
                  (case updated of
                     Some r \<Rightarrow> if \<not> accepted then (with_rows rows' s, None)
                                else (note_soul i revision r (with_rows rows' s), Some (ps_version r))
                   | None \<Rightarrow> (with_rows rows' s, None))))"

definition captureSoulSnapshot :: "scope_id \<Rightarrow> soul_store \<Rightarrow> persisted_soul option" where
  "captureSoulSnapshot i s = dm_get i (soul_rows s)"

definition restoreSoulSnapshot :: "scope_id \<Rightarrow> scope_id \<Rightarrow> persisted_soul option \<Rightarrow> soul_store \<Rightarrow> soul_store \<times> bool" where
  "restoreSoulSnapshot org i snapshot s =
     (let rows = (case snapshot of Some r \<Rightarrow> dm_put i r (soul_rows s) | None \<Rightarrow> dm_delete i (soul_rows s)); restored = dm_get i rows
      in (loadSoulCache org i restored (with_rows rows s), restored = snapshot))"

definition restoreSoulCacheSnapshot :: "scope_id \<Rightarrow> scope_id \<Rightarrow> persisted_soul option \<Rightarrow> soul_store \<Rightarrow> soul_store" where
  "restoreSoulCacheSnapshot org i snapshot s = loadSoulCache org i snapshot s"

section \<open>Refreshing and starting\<close>

definition refresh_soul :: "scope_id \<Rightarrow> scope_id \<Rightarrow> persisted_soul option \<Rightarrow> soul_store \<Rightarrow> soul_store" where
  "refresh_soul org i row s =
     (if i \<in> set (ce_pending (ss_rows s)) then s
      else (case row of
              Some r \<Rightarrow> s\<lparr>ss_souls := map_set i (ps_content r, ps_version r) (ss_souls s)\<rparr>
            | None \<Rightarrow> if i = org then s else s\<lparr>ss_souls := map_delete i (ss_souls s)\<rparr>))"

definition reload_soul :: "scope_id \<Rightarrow> scope_id \<Rightarrow> soul_store \<Rightarrow> soul_store" where
  "reload_soul org i s =
     (let soul = dm_get i (soul_rows s); legacy = soul_legacy s i in
      case soul of
        None \<Rightarrow> loadSoulCache org i None s
      | Some r \<Rightarrow>
          if ps_history r \<noteq> None then loadSoulCache org i soul (s\<lparr>ss_legacy := map_delete i (ss_legacy s)\<rparr>)
          else if legacy = [] then loadSoulCache org i soul s
          else (case dm_update i (\<lambda>c. if ps_history c \<noteq> None then c else c\<lparr>ps_history := Some (mergeSoulHistory None legacy)\<rparr>)
                       (soul_rows s) of
                  (rows, refreshed) \<Rightarrow> loadSoulCache org i refreshed (with_rows rows (s\<lparr>ss_legacy := map_delete i (ss_legacy s)\<rparr>))))"

definition add_revision :: "soul_revision \<Rightarrow> (scope_id, soul_revision list) jsmap \<Rightarrow> (scope_id, soul_revision list) jsmap" where
  "add_revision r m =
     (let rs = (case map_get m (sr_scopeId r) of None \<Rightarrow> [] | Some xs \<Rightarrow> xs)
      in map_set (sr_scopeId r) (if list_ex (\<lambda>x. sr_version x = sr_version r) rs then rs else rs @ [r]) m)"

definition hydrate_souls :: "soul_store \<Rightarrow> soul_store" where
  "hydrate_souls s =
     (let rows = dm_all (soul_rows s); old = dm_all (ss_oldRows s);
          souls = fold (\<lambda>r. map_set (ps_scopeId r) (ps_content r, ps_version r)) rows (ss_souls s);
          embedded = fold (\<lambda>r m. case ps_history r of
                                   Some (x # xs) \<Rightarrow> map_set (ps_scopeId r) (x # xs) m
                                 | _ \<Rightarrow> m) rows (ss_history s)
      in s\<lparr>ss_souls := souls, ss_legacy := map (\<lambda>(i, rs). (i, newest_first rs)) (fold add_revision old (ss_legacy s)),
           ss_history := map (\<lambda>(i, rs). (i, newest_first rs)) (fold add_revision old embedded)\<rparr>)"

section \<open>No revision is lost\<close>

text \<open>The versions and contents a row remembers.\<close>

definition soul_pairs :: "persisted_soul \<Rightarrow> (int \<times> string) set" where
  "soul_pairs c =
     insert (ps_version c, ps_content c)
       ((\<lambda>r. (sr_version r, sr_content r)) ` set (case ps_history c of None \<Rightarrow> [] | Some h \<Rightarrow> h))"

text \<open>A row with a history that lists each version once, none above the row's own, and this one with the row's text.\<close>

definition soul_ok :: "persisted_soul \<Rightarrow> bool" where
  "soul_ok c \<longleftrightarrow>
     (case ps_history c of
        None \<Rightarrow> False
      | Some h \<Rightarrow> distinct (map sr_version h) \<and>
                   (\<forall>r \<in> set h. sr_version r \<le> ps_version c \<and> (sr_version r = ps_version c \<longrightarrow> sr_content r = ps_content c)))"

definition souls_ok :: "soul_rows \<Rightarrow> bool" where
  "souls_ok rows \<longleftrightarrow> (\<forall>i c. dm_get i rows = Some c \<longrightarrow> soul_ok c)"

definition soul_kept :: "persisted_soul \<Rightarrow> persisted_soul \<Rightarrow> bool" where
  "soul_kept c d \<longleftrightarrow> ps_version c \<le> ps_version d \<and> soul_pairs c \<subseteq> soul_pairs d \<and> (ps_version d = ps_version c \<longrightarrow> d = c)"

definition souls_kept :: "soul_rows \<Rightarrow> soul_rows \<Rightarrow> bool" where
  "souls_kept rows rows' \<longleftrightarrow> (\<forall>i c. dm_get i rows = Some c \<longrightarrow> (\<exists>d. dm_get i rows' = Some d \<and> soul_kept c d))"

lemma soul_kept_refl [simp]: "soul_kept c c"
  by (simp add: soul_kept_def)

lemma soul_kept_trans: "soul_kept a b \<Longrightarrow> soul_kept b c \<Longrightarrow> soul_kept a c"
  unfolding soul_kept_def by (metis dual_order.trans order_antisym subset_trans)

lemma souls_kept_refl [simp]: "souls_kept rows rows"
  by (simp add: souls_kept_def)

lemma souls_kept_trans: "souls_kept a b \<Longrightarrow> souls_kept b c \<Longrightarrow> souls_kept a c"
  unfolding souls_kept_def by (meson soul_kept_trans)

lemma set_newest_first [simp]: "set (newest_first rs) = set rs"
  by (simp add: newest_first_def)

lemma newest_first_versions [simp]: "distinct (map sr_version (newest_first rs)) = distinct (map sr_version rs)"
  by (simp add: newest_first_def)

lemma fold_versions_new:
  "distinct (map sr_version h) \<Longrightarrow> set (map sr_version h) \<inter> set (map fst m) = {} \<Longrightarrow>
     fold (\<lambda>r. map_set (sr_version r) r) h m = m @ map (\<lambda>r. (sr_version r, r)) h"
proof (induction h arbitrary: m)
  case (Cons r h)
  have "map_set (sr_version r) r m = m @ [(sr_version r, r)]"
    using Cons.prems(2) by (induction m) auto
  then show ?case
    using Cons by (auto simp: image_iff)
qed simp

lemma merge_own: "distinct (map sr_version h) \<Longrightarrow> mergeSoulHistory (Some h) [] = newest_first h"
  by (simp add: mergeSoulHistory_def fold_versions_new comp_def)

lemma history_of_ok:
  assumes "soul_ok c" "ps_history c = Some h"
  shows "set (historyIncludingCurrent c []) =
           (if \<exists>r \<in> set h. sr_version r = ps_version c then set h else insert (current_revision c) (set h))"
    "distinct (map sr_version (historyIncludingCurrent c []))"
  using assms by (auto simp: soul_ok_def historyIncludingCurrent_def merge_own list_ex_iff current_revision_def Let_def)

lemma soul_of_revision_fields [simp]:
  "ps_content (soul_of_revision r h m) = sr_content r" "ps_version (soul_of_revision r h m) = sr_version r"
  "ps_history (soul_of_revision r h m) = Some h" "ps_mutationId (soul_of_revision r h m) = m"
  by (simp_all add: soul_of_revision_def)

lemma new_revision_fields [simp]:
  "sr_content (new_revision i content w now v) = content" "sr_version (new_revision i content w now v) = v"
  by (simp_all add: new_revision_def)

lemma current_revision_fields [simp]:
  "sr_content (current_revision c) = ps_content c" "sr_version (current_revision c) = ps_version c"
  by (simp_all add: current_revision_def)

text \<open>A row that is continued by the next version under its whole history.\<close>

lemma next_soul:
  assumes "soul_ok c" "ps_version d = ps_version c + 1" "ps_history d = Some (r # historyIncludingCurrent c (legacy_for c legacy))"
    and "sr_version r = ps_version d" "sr_content r = ps_content d"
  shows "soul_ok d \<and> soul_kept c d"
proof -
  obtain h where h: "ps_history c = Some h"
    using assms(1) by (auto simp: soul_ok_def split: option.splits)
  have old: "\<forall>x \<in> set h. sr_version x \<le> ps_version c \<and> (sr_version x = ps_version c \<longrightarrow> sr_content x = ps_content c)"
    using assms(1) by (simp add: soul_ok_def h)
  define hic where "hic = historyIncludingCurrent c (legacy_for c legacy)"
  have hic: "set hic = (if \<exists>x \<in> set h. sr_version x = ps_version c then set h else insert (current_revision c) (set h))"
    "distinct (map sr_version hic)"
    using history_of_ok [OF assms(1) h] by (simp_all add: hic_def legacy_for_def h)
  have below: "\<forall>x \<in> set hic. sr_version x \<le> ps_version c"
    using old hic(1) by (auto split: if_splits)
  have d: "ps_history d = Some (r # hic)"
    using assms(3) by (simp add: hic_def)
  have "soul_ok d"
    using below hic(2) assms(2, 4, 5) by (fastforce simp: soul_ok_def d)
  moreover have "soul_pairs c \<subseteq> (\<lambda>x. (sr_version x, sr_content x)) ` set hic"
  proof (cases "\<exists>x \<in> set h. sr_version x = ps_version c")
    case True
    then have "(ps_version c, ps_content c) \<in> (\<lambda>x. (sr_version x, sr_content x)) ` set h"
      using old by force
    then show ?thesis
      using hic(1) True by (simp add: soul_pairs_def h)
  next
    case False
    then show ?thesis
      using hic(1) by (auto simp: soul_pairs_def h)
  qed
  ultimately show ?thesis
    using assms(2) by (auto simp: soul_kept_def soul_pairs_def d)
qed

lemma append_soul_next: "soul_ok c \<Longrightarrow> soul_ok (append_soul i content w now m legacy c) \<and> soul_kept c (append_soul i content w now m legacy c)"
  by (rule next_soul [where r = "new_revision i content w now (ps_version c + 1)" and legacy = legacy])
    (simp_all add: append_soul_def Let_def)

text \<open>What another process may do while a call waits, and what the call then does to the rows.\<close>

definition mindful :: "(soul_rows \<Rightarrow> soul_rows) \<Rightarrow> bool" where
  "mindful env \<longleftrightarrow> (\<forall>rows. souls_ok rows \<longrightarrow> souls_ok (env rows) \<and> souls_kept rows (env rows))"

lemma mindful_id [simp]: "mindful (\<lambda>rows. rows)"
  by (simp add: mindful_def)

lemma update_next:
  assumes "souls_ok rows" "\<And>c. soul_ok c \<Longrightarrow> soul_ok (f c) \<and> soul_kept c (f c)"
  shows "souls_ok (fst (dm_update i f rows)) \<and> souls_kept rows (fst (dm_update i f rows))"
  using assms by (auto simp: souls_ok_def souls_kept_def dm_update_def dm_get_def split: option.splits)

lemma insert_next:
  assumes "souls_ok rows" "soul_ok c"
  shows "souls_ok (fst (dm_putIfAbsent i c rows)) \<and> souls_kept rows (fst (dm_putIfAbsent i c rows))"
  using assms by (auto simp: souls_ok_def souls_kept_def dm_putIfAbsent_def dm_get_def split: option.splits)

lemma soul_rows_simps [simp]:
  "soul_rows (with_rows rows s) = rows" "soul_rows (loadSoulCache org i soul s) = soul_rows s"
  "soul_rows (note_soul i r saved s) = soul_rows s" "soul_rows (s\<lparr>ss_legacy := l\<rparr>) = soul_rows s"
  "soul_rows (fst (finish_soul org i finished s)) = soul_rows s"
  by (simp_all add: soul_rows_def with_rows_def loadSoulCache_def note_soul_def finish_soul_def split: option.split)

lemma getSoul_note [simp]: "getSoul (note_soul i r saved s) i = Some (ps_content saved)"
  by (simp add: getSoul_def note_soul_def)

lemma first_soul_ok: "soul_ok (soul_of_revision r [r] m)"
  by (simp add: soul_ok_def)

lemma mindfulD: "mindful env \<Longrightarrow> souls_ok rows \<Longrightarrow> souls_ok (env rows) \<and> souls_kept rows (env rows)"
  by (simp add: mindful_def)

lemma setSoulLatest_rows:
  "soul_rows (fst (setSoulLatest org env1 env2 i content w now m s)) =
     (let f = append_soul i content w now m (soul_legacy s i); rows1 = fst (dm_update i f (soul_rows s));
          first = new_revision i content w now (soulVersion s i + 1);
          inserted = dm_putIfAbsent i (soul_of_revision first [first] (Some m)) (env1 rows1)
      in if dm_get i (soul_rows s) \<noteq> None then rows1
         else if ps_mutationId (snd inserted) = Some m then fst inserted
         else fst (dm_update i f (env2 (fst inserted))))"
  by (auto simp: setSoulLatest_def Let_def dm_update_def dm_get_def split: option.splits prod.splits)

lemma setSoulLatest_kept:
  assumes "souls_ok (soul_rows s)" "mindful env1" "mindful env2"
  shows "souls_ok (soul_rows (fst (setSoulLatest org env1 env2 i content w now m s))) \<and>
         souls_kept (soul_rows s) (soul_rows (fst (setSoulLatest org env1 env2 i content w now m s)))"
proof -
  define f where "f = append_soul i content w now m (soul_legacy s i)"
  define first where "first = new_revision i content w now (soulVersion s i + 1)"
  define r1 where "r1 = fst (dm_update i f (soul_rows s))"
  define ins where "ins = dm_putIfAbsent i (soul_of_revision first [first] (Some m)) (env1 r1)"
  define r3 where "r3 = fst (dm_update i f (env2 (fst ins)))"
  have f: "soul_ok c \<Longrightarrow> soul_ok (f c) \<and> soul_kept c (f c)" for c
    unfolding f_def by (rule append_soul_next)
  have r1: "souls_ok r1" "souls_kept (soul_rows s) r1"
    using update_next [OF assms(1), of f i] f by (auto simp: r1_def)
  have e1: "souls_ok (env1 r1)" "souls_kept r1 (env1 r1)"
    using mindfulD [OF assms(2) r1(1)] by auto
  have ins: "souls_ok (fst ins)" "souls_kept (env1 r1) (fst ins)"
    using insert_next [OF e1(1) first_soul_ok, of i first "Some m"] by (auto simp: ins_def)
  have e2: "souls_ok (env2 (fst ins))" "souls_kept (fst ins) (env2 (fst ins))"
    using mindfulD [OF assms(3) ins(1)] by auto
  have r3: "souls_ok r3" "souls_kept (env2 (fst ins)) r3"
    using update_next [OF e2(1), of f i] f by (auto simp: r3_def)
  have "souls_kept (soul_rows s) (fst ins)" "souls_kept (soul_rows s) r3"
    using r1(2) e1(2) ins(2) e2(2) r3(2) souls_kept_trans by blast+
  then show ?thesis
    using r1 ins(1) r3(1) by (simp add: setSoulLatest_rows Let_def f_def [symmetric] first_def [symmetric] r1_def [symmetric]
        ins_def [symmetric] r3_def [symmetric])
qed

lemma setSoulIfVersion_kept:
  assumes "souls_ok (soul_rows s)" "mindful env"
  shows "souls_ok (soul_rows (fst (setSoulIfVersion env i expected content w now m s))) \<and>
         souls_kept (soul_rows s) (soul_rows (fst (setSoulIfVersion env i expected content w now m s)))"
proof -
  define rev where "rev = new_revision i content w now (expected + 1)"
  define f where "f = (\<lambda>c. if ps_version c \<noteq> expected then c
      else soul_of_revision rev (rev # historyIncludingCurrent c (legacy_for c (soul_legacy s i))) (Some m))"
  have f_eq: "(\<lambda>c. if ps_version c \<noteq> expected then c
      else (soul_of_revision rev [rev] (Some m))\<lparr>ps_history := Some (rev # historyIncludingCurrent c (legacy_for c (soul_legacy s i)))\<rparr>) = f"
    by (simp add: f_def soul_of_revision_def fun_eq_iff)
  have f: "soul_ok c \<and> soul_kept c c \<Longrightarrow> soul_ok (f c) \<and> soul_kept c (f c)" for c
    using next_soul [of c "f c" rev "soul_legacy s i"] by (auto simp: f_def rev_def)
  have env: "souls_ok (env (soul_rows s))" "souls_kept (soul_rows s) (env (soul_rows s))"
    using mindfulD [OF assms(2, 1)] by auto
  have "souls_ok (fst (dm_update i f (env (soul_rows s)))) \<and> souls_kept (soul_rows s) (fst (dm_update i f (env (soul_rows s))))"
    "souls_ok (fst (dm_putIfAbsent i (soul_of_revision rev [rev] (Some m)) (env (soul_rows s)))) \<and>
     souls_kept (soul_rows s) (fst (dm_putIfAbsent i (soul_of_revision rev [rev] (Some m)) (env (soul_rows s))))"
    using update_next [OF env(1), of f i] f insert_next [OF env(1) first_soul_ok, of i rev "Some m"] souls_kept_trans [OF env(2)]
    by auto
  then show ?thesis
    using assms(1)
    by (auto simp: setSoulIfVersion_def Let_def rev_def [symmetric] f_eq split: option.split prod.split)
qed

text \<open>The rows under any number of processes that write versions.\<close>

inductive soul_step :: "scope_id \<Rightarrow> soul_rows \<Rightarrow> soul_rows \<Rightarrow> bool" for org where
  latest: "mindful env1 \<Longrightarrow> mindful env2 \<Longrightarrow>
     soul_step org (soul_rows s) (soul_rows (fst (setSoulLatest org env1 env2 i content w now m s)))"
| if_version: "mindful env \<Longrightarrow> soul_step org (soul_rows s) (soul_rows (fst (setSoulIfVersion env i expected content w now m s)))"

lemma soul_step_kept: "soul_step org rows rows' \<Longrightarrow> souls_ok rows \<Longrightarrow> souls_ok rows' \<and> souls_kept rows rows'"
  by (induction rule: soul_step.induct) (simp_all add: setSoulLatest_kept setSoulIfVersion_kept)

lemma soul_steps_kept: "(soul_step org)\<^sup>*\<^sup>* rows rows' \<Longrightarrow> souls_ok rows \<Longrightarrow> souls_ok rows' \<and> souls_kept rows rows'"
proof (induction rule: rtranclp_induct)
  case (step rows' rows'')
  then show ?case
    using soul_step_kept souls_kept_trans by blast
qed simp

text \<open>C33: however many processes write versions of a soul at once, and whatever each of them has cached, a version once
  written stays in the history with its text, versions only grow, and each version is listed once.\<close>

theorem no_soul_revision_lost:
  assumes "souls_ok rows" "(soul_step org)\<^sup>*\<^sup>* rows rows'" "dm_get i rows = Some c"
  shows "\<exists>d h. dm_get i rows' = Some d \<and> ps_history d = Some h \<and> distinct (map sr_version h) \<and>
           ps_version c \<le> ps_version d \<and> (ps_version d = ps_version c \<longrightarrow> ps_content d = ps_content c) \<and> soul_pairs c \<subseteq> soul_pairs d"
proof -
  have kept: "souls_ok rows'" "souls_kept rows rows'"
    using soul_steps_kept [OF assms(2, 1)] by auto
  then obtain d where d: "dm_get i rows' = Some d" "soul_kept c d"
    using assms(3) by (auto simp: souls_kept_def)
  then have "soul_ok d"
    using kept(1) by (auto simp: souls_ok_def)
  then show ?thesis
    using d by (auto simp: soul_ok_def soul_kept_def split: option.splits)
qed

text \<open>a conditional write is accepted exactly when the row it reaches still has the expected version, and is then the
  next version with its text on top of the history; a refused one changes no row.\<close>

theorem soul_write_conditional:
  assumes "setSoulIfVersion env i expected content w now m s = (s', result)" "dm_get i (soul_rows s) = Some c0"
    and "dm_get i (env (soul_rows s)) = Some c"
  shows "if ps_version c = expected
         then result = Some (expected + 1) \<and>
              (\<exists>d h. dm_get i (soul_rows s') = Some d \<and> ps_version d = expected + 1 \<and> ps_content d = content \<and>
                 ps_history d = Some (new_revision i content w now (expected + 1) # h)) \<and>
              getSoul s' i = Some content
         else result = None \<and> (\<forall>j. dm_get j (soul_rows s') = dm_get j (env (soul_rows s)))"
  using assms by (auto simp: setSoulIfVersion_def Let_def dm_update_def dm_get_def split: if_splits)

section \<open>A soul and two processes\<close>

definition first_soul :: persisted_soul where
  "first_soul = soul_of_revision (new_revision ''channel:c'' ''be kind'' None 3 2) [new_revision ''channel:c'' ''be kind'' None 3 2] (Some ''m1'')"

text \<open>A process that has read nothing yet, on the given rows.\<close>

definition idle_souls :: "soul_rows \<Rightarrow> soul_store" where
  "idle_souls rows = \<lparr>ss_souls = [], ss_history = [], ss_legacy = [], ss_rows = cell_new [] rows, ss_oldRows = []\<rparr>"

lemma soul_rows_idle [simp]: "soul_rows (idle_souls rows) = rows"
  by (simp add: soul_rows_def idle_souls_def cell_new_def)

definition overtaking :: "soul_rows \<Rightarrow> soul_rows" where
  "overtaking rows = soul_rows (fst (setSoulLatest ''org:o'' (\<lambda>r. r) (\<lambda>r. r) ''channel:c'' ''be brief'' (Some ''bob'') 9 ''m2'' (idle_souls rows)))"

lemma overtaking_mindful: "mindful overtaking"
  using setSoulLatest_kept [of "idle_souls _" "\<lambda>r. r" "\<lambda>r. r" "''org:o''" "''channel:c''" "''be brief''" "Some ''bob''" 9 "''m2''"]
  by (simp add: mindful_def overtaking_def)

lemma no_soul_revision_lost_witness:
  "(2, ''be kind'') \<in> soul_pairs (the (dm_get ''channel:c'' (overtaking [(''channel:c'', first_soul)])))"
proof -
  let ?rows = "[(''channel:c'', first_soul)]"
  have "souls_ok ?rows"
    by (auto simp: souls_ok_def dm_get_def first_soul_def first_soul_ok split: if_splits)
  moreover have "(soul_step ''org:o'')\<^sup>*\<^sup>* ?rows (overtaking ?rows)"
    using soul_step.latest [OF mindful_id mindful_id, of "''org:o''" "idle_souls ?rows" "''channel:c''" "''be brief''" "Some ''bob''" 9 "''m2''"]
    by (auto simp: overtaking_def)
  moreover have "dm_get ''channel:c'' ?rows = Some first_soul"
    by (simp add: dm_get_def)
  ultimately have "soul_pairs first_soul \<subseteq> soul_pairs (the (dm_get ''channel:c'' (overtaking ?rows)))"
    using no_soul_revision_lost [of ?rows "''org:o''" "overtaking ?rows" "''channel:c''" first_soul] by auto
  then show ?thesis
    by (auto simp: soul_pairs_def first_soul_def)
qed

text \<open>The writer who expected version two is refused when another write came between its read and its update.\<close>

lemma soul_write_conditional_witness:
  "snd (setSoulIfVersion overtaking ''channel:c'' 2 ''be loud'' None 12 ''m3'' (idle_souls [(''channel:c'', first_soul)])) = None \<and>
   snd (setSoulIfVersion (\<lambda>r. r) ''channel:c'' 2 ''be loud'' None 12 ''m3'' (idle_souls [(''channel:c'', first_soul)])) = Some 3"
proof -
  let ?s = "idle_souls [(''channel:c'', first_soul)]"
  have c0: "dm_get ''channel:c'' (soul_rows ?s) = Some first_soul"
    by (simp add: dm_get_def)
  obtain c where c: "dm_get ''channel:c'' (overtaking (soul_rows ?s)) = Some c" "ps_version c \<noteq> 2"
    by (simp add: overtaking_def setSoulLatest_rows dm_update_def dm_get_def append_soul_def first_soul_def Let_def)
  have "ps_version first_soul = 2"
    by (simp add: first_soul_def)
  then show ?thesis
    using soul_write_conditional [where env = overtaking and i = "''channel:c''" and s = ?s and expected = 2 and content = "''be loud''"
        and w = None and now = 12 and m = "''m3''", OF surjective_pairing c0 c(1)] c(2)
      soul_write_conditional [where env = "\<lambda>r. r" and i = "''channel:c''" and s = ?s and expected = 2 and content = "''be loud''"
        and w = None and now = 12 and m = "''m3''", OF surjective_pairing c0 c0]
    by simp
qed

end
