(* ===== verification/Config_Store.thy ===== *)
theory Config_Store
  imports Soul_Store Command_Policy Security_Posture Audience
begin

text \<open>
  The configuration of the scopes: \<open>resolution/config-store.ts\<close> on the cells of \<open>Config_Cell\<close> and
  the souls of \<open>Soul_Store\<close>. \<open>org\<close> is the scope of the organisation, \<open>base\<close> the posture the deployment starts with, \<open>resolve\<close> the
  provider of a model in the third-party catalogue. Settings of the whole organisation are cells used at \<open>org\<close> only.
\<close>

section \<open>Data\<close>

record base_model =
  bm_modelId :: string
  bm_harnessId :: "string option"
  bm_orgRevision :: "int option"
  bm_revision :: "int option"

record runtime_selection =
  rs_harnessId :: string
  rs_modelId :: string

record scoped_runtime = runtime_selection +
  rs_orgRevision :: int
  rs_revision :: "int option"

record org_branding =
  br_accent :: "string option"
  br_mark :: "string option"
  br_selfLabel :: "string option"

record config_store =
  cf_souls :: soul_store
  cf_policies :: "command_policy cell"
  cf_postures :: "security_posture cell"
  cf_grantModes :: "grant_modes cell"
  cf_egress :: "egress_policy cell"
  cf_unfulfilled :: "bool cell"
  cf_external :: "bool cell"
  cf_models :: "base_model cell"
  cf_harnesses :: "string list cell"
  cf_ambient :: "bool cell"
  cf_fastMode :: "bool cell"
  cf_webui :: "string list cell"
  cf_peopleUrl :: "string cell"
  cf_branding :: "org_branding cell"
  cf_browseSteps :: "int cell"
  cf_browseModel :: "string cell"
  cf_wallClock :: "int cell"
  cf_identity :: "(string, string) jsmap"

definition or_else :: "'a \<Rightarrow> 'a option \<Rightarrow> 'a" where
  "or_else d x = (case x of None \<Rightarrow> d | Some v \<Rightarrow> v)"

text \<open>What the caches of the organisation hold when nothing is stored.\<close>

definition no_egress :: egress_policy where
  "no_egress = \<lparr>eg_allowedHosts = [], eg_deniedHosts = Some []\<rparr>"

definition policy_fallback :: "scope_id \<Rightarrow> scope_id \<Rightarrow> command_policy option" where
  "policy_fallback org i = (if i = org then Some defaultOrgPolicy else None)"

definition egress_fallback :: "scope_id \<Rightarrow> scope_id \<Rightarrow> egress_policy option" where
  "egress_fallback org i = (if i = org then Some no_egress else None)"

definition no_fallback :: "scope_id \<Rightarrow> 'v option" where
  "no_fallback i = None"

section \<open>Policies, egress and flags\<close>

definition getCommandPolicy :: "config_store \<Rightarrow> scope_id \<Rightarrow> command_policy option" where
  "getCommandPolicy s i = cell_get (cf_policies s) i"

definition setCommandPolicy :: "scope_id \<Rightarrow> command_policy \<Rightarrow> config_store \<Rightarrow> config_store" where
  "setCommandPolicy i p s = s\<lparr>cf_policies := cell_put i p (cf_policies s)\<rparr>"

definition clearCommandPolicy :: "scope_id \<Rightarrow> scope_id \<Rightarrow> config_store \<Rightarrow> config_store" where
  "clearCommandPolicy org i s = s\<lparr>cf_policies := cell_drop (policy_fallback org) i (cf_policies s)\<rparr>"

definition getEgress :: "config_store \<Rightarrow> scope_id \<Rightarrow> egress_policy option" where
  "getEgress s i = cell_get (cf_egress s) i"

definition setEgress :: "scope_id \<Rightarrow> egress_policy \<Rightarrow> config_store \<Rightarrow> config_store" where
  "setEgress i p s = s\<lparr>cf_egress := cell_put i p (cf_egress s)\<rparr>"

definition clearEgress :: "scope_id \<Rightarrow> scope_id \<Rightarrow> config_store \<Rightarrow> config_store" where
  "clearEgress org i s = s\<lparr>cf_egress := cell_drop (egress_fallback org) i (cf_egress s)\<rparr>"

definition getUnfulfilledInsights :: "scope_id \<Rightarrow> config_store \<Rightarrow> scope_id \<Rightarrow> bool" where
  "getUnfulfilledInsights org s i \<longleftrightarrow> or_else False (cell_get (cf_unfulfilled s) org) \<or> or_else False (cell_get (cf_unfulfilled s) i)"

definition setUnfulfilledInsights :: "scope_id \<Rightarrow> bool \<Rightarrow> config_store \<Rightarrow> config_store" where
  "setUnfulfilledInsights i b s = s\<lparr>cf_unfulfilled := cell_put i b (cf_unfulfilled s)\<rparr>"

definition clearUnfulfilledInsights :: "scope_id \<Rightarrow> config_store \<Rightarrow> config_store" where
  "clearUnfulfilledInsights i s = s\<lparr>cf_unfulfilled := cell_drop no_fallback i (cf_unfulfilled s)\<rparr>"

definition getExternalSlackParticipants :: "scope_id \<Rightarrow> config_store \<Rightarrow> scope_id \<Rightarrow> bool" where
  "getExternalSlackParticipants org s i \<longleftrightarrow> or_else False (cell_get (cf_external s) org) \<or> or_else False (cell_get (cf_external s) i)"

definition setExternalSlackParticipants :: "scope_id \<Rightarrow> bool \<Rightarrow> config_store \<Rightarrow> config_store" where
  "setExternalSlackParticipants i b s = s\<lparr>cf_external := cell_put i b (cf_external s)\<rparr>"

definition clearExternalSlackParticipants :: "scope_id \<Rightarrow> config_store \<Rightarrow> config_store" where
  "clearExternalSlackParticipants i s = s\<lparr>cf_external := cell_drop no_fallback i (cf_external s)\<rparr>"

definition getExternalSlackParticipantsDurable :: "scope_id \<Rightarrow> config_store \<Rightarrow> scope_id \<Rightarrow> bool" where
  "getExternalSlackParticipantsDurable org s i \<longleftrightarrow>
     or_else False (cell_stored (cf_external s) org) \<or> or_else False (cell_stored (cf_external s) i)"

section \<open>Postures and approval modes\<close>

definition getSecurityPosture :: "scope_id \<Rightarrow> security_posture \<Rightarrow> config_store \<Rightarrow> scope_id \<Rightarrow> security_posture" where
  "getSecurityPosture org base s i =
     (let floor = or_else base (cell_get (cf_postures s) org)
      in if i = org then floor else composeSecurityPosture floor (cell_get (cf_postures s) i))"

definition getSecurityPostureDurable :: "scope_id \<Rightarrow> security_posture \<Rightarrow> config_store \<Rightarrow> scope_id \<Rightarrow> security_posture" where
  "getSecurityPostureDurable org base s i =
     (let floor = or_else base (cell_stored (cf_postures s) org)
      in if i = org then floor else composeSecurityPosture floor (cell_stored (cf_postures s) i))"

definition setSecurityPosture :: "scope_id \<Rightarrow> security_posture \<Rightarrow> scope_id \<Rightarrow> security_posture \<Rightarrow> config_store \<Rightarrow> config_store" where
  "setSecurityPosture org base i p s =
     (let effective = (if i = org then p
                       else composeSecurityPosture (or_else base (cell_stored (cf_postures s) org)) (Some p))
      in s\<lparr>cf_postures := cell_through i effective (cf_postures s)\<rparr>)"

definition clearSecurityPosture :: "scope_id \<Rightarrow> config_store \<Rightarrow> config_store" where
  "clearSecurityPosture i s = s\<lparr>cf_postures := cell_drop no_fallback i (cf_postures s)\<rparr>"

definition DEFAULT_APPROVAL_GRANT_MODES :: grant_modes where
  "DEFAULT_APPROVAL_GRANT_MODES = \<lparr>gm_session = True, gm_always = True\<rparr>"

definition composeApprovalGrantModes :: "grant_modes \<Rightarrow> grant_modes option \<Rightarrow> grant_modes" where
  "composeApprovalGrantModes orgModes scope =
     \<lparr>gm_session = gm_session orgModes \<and> or_else True (map_option gm_session scope),
      gm_always = gm_always orgModes \<and> or_else True (map_option gm_always scope)\<rparr>"

definition getApprovalGrantModes :: "scope_id \<Rightarrow> config_store \<Rightarrow> scope_id \<Rightarrow> grant_modes" where
  "getApprovalGrantModes org s i =
     (let orgModes = or_else DEFAULT_APPROVAL_GRANT_MODES (cell_get (cf_grantModes s) org)
      in if i = org then orgModes else composeApprovalGrantModes orgModes (cell_get (cf_grantModes s) i))"

definition getApprovalGrantModesDurable :: "scope_id \<Rightarrow> config_store \<Rightarrow> scope_id \<Rightarrow> grant_modes" where
  "getApprovalGrantModesDurable org s i =
     (let orgModes = or_else DEFAULT_APPROVAL_GRANT_MODES (cell_stored (cf_grantModes s) org)
      in if i = org then orgModes else composeApprovalGrantModes orgModes (cell_stored (cf_grantModes s) i))"

definition setApprovalGrantModes :: "scope_id \<Rightarrow> grant_modes \<Rightarrow> config_store \<Rightarrow> config_store" where
  "setApprovalGrantModes i modes s = s\<lparr>cf_grantModes := cell_through i modes (cf_grantModes s)\<rparr>"

definition clearApprovalGrantModes :: "scope_id \<Rightarrow> config_store \<Rightarrow> config_store" where
  "clearApprovalGrantModes i s = s\<lparr>cf_grantModes := cell_drop no_fallback i (cf_grantModes s)\<rparr>"

section \<open>Models and harnesses\<close>

definition HARNESS_IDS :: "string list" where
  "HARNESS_IDS = [''pi'', ''opencode'', ''codex'', ''claude'', ''mock'']"

definition isHarnessId :: "string \<Rightarrow> bool" where
  "isHarnessId h \<longleftrightarrow> h \<in> set HARNESS_IDS"

text \<open>\<open>/^(?:gpt-|o\d|codex|openai\/)/i\<close>.\<close>

definition codex_name :: "string \<Rightarrow> bool" where
  "codex_name i =
     (let l = js_toLowerCase i in
      js_startsWith l ''gpt-'' \<or> js_startsWith l ''codex'' \<or> js_startsWith l ''openai/'' \<or>
      (case l of a # d # _ \<Rightarrow> a = CHR ''o'' \<and> (of_char d :: nat) \<in> {48..57} | _ \<Rightarrow> False))"

definition modelSupportedByHarness :: "(string \<Rightarrow> string option) \<Rightarrow> string option \<Rightarrow> string \<Rightarrow> bool" where
  "modelSupportedByHarness resolve model harness =
     (if \<not> truthy model then False
      else (let i = the model in
            if harness = ''pi'' \<or> harness = ''opencode'' \<or> harness = ''mock'' then resolve i \<noteq> None
            else if harness = ''claude'' then resolve i = Some ''anthropic'' \<or> js_startsWith (js_toLowerCase i) ''claude-''
            else if harness = ''codex'' then resolve i = Some ''openai'' \<or> codex_name i
            else False))"

definition getBaseModel :: "config_store \<Rightarrow> scope_id \<Rightarrow> string option" where
  "getBaseModel s i = map_option bm_modelId (cell_get (cf_models s) i)"

definition new_base_model :: "base_model option \<Rightarrow> string \<Rightarrow> base_model" where
  "new_base_model prior m =
     (case prior of
        None \<Rightarrow> \<lparr>bm_modelId = m, bm_harnessId = None, bm_orgRevision = None, bm_revision = None\<rparr>
      | Some r \<Rightarrow> r\<lparr>bm_modelId := m\<rparr>)"

definition setBaseModel :: "(string \<Rightarrow> string option) \<Rightarrow> scope_id \<Rightarrow> string option \<Rightarrow> config_store \<Rightarrow> config_store" where
  "setBaseModel resolve i model s =
     (case model of
        None \<Rightarrow> s\<lparr>cf_models := cell_drop no_fallback i (cf_models s)\<rparr>
      | Some m \<Rightarrow>
          (let prior = cell_get (cf_models s) i; harness = Option.bind prior bm_harnessId in
           if truthy harness \<and> isHarnessId (the harness) \<and> \<not> modelSupportedByHarness resolve (Some m) (the harness) then s
           else s\<lparr>cf_models := cell_put i (new_base_model prior m) (cf_models s)\<rparr>))"

definition runtime_of :: "base_model option \<Rightarrow> scoped_runtime option" where
  "runtime_of row =
     (case row of
        None \<Rightarrow> None
      | Some r \<Rightarrow>
          if \<not> truthy (bm_harnessId r) then None
          else Some \<lparr>rs_harnessId = the (bm_harnessId r), rs_modelId = bm_modelId r,
                     rs_orgRevision = or_else 0 (bm_orgRevision r), rs_revision = bm_revision r\<rparr>)"

definition getRuntimeSelection :: "config_store \<Rightarrow> scope_id \<Rightarrow> scoped_runtime option" where
  "getRuntimeSelection s i = runtime_of (cell_get (cf_models s) i)"

definition getRuntimeSelectionDurable :: "config_store \<Rightarrow> scope_id \<Rightarrow> scoped_runtime option" where
  "getRuntimeSelectionDurable s i = runtime_of (cell_stored (cf_models s) i)"

definition org_revision :: "base_model option \<Rightarrow> int" where
  "org_revision orgRow = or_else 0 (Option.bind orgRow bm_revision)"

definition selection_row :: "scope_id \<Rightarrow> base_model option \<Rightarrow> scope_id \<Rightarrow> runtime_selection \<Rightarrow> base_model" where
  "selection_row org orgRow i sel =
     (let revision = org_revision orgRow + 1 in
      if i = org
      then \<lparr>bm_modelId = rs_modelId sel, bm_harnessId = Some (rs_harnessId sel), bm_orgRevision = Some revision, bm_revision = Some revision\<rparr>
      else \<lparr>bm_modelId = rs_modelId sel, bm_harnessId = Some (rs_harnessId sel), bm_orgRevision = Some (org_revision orgRow), bm_revision = None\<rparr>)"

definition setRuntimeSelection :: "scope_id \<Rightarrow> scope_id \<Rightarrow> runtime_selection option \<Rightarrow> config_store \<Rightarrow> config_store" where
  "setRuntimeSelection org i selection s =
     (case selection of
        None \<Rightarrow> s\<lparr>cf_models := cell_drop no_fallback i (cf_models s)\<rparr>
      | Some sel \<Rightarrow> s\<lparr>cf_models := cell_put i (selection_row org (cell_get (cf_models s) org) i sel) (cf_models s)\<rparr>)"

text \<open>The variants that await their write work on the rows.\<close>

definition setRuntimeSelectionLatest :: "scope_id \<Rightarrow> scope_id \<Rightarrow> runtime_selection option \<Rightarrow> config_store \<Rightarrow> config_store" where
  "setRuntimeSelectionLatest org i selection s =
     (case selection of
        None \<Rightarrow> s\<lparr>cf_models := cell_through_drop i (cf_models s)\<rparr>
      | Some sel \<Rightarrow> s\<lparr>cf_models := cell_through i (selection_row org (cell_stored (cf_models s) org) i sel) (cf_models s)\<rparr>)"

definition acknowledged_row :: "base_model option \<Rightarrow> base_model \<Rightarrow> base_model" where
  "acknowledged_row orgRow r = r\<lparr>bm_orgRevision := Some (org_revision orgRow)\<rparr>"

definition acknowledgeRuntimeSelection :: "scope_id \<Rightarrow> scope_id \<Rightarrow> config_store \<Rightarrow> config_store" where
  "acknowledgeRuntimeSelection org i s =
     (case cell_get (cf_models s) i of
        None \<Rightarrow> s
      | Some r \<Rightarrow>
          if i = org then s
          else s\<lparr>cf_models := cell_put i (acknowledged_row (cell_get (cf_models s) org) r) (cf_models s)\<rparr>)"

definition acknowledgeRuntimeSelectionLatest :: "scope_id \<Rightarrow> scope_id \<Rightarrow> config_store \<Rightarrow> config_store" where
  "acknowledgeRuntimeSelectionLatest org i s =
     (if i = org then s
      else (case cell_stored (cf_models s) i of
              None \<Rightarrow> s
            | Some r \<Rightarrow> s\<lparr>cf_models := cell_through i (acknowledged_row (cell_stored (cf_models s) org) r) (cf_models s)\<rparr>))"

definition getBaseModelOwnDurable :: "config_store \<Rightarrow> scope_id \<Rightarrow> string option" where
  "getBaseModelOwnDurable s i = map_option bm_modelId (cell_stored (cf_models s) i)"

definition getBaseModelDurable :: "scope_id \<Rightarrow> config_store \<Rightarrow> scope_id \<Rightarrow> string option" where
  "getBaseModelDurable org s i =
     (case getBaseModelOwnDurable s i of
        Some m \<Rightarrow> Some m
      | None \<Rightarrow> if i = org then None else getBaseModelOwnDurable s org)"

section \<open>Settings\<close>

definition cell_assign :: "scope_id \<Rightarrow> 'v option \<Rightarrow> 'v cell \<Rightarrow> 'v cell" where
  "cell_assign i v c = (case v of None \<Rightarrow> cell_drop no_fallback i c | Some x \<Rightarrow> cell_put i x c)"

definition getApprovedHarnesses :: "scope_id \<Rightarrow> config_store \<Rightarrow> string list option" where
  "getApprovedHarnesses org s = cell_get (cf_harnesses s) org"

definition setApprovedHarnesses :: "scope_id \<Rightarrow> string list option \<Rightarrow> config_store \<Rightarrow> config_store" where
  "setApprovedHarnesses org ids s = s\<lparr>cf_harnesses := cell_assign org ids (cf_harnesses s)\<rparr>"

definition getApprovedHarnessesDurable :: "scope_id \<Rightarrow> config_store \<Rightarrow> string list option" where
  "getApprovedHarnessesDurable org s = cell_stored (cf_harnesses s) org"

definition getOrgAmbient :: "scope_id \<Rightarrow> config_store \<Rightarrow> bool" where
  "getOrgAmbient org s = or_else True (cell_get (cf_ambient s) org)"

definition setOrgAmbient :: "scope_id \<Rightarrow> bool \<Rightarrow> config_store \<Rightarrow> config_store" where
  "setOrgAmbient org b s = s\<lparr>cf_ambient := cell_put org b (cf_ambient s)\<rparr>"

definition getOrgAmbientDurable :: "scope_id \<Rightarrow> config_store \<Rightarrow> bool" where
  "getOrgAmbientDurable org s = or_else True (cell_stored (cf_ambient s) org)"

definition getInteractiveFastMode :: "scope_id \<Rightarrow> config_store \<Rightarrow> bool" where
  "getInteractiveFastMode org s = or_else False (cell_get (cf_fastMode s) org)"

definition setInteractiveFastMode :: "scope_id \<Rightarrow> bool \<Rightarrow> config_store \<Rightarrow> config_store" where
  "setInteractiveFastMode org b s = s\<lparr>cf_fastMode := cell_put org b (cf_fastMode s)\<rparr>"

definition getInteractiveFastModeDurable :: "scope_id \<Rightarrow> config_store \<Rightarrow> bool" where
  "getInteractiveFastModeDurable org s = or_else False (cell_stored (cf_fastMode s) org)"

definition getWebuiModels :: "config_store \<Rightarrow> scope_id \<Rightarrow> string list option" where
  "getWebuiModels s i = cell_get (cf_webui s) i"

definition setWebuiModels :: "scope_id \<Rightarrow> string list option \<Rightarrow> config_store \<Rightarrow> config_store" where
  "setWebuiModels i ids s = s\<lparr>cf_webui := cell_assign i (if ids = Some [] then None else ids) (cf_webui s)\<rparr>"

definition getWebuiModelsDurable :: "scope_id \<Rightarrow> config_store \<Rightarrow> scope_id \<Rightarrow> string list option" where
  "getWebuiModelsDurable org s i =
     (case cell_stored (cf_webui s) i of Some ids \<Rightarrow> Some ids | None \<Rightarrow> cell_stored (cf_webui s) org)"

definition getPeopleDirectoryUrl :: "config_store \<Rightarrow> scope_id \<Rightarrow> string option" where
  "getPeopleDirectoryUrl s i = cell_get (cf_peopleUrl s) i"

definition setPeopleDirectoryUrl :: "scope_id \<Rightarrow> string option \<Rightarrow> config_store \<Rightarrow> config_store" where
  "setPeopleDirectoryUrl i url s = s\<lparr>cf_peopleUrl := cell_assign i url (cf_peopleUrl s)\<rparr>"

definition getBranding :: "config_store \<Rightarrow> scope_id \<Rightarrow> org_branding option" where
  "getBranding s i = cell_get (cf_branding s) i"

definition setBranding :: "scope_id \<Rightarrow> org_branding option \<Rightarrow> config_store \<Rightarrow> config_store" where
  "setBranding i v s = s\<lparr>cf_branding := cell_assign i v (cf_branding s)\<rparr>"

definition getBrandingDurable :: "config_store \<Rightarrow> scope_id \<Rightarrow> org_branding option" where
  "getBrandingDurable s i = cell_stored (cf_branding s) i"

definition getBrowseMaxSteps :: "config_store \<Rightarrow> scope_id \<Rightarrow> int option" where
  "getBrowseMaxSteps s i = cell_get (cf_browseSteps s) i"

definition setBrowseMaxSteps :: "scope_id \<Rightarrow> int option \<Rightarrow> config_store \<Rightarrow> config_store" where
  "setBrowseMaxSteps i v s = s\<lparr>cf_browseSteps := cell_assign i v (cf_browseSteps s)\<rparr>"

definition getBrowseModel :: "config_store \<Rightarrow> scope_id \<Rightarrow> string option" where
  "getBrowseModel s i = cell_get (cf_browseModel s) i"

definition setBrowseModel :: "scope_id \<Rightarrow> string option \<Rightarrow> config_store \<Rightarrow> config_store" where
  "setBrowseModel i v s = s\<lparr>cf_browseModel := cell_assign i v (cf_browseModel s)\<rparr>"

definition getTurnWallClockSecDurable :: "config_store \<Rightarrow> scope_id \<Rightarrow> int option" where
  "getTurnWallClockSecDurable s i = cell_stored (cf_wallClock s) i"

definition setTurnWallClockSec :: "scope_id \<Rightarrow> int option \<Rightarrow> config_store \<Rightarrow> config_store" where
  "setTurnWallClockSec i v s =
     s\<lparr>cf_wallClock := (case v of None \<Rightarrow> cell_through_drop i (cf_wallClock s) | Some t \<Rightarrow> cell_through i t (cf_wallClock s))\<rparr>"

section \<open>Following the rows\<close>

text \<open>One scope of \<open>refreshSecurity\<close>: the three rows, read together, and their installation.\<close>

record security_rows =
  sy_soul :: "persisted_soul option"
  sy_policy :: "command_policy option"
  sy_egress :: "egress_policy option"

definition read_security :: "config_store \<Rightarrow> scope_id \<Rightarrow> security_rows" where
  "read_security s i =
     \<lparr>sy_soul = dm_get i (soul_rows (cf_souls s)), sy_policy = cell_stored (cf_policies s) i, sy_egress = cell_stored (cf_egress s) i\<rparr>"

definition install_security :: "scope_id \<Rightarrow> scope_id \<Rightarrow> security_rows \<Rightarrow> config_store \<Rightarrow> config_store" where
  "install_security org i rows s =
     s\<lparr>cf_souls := refresh_soul org i (sy_soul rows) (cf_souls s),
       cf_policies := install_row (i = org) i (sy_policy rows) (cf_policies s),
       cf_egress := install_row (i = org) i (sy_egress rows) (cf_egress s)\<rparr>"

definition refreshSecurity :: "scope_id \<Rightarrow> scope_id list \<Rightarrow> config_store \<Rightarrow> config_store" where
  "refreshSecurity org ids s = fold (\<lambda>i s. install_security org i (read_security s i) s) ids s"

definition load_cell :: "scope_id \<Rightarrow> 'v cell \<Rightarrow> 'v cell" where
  "load_cell i c = cell_load no_fallback i (cell_stored c i) c"

definition refreshScope :: "scope_id \<Rightarrow> scope_id \<Rightarrow> config_store \<Rightarrow> config_store" where
  "refreshScope org i s =
     s\<lparr>cf_souls := reload_soul org i (cf_souls s),
       cf_policies := cell_load (policy_fallback org) i (cell_stored (cf_policies s) i) (cf_policies s),
       cf_postures := load_cell i (cf_postures s), cf_grantModes := load_cell i (cf_grantModes s),
       cf_egress := cell_load (egress_fallback org) i (cell_stored (cf_egress s) i) (cf_egress s),
       cf_unfulfilled := load_cell i (cf_unfulfilled s), cf_external := load_cell i (cf_external s),
       cf_models := load_cell i (cf_models s),
       cf_harnesses := (if i = org then load_cell org (cf_harnesses s) else cf_harnesses s),
       cf_ambient := (if i = org then load_cell org (cf_ambient s) else cf_ambient s),
       cf_fastMode := (if i = org then load_cell org (cf_fastMode s) else cf_fastMode s),
       cf_branding := load_cell i (cf_branding s)\<rparr>"

definition hydrate_caches :: "config_store \<Rightarrow> config_store" where
  "hydrate_caches s =
     s\<lparr>cf_souls := hydrate_souls (cf_souls s), cf_policies := cell_hydrate (cf_policies s), cf_postures := cell_hydrate (cf_postures s),
       cf_grantModes := cell_hydrate (cf_grantModes s), cf_egress := cell_hydrate (cf_egress s),
       cf_unfulfilled := cell_hydrate (cf_unfulfilled s), cf_external := cell_hydrate (cf_external s),
       cf_models := cell_hydrate (cf_models s), cf_harnesses := cell_hydrate (cf_harnesses s), cf_ambient := cell_hydrate (cf_ambient s),
       cf_fastMode := cell_hydrate (cf_fastMode s), cf_webui := cell_hydrate (cf_webui s), cf_peopleUrl := cell_hydrate (cf_peopleUrl s),
       cf_branding := cell_hydrate (cf_branding s), cf_browseSteps := cell_hydrate (cf_browseSteps s),
       cf_browseModel := cell_hydrate (cf_browseModel s), cf_wallClock := cell_hydrate (cf_wallClock s)\<rparr>"

definition hydrate_config :: "string \<Rightarrow> config_store \<Rightarrow> config_store \<times> unit outcome" where
  "hydrate_config orgId s =
     (case dm_putIfAbsent ''singleton'' orgId (cf_identity s) of
        (ids, identity) \<Rightarrow>
          if identity \<noteq> orgId
          then (s\<lparr>cf_identity := ids\<rparr>, Inl (Error (''database belongs to org '' @ identity @ '', not '' @ orgId)))
          else (hydrate_caches (s\<lparr>cf_identity := ids\<rparr>), Inr ()))"

text \<open>\<open>flushScope\<close> waits for the queued writes of the keys it names; \<open>ok\<close> tells whether they succeed. It rejects when the
  last write of one of them failed.\<close>

definition drain_cell :: "bool \<Rightarrow> scope_id \<Rightarrow> 'v cell \<Rightarrow> 'v cell" where
  "drain_cell ok i c = (settle_write ok i ^^ length (cell_queue c i)) c"

definition drain_soul :: "bool \<Rightarrow> scope_id \<Rightarrow> soul_store \<Rightarrow> soul_store" where
  "drain_soul ok i s = (settle_soul ok i ^^ length (cell_queue (ss_rows s) i)) s"

definition flushScope :: "bool \<Rightarrow> scope_id \<Rightarrow> scope_id \<Rightarrow> config_store \<Rightarrow> config_store \<times> bool" where
  "flushScope ok org i s =
     (let s' = s\<lparr>cf_souls := drain_soul ok i (cf_souls s), cf_policies := drain_cell ok i (cf_policies s),
                 cf_postures := drain_cell ok i (cf_postures s), cf_grantModes := drain_cell ok i (cf_grantModes s),
                 cf_egress := drain_cell ok i (cf_egress s), cf_external := drain_cell ok i (cf_external s),
                 cf_models := drain_cell ok i (cf_models s), cf_wallClock := drain_cell ok i (cf_wallClock s),
                 cf_branding := drain_cell ok i (cf_branding s),
                 cf_harnesses := (if i = org then drain_cell ok i (cf_harnesses s) else cf_harnesses s),
                 cf_ambient := (if i = org then drain_cell ok i (cf_ambient s) else cf_ambient s),
                 cf_fastMode := (if i = org then drain_cell ok i (cf_fastMode s) else cf_fastMode s)\<rparr>
      in (s', i \<notin> set (ce_pending (ss_rows (cf_souls s'))) \<and> i \<notin> set (ce_pending (cf_policies s')) \<and>
              i \<notin> set (ce_pending (cf_postures s')) \<and> i \<notin> set (ce_pending (cf_grantModes s')) \<and> i \<notin> set (ce_pending (cf_egress s')) \<and>
              i \<notin> set (ce_pending (cf_external s')) \<and> i \<notin> set (ce_pending (cf_models s')) \<and> i \<notin> set (ce_pending (cf_wallClock s')) \<and>
              i \<notin> set (ce_pending (cf_branding s')) \<and>
              (i = org \<longrightarrow> i \<notin> set (ce_pending (cf_harnesses s')) \<and> i \<notin> set (ce_pending (cf_ambient s')) \<and> i \<notin> set (ce_pending (cf_fastMode s')))))"

record config_presence =
  cp_soul :: bool
  cp_commandPolicy :: bool
  cp_securityPosture :: bool
  cp_approvalGrantModes :: bool
  cp_egress :: bool
  cp_unfulfilledInsights :: bool
  cp_externalSlackParticipants :: bool
  cp_runtime :: bool
  cp_approvedHarnesses :: bool
  cp_branding :: bool

definition scopeConfigPresence :: "scope_id \<Rightarrow> config_store \<Rightarrow> scope_id \<Rightarrow> config_presence" where
  "scopeConfigPresence org s i =
     \<lparr>cp_soul = (dm_get i (soul_rows (cf_souls s)) \<noteq> None), cp_commandPolicy = (cell_stored (cf_policies s) i \<noteq> None),
      cp_securityPosture = (cell_stored (cf_postures s) i \<noteq> None), cp_approvalGrantModes = (cell_stored (cf_grantModes s) i \<noteq> None),
      cp_egress = (cell_stored (cf_egress s) i \<noteq> None), cp_unfulfilledInsights = (cell_stored (cf_unfulfilled s) i \<noteq> None),
      cp_externalSlackParticipants = (cell_stored (cf_external s) i \<noteq> None), cp_runtime = (cell_stored (cf_models s) i \<noteq> None),
      cp_approvedHarnesses = (i = org \<and> cell_stored (cf_harnesses s) org \<noteq> None), cp_branding = (cell_stored (cf_branding s) i \<noteq> None)\<rparr>"

section \<open>Restarts keep the configuration\<close>

definition config_sound :: "scope_id \<Rightarrow> config_store \<Rightarrow> bool" where
  "config_sound org s \<longleftrightarrow>
     cell_sound (policy_fallback org) (cf_policies s) \<and> cell_sound no_fallback (cf_postures s) \<and> cell_sound no_fallback (cf_grantModes s) \<and>
     cell_sound (egress_fallback org) (cf_egress s) \<and> cell_sound no_fallback (cf_unfulfilled s) \<and> cell_sound no_fallback (cf_external s) \<and>
     cell_sound no_fallback (cf_models s) \<and> cell_sound no_fallback (cf_harnesses s) \<and> cell_sound no_fallback (cf_ambient s) \<and>
     cell_sound no_fallback (cf_fastMode s) \<and> cell_sound no_fallback (cf_webui s) \<and> cell_sound no_fallback (cf_peopleUrl s) \<and>
     cell_sound no_fallback (cf_branding s) \<and> cell_sound no_fallback (cf_browseSteps s) \<and> cell_sound no_fallback (cf_browseModel s)"

text \<open>The calls of a process and its queued writes. A call that awaits its write runs once nothing of its key is queued;
  so does here a reload, which would otherwise undo queued writes in the cache.\<close>

datatype config_call =
    CallPolicy scope_id "command_policy option"
  | CallEgress scope_id "egress_policy option"
  | CallPosture scope_id "security_posture option"
  | CallGrantModes scope_id "grant_modes option"
  | CallUnfulfilled scope_id "bool option"
  | CallExternal scope_id "bool option"
  | CallBaseModel scope_id "string option"
  | CallRuntime scope_id "runtime_selection option"
  | CallRuntimeLatest scope_id "runtime_selection option"
  | CallAcknowledge scope_id
  | CallAcknowledgeLatest scope_id
  | CallHarnesses "string list option"
  | CallAmbient bool
  | CallFastMode bool
  | CallWebui scope_id "string list option"
  | CallPeopleUrl scope_id "string option"
  | CallBranding scope_id "org_branding option"
  | CallBrowseSteps scope_id "int option"
  | CallBrowseModel scope_id "string option"
  | CallRefresh "scope_id list"
  | CallReload scope_id
  | CallWrites scope_id

text \<open>The oldest queued write of each kind for one scope.\<close>

definition settle_config :: "scope_id \<Rightarrow> config_store \<Rightarrow> config_store" where
  "settle_config i s =
     s\<lparr>cf_policies := settle_write True i (cf_policies s), cf_postures := settle_write True i (cf_postures s),
       cf_grantModes := settle_write True i (cf_grantModes s), cf_egress := settle_write True i (cf_egress s),
       cf_unfulfilled := settle_write True i (cf_unfulfilled s), cf_external := settle_write True i (cf_external s),
       cf_models := settle_write True i (cf_models s), cf_harnesses := settle_write True i (cf_harnesses s),
       cf_ambient := settle_write True i (cf_ambient s), cf_fastMode := settle_write True i (cf_fastMode s),
       cf_webui := settle_write True i (cf_webui s), cf_peopleUrl := settle_write True i (cf_peopleUrl s),
       cf_branding := settle_write True i (cf_branding s), cf_browseSteps := settle_write True i (cf_browseSteps s),
       cf_browseModel := settle_write True i (cf_browseModel s)\<rparr>"

definition nothing_queued :: "scope_id \<Rightarrow> config_store \<Rightarrow> bool" where
  "nothing_queued i s \<longleftrightarrow>
     cell_queue (cf_policies s) i = [] \<and> cell_queue (cf_postures s) i = [] \<and> cell_queue (cf_grantModes s) i = [] \<and>
     cell_queue (cf_egress s) i = [] \<and> cell_queue (cf_unfulfilled s) i = [] \<and> cell_queue (cf_external s) i = [] \<and>
     cell_queue (cf_models s) i = [] \<and> cell_queue (cf_harnesses s) i = [] \<and> cell_queue (cf_ambient s) i = [] \<and>
     cell_queue (cf_fastMode s) i = [] \<and> cell_queue (cf_webui s) i = [] \<and> cell_queue (cf_peopleUrl s) i = [] \<and>
     cell_queue (cf_branding s) i = [] \<and> cell_queue (cf_browseSteps s) i = [] \<and> cell_queue (cf_browseModel s) i = []"

fun config_apply ::
  "scope_id \<Rightarrow> security_posture \<Rightarrow> (string \<Rightarrow> string option) \<Rightarrow> config_call \<Rightarrow> config_store \<Rightarrow> config_store" where
  "config_apply org base resolve (CallPolicy i v) s = (case v of None \<Rightarrow> clearCommandPolicy org i s | Some p \<Rightarrow> setCommandPolicy i p s)"
| "config_apply org base resolve (CallEgress i v) s = (case v of None \<Rightarrow> clearEgress org i s | Some p \<Rightarrow> setEgress i p s)"
| "config_apply org base resolve (CallPosture i v) s =
     (case v of None \<Rightarrow> clearSecurityPosture i s
      | Some p \<Rightarrow> if cell_queue (cf_postures s) i = [] then setSecurityPosture org base i p s else s)"
| "config_apply org base resolve (CallGrantModes i v) s =
     (case v of None \<Rightarrow> clearApprovalGrantModes i s
      | Some p \<Rightarrow> if cell_queue (cf_grantModes s) i = [] then setApprovalGrantModes i p s else s)"
| "config_apply org base resolve (CallUnfulfilled i v) s =
     (case v of None \<Rightarrow> clearUnfulfilledInsights i s | Some b \<Rightarrow> setUnfulfilledInsights i b s)"
| "config_apply org base resolve (CallExternal i v) s =
     (case v of None \<Rightarrow> clearExternalSlackParticipants i s | Some b \<Rightarrow> setExternalSlackParticipants i b s)"
| "config_apply org base resolve (CallBaseModel i v) s = setBaseModel resolve i v s"
| "config_apply org base resolve (CallRuntime i v) s = setRuntimeSelection org i v s"
| "config_apply org base resolve (CallRuntimeLatest i v) s =
     (if cell_queue (cf_models s) i = [] then setRuntimeSelectionLatest org i v s else s)"
| "config_apply org base resolve (CallAcknowledge i) s = acknowledgeRuntimeSelection org i s"
| "config_apply org base resolve (CallAcknowledgeLatest i) s =
     (if cell_queue (cf_models s) i = [] then acknowledgeRuntimeSelectionLatest org i s else s)"
| "config_apply org base resolve (CallHarnesses v) s = setApprovedHarnesses org v s"
| "config_apply org base resolve (CallAmbient b) s = setOrgAmbient org b s"
| "config_apply org base resolve (CallFastMode b) s = setInteractiveFastMode org b s"
| "config_apply org base resolve (CallWebui i v) s = setWebuiModels i v s"
| "config_apply org base resolve (CallPeopleUrl i v) s = setPeopleDirectoryUrl i v s"
| "config_apply org base resolve (CallBranding i v) s = setBranding i v s"
| "config_apply org base resolve (CallBrowseSteps i v) s = setBrowseMaxSteps i v s"
| "config_apply org base resolve (CallBrowseModel i v) s = setBrowseModel i v s"
| "config_apply org base resolve (CallRefresh ids) s = refreshSecurity org ids s"
| "config_apply org base resolve (CallReload i) s = (if nothing_queued i s then refreshScope org i s else s)"
| "config_apply org base resolve (CallWrites i) s = settle_config i s"

lemma cell_assign_sound [step_inv]: "cell_sound no_fallback c \<Longrightarrow> cell_sound no_fallback (cell_assign i v c)"
  by (simp add: cell_assign_def step_inv split: option.split)

lemma no_fallback_eq: "no_fallback = (\<lambda>_. None)"
  by (simp add: no_fallback_def fun_eq_iff)

lemma through_drop_sound [step_inv]:
  "cell_sound no_fallback c \<Longrightarrow> cell_queue c i = [] \<Longrightarrow> cell_sound no_fallback (cell_through_drop i c)"
  unfolding no_fallback_eq by (rule cell_sound_through_drop)

lemma load_cell_sound [step_inv]: "cell_sound no_fallback c \<Longrightarrow> cell_queue c i = [] \<Longrightarrow> cell_sound no_fallback (load_cell i c)"
  by (simp add: load_cell_def step_inv)

lemma install_security_sound: "config_sound org s \<Longrightarrow> config_sound org (install_security org i (read_security s i) s)"
proof -
  assume sound: "config_sound org s"
  have "cell_sound (policy_fallback org) (install_row (i = org) i (cell_stored (cf_policies s) i) (cf_policies s))"
    using cell_sound_refresh [of "policy_fallback org" "cf_policies s" i] sound
    by (cases "i = org") (simp_all add: cell_refresh_def policy_fallback_def config_sound_def)
  moreover have "cell_sound (egress_fallback org) (install_row (i = org) i (cell_stored (cf_egress s) i) (cf_egress s))"
    using cell_sound_refresh [of "egress_fallback org" "cf_egress s" i] sound
    by (cases "i = org") (simp_all add: cell_refresh_def egress_fallback_def config_sound_def)
  ultimately show ?thesis
    using sound by (simp add: config_sound_def install_security_def read_security_def)
qed

lemma refreshSecurity_sound: "config_sound org s \<Longrightarrow> config_sound org (refreshSecurity org ids s)"
  by (induction ids arbitrary: s) (simp_all add: refreshSecurity_def install_security_sound)

lemmas config_setters =
  clearCommandPolicy_def setCommandPolicy_def clearEgress_def setEgress_def clearSecurityPosture_def setSecurityPosture_def
  clearApprovalGrantModes_def setApprovalGrantModes_def clearUnfulfilledInsights_def setUnfulfilledInsights_def
  clearExternalSlackParticipants_def setExternalSlackParticipants_def setBaseModel_def setRuntimeSelection_def
  setRuntimeSelectionLatest_def acknowledgeRuntimeSelection_def acknowledgeRuntimeSelectionLatest_def setApprovedHarnesses_def
  setOrgAmbient_def setInteractiveFastMode_def setWebuiModels_def setPeopleDirectoryUrl_def setBranding_def setBrowseMaxSteps_def
  setBrowseModel_def settle_config_def refreshScope_def nothing_queued_def Let_def

lemma config_apply_sound: "config_sound org s \<Longrightarrow> config_sound org (config_apply org base resolve call s)"
proof (cases call)
  case (CallRefresh ids)
  then show "config_sound org s \<Longrightarrow> ?thesis"
    by (simp add: refreshSecurity_sound)
qed (simp_all add: config_sound_def config_setters step_inv split: option.split)

lemma config_calls_sound: "config_sound org s \<Longrightarrow> config_sound org (fold (config_apply org base resolve) calls s)"
  by (induction calls arbitrary: s) (simp_all add: config_apply_sound)

text \<open>A process that starts on the rows another one left, and hydrates.\<close>

definition config_boot :: "scope_id \<Rightarrow> config_store \<Rightarrow> config_store" where
  "config_boot org s = hydrate_caches
     \<lparr>cf_souls = \<lparr>ss_souls = [(org, defaultOrgSoul)], ss_history = [], ss_legacy = [], ss_rows = cell_new [] (soul_rows (cf_souls s)),
                  ss_oldRows = ss_oldRows (cf_souls s)\<rparr>,
      cf_policies = cell_new [(org, defaultOrgPolicy)] (ce_rows (cf_policies s)), cf_postures = cell_new [] (ce_rows (cf_postures s)),
      cf_grantModes = cell_new [] (ce_rows (cf_grantModes s)), cf_egress = cell_new [(org, no_egress)] (ce_rows (cf_egress s)),
      cf_unfulfilled = cell_new [] (ce_rows (cf_unfulfilled s)), cf_external = cell_new [] (ce_rows (cf_external s)),
      cf_models = cell_new [] (ce_rows (cf_models s)), cf_harnesses = cell_new [] (ce_rows (cf_harnesses s)),
      cf_ambient = cell_new [] (ce_rows (cf_ambient s)), cf_fastMode = cell_new [] (ce_rows (cf_fastMode s)),
      cf_webui = cell_new [] (ce_rows (cf_webui s)), cf_peopleUrl = cell_new [] (ce_rows (cf_peopleUrl s)),
      cf_branding = cell_new [] (ce_rows (cf_branding s)), cf_browseSteps = cell_new [] (ce_rows (cf_browseSteps s)),
      cf_browseModel = cell_new [] (ce_rows (cf_browseModel s)), cf_wallClock = cell_new [] (ce_rows (cf_wallClock s)),
      cf_identity = cf_identity s\<rparr>"

lemmas booted = config_boot_def hydrate_caches_def cell_boot_def [symmetric]

lemma restart_policy:
  "cell_sound (policy_fallback org) c \<Longrightarrow> cell_queue c i = [] \<Longrightarrow> cell_get (cell_boot [(org, defaultOrgPolicy)] c) i = cell_get c i"
  by (rule cell_sound_restart [where fallback = "policy_fallback org"]) (simp_all add: policy_fallback_def)

lemma restart_egress:
  "cell_sound (egress_fallback org) c \<Longrightarrow> cell_queue c i = [] \<Longrightarrow> cell_get (cell_boot [(org, no_egress)] c) i = cell_get c i"
  by (rule cell_sound_restart [where fallback = "egress_fallback org"]) (simp_all add: egress_fallback_def)

lemma restart_plain: "cell_sound no_fallback c \<Longrightarrow> cell_queue c i = [] \<Longrightarrow> cell_get (cell_boot [] c) i = cell_get c i"
  by (rule cell_sound_restart [where fallback = no_fallback]) (simp_all add: no_fallback_def)

lemmas restart_cell = restart_policy restart_egress restart_plain


text \<open>A store with nothing in it, and the rows a first process finds.\<close>

definition no_config :: config_store where
  "no_config =
     \<lparr>cf_souls = \<lparr>ss_souls = [], ss_history = [], ss_legacy = [], ss_rows = cell_new [] [], ss_oldRows = []\<rparr>,
      cf_policies = cell_new [] [], cf_postures = cell_new [] [], cf_grantModes = cell_new [] [], cf_egress = cell_new [] [],
      cf_unfulfilled = cell_new [] [], cf_external = cell_new [] [], cf_models = cell_new [] [], cf_harnesses = cell_new [] [],
      cf_ambient = cell_new [] [], cf_fastMode = cell_new [] [], cf_webui = cell_new [] [], cf_peopleUrl = cell_new [] [],
      cf_branding = cell_new [] [], cf_browseSteps = cell_new [] [], cf_browseModel = cell_new [] [], cf_wallClock = cell_new [] [],
      cf_identity = []\<rparr>"

lemma new_rows: "ce_rows (cell_new m rows) = rows"
  by (simp add: cell_new_def)

lemma boot_policy: "map_wf (ce_rows c) \<Longrightarrow> cell_sound (policy_fallback org) (cell_boot [(org, defaultOrgPolicy)] c)"
  by (rule cell_sound_boot) (simp_all add: policy_fallback_def)

lemma boot_egress: "map_wf (ce_rows c) \<Longrightarrow> cell_sound (egress_fallback org) (cell_boot [(org, no_egress)] c)"
  by (rule cell_sound_boot) (simp_all add: egress_fallback_def)

lemma boot_plain: "map_wf (ce_rows c) \<Longrightarrow> cell_sound no_fallback (cell_boot [] c)"
  by (rule cell_sound_boot) (simp_all add: no_fallback_def)

lemma fresh_sound:
  "cell_sound (policy_fallback org) (cell_hydrate (cell_new [(org, defaultOrgPolicy)] []))"
  "cell_sound (egress_fallback org) (cell_hydrate (cell_new [(org, no_egress)] []))"
  "cell_sound no_fallback (cell_hydrate (cell_new [] []))"
  using boot_policy [of "cell_new [] []" org] boot_egress [of "cell_new [] []" org] boot_plain [of "cell_new [] []"]
  by (simp_all add: cell_boot_def new_rows)

lemma config_boot_sound: "config_sound org (config_boot org no_config)"
  by (simp add: config_sound_def config_boot_def hydrate_caches_def no_config_def new_rows fresh_sound)

definition org_setup :: "config_call list" where
  "org_setup =
     [CallAmbient False, CallBrowseSteps ''channel:c'' (Some 7), CallBrowseSteps ''channel:c'' None,
      CallWrites ''org:o'', CallWrites ''channel:c'', CallWrites ''channel:c'']"

lemmas config_run =
  org_setup_def config_setters no_config_def booted cell_boot_def cell_hydrate_def cell_new_def dm_entries_def js_sort_def cell_assign_def
  cell_put_def cell_drop_def persist_def cell_queue_def reset_cache_def no_fallback_def settle_write_def nothing_queued_def


section \<open>What a flush does not cover\<close>

text \<open>The flag of unfulfilled insights is not among the keys: a flush resolves while its write is queued.\<close>

lemma flush_forgets_insights:
  "case flushScope True ''org:o'' ''org:o'' (setUnfulfilledInsights ''org:o'' True no_config) of
     (s, resolved) \<Rightarrow> resolved \<and> cell_stored (cf_unfulfilled s) ''org:o'' = None"
  by code_simp

text \<open>After one failed write of a policy each later flush of its scope rejects, whatever it is for and though it is stored.\<close>

lemma failed_write_rejects_later_flushes:
  "case flushScope False ''org:o'' ''channel:c'' (setCommandPolicy ''channel:c'' \<lparr>cp_mode = Denylist, cp_rules = []\<rparr> no_config) of
     (s, resolved) \<Rightarrow>
       \<not> resolved \<and>
       (case flushScope True ''org:o'' ''channel:c'' (setEgress ''channel:c'' no_egress (refreshScope ''org:o'' ''channel:c'' s)) of
          (s', resolved') \<Rightarrow> \<not> resolved' \<and> cell_stored (cf_egress s') ''channel:c'' = Some no_egress)"
  by code_simp

text \<open>Clearing the runtime of the organisation starts its revisions again, so a scope that chose under the old first one
  seems to have seen the new first one.\<close>

lemma org_revision_restarts:
  "let pick = (\<lambda>h m. Some \<lparr>rs_harnessId = h, rs_modelId = m\<rparr>);
       s = setRuntimeSelection ''org:o'' ''channel:c'' (pick ''pi'' ''mine'') (setRuntimeSelection ''org:o'' ''org:o'' (pick ''pi'' ''old'') no_config);
       s' = setRuntimeSelection ''org:o'' ''org:o'' (pick ''claude'' ''new'') (setRuntimeSelection ''org:o'' ''org:o'' None s)
   in map_option rs_orgRevision (getRuntimeSelection s' ''channel:c'') = Some 1 \<and>
      Option.bind (getRuntimeSelection s' ''org:o'') rs_revision = Some 1"
  by code_simp

end
