(* ===== verification/Task_Store.thy ===== *)
theory Task_Store
  imports Triggers
begin

text \<open>
  The tasks an agent posts: \<open>tasks/task-store.ts\<close> and the memory store of \<open>tasks/memory-task-store.ts\<close>. The clock
  readings and fresh identifiers are arguments; the order of \<open>localeCompare\<close>, which depends on the locale, is a parameter.
\<close>

section \<open>Data\<close>

datatype task_event_type = CreatedE | StatusChangedE

record task =
  tk_id :: string
  tk_sessionId :: string
  tk_originRunId :: string
  tk_title :: string
  tk_status :: task_status
  tk_createdAt :: ms
  tk_updatedAt :: ms

record task_event =
  te_id :: string
  te_taskId :: string
  te_runId :: string
  te_type :: task_event_type
  te_fromStatus :: "task_status option"
  te_toStatus :: task_status
  te_createdAt :: ms

record create_task_input =
  ck_id :: "string option"
  ck_sessionId :: string
  ck_originRunId :: string
  ck_title :: string
  ck_status :: "task_status option"

text \<open>The filter of open tasks has no statuses.\<close>

record open_filter =
  tf_sessionId :: "string option"
  tf_originRunId :: "string option"

record task_filter = open_filter +
  tf_statuses :: "task_status list option"

record task_store =
  ts_tasks :: "(string, task) jsmap"
  ts_events :: "(string, task_event list) jsmap"
  ts_nextEventId :: nat

definition new_task_store :: task_store where
  "new_task_store = \<lparr>ts_tasks = [], ts_events = [], ts_nextEventId = 1\<rparr>"

definition isOpenTask :: "task_status \<Rightarrow> bool" where
  "isOpenTask st \<longleftrightarrow> st \<in> {TaskPending, TaskInProgress}"

section \<open>Operations\<close>

definition listEvents :: "string \<Rightarrow> task_store \<Rightarrow> task_event list" where
  "listEvents i s = (case map_get (ts_events s) i of None \<Rightarrow> [] | Some es \<Rightarrow> es)"

definition appendEvent :: "string \<Rightarrow> string \<Rightarrow> task_status option \<Rightarrow> task_status \<Rightarrow> ms \<Rightarrow> task_store \<Rightarrow> task_store" where
  "appendEvent i runId fromStatus toStatus t s =
     s\<lparr>ts_events := map_set i
         (listEvents i s @
          [\<lparr>te_id = js_of_nat (ts_nextEventId s), te_taskId = i, te_runId = runId,
            te_type = (if fromStatus = None then CreatedE else StatusChangedE),
            te_fromStatus = fromStatus, te_toStatus = toStatus, te_createdAt = t\<rparr>]) (ts_events s),
       ts_nextEventId := Suc (ts_nextEventId s)\<rparr>"

definition task_matches :: "task \<Rightarrow> 'z open_filter_scheme \<Rightarrow> bool" where
  "task_matches t f \<longleftrightarrow>
     (tf_sessionId f = None \<or> tf_sessionId f = Some (tk_sessionId t)) \<and>
     (tf_originRunId f = None \<or> tf_originRunId f = Some (tk_originRunId t))"

definition ordered_tasks :: "(string \<Rightarrow> string \<Rightarrow> int) \<Rightarrow> task list \<Rightarrow> task list" where
  "ordered_tasks localeCompare ts =
     js_sort (\<lambda>a b. if tk_createdAt a - tk_createdAt b \<noteq> 0 then tk_createdAt a - tk_createdAt b
                    else localeCompare (tk_id a) (tk_id b)) ts"

definition create_task :: "create_task_input \<Rightarrow> string \<Rightarrow> ms \<Rightarrow> task_store \<Rightarrow> task_store \<times> task outcome" where
  "create_task inp uuid now s =
     (let i = (case ck_id inp of None \<Rightarrow> uuid | Some i \<Rightarrow> i) in
      if map_has (ts_tasks s) i then (s, Inl (Error (''task '' @ i @ '' already exists'')))
      else (let t = \<lparr>tk_id = i, tk_sessionId = ck_sessionId inp, tk_originRunId = ck_originRunId inp, tk_title = ck_title inp,
                     tk_status = (case ck_status inp of None \<Rightarrow> TaskPending | Some st \<Rightarrow> st),
                     tk_createdAt = now, tk_updatedAt = now\<rparr>
            in (appendEvent i (ck_originRunId inp) None (tk_status t) now (s\<lparr>ts_tasks := map_set i t (ts_tasks s)\<rparr>), Inr t)))"

definition get_task :: "string \<Rightarrow> task_store \<Rightarrow> task option" where
  "get_task i s = map_get (ts_tasks s) i"

definition list_tasks :: "(string \<Rightarrow> string \<Rightarrow> int) \<Rightarrow> task_filter \<Rightarrow> task_store \<Rightarrow> task list" where
  "list_tasks localeCompare f s =
     ordered_tasks localeCompare
       (filter (\<lambda>t. task_matches t f \<and> (case tf_statuses f of None \<Rightarrow> True | Some sts \<Rightarrow> tk_status t \<in> set sts))
          (map_values (ts_tasks s)))"

definition listOpen :: "(string \<Rightarrow> string \<Rightarrow> int) \<Rightarrow> open_filter \<Rightarrow> task_store \<Rightarrow> task list" where
  "listOpen localeCompare f s =
     ordered_tasks localeCompare (filter (\<lambda>t. task_matches t f \<and> isOpenTask (tk_status t)) (map_values (ts_tasks s)))"

definition transitionStatus ::
  "string \<Rightarrow> task_status \<Rightarrow> task_status \<Rightarrow> string \<Rightarrow> ms \<Rightarrow> task_store \<Rightarrow> task_store \<times> task option" where
  "transitionStatus i expected nextStatus runId now s =
     (case map_get (ts_tasks s) i of
        None \<Rightarrow> (s, None)
      | Some t \<Rightarrow>
          if tk_status t \<noteq> expected then (s, None)
          else (let t' = t\<lparr>tk_status := nextStatus, tk_updatedAt := now\<rparr>
                in (appendEvent i runId (Some expected) nextStatus now (s\<lparr>ts_tasks := map_set i t' (ts_tasks s)\<rparr>), Some t')))"

section \<open>The log of a task\<close>

text \<open>The status that a log of events leads to, if every event starts where the one before it ended.\<close>

fun replay_events :: "task_status option \<Rightarrow> task_event list \<Rightarrow> task_status option option" where
  "replay_events cur [] = Some cur"
| "replay_events cur (e # es) =
     (if te_fromStatus e = cur \<and> (te_type e = CreatedE \<longleftrightarrow> cur = None) then replay_events (Some (te_toStatus e)) es else None)"

lemma replay_append:
  "replay_events cur (es @ es') = Option.bind (replay_events cur es) (\<lambda>st. replay_events st es')"
  by (induction es arbitrary: cur) auto

lemma replay_started: "replay_events (Some st) es \<noteq> Some None"
  by (induction es arbitrary: st) auto

lemma replay_None: "replay_events None es = Some None \<longleftrightarrow> es = []"
  by (cases es) (auto simp: replay_started)

lemma listEvents_append [simp]:
  "listEvents j (appendEvent i runId a b t s) =
     (if j = i then listEvents i s @
        [\<lparr>te_id = js_of_nat (ts_nextEventId s), te_taskId = i, te_runId = runId,
          te_type = (if a = None then CreatedE else StatusChangedE), te_fromStatus = a, te_toStatus = b, te_createdAt = t\<rparr>]
      else listEvents j s)"
  by (simp add: listEvents_def appendEvent_def)

lemma listEvents_tasks [simp]: "listEvents j (s\<lparr>ts_tasks := m\<rparr>) = listEvents j s"
  by (simp add: listEvents_def)

lemma ts_tasks_append [simp]: "ts_tasks (appendEvent i runId a b t s) = ts_tasks s"
  by (simp add: appendEvent_def)

lemma ts_next_append [simp]: "ts_nextEventId (appendEvent i runId a b t s) = Suc (ts_nextEventId s)"
  by (simp add: appendEvent_def)

text \<open>What the log says of every task.\<close>

definition log_sound :: "task_store \<Rightarrow> bool" where
  "log_sound s \<longleftrightarrow>
     (\<forall>i. replay_events None (listEvents i s) = Some (map_option tk_status (get_task i s)) \<and>
          (\<forall>e \<in> set (listEvents i s). te_taskId e = i) \<and>
          (\<forall>t. get_task i s = Some t \<longrightarrow> tk_id t = i \<and> te_createdAt (hd (listEvents i s)) = tk_createdAt t \<and>
             te_createdAt (last (listEvents i s)) = tk_updatedAt t \<and> te_runId (hd (listEvents i s)) = tk_originRunId t))"

lemma log_sound_new: "log_sound new_task_store"
  by (simp add: log_sound_def new_task_store_def listEvents_def get_task_def)

lemma log_soundD:
  assumes "log_sound s"
  shows "replay_events None (listEvents i s) = Some (map_option tk_status (get_task i s))"
    and "\<And>t. get_task i s = Some t \<Longrightarrow> listEvents i s \<noteq> []"
    and "get_task i s = None \<Longrightarrow> listEvents i s = []"
proof -
  show r: "replay_events None (listEvents i s) = Some (map_option tk_status (get_task i s))"
    using assms by (simp add: log_sound_def)
  show "listEvents i s \<noteq> []" if "get_task i s = Some t" for t
    using r that by auto
  show "listEvents i s = []" if "get_task i s = None"
    using r that by (simp add: replay_None)
qed

lemma create_log_sound:
  assumes "log_sound s"
  shows "log_sound (fst (create_task inp uuid now s))"
proof -
  define i where "i = (case ck_id inp of None \<Rightarrow> uuid | Some i \<Rightarrow> i)"
  show ?thesis
  proof (cases "get_task i s")
    case None
    with assms have "listEvents i s = []"
      by (rule log_soundD)
    then show ?thesis
      using assms None unfolding log_sound_def
      by (auto simp: create_task_def i_def [symmetric] Let_def get_task_def split: if_splits)
  next
    case (Some t)
    then show ?thesis
      using assms by (simp add: create_task_def i_def [symmetric] Let_def get_task_def)
  qed
qed

lemma transition_log_sound:
  assumes "log_sound s"
  shows "log_sound (fst (transitionStatus i a b runId now s))"
proof (cases "get_task i s")
  case (Some t)
  with assms have "listEvents i s \<noteq> []"
    by (rule log_soundD)
  then show ?thesis
    using assms Some unfolding log_sound_def
    by (auto simp: transitionStatus_def Let_def get_task_def replay_append)
next
  case None
  then show ?thesis
    using assms by (simp add: transitionStatus_def get_task_def)
qed

section \<open>Runs of the store\<close>

datatype task_op =
    CreateTask create_task_input string ms
  | TransitionTask string task_status task_status string ms

fun task_step :: "task_op \<Rightarrow> task_store \<Rightarrow> task_store" where
  "task_step (CreateTask inp uuid now) s = fst (create_task inp uuid now s)"
| "task_step (TransitionTask i a b runId now) s = fst (transitionStatus i a b runId now s)"

lemma task_step_log_sound: "log_sound s \<Longrightarrow> log_sound (task_step op s)"
  by (cases op) (simp_all add: create_log_sound transition_log_sound)

lemma task_steps_log_sound: "log_sound s \<Longrightarrow> log_sound (fold task_step ops s)"
  by (induction ops arbitrary: s) (simp_all add: task_step_log_sound)

lemma events_grow:
  "\<exists>es. listEvents i (task_step op s) = listEvents i s @ es"
  by (cases op) (auto simp: create_task_def transitionStatus_def Let_def split: option.splits)

lemma task_steps_events_grow:
  "\<exists>es. listEvents i (fold task_step ops s) = listEvents i s @ es"
proof (induction ops arbitrary: s)
  case (Cons op ops)
  obtain es where "listEvents i (task_step op s) = listEvents i s @ es"
    using events_grow by blast
  moreover obtain es' where "listEvents i (fold task_step ops (task_step op s)) = listEvents i (task_step op s) @ es'"
    using Cons.IH by blast
  ultimately show ?case by simp
qed simp

text \<open>C37: After any sequence of creations and transitions, refused ones included, the log of every task is a chain that
  begins with its creation and leads to the status it has, its first and last events are dated as the task is, and
  further calls only append to it.\<close>

theorem task_log_replays:
  "replay_events None (listEvents i (fold task_step ops new_task_store)) =
     Some (map_option tk_status (get_task i (fold task_step ops new_task_store))) \<and>
   (case get_task i (fold task_step ops new_task_store) of
      None \<Rightarrow> listEvents i (fold task_step ops new_task_store) = []
    | Some t \<Rightarrow> tk_id t = i \<and>
        te_createdAt (hd (listEvents i (fold task_step ops new_task_store))) = tk_createdAt t \<and>
        te_createdAt (last (listEvents i (fold task_step ops new_task_store))) = tk_updatedAt t \<and>
        te_runId (hd (listEvents i (fold task_step ops new_task_store))) = tk_originRunId t) \<and>
   (\<exists>es. listEvents i (fold task_step (ops @ ops') new_task_store) = listEvents i (fold task_step ops new_task_store) @ es)"
proof -
  have s: "log_sound (fold task_step ops new_task_store)"
    by (simp add: task_steps_log_sound log_sound_new)
  show ?thesis
  proof (intro conjI)
    show "\<exists>es. listEvents i (fold task_step (ops @ ops') new_task_store) = listEvents i (fold task_step ops new_task_store) @ es"
      using task_steps_events_grow [of i ops'] by simp
  next
    show "replay_events None (listEvents i (fold task_step ops new_task_store)) =
        Some (map_option tk_status (get_task i (fold task_step ops new_task_store)))"
      using log_soundD(1) [OF s] .
  next
    show "case get_task i (fold task_step ops new_task_store) of
        None \<Rightarrow> listEvents i (fold task_step ops new_task_store) = []
      | Some t \<Rightarrow> tk_id t = i \<and>
          te_createdAt (hd (listEvents i (fold task_step ops new_task_store))) = tk_createdAt t \<and>
          te_createdAt (last (listEvents i (fold task_step ops new_task_store))) = tk_updatedAt t \<and>
          te_runId (hd (listEvents i (fold task_step ops new_task_store))) = tk_originRunId t"
      using s log_soundD(3) [OF s] by (auto simp: log_sound_def split: option.split)
  qed
qed

section \<open>Transitions\<close>

lemma transition_accepts:
  "snd (transitionStatus i a b runId now s) \<noteq> None \<longleftrightarrow> (\<exists>t. get_task i s = Some t \<and> tk_status t = a)"
  by (auto simp: transitionStatus_def Let_def get_task_def split: option.splits)

lemma transition_refused_unchanged:
  "snd (transitionStatus i a b runId now s) = None \<Longrightarrow> fst (transitionStatus i a b runId now s) = s"
  by (auto simp: transitionStatus_def Let_def split: option.splits if_splits)

text \<open>Of two transitions from one status to others at most one is accepted.\<close>

lemma transition_once:
  assumes "a \<noteq> b" "snd (transitionStatus i a b runId now s) \<noteq> None"
  shows "snd (transitionStatus i a c runId' now' (fst (transitionStatus i a b runId now s))) = None"
  using assms by (auto simp: transitionStatus_def Let_def split: option.splits if_splits)

text \<open>An accepted call that leaves a task where it is counts as a change.\<close>

lemma same_status_logged:
  assumes "get_task i s = Some t"
  shows "length (listEvents i (fst (transitionStatus i (tk_status t) (tk_status t) runId now s))) = Suc (length (listEvents i s))"
  using assms by (simp add: transitionStatus_def Let_def get_task_def)

lemma listOpen_open:
  "t \<in> set (listOpen lc f s) \<longleftrightarrow> t \<in> set (map_values (ts_tasks s)) \<and> task_matches t f \<and> isOpenTask (tk_status t)"
  by (auto simp: listOpen_def ordered_tasks_def)

lemma listOpen_is_list:
  "listOpen lc f s =
     list_tasks lc (open_filter.extend f (task_filter.fields (Some [TaskPending, TaskInProgress]))) s"
  by (simp add: listOpen_def list_tasks_def task_matches_def isOpenTask_def open_filter.defs task_filter.defs)

end
