(* ===== verification/Turn_Intake.thy ===== *)
theory Turn_Intake
  imports Triggers Session_Types
begin

text \<open>
  Where a turn comes from and how it ends: the typed origin and the flags it replaces (\<open>core/turn-origin.ts\<close>), the
  routing of a message that arrives while a run is live (\<open>wake/wake.ts\<close>, \<open>wake/sweep.ts\<close>, \<open>wake/engaged-registry.ts\<close>),
  the outcome of a turn (\<open>core/turn-outcome.ts\<close>, \<open>core/turn-error.ts\<close>), the search for an interrupted turn
  (\<open>core/turn-resume.ts\<close>) and the keys of fires (\<open>triggers/provenance.ts\<close>). The em dash U+2014 is written as 0x97.
\<close>

section \<open>Origins\<close>

datatype turn_origin =
    HumanO "string option" "string option"
  | AmbientO "string option" "bool option"
  | AutomationO "string option" "destination option" "bool option"
  | DirectO

text \<open>The flags of a request; \<^term>\<open>None\<close> is an absent field.\<close>

record legacy_origin =
  lo_triggerTs :: "string option"
  lo_entryTs :: "string option"
  lo_triggered :: "bool option"
  lo_securityScreenData :: "string option"
  lo_triggerDestination :: "destination option"
  lo_ownerKeychainUnion :: "bool option"
  lo_unprompted :: "bool option"
  lo_liveActor :: "bool option"

definition no_legacy :: legacy_origin where
  "no_legacy = \<lparr>lo_triggerTs = None, lo_entryTs = None, lo_triggered = None, lo_securityScreenData = None,
     lo_triggerDestination = None, lo_ownerKeychainUnion = None, lo_unprompted = None, lo_liveActor = None\<rparr>"

definition if_nonempty :: "string option \<Rightarrow> string option" where
  "if_nonempty x = (if truthy x then x else None)"

definition only_true :: "bool option \<Rightarrow> bool option" where
  "only_true b = (if b = Some True then Some True else None)"

definition normalizeTurnOrigin :: "legacy_origin \<Rightarrow> turn_origin" where
  "normalizeTurnOrigin l =
     (if lo_triggered l = Some True
      then AutomationO (lo_securityScreenData l) (lo_triggerDestination l) (only_true (lo_ownerKeychainUnion l))
      else if lo_unprompted l = Some True then AmbientO (if_nonempty (lo_entryTs l)) (only_true (lo_liveActor l))
      else if lo_liveActor l = Some True then HumanO (if_nonempty (lo_triggerTs l)) (if_nonempty (lo_entryTs l))
      else DirectO)"

fun origin_rank :: "turn_origin \<Rightarrow> nat" where
  "origin_rank DirectO = 0"
| "origin_rank (HumanO a b) = 1"
| "origin_rank (AmbientO a b) = 2"
| "origin_rank (AutomationO a b c) = 3"

text \<open>\<open>a ?? b\<close>, absent when the result is empty.\<close>

definition either_nonempty :: "string option \<Rightarrow> string option \<Rightarrow> string option" where
  "either_nonempty a b = if_nonempty (if a = None then b else a)"

definition either_true :: "bool option \<Rightarrow> bool option \<Rightarrow> bool option" where
  "either_true a b = (if a = Some True \<or> b = Some True then Some True else None)"

definition merge_screen_data :: "string option \<Rightarrow> string option \<Rightarrow> string option" where
  "merge_screen_data typed legacy =
     (case typed of
        None \<Rightarrow> legacy
      | Some t \<Rightarrow>
          (case legacy of
             None \<Rightarrow> Some t
           | Some l \<Rightarrow> if t = l then Some t
                       else Some (''Typed automation data:'' @ [NL] @ t @ [NL, NL] @ ''Legacy automation data:'' @ [NL] @ l)))"

fun merge_origins :: "turn_origin \<Rightarrow> turn_origin \<Rightarrow> turn_origin" where
  "merge_origins (AutomationO s d k) (AutomationO s' d' k') =
     AutomationO (merge_screen_data s s') (if d = None then d' else d) (either_true k k')"
| "merge_origins (HumanO m e) (HumanO m' e') = HumanO (either_nonempty m m') (either_nonempty e e')"
| "merge_origins (AmbientO e l) (AmbientO e' l') = AmbientO (either_nonempty e e') (either_true l l')"
| "merge_origins typed legacy = typed"

definition resolveTurnOrigin :: "turn_origin option \<Rightarrow> legacy_origin \<Rightarrow> turn_origin" where
  "resolveTurnOrigin origin l =
     (case origin of
        None \<Rightarrow> normalizeTurnOrigin l
      | Some typed \<Rightarrow>
          if \<not> (lo_triggered l = Some True \<or> lo_unprompted l = Some True \<or> lo_liveActor l = Some True) then typed
          else (let legacy = normalizeTurnOrigin l in
                if origin_rank typed \<noteq> origin_rank legacy
                then (if origin_rank typed > origin_rank legacy then typed else legacy)
                else merge_origins typed legacy))"

fun turnOriginRequestFields :: "turn_origin \<Rightarrow> legacy_origin" where
  "turnOriginRequestFields (HumanO messageTs entryTs) =
     no_legacy\<lparr>lo_liveActor := Some True, lo_triggerTs := if_nonempty messageTs, lo_entryTs := if_nonempty entryTs\<rparr>"
| "turnOriginRequestFields (AmbientO entryTs live) =
     no_legacy\<lparr>lo_unprompted := Some True, lo_entryTs := if_nonempty entryTs, lo_liveActor := only_true live\<rparr>"
| "turnOriginRequestFields (AutomationO screenData dest useOwner) =
     no_legacy\<lparr>lo_triggered := Some True, lo_securityScreenData := screenData, lo_triggerDestination := dest,
       lo_ownerKeychainUnion := only_true useOwner\<rparr>"
| "turnOriginRequestFields DirectO = no_legacy"

section \<open>A message while a run is live\<close>

definition isHalt :: "string \<Rightarrow> bool" where
  "isHalt t \<longleftrightarrow> js_toLowerCase (js_trim t) \<in> {''stop'', ''stop.'', ''stop!''}"

datatype wake_situation = Addressed | EngagedUpdate | AmbientUpdate | Scheduled

record wake =
  wk_situation :: wake_situation
  wk_ts :: string
  wk_text :: "string option"
  wk_isSelf :: bool
  wk_halt :: bool

datatype wake_route = Engage | SteerAbort | Steer string | DropWake string

definition routeWake :: "wake \<Rightarrow> bool \<Rightarrow> bool \<Rightarrow> wake_route" where
  "routeWake w runIsLive liveRunGated =
     (if wk_isSelf w then DropWake ''self''
      else if \<not> runIsLive then (if wk_halt w then DropWake ''halt-nothing-running'' else Engage)
      else if wk_halt w then SteerAbort
      else if liveRunGated \<and> wk_situation w = Addressed then Engage
      else (let t = map_option js_trim (wk_text w) in
            if \<not> truthy t then DropWake ''empty-mid-turn'' else Steer (the t)))"

text \<open>The conversations whose agent is engaged, in the order they became so.\<close>

definition engage :: "string \<Rightarrow> string list \<Rightarrow> string list" where
  "engage r xs = (if r \<in> set xs then xs else xs @ [r])"

definition settle_engaged :: "string \<Rightarrow> string list \<Rightarrow> string list" where
  "settle_engaged r xs = filter (\<lambda>x. x \<noteq> r) xs"

text \<open>A pass of the wake sweep over the engaged conversations; an error ends it.\<close>

fun sweep_sessions :: "(string \<Rightarrow> 's \<Rightarrow> 's \<times> int outcome) \<Rightarrow> string list \<Rightarrow> int \<Rightarrow> 's \<Rightarrow> 's \<times> int outcome" where
  "sweep_sessions one [] fresh s = (s, Inr fresh)"
| "sweep_sessions one (r # rs) fresh s =
     (case one r s of (s', Inl e) \<Rightarrow> (s', Inl e) | (s', Inr n) \<Rightarrow> sweep_sessions one rs (fresh + n) s')"

definition wake_sweep ::
  "('s \<Rightarrow> 's \<times> string list outcome) \<Rightarrow> (string \<Rightarrow> 's \<Rightarrow> 's \<times> int outcome) \<Rightarrow> 's \<Rightarrow> 's \<times> (nat \<times> int) outcome" where
  "wake_sweep engagedSessions one s =
     (case engagedSessions s of
        (s', Inl e) \<Rightarrow> (s', Inl e)
      | (s', Inr targets) \<Rightarrow> map_prod id (map_sum id (\<lambda>fresh. (length targets, fresh))) (sweep_sessions one targets 0 s'))"

section \<open>The outcome of a turn\<close>

record turn_outcome_input =
  oi_reply :: "string option"
  oi_attachments :: nat
  oi_issues :: nat
  oi_pendingApprovals :: "string option list"
  oi_terminatedOnApproval :: bool

record turn_outcome =
  ou_completed :: bool
  ou_paused :: bool
  ou_approvalsBlock :: bool
  ou_awaitingApproval :: bool

definition approvalBlocksInput :: "string option \<Rightarrow> bool \<Rightarrow> bool" where
  "approvalBlocksInput kind approvalsBlock \<longleftrightarrow> kind \<noteq> Some ''input'' \<and> approvalsBlock"

definition deriveTurnOutcome :: "turn_outcome_input \<Rightarrow> turn_outcome" where
  "deriveTurnOutcome i =
     (let completed = truthy (map_option js_trim (oi_reply i)) \<or> 0 < oi_attachments i \<or> 0 < oi_issues i;
          paused = oi_pendingApprovals i \<noteq> [] \<and> \<not> completed;
          approvalsBlock = paused \<or> oi_terminatedOnApproval i
      in \<lparr>ou_completed = completed, ou_paused = paused, ou_approvalsBlock = approvalsBlock,
          ou_awaitingApproval = (approvalsBlock \<and> list_ex (\<lambda>k. approvalBlocksInput k approvalsBlock) (oi_pendingApprovals i))\<rparr>)"

datatype after_turn = IdleAfter | AwaitingAfter

definition sessionStateAfterTurn :: "turn_outcome \<Rightarrow> after_turn" where
  "sessionStateAfterTurn o' = (if ou_awaitingApproval o' then AwaitingAfter else IdleAfter)"

datatype turn_failure = NonRetryableTurnError string | OtherFailure js_value

definition GENERIC_TURN_FAILURE :: string where
  "GENERIC_TURN_FAILURE = ''That turn failed and couldn't be completed. The details are in the operator error log.''"

fun turnFailureMessage :: "turn_failure \<Rightarrow> string" where
  "turnFailureMessage (NonRetryableTurnError m) = (if js_trim m \<noteq> [] then m else GENERIC_TURN_FAILURE)"
| "turnFailureMessage (OtherFailure v) = GENERIC_TURN_FAILURE"

section \<open>An interrupted turn\<close>

definition NOTE_HEAD :: string where
  "NOTE_HEAD = ''(system note:''"

text \<open>Texts of entries are strings; a text of another type reads as empty.\<close>

definition entryText :: "session_entry \<Rightarrow> string" where
  "entryText e = js_trim (case js_prop (en_payload e) ''text'' of Some (JStr s) \<Rightarrow> s | _ \<Rightarrow> [])"

definition isResumeNote :: "string \<Rightarrow> bool" where
  "isResumeNote t = js_startsWith (dropWhile js_ws t) NOTE_HEAD"

record partial_turn =
  pt_userSeq :: nat
  pt_workEntries :: nat

text \<open>The entries are taken from the last one on.\<close>

fun partial_from :: "string \<Rightarrow> nat \<Rightarrow> session_entry list \<Rightarrow> partial_turn option" where
  "partial_from t work [] = None"
| "partial_from t work (e # es) =
     (if en_type e = EAssistant then None
      else if en_type e \<in> {EToolCall, EToolResult} then partial_from t (Suc work) es
      else if en_type e \<noteq> EUser then partial_from t work es
      else if isOverheardEntry e then partial_from t work es
      else if isResumeNote (entryText e) then partial_from t work es
      else if js_startsWith (entryText e) t then Some \<lparr>pt_userSeq = en_seq e, pt_workEntries = work\<rparr>
      else None)"

definition findTrailingPartialTurn :: "session_entry list \<Rightarrow> string \<Rightarrow> partial_turn option" where
  "findTrailingPartialTurn entries inputText =
     (let t = js_trim inputText in if t = [] then None else partial_from t 0 (rev entries))"

definition resumeNote :: "bool option \<Rightarrow> bool option \<Rightarrow> string" where
  "resumeNote backgroundJobs workRecorded =
     (if workRecorded = Some False
      then NOTE_HEAD @ '' your previous attempt at the request above was interrupted before it recorded any work, so there is nothing to pick up. Start the request now.)''
      else js_join '' ''
        ([NOTE_HEAD @ '' your previous attempt at the request above was interrupted mid-turn.'',
          ''Your work up to the interruption is recorded above; a tool result marked interrupted has an'',
          ''unknown outcome, so check what actually happened before redoing anything with side effects.''] @
         (if backgroundJobs = Some True
          then [''Background jobs on your computer kept running '' @ [CHR 0x97] @ '' `background` list/poll to check on them.''] else []) @
         [''Continue from where you left off; don't start over or repeat completed steps.)'']))"

section \<open>Keys of fires\<close>

record parsed_fire_key =
  fk_trigger :: string
  fk_sourceId :: string
  fk_fireSlot :: "string option"
  fk_fireKey :: string

definition wakeTriggerLabel :: "string option \<Rightarrow> string" where
  "wakeTriggerLabel trigger =
     (let t = js_toLowerCase (case trigger of None \<Rightarrow> [] | Some x \<Rightarrow> x) in
      if t = ''cron'' then ''Cron''
      else if t = ''monitor'' then ''Monitor wake''
      else if t = ''webhook'' then ''Webhook wake''
      else ''Background wake'')"

text \<open>
  The dot of \<open>(?::(.+))?$\<close> matches no line terminator. Of the names in front of the colon that the first group
  matches, only the three triggers are kept.
\<close>

definition parseWakeFireKey :: "string option \<Rightarrow> parsed_fire_key option" where
  "parseWakeFireKey fireKey =
     (case fireKey of
        None \<Rightarrow> None
      | Some k \<Rightarrow>
          (case js_split k CHR '':'' of
             t # i # rest \<Rightarrow>
               (let slot = js_join '':'' rest in
                if t \<notin> {''cron'', ''webhook'', ''monitor''} \<or> i = [] then None
                else if rest = [] then Some \<lparr>fk_trigger = t, fk_sourceId = i, fk_fireSlot = None, fk_fireKey = k\<rparr>
                else if slot = [] \<or> list_ex line_terminator slot then None
                else Some \<lparr>fk_trigger = t, fk_sourceId = i, fk_fireSlot = Some slot, fk_fireKey = k\<rparr>)
           | _ \<Rightarrow> None))"

section \<open>Origins never lose rank\<close>

text \<open>An origin without the fields that count as absent.\<close>

fun canonical_origin :: "turn_origin \<Rightarrow> turn_origin" where
  "canonical_origin (HumanO m e) = HumanO (if_nonempty m) (if_nonempty e)"
| "canonical_origin (AmbientO e l) = AmbientO (if_nonempty e) (only_true l)"
| "canonical_origin (AutomationO s d k) = AutomationO s d (only_true k)"
| "canonical_origin DirectO = DirectO"

lemma if_nonempty_simps [simp]:
  "if_nonempty None = None" "if_nonempty (if_nonempty x) = if_nonempty x" "only_true (only_true b) = only_true b"
  "only_true None = None" "only_true (Some True) = Some True" "only_true b = Some False \<longleftrightarrow> False"
  by (simp_all add: if_nonempty_def only_true_def)

lemma either_idem [simp]:
  "if_nonempty a = a \<Longrightarrow> either_nonempty (either_nonempty a (if_nonempty b)) (if_nonempty b) = either_nonempty a (if_nonempty b)"
  "either_true (either_true p q) q = either_true p q"
  "either_nonempty (if_nonempty a) (if_nonempty a) = if_nonempty a" "either_true (only_true p) (only_true p) = only_true p"
  by (auto simp: either_nonempty_def if_nonempty_def either_true_def only_true_def truthy_def split: option.splits if_splits)

text \<open>The flags of an origin read back as that origin.\<close>

lemma origin_roundtrip: "normalizeTurnOrigin (turnOriginRequestFields o') = canonical_origin o'"
  by (cases o') (auto simp: normalizeTurnOrigin_def no_legacy_def only_true_def)

lemma rank_canonical [simp]: "origin_rank (canonical_origin o') = origin_rank o'"
  by (cases o') simp_all

lemma rank_merge: "origin_rank a = origin_rank b \<Longrightarrow> origin_rank (merge_origins a b) = origin_rank a"
  by (cases a; cases b) simp_all

lemma rank_unflagged:
  "\<not> (lo_triggered l = Some True \<or> lo_unprompted l = Some True \<or> lo_liveActor l = Some True) \<Longrightarrow>
     normalizeTurnOrigin l = DirectO"
  by (simp add: normalizeTurnOrigin_def)

lemma origin_rank_max:
  "origin_rank (resolveTurnOrigin origin l) =
     max (case origin of None \<Rightarrow> 0 | Some o' \<Rightarrow> origin_rank o') (origin_rank (normalizeTurnOrigin l))"
proof (cases origin)
  case (Some typed)
  then show ?thesis
    using rank_unflagged [of l] rank_merge [of typed "normalizeTurnOrigin l"]
    by (cases "lo_triggered l = Some True \<or> lo_unprompted l = Some True \<or> lo_liveActor l = Some True")
      (auto simp: resolveTurnOrigin_def Let_def max_def)
qed (simp add: resolveTurnOrigin_def)

lemma resolve_own_fields:
  "resolveTurnOrigin (Some (canonical_origin o')) (turnOriginRequestFields o') = canonical_origin o'"
proof -
  have "merge_origins (canonical_origin o') (canonical_origin o') = canonical_origin o'"
    by (cases o') (simp_all add: merge_screen_data_def split: option.split)
  then show ?thesis
    by (simp add: resolveTurnOrigin_def origin_roundtrip Let_def)
qed

text \<open>The screen data that both carry differ.\<close>

fun screen_conflict :: "turn_origin \<Rightarrow> turn_origin \<Rightarrow> bool" where
  "screen_conflict (AutomationO s d k) (AutomationO s' d' k') \<longleftrightarrow> s \<noteq> None \<and> s' \<noteq> None \<and> s \<noteq> s'"
| "screen_conflict a b \<longleftrightarrow> False"

text \<open>A typed origin that fits the flags: no empty fields, and no other data to screen.\<close>

definition fitting_origin :: "turn_origin option \<Rightarrow> legacy_origin \<Rightarrow> bool" where
  "fitting_origin origin l =
     (case origin of
        None \<Rightarrow> True
      | Some typed \<Rightarrow> canonical_origin typed = typed \<and> \<not> screen_conflict typed (normalizeTurnOrigin l))"

lemma merge_idem:
  "canonical_origin a = a \<Longrightarrow> origin_rank a = origin_rank (normalizeTurnOrigin l) \<Longrightarrow>
     \<not> screen_conflict a (normalizeTurnOrigin l) \<Longrightarrow>
     merge_origins (merge_origins a (normalizeTurnOrigin l)) (normalizeTurnOrigin l) = merge_origins a (normalizeTurnOrigin l)"
  by (cases a) (auto simp: normalizeTurnOrigin_def merge_screen_data_def split: option.splits if_splits)

lemma merge_self:
  "merge_origins (normalizeTurnOrigin l) (normalizeTurnOrigin l) = normalizeTurnOrigin l"
  by (auto simp: normalizeTurnOrigin_def merge_screen_data_def split: option.splits)

lemma resolve_idem:
  assumes "fitting_origin origin l"
  shows "resolveTurnOrigin (Some (resolveTurnOrigin origin l)) l = resolveTurnOrigin origin l"
proof (cases "lo_triggered l = Some True \<or> lo_unprompted l = Some True \<or> lo_liveActor l = Some True")
  case True
  define n where "n = normalizeTurnOrigin l"
  have again: "resolveTurnOrigin (Some x) l =
      (if origin_rank x \<noteq> origin_rank n then (if origin_rank x > origin_rank n then x else n) else merge_origins x n)" for x
    using True by (simp add: resolveTurnOrigin_def n_def Let_def)
  show ?thesis
  proof (cases origin)
    case None
    then have "resolveTurnOrigin origin l = n"
      by (simp add: resolveTurnOrigin_def n_def)
    then show ?thesis
      by (simp add: again) (simp add: n_def merge_self)
  next
    case (Some typed)
    have "merge_origins (merge_origins typed n) n = merge_origins typed n" if "origin_rank typed = origin_rank n"
      using merge_idem [of typed l] that assms Some by (simp add: n_def fitting_origin_def)
    then show ?thesis
      using merge_self [of l] by (simp add: Some again rank_merge n_def [symmetric])
  qed
next
  case False
  then show ?thesis
    by (cases origin) (simp_all add: resolveTurnOrigin_def)
qed


text \<open>Conflicting data are nested once more each time they are resolved, and an empty typed time stamp hides the one of the
  flags the first time only.\<close>

lemma conflicting_data_nest:
  "x \<noteq> y \<Longrightarrow>
     merge_screen_data (merge_screen_data (Some x) (Some y)) (Some y) \<noteq> merge_screen_data (Some x) (Some y)"
  by (simp add: merge_screen_data_def)

lemma empty_stamp_resolves_twice:
  "either_nonempty (Some []) (Some x) = None \<and> either_nonempty (either_nonempty (Some []) (Some x)) (Some x) = if_nonempty (Some x)"
  by (simp add: either_nonempty_def if_nonempty_def)

section \<open>Routing\<close>

lemma route_self_dropped: "wk_isSelf w \<Longrightarrow> routeWake w live gated = DropWake ''self''"
  by (simp add: routeWake_def)

lemma route_engage:
  "routeWake w live gated = Engage \<longleftrightarrow>
     \<not> wk_isSelf w \<and> \<not> wk_halt w \<and> (\<not> live \<or> gated \<and> wk_situation w = Addressed)"
  by (auto simp: routeWake_def Let_def)

text \<open>A halt only ever aborts or is dropped, and nothing else aborts.\<close>

lemma route_abort: "routeWake w live gated = SteerAbort \<longleftrightarrow> wk_halt w \<and> live \<and> \<not> wk_isSelf w"
  by (auto simp: routeWake_def Let_def)

lemma route_steer:
  "routeWake w live gated = Steer t \<Longrightarrow> t \<noteq> [] \<and> map_option js_trim (wk_text w) = Some t \<and> live \<and> \<not> wk_halt w"
  by (auto simp: routeWake_def Let_def truthy_def split: if_splits option.splits)

lemma engaged_distinct: "distinct xs \<Longrightarrow> distinct (engage r xs) \<and> distinct (settle_engaged r xs)"
  by (simp add: engage_def settle_engaged_def)

lemma engaged_members: "set (engage r xs) = insert r (set xs)" "set (settle_engaged r xs) = set xs - {r}"
  by (auto simp: engage_def settle_engaged_def)

section \<open>Outcomes\<close>

text \<open>A turn that completed and was not ended by an approval leaves its session idle; a session only waits for an
  approval that is not an input.\<close>

lemma completed_is_idle:
  "ou_completed (deriveTurnOutcome i) \<Longrightarrow> \<not> oi_terminatedOnApproval i \<Longrightarrow>
     sessionStateAfterTurn (deriveTurnOutcome i) = IdleAfter"
  by (simp add: deriveTurnOutcome_def sessionStateAfterTurn_def Let_def)

lemma awaiting_has_approval:
  "sessionStateAfterTurn (deriveTurnOutcome i) = AwaitingAfter \<Longrightarrow>
     \<exists>k \<in> set (oi_pendingApprovals i). k \<noteq> Some ''input''"
  by (auto simp: deriveTurnOutcome_def sessionStateAfterTurn_def approvalBlocksInput_def Let_def list_ex_iff split: if_splits)

section \<open>Finding an interrupted turn\<close>

text \<open>The entries that the search passes over.\<close>

definition passed_over :: "session_entry \<Rightarrow> bool" where
  "passed_over e \<longleftrightarrow> en_type e \<noteq> EAssistant \<and>
     (en_type e = EUser \<longrightarrow> isOverheardEntry e \<or> isResumeNote (entryText e))"

definition work_entries :: "session_entry list \<Rightarrow> nat" where
  "work_entries es = length (filter (\<lambda>e. en_type e \<in> {EToolCall, EToolResult}) es)"

lemma work_entries_rev [simp]: "work_entries (rev es) = work_entries es"
  by (simp add: work_entries_def rev_filter [symmetric])

lemma partial_from_some:
  "partial_from t work es = Some p \<longleftrightarrow>
     (\<exists>u e v. es = u @ e # v \<and> list_all passed_over u \<and> en_type e = EUser \<and> \<not> passed_over e \<and>
        js_startsWith (entryText e) t \<and> p = \<lparr>pt_userSeq = en_seq e, pt_workEntries = work + work_entries u\<rparr>)"
proof (induction es arbitrary: work)
  case (Cons e es)
  show ?case
  proof (cases "passed_over e")
    case True
    define k where "k = (if en_type e \<in> {EToolCall, EToolResult} then Suc work else work)"
    have step: "partial_from t work (e # es) = partial_from t k es" "k = work + work_entries [e]"
      using True by (auto simp: passed_over_def k_def work_entries_def)
    have "(\<exists>u f v. e # es = u @ f # v \<and> list_all passed_over u \<and> en_type f = EUser \<and> \<not> passed_over f \<and>
        js_startsWith (entryText f) t \<and> p = \<lparr>pt_userSeq = en_seq f, pt_workEntries = work + work_entries u\<rparr>) \<longleftrightarrow>
      (\<exists>u f v. es = u @ f # v \<and> list_all passed_over u \<and> en_type f = EUser \<and> \<not> passed_over f \<and>
        js_startsWith (entryText f) t \<and> p = \<lparr>pt_userSeq = en_seq f, pt_workEntries = k + work_entries u\<rparr>)"
      (is "?L \<longleftrightarrow> ?R")
    proof
      assume ?L
      then obtain u f v where *: "e # es = u @ f # v" "list_all passed_over u" "en_type f = EUser" "\<not> passed_over f"
        "js_startsWith (entryText f) t" "p = \<lparr>pt_userSeq = en_seq f, pt_workEntries = work + work_entries u\<rparr>"
        by blast
      then obtain u' where "u = e # u'"
        using True by (cases u) auto
      then show ?R
        using * step(2) by (intro exI [of _ u'] exI [of _ f] exI [of _ v]) (auto simp: work_entries_def)
    next
      assume ?R
      then obtain u f v where "es = u @ f # v" "list_all passed_over u" "en_type f = EUser" "\<not> passed_over f"
        "js_startsWith (entryText f) t" "p = \<lparr>pt_userSeq = en_seq f, pt_workEntries = k + work_entries u\<rparr>"
        by blast
      then show ?L
        using True step(2) by (intro exI [of _ "e # u"] exI [of _ f] exI [of _ v]) (auto simp: work_entries_def)
    qed
    then show ?thesis
      using step(1) Cons.IH [of k] by simp
  next
    case False
    then have *: "partial_from t work (e # es) =
        (if en_type e = EUser \<and> js_startsWith (entryText e) t then Some \<lparr>pt_userSeq = en_seq e, pt_workEntries = work\<rparr> else None)"
      by (auto simp: passed_over_def)
    have **: "u = [] \<and> f = e" if "e # es = u @ f # v" "list_all passed_over u" for u f v
      using that False by (cases u) auto
    show ?thesis
    proof
      assume "partial_from t work (e # es) = Some p"
      then have "en_type e = EUser" "js_startsWith (entryText e) t" "p = \<lparr>pt_userSeq = en_seq e, pt_workEntries = work\<rparr>"
        unfolding * by (simp_all split: if_splits)
      then show "\<exists>u f v. e # es = u @ f # v \<and> list_all passed_over u \<and> en_type f = EUser \<and> \<not> passed_over f \<and>
          js_startsWith (entryText f) t \<and> p = \<lparr>pt_userSeq = en_seq f, pt_workEntries = work + work_entries u\<rparr>"
        using False by (intro exI [of _ "[]"] exI [of _ e] exI [of _ es]) (simp add: work_entries_def)
    next
      assume "\<exists>u f v. e # es = u @ f # v \<and> list_all passed_over u \<and> en_type f = EUser \<and> \<not> passed_over f \<and>
          js_startsWith (entryText f) t \<and> p = \<lparr>pt_userSeq = en_seq f, pt_workEntries = work + work_entries u\<rparr>"
      then obtain u f v where f: "e # es = u @ f # v" "list_all passed_over u" "en_type f = EUser" "js_startsWith (entryText f) t"
        "p = \<lparr>pt_userSeq = en_seq f, pt_workEntries = work + work_entries u\<rparr>"
        by blast
      then have "u = []" "f = e"
        using ** by blast+
      then show "partial_from t work (e # es) = Some p"
        unfolding * using f by (simp add: work_entries_def)
    qed
  qed
qed simp

text \<open>A turn counts as interrupted exactly when its request is the last message of a user, resume notes and
  overheard messages aside, that no answer follows; its work is the tool entries after that message.\<close>

theorem partial_turn_found:
  "findTrailingPartialTurn entries inputText = Some p \<longleftrightarrow>
     js_trim inputText \<noteq> [] \<and>
     (\<exists>before e after. entries = before @ e # after \<and> list_all passed_over after \<and> en_type e = EUser \<and> \<not> passed_over e \<and>
        js_startsWith (entryText e) (js_trim inputText) \<and>
        p = \<lparr>pt_userSeq = en_seq e, pt_workEntries = work_entries after\<rparr>)"
proof -
  have rev_split: "rev entries = u @ e # v \<longleftrightarrow> entries = rev v @ e # rev u" for u e v
    by (auto simp: rev_eq_append_conv rev_swap)
  have "(\<exists>u e v. rev entries = u @ e # v \<and> list_all passed_over u \<and> en_type e = EUser \<and> \<not> passed_over e \<and>
        js_startsWith (entryText e) t \<and> p = \<lparr>pt_userSeq = en_seq e, pt_workEntries = work_entries u\<rparr>) \<longleftrightarrow>
      (\<exists>before e after. entries = before @ e # after \<and> list_all passed_over after \<and> en_type e = EUser \<and> \<not> passed_over e \<and>
        js_startsWith (entryText e) t \<and> p = \<lparr>pt_userSeq = en_seq e, pt_workEntries = work_entries after\<rparr>)"
    (is "?L \<longleftrightarrow> ?R") for t
  proof
    assume ?L
    then obtain u e v where u: "rev entries = u @ e # v" "list_all passed_over u" "en_type e = EUser" "\<not> passed_over e"
      "js_startsWith (entryText e) t" "p = \<lparr>pt_userSeq = en_seq e, pt_workEntries = work_entries u\<rparr>"
      by blast
    then show ?R
      using rev_split by (intro exI [of _ "rev v"] exI [of _ e] exI [of _ "rev u"]) (simp add: work_entries_rev)
  next
    assume ?R
    then obtain u e v where u: "entries = v @ e # u" "list_all passed_over u" "en_type e = EUser" "\<not> passed_over e"
      "js_startsWith (entryText e) t" "p = \<lparr>pt_userSeq = en_seq e, pt_workEntries = work_entries u\<rparr>"
      by blast
    then show ?L
      by (intro exI [of _ "rev u"] exI [of _ e] exI [of _ "rev v"]) (simp add: work_entries_rev)
  qed
  then show ?thesis
    by (auto simp: findTrailingPartialTurn_def Let_def partial_from_some)
qed

text \<open>The note of a resumed turn is never taken for the request of one.\<close>

lemma resume_note_is_note: "isResumeNote (resumeNote bg work)"
proof -
  have "dropWhile js_ws (NOTE_HEAD @ x) = NOTE_HEAD @ x" for x
    by (simp add: NOTE_HEAD_def js_ws_def)
  then have "isResumeNote (NOTE_HEAD @ x)" for x
    by (simp add: isResumeNote_def)
  moreover have "\<exists>x. resumeNote bg work = NOTE_HEAD @ x"
    by (simp add: resumeNote_def)
  ultimately show ?thesis by metis
qed

section \<open>Reading the key of a fire\<close>

lemma fire_key_read:
  assumes "t \<in> {''cron'', ''webhook'', ''monitor''}" "i \<noteq> []" "CHR '':'' \<notin> set i" "slot \<noteq> []" "\<not> list_ex line_terminator slot"
  shows "parseWakeFireKey (Some (t @ '':'' @ i @ '':'' @ slot)) =
     Some \<lparr>fk_trigger = t, fk_sourceId = i, fk_fireSlot = Some slot, fk_fireKey = t @ '':'' @ i @ '':'' @ slot\<rparr>"
proof -
  have "CHR '':'' \<notin> set t"
    using assms(1) by auto
  then have "js_split (t @ '':'' @ i @ '':'' @ slot) CHR '':'' = t # i # js_split slot CHR '':''"
    using assms(3) js_split_append [of t] js_split_append [of i] by (simp add: js_split_no_sep)
  then show ?thesis
    using assms js_join_split [of "CHR '':''" slot] by (simp add: parseWakeFireKey_def Let_def)
qed

end
