(* ===== verification/Process_Registry.thy ===== *)
theory Process_Registry
  imports Durable_Map
begin

text \<open>
  Background processes: the registry of \<open>processes/process-registry.ts\<close> (in memory), the polling of
  \<open>sandbox/process-poll.ts\<close> and \<open>sandbox/await-process-exit.ts\<close>, the reaper of \<open>processes/process-reaper.ts\<close> with its
  kill hook and \<open>processes/reconcile.ts\<close>. The sandbox, whose backends are remote machines, is a record of functions on a
  state that holds the clock too.
\<close>

section \<open>The registry\<close>

datatype process_status = RunningP | ExitedP | ReapedP

record process_record =
  pr_processId :: string
  pr_scopeId :: scope_id
  pr_kind :: string
  pr_command :: string
  pr_startedAt :: ms
  pr_expiresAt :: ms
  pr_status :: process_status
  pr_sessionRef :: "string option"
  pr_runId :: "string option"

record new_process =
  np_processId :: string
  np_scopeId :: scope_id
  np_kind :: string
  np_command :: string
  np_ttlMs :: ms
  np_sessionRef :: "string option"
  np_runId :: "string option"

type_synonym process_registry = "(string, process_record) jsmap"

definition DECLARED_KINDS :: "string list" where
  "DECLARED_KINDS = [''build'', ''dev-server'', ''background'']"

definition isDeclaredKind :: "string \<Rightarrow> bool" where
  "isDeclaredKind k \<longleftrightarrow> k \<in> set DECLARED_KINDS"

definition newRecord :: "new_process \<Rightarrow> ms \<Rightarrow> process_record outcome" where
  "newRecord n now =
     (if \<not> isDeclaredKind (np_kind n) then Inl (Error (''process kind not declared: '' @ np_kind n))
      else Inr \<lparr>pr_processId = np_processId n, pr_scopeId = np_scopeId n, pr_kind = np_kind n, pr_command = np_command n,
                pr_startedAt = now, pr_expiresAt = now + np_ttlMs n, pr_status = RunningP,
                pr_sessionRef = (if truthy (np_sessionRef n) then np_sessionRef n else None),
                pr_runId = (if truthy (np_runId n) then np_runId n else None)\<rparr>)"

definition register_process :: "new_process \<Rightarrow> ms \<Rightarrow> process_registry \<Rightarrow> process_registry \<times> process_record outcome" where
  "register_process n now reg =
     (case newRecord n now of Inl e \<Rightarrow> (reg, Inl e) | Inr row \<Rightarrow> (map_set (pr_processId row) row reg, Inr row))"

definition get_process :: "string \<Rightarrow> process_registry \<Rightarrow> process_record option" where
  "get_process i reg = map_get reg i"

definition listByScope :: "scope_id \<Rightarrow> process_registry \<Rightarrow> process_record list" where
  "listByScope sc reg = filter (\<lambda>r. pr_scopeId r = sc) (map_values reg)"

definition process_live :: "ms \<Rightarrow> process_record \<Rightarrow> bool" where
  "process_live now r \<longleftrightarrow> pr_status r = RunningP \<and> now < pr_expiresAt r"

definition liveByScope :: "scope_id \<Rightarrow> ms \<Rightarrow> process_registry \<Rightarrow> process_record list" where
  "liveByScope sc now reg = filter (\<lambda>r. pr_scopeId r = sc \<and> process_live now r) (map_values reg)"

definition listLive :: "ms \<Rightarrow> process_registry \<Rightarrow> process_record list" where
  "listLive now reg = filter (process_live now) (map_values reg)"

definition markStatus :: "string \<Rightarrow> process_status \<Rightarrow> process_registry \<Rightarrow> process_registry \<times> bool" where
  "markStatus i st reg =
     (case map_get reg i of None \<Rightarrow> (reg, False) | Some row \<Rightarrow> (map_set i (row\<lparr>pr_status := st\<rparr>) reg, True))"

definition process_expired :: "ms \<Rightarrow> process_record \<Rightarrow> bool" where
  "process_expired now r \<longleftrightarrow> pr_status r = RunningP \<and> pr_expiresAt r \<le> now"

definition listExpired :: "ms \<Rightarrow> process_registry \<Rightarrow> process_record list" where
  "listExpired now reg = filter (process_expired now) (map_values reg)"

definition delete_process :: "string \<Rightarrow> process_registry \<Rightarrow> process_registry" where
  "delete_process i reg = map_delete i reg"

section \<open>The sandbox\<close>

datatype process_state = ProcRunning | ProcExited int

record read_result =
  rd_chunks :: string
  rd_cursor :: int
  rd_status :: process_state

record process_session =
  pse_processId :: string
  pse_status :: process_state

record read_options =
  ro_sinceCursor :: int
  ro_maxBytes :: "nat option"
  ro_waitMs :: ms

record 's process_sandbox =
  sb_now :: "'s \<Rightarrow> ms"
  sb_sleep :: "ms \<Rightarrow> 's \<Rightarrow> 's"
  sb_provision :: "scope_id \<Rightarrow> 's \<Rightarrow> 's \<times> string outcome"
  sb_readProcess :: "string \<Rightarrow> string \<Rightarrow> read_options \<Rightarrow> 's \<Rightarrow> 's \<times> read_result outcome"
  sb_signalProcess :: "string \<Rightarrow> string \<Rightarrow> string \<Rightarrow> 's \<Rightarrow> 's \<times> unit outcome"
  sb_listProcesses :: "string \<Rightarrow> 's \<Rightarrow> 's \<times> process_session list outcome"
  sb_teardown :: "string \<Rightarrow> 's \<Rightarrow> 's \<times> unit outcome"

definition processIsGone :: "js_error \<Rightarrow> bool" where
  "processIsGone e = js_startsWith (js_toLowerCase (errMessage e)) ''no such process''"

fun has_exited :: "process_state \<Rightarrow> bool" where
  "has_exited ProcRunning = False"
| "has_exited (ProcExited c) = True"

record poll_options =
  po_deadlineMs :: ms
  po_waitMs :: "ms option"
  po_sinceCursor :: "int option"
  po_collect :: "bool option"
  po_until :: "(read_result \<Rightarrow> string \<Rightarrow> bool) option"

record poll_result =
  pl_output :: string
  pl_cursor :: int
  pl_status :: process_state

text \<open>One argument of the loop bounds its rounds; \<^term>\<open>None\<close> means that they did not suffice.\<close>

fun poll_rounds ::
  "nat \<Rightarrow> 's process_sandbox \<Rightarrow> string \<Rightarrow> string \<Rightarrow> poll_options \<Rightarrow> ms \<Rightarrow> int \<Rightarrow> string \<Rightarrow> 's \<Rightarrow>
   ('s \<times> poll_result outcome) option" where
  "poll_rounds 0 sb h i opts deadline cursor output s = None"
| "poll_rounds (Suc n) sb h i opts deadline cursor output s =
     (let startedAt = sb_now sb s;
          waitMs = (case po_waitMs opts of None \<Rightarrow> 1000 | Some w \<Rightarrow> w) in
      case sb_readProcess sb h i \<lparr>ro_sinceCursor = cursor, ro_maxBytes = None,
             ro_waitMs = max 0 (min (deadline - startedAt) waitMs)\<rparr> s of
        (s', Inl e) \<Rightarrow> Some (s', Inl e)
      | (s', Inr r) \<Rightarrow>
          (let output' = (if po_collect opts = Some False then output else output @ rd_chunks r) in
           if has_exited (rd_status r) \<or> (case po_until opts of None \<Rightarrow> False | Some f \<Rightarrow> f r output') \<or> deadline \<le> sb_now sb s'
           then Some (s', Inr \<lparr>pl_output = output', pl_cursor = rd_cursor r, pl_status = rd_status r\<rparr>)
           else poll_rounds n sb h i opts deadline (rd_cursor r) output'
                  (if sb_now sb s' - startedAt < 25 then sb_sleep sb (min 50 (max 1 (deadline - sb_now sb s'))) s' else s')))"

definition pollProcess ::
  "nat \<Rightarrow> 's process_sandbox \<Rightarrow> string \<Rightarrow> string \<Rightarrow> poll_options \<Rightarrow> 's \<Rightarrow> ('s \<times> poll_result outcome) option" where
  "pollProcess n sb h i opts s =
     poll_rounds n sb h i opts (sb_now sb s + po_deadlineMs opts)
       (case po_sinceCursor opts of None \<Rightarrow> 0 | Some c \<Rightarrow> c) [] s"

definition awaitProcessExit ::
  "nat \<Rightarrow> 's process_sandbox \<Rightarrow> string \<Rightarrow> string \<Rightarrow> ms \<Rightarrow> 's \<Rightarrow> ('s \<times> process_state outcome) option" where
  "awaitProcessExit n sb h i graceMs s =
     map_option (\<lambda>(s', r). (s', map_sum id pl_status r))
       (pollProcess n sb h i \<lparr>po_deadlineMs = graceMs, po_waitMs = None, po_sinceCursor = None, po_collect = Some False,
          po_until = None\<rparr> s)"

section \<open>Killing a process\<close>

text \<open>Signalling a process and waiting until it exits or the grace has passed.\<close>

definition signal_wait ::
  "nat \<Rightarrow> 's process_sandbox \<Rightarrow> string \<Rightarrow> string \<Rightarrow> string \<Rightarrow> ms \<Rightarrow> 's \<Rightarrow> ('s \<times> process_state outcome) option" where
  "signal_wait n sb h i sig graceMs s =
     (case sb_signalProcess sb h i sig s of
        (s', Inl e) \<Rightarrow> Some (s', Inl e)
      | (s', Inr _) \<Rightarrow> awaitProcessExit n sb h i graceMs s')"

definition survived :: "string \<Rightarrow> js_error" where
  "survived i = Error (''process survived TERM+KILL: '' @ i)"

definition term_then_kill ::
  "nat \<Rightarrow> 's process_sandbox \<Rightarrow> ms \<Rightarrow> ms \<Rightarrow> string \<Rightarrow> string \<Rightarrow> 's \<Rightarrow> ('s \<times> unit outcome) option" where
  "term_then_kill n sb termGraceMs killGraceMs h i s =
     (case signal_wait n sb h i ''TERM'' termGraceMs s of
        None \<Rightarrow> None
      | Some (s', Inl e) \<Rightarrow> Some (s', Inl e)
      | Some (s', Inr st) \<Rightarrow>
          if has_exited st then Some (s', Inr ())
          else map_option (map_prod id (\<lambda>r. case r of Inl e \<Rightarrow> Inl e | Inr st' \<Rightarrow> if has_exited st' then Inr () else Inl (survived i)))
                 (signal_wait n sb h i ''KILL'' killGraceMs s'))"

definition DEFAULT_TERM_GRACE_MS :: ms where
  "DEFAULT_TERM_GRACE_MS = 5000"

definition DEFAULT_KILL_GRACE_MS :: ms where
  "DEFAULT_KILL_GRACE_MS = 2000"

text \<open>An error of the teardown replaces the one of the body.\<close>

definition createReaperKillHook ::
  "nat \<Rightarrow> 's process_sandbox \<Rightarrow> ms option \<Rightarrow> ms option \<Rightarrow> process_record \<Rightarrow> 's \<Rightarrow> ('s \<times> unit outcome) option" where
  "createReaperKillHook n sb termGraceMs killGraceMs r s =
     (case sb_provision sb (pr_scopeId r) s of
        (s', Inl e) \<Rightarrow> Some (s', Inl e)
      | (s', Inr h) \<Rightarrow>
          map_option
            (\<lambda>(u, res). (case sb_teardown sb h u of
                (v, Inl e) \<Rightarrow> (v, Inl e)
              | (v, Inr _) \<Rightarrow> (v, case res of Inl e \<Rightarrow> if processIsGone e then Inr () else Inl e | Inr _ \<Rightarrow> Inr ())))
            (term_then_kill n sb (case termGraceMs of None \<Rightarrow> DEFAULT_TERM_GRACE_MS | Some g \<Rightarrow> g)
               (case killGraceMs of None \<Rightarrow> DEFAULT_KILL_GRACE_MS | Some g \<Rightarrow> g) h (pr_processId r) s'))"

section \<open>The reaper\<close>

text \<open>The registry beside the state of the rest of the program. While a hook waits, both may change.\<close>

record 'x process_world =
  pw_processes :: process_registry
  pw_rest :: 'x

type_synonym 'x process_hook = "process_record \<Rightarrow> 'x process_world \<Rightarrow> 'x process_world \<times> unit outcome"

definition reap_process ::
  "'x process_hook option \<Rightarrow> 'x process_hook option \<Rightarrow> process_record \<Rightarrow> 'x process_world \<times> nat \<Rightarrow> 'x process_world \<times> nat" where
  "reap_process kill onReaped r wn =
     (let w = fst wn; n = snd wn in
      case (case kill of None \<Rightarrow> (w, Inr ()) | Some k \<Rightarrow> k r w) of
        (w', Inl e) \<Rightarrow> (w', n)
      | (w', Inr _) \<Rightarrow>
          (let (reg, flipped) = markStatus (pr_processId r) ReapedP (pw_processes w');
               w'' = w'\<lparr>pw_processes := reg\<rparr> in
           if \<not> flipped then (w'', n)
           else ((case onReaped of None \<Rightarrow> w'' | Some f \<Rightarrow> fst (f r w'')), Suc n)))"

definition reaper_sweep ::
  "'x process_hook option \<Rightarrow> 'x process_hook option \<Rightarrow> ms \<Rightarrow> 'x process_world \<Rightarrow> 'x process_world \<times> nat" where
  "reaper_sweep kill onReaped now w =
     fold (reap_process kill onReaped) (listExpired now (pw_processes w)) (w, 0)"

section \<open>Reconciliation with the sandbox\<close>

text \<open>The last session of an id counts, as in \<open>new Map\<close>.\<close>

definition backend_status :: "process_session list \<Rightarrow> string \<Rightarrow> process_state option" where
  "backend_status live i = map_of (map (\<lambda>p. (pse_processId p, pse_status p)) (rev live)) i"

definition reconcile_one :: "process_session list \<Rightarrow> process_record \<Rightarrow> process_registry \<Rightarrow> process_registry" where
  "reconcile_one live r reg =
     (if backend_status live (pr_processId r) = Some ProcRunning then reg else fst (markStatus (pr_processId r) ExitedP reg))"

text \<open>The registry as it is while the sandbox lists its processes is the one that is marked.\<close>

definition reconcileProcesses ::
  "'x process_world process_sandbox \<Rightarrow> string \<Rightarrow> scope_id \<Rightarrow> 'x process_world \<Rightarrow> 'x process_world \<times> unit outcome" where
  "reconcileProcesses sb h sc w =
     (let running = filter (\<lambda>r. pr_status r = RunningP) (listByScope sc (pw_processes w)) in
      if running = [] then (w, Inr ())
      else (case sb_listProcesses sb h w of
              (w', Inl e) \<Rightarrow> (w', Inl e)
            | (w', Inr live) \<Rightarrow> (w'\<lparr>pw_processes := fold (reconcile_one live) running (pw_processes w')\<rparr>, Inr ())))"

section \<open>Rows\<close>

text \<open>Every row is stored under its id.\<close>

definition registry_keyed :: "process_registry \<Rightarrow> bool" where
  "registry_keyed reg \<longleftrightarrow> map_wf reg \<and> map_all (\<lambda>i r. pr_processId r = i) reg"

lemma registry_keyed_Nil [simp]: "registry_keyed []"
  by (simp add: registry_keyed_def)

lemma registerI: "registry_keyed reg \<Longrightarrow> registry_keyed (fst (register_process n now reg))"
  by (auto simp: registry_keyed_def register_process_def newRecord_def)

lemma markStatusI: "registry_keyed reg \<Longrightarrow> registry_keyed (fst (markStatus i st reg))"
  by (auto simp: registry_keyed_def markStatus_def map_all_def split: option.split)

lemma deleteI: "registry_keyed reg \<Longrightarrow> registry_keyed (delete_process i reg)"
  by (auto simp: registry_keyed_def delete_process_def)

lemma registered_is_live:
  "snd (register_process n now reg) = Inr row \<Longrightarrow> 0 < np_ttlMs n \<Longrightarrow>
     get_process (np_processId n) (fst (register_process n now reg)) = Some row \<and> process_live now row"
  by (auto simp: register_process_def newRecord_def get_process_def process_live_def split: if_splits)

lemma undeclared_refused:
  "\<not> isDeclaredKind (np_kind n) \<Longrightarrow>
     register_process n now reg = (reg, Inl (Error (''process kind not declared: '' @ np_kind n)))"
  by (simp add: register_process_def newRecord_def)

lemma live_not_expired: "process_live now r \<Longrightarrow> \<not> process_expired now r"
  by (simp add: process_live_def process_expired_def)

lemma running_live_or_expired: "pr_status r = RunningP \<Longrightarrow> process_live now r \<or> process_expired now r"
  by (auto simp: process_live_def process_expired_def)

lemma get_markStatus:
  "map_get (fst (markStatus i st reg)) j =
     (if j = i then map_option (\<lambda>r. r\<lparr>pr_status := st\<rparr>) (map_get reg i) else map_get reg j)"
  by (simp add: markStatus_def split: option.split)

lemma markStatus_found: "snd (markStatus i st reg) \<longleftrightarrow> map_has reg i"
  by (simp add: markStatus_def split: option.split)

text \<open>Marking every row of a list is marking the rows with its ids.\<close>

lemma get_mark_all:
  "map_get (fold (\<lambda>r. fst \<circ> markStatus (pr_processId r) st) rs reg) j =
     (if j \<in> pr_processId ` set rs then map_option (\<lambda>r. r\<lparr>pr_status := st\<rparr>) (map_get reg j) else map_get reg j)"
proof (induction rs arbitrary: reg)
  case (Cons r rs)
  then show ?case
    by (auto simp: get_markStatus option.map_comp comp_def)
qed simp

section \<open>Polling ends\<close>

text \<open>Time does not run backwards while the sandbox is read, and a sleep lasts at least as long as asked.\<close>

definition clock_runs :: "'s process_sandbox \<Rightarrow> bool" where
  "clock_runs sb \<longleftrightarrow>
     (\<forall>h i opts s. sb_now sb s \<le> sb_now sb (fst (sb_readProcess sb h i opts s))) \<and>
     (\<forall>k s. sb_now sb s + k \<le> sb_now sb (sb_sleep sb k s))"

lemma poll_rounds_end:
  assumes "clock_runs sb"
  shows "nat (deadline - sb_now sb s) < n \<Longrightarrow> poll_rounds n sb h i opts deadline cursor acc s \<noteq> None"
proof (induction n arbitrary: s cursor acc)
  case (Suc n)
  define ro where "ro = \<lparr>ro_sinceCursor = cursor, ro_maxBytes = None,
    ro_waitMs = max 0 (min (deadline - sb_now sb s) (case po_waitMs opts of None \<Rightarrow> 1000 | Some w \<Rightarrow> w))\<rparr>"
  obtain s' res where r: "sb_readProcess sb h i ro s = (s', res)"
    by fastforce
  have le: "sb_now sb s \<le> sb_now sb s'"
    using assms r unfolding clock_runs_def by (metis fst_conv)
  define s'' where "s'' = (if sb_now sb s' - sb_now sb s < 25 then sb_sleep sb (min 50 (max 1 (deadline - sb_now sb s'))) s' else s')"
  have slept: "sb_now sb s' + k \<le> sb_now sb (sb_sleep sb k s')" for k
    using assms by (simp add: clock_runs_def)
  have "sb_now sb s < sb_now sb s''"
    using slept [of "min 50 (max 1 (deadline - sb_now sb s'))"] le by (auto simp: s''_def)
  then have "nat (deadline - sb_now sb s'') < n" if "sb_now sb s' < deadline"
    using that Suc.prems le by linarith
  then have next_round: "poll_rounds n sb h i opts deadline c out s'' \<noteq> None" if "sb_now sb s' < deadline" for c out
    using that Suc.IH by blast
  show ?case
    using r next_round by (auto simp: Let_def ro_def [symmetric] s''_def not_le split: sum.split)
qed simp

text \<open>C40: Polling a process returns: as many rounds as the milliseconds it may last, and one more, suffice, whatever the
  process does.\<close>

theorem poll_returns:
  assumes "clock_runs sb" "nat (po_deadlineMs opts) < n"
  shows "\<exists>s' r. pollProcess n sb h i opts s = Some (s', r)"
proof -
  have "pollProcess n sb h i opts s \<noteq> None"
    using assms poll_rounds_end [OF assms(1), of "sb_now sb s + po_deadlineMs opts" s n] by (simp add: pollProcess_def)
  then show ?thesis by auto
qed

text \<open>A process that never exits, on a machine whose clock only moves when it is slept on.\<close>

definition still_machine :: "ms process_sandbox" where
  "still_machine =
     \<lparr>sb_now = id, sb_sleep = (\<lambda>k s. s + k), sb_provision = (\<lambda>sc s. (s, Inr sc)),
      sb_readProcess = (\<lambda>h i ro s. (s, Inr \<lparr>rd_chunks = ''.'', rd_cursor = ro_sinceCursor ro + 1, rd_status = ProcRunning\<rparr>)),
      sb_signalProcess = (\<lambda>h i sig s. (s, Inr ())), sb_listProcesses = (\<lambda>h s. (s, Inr [])), sb_teardown = (\<lambda>h s. (s, Inr ()))\<rparr>"

lemma poll_returns_witness:
  "\<exists>s' r. pollProcess 121 still_machine ''h'' ''p''
      \<lparr>po_deadlineMs = 120, po_waitMs = None, po_sinceCursor = None, po_collect = None, po_until = None\<rparr> 7 = Some (s', r)"
  by (rule poll_returns) (simp_all add: clock_runs_def still_machine_def)

lemma still_machine_polled:
  "pollProcess 4 still_machine ''h'' ''p''
      \<lparr>po_deadlineMs = 120, po_waitMs = None, po_sinceCursor = None, po_collect = None, po_until = None\<rparr> 7 =
     Some (127, Inr \<lparr>pl_output = ''....'', pl_cursor = 4, pl_status = ProcRunning\<rparr>)"
  by code_simp

lemma await_returns: "clock_runs sb \<Longrightarrow> nat graceMs < n \<Longrightarrow> awaitProcessExit n sb h i graceMs s \<noteq> None"
  using poll_returns [of sb] by (auto simp: awaitProcessExit_def)

section \<open>What a kill confirms\<close>

text \<open>No read of the process reports its exit, and no error says that it is gone.\<close>

definition never_ends :: "'s process_sandbox \<Rightarrow> string \<Rightarrow> bool" where
  "never_ends sb i \<longleftrightarrow>
     (\<forall>h opts s. case snd (sb_readProcess sb h i opts s) of Inl e \<Rightarrow> \<not> processIsGone e | Inr r \<Rightarrow> rd_status r = ProcRunning) \<and>
     (\<forall>h sig s. case snd (sb_signalProcess sb h i sig s) of Inl e \<Rightarrow> \<not> processIsGone e | Inr _ \<Rightarrow> True)"

definition not_confirmed :: "process_state outcome \<Rightarrow> bool" where
  "not_confirmed r = (case r of Inl e \<Rightarrow> \<not> processIsGone e | Inr st \<Rightarrow> \<not> has_exited st)"

lemma poll_unconfirmed:
  assumes "never_ends sb i"
  shows "poll_rounds n sb h i opts deadline cursor acc s = Some (s', r) \<Longrightarrow> not_confirmed (map_sum id pl_status r)"
proof (induction n arbitrary: s cursor acc)
  case (Suc n)
  define ro where "ro = \<lparr>ro_sinceCursor = cursor, ro_maxBytes = None,
    ro_waitMs = max 0 (min (deadline - sb_now sb s) (case po_waitMs opts of None \<Rightarrow> 1000 | Some w \<Rightarrow> w))\<rparr>"
  obtain u res where u: "sb_readProcess sb h i ro s = (u, res)"
    by fastforce
  then have res: "case res of Inl e \<Rightarrow> \<not> processIsGone e | Inr r \<Rightarrow> rd_status r = ProcRunning"
    using assms unfolding never_ends_def by (metis snd_conv)
  show ?case
  proof (cases res)
    case (Inl e)
    then show ?thesis
      using Suc.prems u res by (auto simp: Let_def ro_def [symmetric] not_confirmed_def)
  next
    case (Inr rr)
    then show ?thesis
      using Suc.prems Suc.IH u res by (auto simp: Let_def ro_def [symmetric] not_confirmed_def split: if_splits)
  qed
qed simp

lemma signal_wait_unconfirmed:
  assumes "never_ends sb i" "signal_wait n sb h i sig grace s = Some (s', r)"
  shows "not_confirmed r"
proof (cases "sb_signalProcess sb h i sig s")
  case (Pair u res)
  show ?thesis
  proof (cases res)
    case (Inl e)
    have "case snd (sb_signalProcess sb h i sig s) of Inl e \<Rightarrow> \<not> processIsGone e | Inr _ \<Rightarrow> True"
      using assms(1) by (simp add: never_ends_def)
    then show ?thesis
      using assms(2) Pair Inl by (auto simp: signal_wait_def not_confirmed_def)
  next
    case (Inr x)
    then show ?thesis
      using assms(2) Pair poll_unconfirmed [OF assms(1)]
      by (auto simp: signal_wait_def awaitProcessExit_def pollProcess_def)
  qed
qed

lemma term_kill_unconfirmed:
  assumes "never_ends sb i" "term_then_kill n sb a b h i s = Some (s', r)"
  shows "r = Inl (survived i) \<or> (\<exists>e. r = Inl e \<and> \<not> processIsGone e)"
proof -
  obtain u x where u: "signal_wait n sb h i ''TERM'' a s = Some (u, x)"
    using assms(2) by (cases "signal_wait n sb h i ''TERM'' a s") (auto simp: term_then_kill_def)
  have x: "not_confirmed x"
    using assms(1) u by (rule signal_wait_unconfirmed)
  show ?thesis
  proof (cases x)
    case (Inl e)
    then show ?thesis
      using assms(2) u x by (auto simp: term_then_kill_def not_confirmed_def)
  next
    case (Inr st)
    then have "\<not> has_exited st"
      using x by (simp add: not_confirmed_def)
    then obtain v y where v: "signal_wait n sb h i ''KILL'' b u = Some (v, y)"
      using assms(2) u Inr by (auto simp: term_then_kill_def)
    then have "not_confirmed y"
      by (rule signal_wait_unconfirmed [OF assms(1)])
    then show ?thesis
      using assms(2) u v Inr \<open>\<not> has_exited st\<close> by (auto simp: term_then_kill_def not_confirmed_def split: sum.splits)
  qed
qed

lemma survived_not_gone: "\<not> processIsGone (survived i)"
proof
  assume "processIsGone (survived i)"
  then have "take 1 (js_toLowerCase (''process survived TERM+KILL: '' @ i)) = take 1 ''no such process''"
    unfolding processIsGone_def survived_def js_startsWith_iff errMessage.simps by fastforce
  then show False
    by (simp add: js_toLowerCase_def js_lower_char_def)
qed

lemma hook_needs_exit:
  assumes "never_ends sb (pr_processId r)" "createReaperKillHook n sb a b r s = Some (s', res)"
  shows "\<exists>e. res = Inl e"
proof (cases "sb_provision sb (pr_scopeId r) s")
  case (Pair u p)
  show ?thesis
  proof (cases p)
    case (Inl e)
    then show ?thesis
      using assms(2) Pair by (auto simp: createReaperKillHook_def)
  next
    case (Inr h)
    then obtain v x where x: "term_then_kill n sb (case a of None \<Rightarrow> DEFAULT_TERM_GRACE_MS | Some g \<Rightarrow> g)
        (case b of None \<Rightarrow> DEFAULT_KILL_GRACE_MS | Some g \<Rightarrow> g) h (pr_processId r) u = Some (v, x)"
      using assms(2) Pair by (auto simp: createReaperKillHook_def)
    then have "\<exists>e. x = Inl e \<and> \<not> processIsGone e"
      using term_kill_unconfirmed [OF assms(1) x] survived_not_gone by blast
    then show ?thesis
      using assms(2) Pair Inr x by (auto simp: createReaperKillHook_def split: prod.splits sum.splits)
  qed
qed

section \<open>What a sweep reaps\<close>

text \<open>Hooks that leave the registry alone; the kill fails for the rows that are not \<open>ok\<close>.\<close>

definition quiet_kill :: "(process_record \<Rightarrow> bool) \<Rightarrow> 'x process_hook \<Rightarrow> bool" where
  "quiet_kill ok kill \<longleftrightarrow>
     (\<forall>r w. pw_processes (fst (kill r w)) = pw_processes w \<and> (snd (kill r w) = Inr ()) = ok r)"

definition quiet_hook :: "'x process_hook \<Rightarrow> bool" where
  "quiet_hook f \<longleftrightarrow> (\<forall>r w. pw_processes (fst (f r w)) = pw_processes w)"

lemma reap_one_quiet:
  assumes "quiet_kill ok kill" "quiet_hook f" "map_has (pw_processes w) (pr_processId r)"
  shows "pw_processes (fst (reap_process (Some kill) (Some f) r (w, n))) =
           (if ok r then fst (markStatus (pr_processId r) ReapedP (pw_processes w)) else pw_processes w)"
    and "snd (reap_process (Some kill) (Some f) r (w, n)) = (if ok r then Suc n else n)"
proof -
  obtain w' x where k: "kill r w = (w', x)"
    by fastforce
  then have same: "pw_processes w' = pw_processes w" and ok: "(x = Inr ()) = ok r"
    using assms(1) unfolding quiet_kill_def by (metis fst_conv, metis snd_conv)
  have f: "pw_processes (fst (f r v)) = pw_processes v" for v
    using assms(2) by (simp add: quiet_hook_def)
  show "pw_processes (fst (reap_process (Some kill) (Some f) r (w, n))) =
      (if ok r then fst (markStatus (pr_processId r) ReapedP (pw_processes w)) else pw_processes w)"
    using k same ok f assms(3) by (cases x) (auto simp: reap_process_def Let_def split_def markStatus_found)
  show "snd (reap_process (Some kill) (Some f) r (w, n)) = (if ok r then Suc n else n)"
    using k same ok assms(3) by (cases x) (auto simp: reap_process_def Let_def split_def markStatus_found)
qed

lemma sweep_fold:
  assumes "quiet_kill ok kill" "quiet_hook f"
  shows "\<forall>r \<in> set rs. map_has (pw_processes w) (pr_processId r) \<Longrightarrow>
    pw_processes (fst (fold (reap_process (Some kill) (Some f)) rs (w, n))) =
      fold (\<lambda>r. fst \<circ> markStatus (pr_processId r) ReapedP) (filter ok rs) (pw_processes w) \<and>
    snd (fold (reap_process (Some kill) (Some f)) rs (w, n)) = n + length (filter ok rs)"
proof (induction rs arbitrary: w n)
  case (Cons r rs)
  define wn where "wn = reap_process (Some kill) (Some f) r (w, n)"
  have step: "pw_processes (fst wn) = (if ok r then fst (markStatus (pr_processId r) ReapedP (pw_processes w)) else pw_processes w)"
    "snd wn = (if ok r then Suc n else n)"
    using reap_one_quiet [OF assms, of w r n] Cons.prems by (simp_all add: wn_def)
  have "\<forall>r \<in> set rs. map_has (pw_processes (fst wn)) (pr_processId r)"
    using Cons.prems by (auto simp: step get_markStatus)
  note ih = Cons.IH [OF this, of "snd wn", unfolded prod.collapse]
  show ?case
    using ih by (simp add: wn_def [symmetric] step)
qed simp

lemma expired_ids:
  assumes "registry_keyed reg"
  shows "i \<in> pr_processId ` set (filter ok (listExpired now reg)) \<longleftrightarrow>
    (\<exists>r. map_get reg i = Some r \<and> process_expired now r \<and> ok r)"
proof -
  have mem: "r \<in> set (map_values reg) \<longleftrightarrow> map_get reg (pr_processId r) = Some r" for r
    using assms map_wf_value_get [of reg r] map_get_in_values [of reg] by (auto simp: registry_keyed_def map_all_def)
  have "map_get reg i = Some r \<Longrightarrow> pr_processId r = i" for r
    using assms by (auto simp: registry_keyed_def map_all_def)
  then show ?thesis
    using mem unfolding listExpired_def set_filter image_iff by blast
qed

text \<open>C39: A sweep marks as reaped the rows that are running past their time and whose kill succeeded, counts them, and
  leaves every other row as it was, when its hooks leave the registry alone; a sweep at the same time then finds only the
  rows whose kill failed.\<close>

theorem sweep_reaps_exactly:
  assumes "registry_keyed (pw_processes w)" "quiet_kill ok kill" "quiet_hook f"
  shows "get_process i (pw_processes (fst (reaper_sweep (Some kill) (Some f) now w))) =
      map_option (\<lambda>r. if process_expired now r \<and> ok r then r\<lparr>pr_status := ReapedP\<rparr> else r) (get_process i (pw_processes w)) \<and>
    snd (reaper_sweep (Some kill) (Some f) now w) = length (filter ok (listExpired now (pw_processes w))) \<and>
    (\<exists>r. get_process i (pw_processes (fst (reaper_sweep (Some kill) (Some f) now w))) = Some r \<and> process_expired now r) =
      (\<exists>r. get_process i (pw_processes w) = Some r \<and> process_expired now r \<and> \<not> ok r)"
proof -
  let ?reg = "pw_processes w" and ?w' = "fst (reaper_sweep (Some kill) (Some f) now w)"
  have "\<forall>r \<in> set (listExpired now ?reg). map_has ?reg (pr_processId r)"
    using expired_ids [OF assms(1), of _ "\<lambda>_. True" now] by (fastforce simp: image_iff)
  then have fold: "pw_processes ?w' = fold (\<lambda>r. fst \<circ> markStatus (pr_processId r) ReapedP) (filter ok (listExpired now ?reg)) ?reg"
    "snd (reaper_sweep (Some kill) (Some f) now w) = length (filter ok (listExpired now ?reg))"
    using sweep_fold [OF assms(2,3), of "listExpired now ?reg" w 0] by (simp_all add: reaper_sweep_def)
  have get: "get_process i (pw_processes ?w') =
      map_option (\<lambda>r. if process_expired now r \<and> ok r then r\<lparr>pr_status := ReapedP\<rparr> else r) (get_process i ?reg)"
    using expired_ids [OF assms(1), of i ok now]
    by (cases "map_get ?reg i") (auto simp: fold(1) get_process_def get_mark_all)
  then have "(\<exists>r. get_process i (pw_processes ?w') = Some r \<and> process_expired now r) =
      (\<exists>r. get_process i ?reg = Some r \<and> process_expired now r \<and> \<not> ok r)"
    by (cases "get_process i ?reg") (auto simp: process_expired_def)
  with get fold(2) show ?thesis by simp
qed

definition job :: "string \<Rightarrow> ms \<Rightarrow> process_record" where
  "job i t = \<lparr>pr_processId = i, pr_scopeId = ''s'', pr_kind = ''background'', pr_command = ''make'', pr_startedAt = 0,
     pr_expiresAt = t, pr_status = RunningP, pr_sessionRef = None, pr_runId = None\<rparr>"

definition three_jobs :: "unit process_world" where
  "three_jobs = \<lparr>pw_processes = [(''old'', job ''old'' 50), (''stuck'', job ''stuck'' 9), (''new'', job ''new'' 51)], pw_rest = ()\<rparr>"

definition kill_but_stuck :: "unit process_hook" where
  "kill_but_stuck r w = (w, if pr_processId r = ''stuck'' then Inl (survived ''stuck'') else Inr ())"

definition quiet_end :: "unit process_hook" where
  "quiet_end r w = (w, Inr ())"

lemma sweep_reaps_exactly_witness:
  "map (\<lambda>i. map_option pr_status
      (get_process i (pw_processes (fst (reaper_sweep (Some kill_but_stuck) (Some quiet_end) 50 three_jobs)))))
     [''old'', ''stuck'', ''new''] = [Some ReapedP, Some RunningP, Some RunningP]"
proof -
  have "quiet_kill (\<lambda>r. pr_processId r \<noteq> ''stuck'') kill_but_stuck" "quiet_hook quiet_end"
    by (simp_all add: quiet_kill_def quiet_hook_def kill_but_stuck_def quiet_end_def)
  moreover have "registry_keyed (pw_processes three_jobs)"
    by (simp add: registry_keyed_def map_wf_def map_all_def job_def three_jobs_def)
  ultimately have "get_process i (pw_processes (fst (reaper_sweep (Some kill_but_stuck) (Some quiet_end) 50 three_jobs))) =
      map_option (\<lambda>r. if process_expired 50 r \<and> pr_processId r \<noteq> ''stuck'' then r\<lparr>pr_status := ReapedP\<rparr> else r)
        (get_process i (pw_processes three_jobs))" for i
    using sweep_reaps_exactly by blast
  then show ?thesis
    by (simp add: get_process_def job_def process_expired_def three_jobs_def)
qed

section \<open>What reconciliation marks\<close>

lemma reconcile_fold:
  "fold (reconcile_one live) rs reg =
     fold (\<lambda>r. fst \<circ> markStatus (pr_processId r) ExitedP)
       (filter (\<lambda>r. backend_status live (pr_processId r) \<noteq> Some ProcRunning) rs) reg"
  by (induction rs arbitrary: reg) (simp_all add: reconcile_one_def)

lemma reconcile_marks:
  assumes "registry_keyed (pw_processes w)" "sb_listProcesses sb h w = (w', Inr live)" "pw_processes w' = pw_processes w"
  shows "get_process i (pw_processes (fst (reconcileProcesses sb h sc w))) =
    map_option (\<lambda>r. if pr_status r = RunningP \<and> pr_scopeId r = sc \<and> backend_status live i \<noteq> Some ProcRunning
                    then r\<lparr>pr_status := ExitedP\<rparr> else r) (get_process i (pw_processes w))"
proof -
  let ?reg = "pw_processes w"
  let ?run = "filter (\<lambda>r. pr_status r = RunningP) (listByScope sc ?reg)"
  have mem: "r \<in> set (map_values ?reg) \<longleftrightarrow> map_get ?reg (pr_processId r) = Some r" for r
    using assms(1) map_wf_value_get [of ?reg r] map_get_in_values [of ?reg] by (auto simp: registry_keyed_def map_all_def)
  have keyed: "map_get ?reg i = Some r \<Longrightarrow> pr_processId r = i" for r
    using assms(1) by (auto simp: registry_keyed_def map_all_def)
  have ids: "i \<in> pr_processId ` set (filter (\<lambda>r. backend_status live (pr_processId r) \<noteq> Some ProcRunning) ?run) \<longleftrightarrow>
      (\<exists>r. map_get ?reg i = Some r \<and> pr_status r = RunningP \<and> pr_scopeId r = sc \<and> backend_status live i \<noteq> Some ProcRunning)"
    using mem keyed unfolding listByScope_def set_filter image_iff by blast
  show ?thesis
  proof (cases "?run = []")
    case True
    then have "\<not> (pr_status r = RunningP \<and> pr_scopeId r = sc)" if "map_get ?reg i = Some r" for r
      using True map_get_in_values [OF that] unfolding listByScope_def filter_empty_conv set_filter by blast
    then show ?thesis
      using True by (cases "map_get ?reg i") (auto simp: reconcileProcesses_def Let_def get_process_def)
  next
    case False
    then have "pw_processes (fst (reconcileProcesses sb h sc w)) = fold (reconcile_one live) ?run ?reg"
      using assms(2,3) by (simp add: reconcileProcesses_def Let_def)
    then show ?thesis
      using ids by (cases "map_get ?reg i") (auto simp: reconcile_fold get_process_def get_mark_all)
  qed
qed

end
