(* ===== verification/Monitors.thy ===== *)
theory Monitors
  imports Process_Registry Run_Trigger
begin

text \<open>
  Watches on background processes: the store of \<open>monitors/monitor-store.ts\<close>, the patterns and the broker of
  \<open>monitors/monitor-broker.ts\<close> and the poller of \<open>monitors/monitor-poller.ts\<close>, over the process registry, the sandbox and
  \<open>runTrigger\<close>. While the sandbox or a turn runs, everything may change. The lease and the timer around a tick, and the
  lines it logs, are left out. The em dash U+2014, the ellipsis U+2026 and the two code units of the warning sign lie outside
  the modelled ones and are written as 0x97, 0x85, 0x80 and 0x81.
\<close>

section \<open>Monitors\<close>

record monitor = trigger_base +
  mo_processId :: string
  mo_command :: string
  mo_threadRef :: string
  mo_instructions :: "string option"
  mo_pattern :: "string option"
  mo_cursor :: int
  mo_tail :: "string option"
  mo_expiresAt :: ms
  mo_lastError :: "string option"

record create_monitor = create_trigger +
  cm_processId :: string
  cm_command :: string
  cm_threadRef :: string
  cm_instructions :: "string option"
  cm_pattern :: "string option"
  cm_cursor :: "int option"
  cm_expiresAt :: ms

type_synonym monitor_store = "(string, monitor) jsmap"

definition mon_create :: "create_monitor \<Rightarrow> string \<Rightarrow> ms \<Rightarrow> monitor_store \<Rightarrow> monitor_store \<times> monitor outcome" where
  "mon_create inp uuid now st =
     (case assertNoEscalation (create_trigger.truncate inp) of
        Inl e \<Rightarrow> (st, Inl e)
      | Inr _ \<Rightarrow>
          (let m = trigger_base.extend (buildTriggerBase (create_trigger.truncate inp) uuid now)
                 \<lparr>mo_processId = cm_processId inp, mo_command = cm_command inp, mo_threadRef = cm_threadRef inp,
                  mo_instructions = cm_instructions inp, mo_pattern = cm_pattern inp,
                  mo_cursor = (case cm_cursor inp of None \<Rightarrow> 0 | Some c \<Rightarrow> c), mo_tail = None,
                  mo_expiresAt = cm_expiresAt inp, mo_lastError = None\<rparr>
           in (dm_put (tb_id m) m st, Inr m)))"

definition mon_enabled :: "monitor_store \<Rightarrow> monitor list" where
  "mon_enabled st = filter tb_enabled (dm_all st)"

text \<open>An absent tail of the patch deletes the field.\<close>

definition mon_advance :: "string \<Rightarrow> int \<Rightarrow> string option \<Rightarrow> ms option \<Rightarrow> monitor_store \<Rightarrow> monitor_store" where
  "mon_advance i cursor rest firedAt st =
     fst (dm_merge i (\<lambda>m. m\<lparr>mo_cursor := cursor, mo_tail := rest,
                            tb_lastFiredAt := (if firedAt = None then tb_lastFiredAt m else firedAt)\<rparr>) st)"

definition mon_update :: "string \<Rightarrow> string option \<Rightarrow> string option \<Rightarrow> int option \<Rightarrow> monitor_store \<Rightarrow> monitor_store" where
  "mon_update i instructions pattern cursor st =
     (if instructions = None \<and> pattern = None \<and> cursor = None then st
      else fst (dm_merge i
        (\<lambda>m. m\<lparr>mo_instructions := (if instructions = None then mo_instructions m else instructions),
               mo_pattern := (if pattern = None then mo_pattern m else pattern),
               mo_cursor := (case cursor of None \<Rightarrow> mo_cursor m | Some c \<Rightarrow> c),
               mo_tail := (if cursor = None then mo_tail m else None)\<rparr>) st))"

definition mon_recordError :: "string \<Rightarrow> string \<Rightarrow> monitor_store \<Rightarrow> monitor_store" where
  "mon_recordError i e st = fst (dm_merge i (\<lambda>m. m\<lparr>mo_lastError := Some e\<rparr>) st)"

section \<open>Patterns\<close>

definition MAX_MONITOR_PATTERN_CHARS :: nat where
  "MAX_MONITOR_PATTERN_CHARS = 256"

record alternative =
  al_literal :: string
  al_starts :: bool
  al_ends :: bool

definition pattern_metachars :: string where
  "pattern_metachars = CHR 0x5C # ''[](){}`*+?''"

definition read_alternative :: "string \<Rightarrow> alternative outcome" where
  "read_alternative raw =
     (if raw = [] then Inl (Error ''pattern alternatives must not be empty'')
      else (let starts = js_startsWith raw ''^''; ends = js_endsWith raw ''$'';
                literal = (let s = (if starts then drop 1 raw else raw) in if ends then butlast s else s)
            in if literal = [] \<or> CHR ''^'' \<in> set literal \<or> CHR ''$'' \<in> set literal
               then Inl (Error ''^ and $ are supported only as alternative anchors'')
               else Inr \<lparr>al_literal = literal, al_starts = starts, al_ends = ends\<rparr>))"

fun read_alternatives :: "string list \<Rightarrow> alternative list outcome" where
  "read_alternatives [] = Inr []"
| "read_alternatives (w # ws) =
     (case read_alternative w of
        Inl e \<Rightarrow> Inl e
      | Inr a \<Rightarrow> (case read_alternatives ws of Inl e \<Rightarrow> Inl e | Inr as \<Rightarrow> Inr (a # as)))"

definition alternative_matches :: "alternative \<Rightarrow> string \<Rightarrow> bool" where
  "alternative_matches a line =
     (if al_starts a \<and> al_ends a then line = al_literal a
      else if al_starts a then js_startsWith line (al_literal a)
      else if al_ends a then js_endsWith line (al_literal a)
      else js_includes line (al_literal a))"

definition compileMonitorPattern :: "string \<Rightarrow> (string \<Rightarrow> bool) outcome" where
  "compileMonitorPattern pat =
     (if pat = [] \<or> length pat > MAX_MONITOR_PATTERN_CHARS then Inl (Error ''pattern must be 1-256 characters'')
      else if list_ex (\<lambda>c. c \<in> set pattern_metachars) pat
      then Inl (Error ''pattern must use literal alternatives, with optional ^ and $ anchors'')
      else map_sum id (\<lambda>as line. list_ex (\<lambda>a. alternative_matches a line) as)
             (read_alternatives (js_split pat CHR ''|'')))"

section \<open>The broker\<close>

definition EXPIRY_GRACE_MS :: ms where
  "EXPIRY_GRACE_MS = 5 * 60000"

record monitor_broker =
  mb_scopeId :: scope_id
  mb_owner :: string
  mb_ownerScopeId :: scope_id
  mb_threadRef :: string
  mb_destination :: "destination option"
  mb_graceMs :: "ms option"

record watch_options =
  wo_instructions :: "string option"
  wo_pattern :: "string option"
  wo_sinceCursor :: "int option"

record watch_result =
  wa_monitorId :: string
  wa_processId :: string
  wa_reattached :: bool
  wa_expiresAt :: ms

definition already_ended :: "process_status \<Rightarrow> js_error" where
  "already_ended st =
     Error (''background job already '' @ (case st of RunningP \<Rightarrow> ''running'' | ExitedP \<Rightarrow> ''exited'' | ReapedP \<Rightarrow> ''reaped'') @
            '' '' @ [CHR 0x97] @ '' nothing left to watch'')"

definition watched_by :: "monitor_broker \<Rightarrow> string \<Rightarrow> monitor \<Rightarrow> bool" where
  "watched_by b processId m \<longleftrightarrow> tb_enabled m \<and> mo_processId m = processId \<and> mo_threadRef m = mb_threadRef b"

definition watch_input :: "monitor_broker \<Rightarrow> string \<Rightarrow> process_record \<Rightarrow> watch_options \<Rightarrow> create_monitor" where
  "watch_input b processId r opts =
     \<lparr>ct_ownerScopeId = mb_ownerScopeId b, ct_owner = mb_owner b, ct_createdBy = mb_owner b,
      ct_destination = mb_destination b, ct_ownerConsentedAt = None, ct_recipientConsent = None,
      cm_processId = processId, cm_command = pr_command r, cm_threadRef = mb_threadRef b,
      cm_instructions = wo_instructions opts, cm_pattern = wo_pattern opts, cm_cursor = wo_sinceCursor opts,
      cm_expiresAt = pr_expiresAt r + (case mb_graceMs b of None \<Rightarrow> EXPIRY_GRACE_MS | Some g \<Rightarrow> g)\<rparr>"

definition watch ::
  "monitor_broker \<Rightarrow> process_registry \<Rightarrow> string \<Rightarrow> watch_options \<Rightarrow> string \<Rightarrow> ms \<Rightarrow> monitor_store \<Rightarrow>
   monitor_store \<times> watch_result outcome" where
  "watch b reg processId opts uuid now st =
     (case get_process processId reg of
        None \<Rightarrow> (st, Inl (Error ''no such background job to watch''))
      | Some r \<Rightarrow>
          if pr_scopeId r \<noteq> mb_scopeId b \<or> pr_kind r \<noteq> ''background'' then (st, Inl (Error ''no such background job to watch''))
          else if pr_status r \<noteq> RunningP then (st, Inl (already_ended (pr_status r)))
          else (case (case wo_pattern opts of None \<Rightarrow> Inr () | Some pat \<Rightarrow> map_sum id (\<lambda>_. ()) (compileMonitorPattern pat)) of
                  Inl e \<Rightarrow> (st, Inl (Error (''invalid pattern: '' @ errMessage e)))
                | Inr _ \<Rightarrow>
                    (case List.find (watched_by b processId) (dm_all st) of
                       Some m \<Rightarrow>
                         (mon_update (tb_id m) (wo_instructions opts) (wo_pattern opts) (wo_sinceCursor opts) st,
                          Inr \<lparr>wa_monitorId = tb_id m, wa_processId = processId, wa_reattached = True, wa_expiresAt = mo_expiresAt m\<rparr>)
                     | None \<Rightarrow>
                         (case mon_create (watch_input b processId r opts) uuid now st of
                            (st', Inl e) \<Rightarrow> (st', Inl e)
                          | (st', Inr m) \<Rightarrow>
                              (st', Inr \<lparr>wa_monitorId = tb_id m, wa_processId = processId, wa_reattached = False,
                                        wa_expiresAt = mo_expiresAt m\<rparr>)))))"

definition unwatch :: "monitor_broker \<Rightarrow> string \<Rightarrow> monitor_store \<Rightarrow> monitor_store \<times> bool" where
  "unwatch b i st =
     (case dm_get i st of
        None \<Rightarrow> (st, False)
      | Some m \<Rightarrow> if tb_ownerScopeId m \<noteq> mb_ownerScopeId b then (st, False) else (dm_delete i st, True))"

definition broker_list :: "monitor_broker \<Rightarrow> monitor_store \<Rightarrow> monitor list" where
  "broker_list b st = filter (\<lambda>m. tb_ownerScopeId m = mb_ownerScopeId b) (dm_all st)"

section \<open>What an update says\<close>

definition MAX_EVENT_CHARS :: nat where
  "MAX_EVENT_CHARS = 16000"

definition MAX_TAIL_CHARS :: nat where
  "MAX_TAIL_CHARS = 4096"

definition MAX_READ_BYTES :: nat where
  "MAX_READ_BYTES = 64 * 1024"

datatype monitor_event = OutputEv | ExitedEv int | ExpiredEv | LostEv | QuietEv int

definition filterLines :: "string \<Rightarrow> string \<Rightarrow> string" where
  "filterLines chunk pat =
     (case compileMonitorPattern pat of
        Inl e \<Rightarrow> chunk
      | Inr matches \<Rightarrow> js_join [NL] (filter (\<lambda>l. l \<noteq> [] \<and> matches l) (js_split chunk NL)))"

fun describeEvent :: "monitor_event \<Rightarrow> string" where
  "describeEvent (ExitedEv code) = ''It just exited with code '' @ js_of_int code @ ''.''"
| "describeEvent ExpiredEv =
     ''Your watch on it expired (the job may still be running '' @ [CHR 0x97] @
     '' `background poll` it, or arm a new watch if you still need one).''"
| "describeEvent LostEv =
     ''It is no longer on your computer (likely lost to a restart) '' @ [CHR 0x97] @ '' treat it as gone.''"
| "describeEvent (QuietEv quietMins) =
     ''It's still running '' @ [CHR 0x97] @ '' just nothing wake-worthy in the last ~'' @ js_of_int quietMins @
     '' min. Its most recent raw output (if any) is below so you can read where it's up to.''"
| "describeEvent OutputEv = ''It produced new output.''"

fun replyGuidance :: "monitor_event \<Rightarrow> string" where
  "replyGuidance (QuietEv q) =
     ''This heartbeat exists so they can tell a quiet job from a stalled one: a one-line still-running note is the point, unless they asked you to stay quiet. ''"
| "replyGuidance OutputEv = ''If the new output is just noise they wouldn't care about, finish silently. ''"
| "replyGuidance ev =
     ''This is the last update this watch will send, so stay quiet only if they explicitly asked for silence on this outcome. ''"

definition capped_output :: "string \<Rightarrow> string" where
  "capped_output out =
     (if length out > MAX_EVENT_CHARS then [CHR 0x85] @ ''[truncated]'' @ [NL] @ slice_last (int MAX_EVENT_CHARS) out else out)"

definition renderEvent :: "monitor \<Rightarrow> string \<Rightarrow> monitor_event \<Rightarrow> string" where
  "renderEvent m out ev =
     js_join [NL]
       ([''[background job update '' @ [CHR 0x97] @ '' automated, not a user message] You are watching background job '' @
           mo_processId m @ '' (`'' @ mo_command m @ ''`) in this conversation. '' @ describeEvent ev] @
        (if js_trim (capped_output out) \<noteq> [] then [[], ''<output>'', capped_output out, ''</output>''] else []) @
        (if truthy (mo_instructions m) then [[], ''When you armed this watch you said: '' @ the (mo_instructions m)] else []) @
        [[],
         ''Act on this. The user can't see the job, so when something changed that's worth telling them, reply with a brief update '' @
         [CHR 0x97] @ '' it posts to this conversation '' @ [CHR 0x97] @ '' saying where things stand and what to expect next. '' @
         replyGuidance ev @ ''Use the `background` tool (poll/stop/watch) if you need more than what's shown.''])"

section \<open>The poller\<close>

record 'y watch_rest =
  wr_monitors :: monitor_store
  wr_processes :: process_registry
  wr_more :: 'y

type_synonym 'y watch_world = "'y watch_rest trigger_world"

text \<open>\<open>pd_supports\<close> is \<open>supportsProcessSessions\<close> of the sandbox; \<open>pd_times\<close> gives the clock readings of a fire.\<close>

record 'y poller_deps =
  pd_trigger :: "'y watch_rest trigger_deps"
  pd_sandbox :: "'y watch_world process_sandbox"
  pd_supports :: bool
  pd_times :: "string \<Rightarrow> trigger_times"
  pd_maxFiresPerTick :: "nat option"
  pd_heartbeatMs :: "ms option"
  pd_minFireIntervalMs :: "ms option"

definition DEFAULT_HEARTBEAT_MS :: ms where
  "DEFAULT_HEARTBEAT_MS = 180000"

definition DEFAULT_MIN_FIRE_INTERVAL_MS :: ms where
  "DEFAULT_MIN_FIRE_INTERVAL_MS = 60000"

definition max_fires :: "'y poller_deps \<Rightarrow> nat" where
  "max_fires deps = (case pd_maxFiresPerTick deps of None \<Rightarrow> 20 | Some n \<Rightarrow> n)"

definition heartbeat_ms :: "'y poller_deps \<Rightarrow> ms" where
  "heartbeat_ms deps = (case pd_heartbeatMs deps of None \<Rightarrow> DEFAULT_HEARTBEAT_MS | Some n \<Rightarrow> n)"

definition min_fire_interval :: "'y poller_deps \<Rightarrow> ms" where
  "min_fire_interval deps = (case pd_minFireIntervalMs deps of None \<Rightarrow> DEFAULT_MIN_FIRE_INTERVAL_MS | Some n \<Rightarrow> n)"

abbreviation monitors_of :: "'y watch_world \<Rightarrow> monitor_store" where
  "monitors_of w \<equiv> wr_monitors (tw_rest w)"

definition on_monitors :: "(monitor_store \<Rightarrow> monitor_store) \<Rightarrow> 'y watch_world \<Rightarrow> 'y watch_world" where
  "on_monitors f w = w\<lparr>tw_rest := (tw_rest w)\<lparr>wr_monitors := f (wr_monitors (tw_rest w))\<rparr>\<rparr>"

definition on_processes :: "(process_registry \<Rightarrow> process_registry) \<Rightarrow> 'y watch_world \<Rightarrow> 'y watch_world" where
  "on_processes f w = w\<lparr>tw_rest := (tw_rest w)\<lparr>wr_processes := f (wr_processes (tw_rest w))\<rparr>\<rparr>"

definition monitor_key :: "monitor \<Rightarrow> string \<Rightarrow> string" where
  "monitor_key m slot = ''monitor:'' @ tb_id m @ '':'' @ slot"

definition monitor_spec :: "monitor \<Rightarrow> string \<Rightarrow> string \<Rightarrow> monitor_event \<Rightarrow> bool \<Rightarrow> trigger_spec" where
  "monitor_spec m fireKey out ev withErrorNotice =
     \<lparr>sp_owner = tb_owner m, sp_ownerScopeId = tb_ownerScopeId m, sp_input = renderEvent m out ev,
      sp_securityScreenData = Some (capped_output out), sp_fireKey = fireKey, sp_surface = ''monitor'',
      sp_destination = tb_destination m, sp_message = None, sp_threadRef = Some (mo_threadRef m), sp_runAs = None,
      sp_members = None, sp_recipientConsent = None, sp_recipientConsentRequired = False, sp_shadow = False,
      sp_thinkingLevel = None, sp_readOnly = False, sp_turnWallClockMs = None,
      sp_errorNotice = (if withErrorNotice
        then Some (\<lambda>s. [CHR 0x80, CHR 0x81] @ '' A background-job update (`'' @ mo_command m @ ''`) could not run: '' @ s)
        else None)\<rparr>"

definition fire_monitor ::
  "'y poller_deps \<Rightarrow> monitor \<Rightarrow> string \<Rightarrow> string \<Rightarrow> monitor_event \<Rightarrow> bool \<Rightarrow> 'y watch_world \<Rightarrow>
   'y watch_world \<times> trigger_outcome outcome" where
  "fire_monitor deps m fireKey out ev withErrorNotice w =
     runTrigger (pd_trigger deps) (pd_times deps fireKey) (monitor_spec m fireKey out ev withErrorNotice) w"

definition record_note :: "monitor \<Rightarrow> trigger_outcome \<Rightarrow> 'y watch_world \<Rightarrow> 'y watch_world" where
  "record_note m o' w = (if truthy (to_note o') then on_monitors (mon_recordError (tb_id m) (the (to_note o'))) w else w)"

definition disarm :: "monitor \<Rightarrow> 'y watch_world \<Rightarrow> 'y watch_world" where
  "disarm m w = on_monitors (setTriggerEnabled (tb_id m) False) w"

definition reportLost :: "'y poller_deps \<Rightarrow> monitor \<Rightarrow> 'y watch_world \<Rightarrow> 'y watch_world \<times> unit outcome" where
  "reportLost deps m w =
     (case fire_monitor deps m (monitor_key m ''lost'') (case mo_tail m of None \<Rightarrow> [] | Some x \<Rightarrow> x) LostEv False w of
        (w', Inl e) \<Rightarrow> (w', Inl e)
      | (w', Inr o') \<Rightarrow> (disarm m (if to_authzFailed o' then w' else record_note m o' w'), Inr ()))"

definition stillLive :: "monitor \<Rightarrow> 'y watch_world \<Rightarrow> bool" where
  "stillLive m w = (case dm_get (tb_id m) (monitors_of w) of None \<Rightarrow> False | Some fresh \<Rightarrow> tb_enabled fresh)"

text \<open>What is read on top of the tail kept from before, cut into what counts now and the tail of an unfinished line.\<close>

definition after_last_newline :: "string \<Rightarrow> string" where
  "after_last_newline raw = rev (takeWhile (\<lambda>c. c \<noteq> NL) (rev raw))"

definition to_last_newline :: "string \<Rightarrow> string" where
  "to_last_newline raw = rev (dropWhile (\<lambda>c. c \<noteq> NL) (rev raw))"

definition keep_tail :: "string \<Rightarrow> string option" where
  "keep_tail s = (let x = slice_last (int MAX_TAIL_CHARS) s in if x = [] then None else Some x)"

definition split_events :: "string option \<Rightarrow> bool \<Rightarrow> string \<Rightarrow> string \<times> string option" where
  "split_events pattern ended raw =
     (if \<not> truthy pattern then (raw, None)
      else if ended then (filterLines raw (the pattern), None)
      else if NL \<notin> set raw then ([], keep_tail raw)
      else (filterLines (to_last_newline raw) (the pattern), keep_tail (after_last_newline raw)))"

definition quiet_minutes :: "ms \<Rightarrow> int" where
  "quiet_minutes d = max 1 ((2 * d + 60000) div 120000)"

text \<open>Nothing to wake for: a heartbeat, or the cursor alone moves on.\<close>

definition poll_quiet ::
  "'y poller_deps \<Rightarrow> monitor \<Rightarrow> ms \<Rightarrow> read_result \<Rightarrow> string \<Rightarrow> string option \<Rightarrow> 'y watch_world \<Rightarrow>
   'y watch_world \<times> bool outcome" where
  "poll_quiet deps m t r raw rest w =
     (let quietSince = (case tb_lastFiredAt m of None \<Rightarrow> tb_createdAt m | Some x \<Rightarrow> x) in
      if 0 < heartbeat_ms deps \<and> heartbeat_ms deps \<le> t - quietSince
      then (case fire_monitor deps m (monitor_key m (''quiet:'' @ js_of_int quietSince))
                   (slice_last (int MAX_TAIL_CHARS) raw) (QuietEv (quiet_minutes (t - quietSince))) False w of
              (w', Inl e) \<Rightarrow> (w', Inl e)
            | (w', Inr o') \<Rightarrow>
                if to_authzFailed o' then (disarm m w', Inr True)
                else (on_monitors (mon_advance (tb_id m) (rd_cursor r) rest (Some t)) (record_note m o' w'), Inr True))
      else if rd_cursor r \<noteq> mo_cursor m \<or> rest \<noteq> mo_tail m
      then (on_monitors (mon_advance (tb_id m) (rd_cursor r) rest None) w, Inr False)
      else (w, Inr False))"

definition event_of :: "read_result \<Rightarrow> bool \<Rightarrow> monitor \<Rightarrow> monitor_event \<times> string" where
  "event_of r expired m =
     (case rd_status r of
        ProcExited code \<Rightarrow> (ExitedEv code, monitor_key m ''exit'')
      | ProcRunning \<Rightarrow> if expired then (ExpiredEv, monitor_key m ''expired'')
                       else (OutputEv, monitor_key m (js_of_int (mo_cursor m))))"

text \<open>An update is sent.\<close>

definition poll_fire ::
  "'y poller_deps \<Rightarrow> monitor \<Rightarrow> ms \<Rightarrow> read_result \<Rightarrow> bool \<Rightarrow> string \<Rightarrow> string option \<Rightarrow> 'y watch_world \<Rightarrow>
   'y watch_world \<times> bool outcome" where
  "poll_fire deps m t r expired events rest w =
     (let exited = has_exited (rd_status r); (ev, fireKey) = event_of r expired m in
      case fire_monitor deps m fireKey events ev True w of
        (w', Inl e) \<Rightarrow> (w', Inl e)
      | (w', Inr o') \<Rightarrow>
          if to_authzFailed o' then (disarm m w', Inr True)
          else (let w1 = record_note m o' w';
                    w2 = (if dm_get (tb_id m) (monitors_of w1) = None then w1
                          else (let v = on_monitors (mon_advance (tb_id m) (rd_cursor r) rest (Some t)) w1
                                in if exited \<or> expired then disarm m v else v))
                in (if exited then on_processes (\<lambda>reg. fst (markStatus (mo_processId m) ExitedP reg)) w2 else w2, Inr True)))"

definition poll_monitor ::
  "'y poller_deps \<Rightarrow> string \<Rightarrow> monitor \<Rightarrow> ms \<Rightarrow> 'y watch_world \<Rightarrow> 'y watch_world \<times> bool outcome" where
  "poll_monitor deps h m t w =
     (if \<not> stillLive m w then (w, Inr False)
      else (case sb_readProcess (pd_sandbox deps) h (mo_processId m)
                   \<lparr>ro_sinceCursor = mo_cursor m, ro_maxBytes = Some MAX_READ_BYTES, ro_waitMs = 0\<rparr> w of
              (w', Inl e) \<Rightarrow>
                if processIsGone e
                then (case reportLost deps m w' of (w'', Inl e') \<Rightarrow> (w'', Inl e') | (w'', Inr _) \<Rightarrow> (w'', Inr True))
                else (on_monitors (mon_recordError (tb_id m) (errMessage e)) w', Inr False)
            | (w', Inr r) \<Rightarrow>
                (let exited = has_exited (rd_status r);
                     expired = (\<not> exited \<and> mo_expiresAt m \<le> t);
                     raw = (case mo_tail m of None \<Rightarrow> [] | Some x \<Rightarrow> x) @ rd_chunks r;
                     (events, rest) = split_events (mo_pattern m) (exited \<or> expired) raw in
                 if js_trim events = [] \<and> \<not> exited \<and> \<not> expired then poll_quiet deps m t r raw rest w'
                 else if \<not> exited \<and> \<not> expired \<and> 0 < min_fire_interval deps \<and>
                         (case tb_lastFiredAt m of None \<Rightarrow> False | Some f \<Rightarrow> t - f < min_fire_interval deps)
                 then (w', Inr False)
                 else poll_fire deps m t r expired events rest w')))"

text \<open>The loop of a tick: the handles provisioned so far, by scope, the fires so far and the error that ended it.\<close>

fun poll_monitors ::
  "'y poller_deps \<Rightarrow> ms \<Rightarrow> monitor list \<Rightarrow> (scope_id, string) jsmap \<Rightarrow> nat \<Rightarrow> 'y watch_world \<Rightarrow>
   'y watch_world \<times> (scope_id, string) jsmap \<times> nat outcome" where
  "poll_monitors deps t [] handles fires w = (w, handles, Inr fires)"
| "poll_monitors deps t (m # ms) handles fires w =
     (if max_fires deps \<le> fires then (w, handles, Inr fires)
      else (case get_process (mo_processId m) (wr_processes (tw_rest w)) of
              None \<Rightarrow>
                (case reportLost deps m w of
                   (w', Inl e) \<Rightarrow> (w', handles, Inl e)
                 | (w', Inr _) \<Rightarrow> poll_monitors deps t ms handles (Suc fires) w')
            | Some rec \<Rightarrow>
                (case (case map_get handles (pr_scopeId rec) of
                         Some h \<Rightarrow> (w, Inr h)
                       | None \<Rightarrow> sb_provision (pd_sandbox deps) (pr_scopeId rec) w) of
                   (w', Inl e) \<Rightarrow> poll_monitors deps t ms handles fires (on_monitors (mon_recordError (tb_id m) (errMessage e)) w')
                 | (w', Inr h) \<Rightarrow>
                     (case poll_monitor deps h m t w' of
                        (w'', Inl e) \<Rightarrow>
                          poll_monitors deps t ms (map_set (pr_scopeId rec) h handles) fires
                            (on_monitors (mon_recordError (tb_id m) (errMessage e)) w'')
                      | (w'', Inr fired) \<Rightarrow>
                          poll_monitors deps t ms (map_set (pr_scopeId rec) h handles) (if fired then Suc fires else fires) w''))))"

definition created_cmp :: "monitor \<Rightarrow> monitor \<Rightarrow> int" where
  "created_cmp a b = tb_createdAt a - tb_createdAt b"

definition pollAll :: "'y poller_deps \<Rightarrow> ms \<Rightarrow> 'y watch_world \<Rightarrow> 'y watch_world \<times> unit outcome" where
  "pollAll deps t w =
     (let enabled = js_sort created_cmp (mon_enabled (monitors_of w)) in
      if \<not> pd_supports deps \<or> enabled = [] then (w, Inr ())
      else (case poll_monitors deps t enabled [] 0 w of
              (w', handles, res) \<Rightarrow>
                (fold (\<lambda>h v. fst (sb_teardown (pd_sandbox deps) h v)) (map_values handles) w', map_sum id (\<lambda>_. ()) res)))"

section \<open>Lines across reads\<close>

lemma js_join_eq_Nil: "[] \<notin> set ws \<Longrightarrow> js_join sep ws = [] \<longleftrightarrow> ws = []"
  by (induction sep ws rule: js_join.induct) auto

lemma js_join_append:
  "ws \<noteq> [] \<Longrightarrow> vs \<noteq> [] \<Longrightarrow> js_join sep (ws @ vs) = js_join sep ws @ sep @ js_join sep vs"
proof (induction ws)
  case (Cons w ws)
  then show ?case
    by (cases ws; cases vs) auto
qed simp

text \<open>Joining the joins of lists of words, the empty ones left out, is joining all the words.\<close>

lemma join_of_joins:
  "list_all (\<lambda>ws. [] \<notin> set ws) xss \<Longrightarrow>
     js_join sep (filter (\<lambda>x. x \<noteq> []) (map (js_join sep) xss)) = js_join sep (concat xss)"
proof (induction xss)
  case (Cons xs xss)
  have eq: "filter (\<lambda>x. x \<noteq> []) (map (js_join sep) xss) = [] \<longleftrightarrow> concat xss = []"
    using Cons.prems by (auto simp: filter_empty_conv list_all_iff js_join_eq_Nil)
  consider "xs = []" | "concat xss = []" "xs \<noteq> []" | "xs \<noteq> []" "concat xss \<noteq> []"
    by blast
  then show ?case
  proof cases
    case 2
    then have none: "filter (\<lambda>x. x \<noteq> []) (map (js_join sep) xss) = []"
      using eq by blast
    have "js_join sep xs \<noteq> []"
      using 2 Cons.prems by (simp add: js_join_eq_Nil)
    then have "filter (\<lambda>x. x \<noteq> []) (map (js_join sep) (xs # xss)) = [js_join sep xs]"
      using none by simp
    moreover have "concat (xs # xss) = xs"
      using 2(1) by (simp only: concat.simps append_Nil2)
    ultimately show ?thesis by (simp only: js_join.simps)
  next
    case 3
    then have "js_join sep xs \<noteq> []"
      using Cons.prems by (simp add: js_join_eq_Nil)
    then show ?thesis
      using Cons 3 eq js_join_append [of "[js_join sep xs]" "filter (\<lambda>x. x \<noteq> []) (map (js_join sep) xss)" sep]
        js_join_append [of xs "concat xss" sep] by (simp del: map_eq_conv)
  qed (use Cons in simp)
qed simp

definition selected :: "(string \<Rightarrow> bool) \<Rightarrow> string \<Rightarrow> string list" where
  "selected f s = filter (\<lambda>l. l \<noteq> [] \<and> f l) (js_split s NL)"

lemma selected_nonempty: "[] \<notin> set (selected f s)"
  by (simp add: selected_def)

lemma filterLines_selected: "compileMonitorPattern pat = Inr f \<Longrightarrow> filterLines s pat = js_join [NL] (selected f s)"
  by (simp add: filterLines_def selected_def)

lemma selected_cut: "selected f (x @ NL # y) = selected f (x @ [NL]) @ selected f y"
  by (simp add: selected_def js_split_append)

lemma last_newline_cut:
  "NL \<in> set raw \<Longrightarrow> \<exists>x. to_last_newline raw = x @ [NL] \<and> raw = x @ NL # after_last_newline raw \<and> NL \<notin> set (after_last_newline raw)"
proof -
  assume "NL \<in> set raw"
  then obtain y z where "rev raw = y @ NL # z" "NL \<notin> set y"
    by (metis set_rev split_list_first)
  then have "takeWhile (\<lambda>c. c \<noteq> NL) (rev raw) = y" "dropWhile (\<lambda>c. c \<noteq> NL) (rev raw) = NL # z" "raw = rev z @ NL # rev y"
    by (auto simp: takeWhile_append dropWhile_append rev_swap)
  then show ?thesis
    using \<open>NL \<notin> set y\<close> by (intro exI [of _ "rev z"]) (simp add: to_last_newline_def after_last_newline_def)
qed

text \<open>No line is longer than the tail that is kept.\<close>

definition short_lines :: "string \<Rightarrow> bool" where
  "short_lines s \<longleftrightarrow> list_all (\<lambda>l. length l \<le> MAX_TAIL_CHARS) (js_split s NL)"

lemma length_first_line: "NL \<notin> set a \<Longrightarrow> js_split (a @ b) NL = (a @ hd (js_split b NL)) # tl (js_split b NL)"
  by (induction a) (auto split: list.split)

lemma short_lines_tail: "short_lines (x @ NL # y) \<Longrightarrow> short_lines y"
  by (simp add: short_lines_def js_split_append)

lemma short_lines_first: "NL \<notin> set a \<Longrightarrow> short_lines (a @ b) \<Longrightarrow> length a \<le> MAX_TAIL_CHARS"
  by (simp add: short_lines_def length_first_line)

lemma keep_tail_all: "length s \<le> MAX_TAIL_CHARS \<Longrightarrow> (case keep_tail s of None \<Rightarrow> [] | Some x \<Rightarrow> x) = s"
  by (simp add: keep_tail_def Let_def slice_last_def MAX_TAIL_CHARS_def)

text \<open>What the reads of a watch report, the last one at the end of its process: each is handed the tail the one before left.\<close>

fun reported :: "string \<Rightarrow> string option \<Rightarrow> string list \<Rightarrow> string \<Rightarrow> string list" where
  "reported pat kept [] final = [fst (split_events (Some pat) True ((case kept of None \<Rightarrow> [] | Some x \<Rightarrow> x) @ final))]"
| "reported pat kept (c # cs) final =
     (let er = split_events (Some pat) False ((case kept of None \<Rightarrow> [] | Some x \<Rightarrow> x) @ c)
      in fst er # reported pat (snd er) cs final)"

lemma reported_selected:
  assumes "compileMonitorPattern pat = Inr f"
  shows "short_lines ((case kept of None \<Rightarrow> [] | Some x \<Rightarrow> x) @ concat cs @ final) \<Longrightarrow>
    \<exists>xss. reported pat kept cs final = map (js_join [NL]) xss \<and> list_all (\<lambda>ws. [] \<notin> set ws) xss \<and>
      concat xss = selected f ((case kept of None \<Rightarrow> [] | Some x \<Rightarrow> x) @ concat cs @ final)"
proof (induction cs arbitrary: kept)
  case Nil
  have "truthy (Some pat)"
    using assms by (auto simp: compileMonitorPattern_def)
  then show ?case
    using assms by (intro exI [of _ "[selected f ((case kept of None \<Rightarrow> [] | Some x \<Rightarrow> x) @ final)]"])
      (simp add: split_events_def filterLines_selected selected_nonempty)
next
  case (Cons c cs)
  define raw where "raw = (case kept of None \<Rightarrow> [] | Some x \<Rightarrow> x) @ c"
  have pat: "pat \<noteq> []"
    using assms by (auto simp: compileMonitorPattern_def)
  have whole: "(case kept of None \<Rightarrow> [] | Some x \<Rightarrow> x) @ c @ concat cs @ final = raw @ concat cs @ final"
    by (simp add: raw_def)
  have short: "short_lines (raw @ concat cs @ final)"
    using Cons.prems by (simp add: raw_def)
  show ?case
  proof (cases "NL \<in> set raw")
    case False
    have "(case keep_tail raw of None \<Rightarrow> [] | Some x \<Rightarrow> x) = raw"
      using short_lines_first [OF False short] by (rule keep_tail_all)
    then obtain xss where "reported pat (keep_tail raw) cs final = map (js_join [NL]) xss"
      "list_all (\<lambda>ws. [] \<notin> set ws) xss" "concat xss = selected f (raw @ concat cs @ final)"
      using Cons.IH [of "keep_tail raw"] short by auto
    then show ?thesis
      using False pat by (intro exI [of _ "[] # xss"]) (simp add: split_events_def Let_def raw_def)
  next
    case True
    then obtain x where x: "to_last_newline raw = x @ [NL]" "raw = x @ NL # after_last_newline raw"
      "NL \<notin> set (after_last_newline raw)"
      using last_newline_cut by blast
    define rest where "rest = after_last_newline raw"
    have "short_lines (rest @ concat cs @ final)"
      using short x(2) short_lines_tail [of x "rest @ concat cs @ final"] by (simp add: rest_def) (metis append.assoc append_Cons)
    moreover have "(case keep_tail rest of None \<Rightarrow> [] | Some x \<Rightarrow> x) = rest"
      using keep_tail_all short_lines_first calculation x(3) by (metis rest_def)
    ultimately obtain xss where xss: "reported pat (keep_tail rest) cs final = map (js_join [NL]) xss"
      "list_all (\<lambda>ws. [] \<notin> set ws) xss" "concat xss = selected f (rest @ concat cs @ final)"
      using Cons.IH [of "keep_tail rest"] by auto
    have "selected f (raw @ concat cs @ final) = selected f (x @ [NL]) @ selected f (rest @ concat cs @ final)"
      using selected_cut [of f x "rest @ concat cs @ final"] x(2) by (metis append.assoc append_Cons rest_def)
    then show ?thesis
      using True pat x(1) xss assms
      by (intro exI [of _ "selected f (x @ [NL]) # xss"])
        (simp add: split_events_def Let_def raw_def [symmetric] whole rest_def filterLines_selected selected_nonempty)
  qed
qed


definition three_reads :: "string list" where
  "three_reads = [''ok'' @ [NL] @ ''err: a'', [NL] @ ''warn'', ''ing'' @ [NL, NL]]"


section \<open>The end of a watch\<close>

lemma monitors_on_monitors [simp]: "monitors_of (on_monitors f w) = f (monitors_of w)"
  by (simp add: on_monitors_def)

lemma monitors_on_processes [simp]: "monitors_of (on_processes f w) = monitors_of w"
  by (simp add: on_processes_def)

lemma processes_on_monitors [simp]: "wr_processes (tw_rest (on_monitors f w)) = wr_processes (tw_rest w)"
  by (simp add: on_monitors_def)

lemma get_merge:
  "dm_get j (fst (dm_merge i f st)) = (if j = i then map_option f (dm_get i st) else dm_get j st)"
  by (simp add: dm_merge_def dm_get_def split: option.split)

lemma get_setTriggerEnabled:
  "dm_get j (setTriggerEnabled i b st) = (if j = i then map_option (\<lambda>m. m\<lparr>tb_enabled := b\<rparr>) (dm_get i st) else dm_get j st)"
  by (simp add: setTriggerEnabled_def get_merge)

lemma disarmed: "\<not> stillLive m (disarm m w)"
  by (simp add: stillLive_def disarm_def get_setTriggerEnabled split: option.split)

lemma not_live_same_id: "tb_id m' = tb_id m \<Longrightarrow> stillLive m' w = stillLive m w"
  by (simp add: stillLive_def)

lemma stillLive_on_processes [simp]: "stillLive m (on_processes f w) = stillLive m w"
  by (simp add: stillLive_def)

lemma gone_not_live: "dm_get (tb_id m) (monitors_of w) = None \<Longrightarrow> \<not> stillLive m w"
  by (simp add: stillLive_def)

lemma reportLost_disarms: "reportLost deps m w = (w', Inr u) \<Longrightarrow> \<not> stillLive m w'"
  by (auto simp: reportLost_def disarmed split: prod.splits sum.splits)

lemma poll_fire_disarms:
  assumes "poll_fire deps m t r expired events rest w = (w', Inr b)" "has_exited (rd_status r) \<or> expired"
  shows "b \<and> \<not> stillLive m w'"
proof -
  obtain ev k where ek: "event_of r expired m = (ev, k)"
    by fastforce
  obtain u x where f: "fire_monitor deps m k events ev True w = (u, x)"
    by fastforce
  show ?thesis
  proof (cases x)
    case (Inl e)
    then show ?thesis
      using assms ek f by (simp add: poll_fire_def)
  next
    case (Inr o')
    then show ?thesis
      using assms ek f by (auto simp: poll_fire_def Let_def disarmed gone_not_live split: if_splits)
  qed
qed

text \<open>The process of the watch is gone, has exited, or is read after the watch expired.\<close>

definition last_read :: "'y poller_deps \<Rightarrow> string \<Rightarrow> monitor \<Rightarrow> ms \<Rightarrow> 'y watch_world \<Rightarrow> bool" where
  "last_read deps h m t w \<longleftrightarrow>
     (case snd (sb_readProcess (pd_sandbox deps) h (mo_processId m)
                  \<lparr>ro_sinceCursor = mo_cursor m, ro_maxBytes = Some MAX_READ_BYTES, ro_waitMs = 0\<rparr> w) of
        Inl e \<Rightarrow> processIsGone e
      | Inr r \<Rightarrow> has_exited (rd_status r) \<or> mo_expiresAt m \<le> t)"

lemma poll_not_live: "\<not> stillLive m w \<Longrightarrow> poll_monitor deps h m t w = (w, Inr False)"
  by (simp add: poll_monitor_def)

text \<open>C35: A watch whose process is gone or has exited, or that has expired, is over once the poller reports that: unless its
  update throws, the monitor is disabled or removed whatever the turn did to it, and no later poll reads or fires it.\<close>

theorem watch_ends:
  assumes "stillLive m w" "last_read deps h m t w" "poll_monitor deps h m t w = (w', Inr b)"
  shows "b \<and> \<not> stillLive m w' \<and> poll_monitor deps2 h2 (m\<lparr>mo_cursor := c, mo_tail := rest\<rparr>) t2 w' = (w', Inr False)"
proof -
  obtain u x where x: "sb_readProcess (pd_sandbox deps) h (mo_processId m)
      \<lparr>ro_sinceCursor = mo_cursor m, ro_maxBytes = Some MAX_READ_BYTES, ro_waitMs = 0\<rparr> w = (u, x)"
    by fastforce
  have "b \<and> \<not> stillLive m w'"
  proof (cases x)
    case (Inl e)
    then show ?thesis
      using assms x reportLost_disarms by (fastforce simp: poll_monitor_def last_read_def split: prod.splits sum.splits)
  next
    case (Inr r)
    define ended where "ended \<longleftrightarrow> has_exited (rd_status r) \<or> \<not> has_exited (rd_status r) \<and> mo_expiresAt m \<le> t"
    obtain events rest' where "split_events (mo_pattern m) ended ((case mo_tail m of None \<Rightarrow> [] | Some x \<Rightarrow> x) @ rd_chunks r) = (events, rest')"
      by fastforce
    moreover have "has_exited (rd_status r) \<or> mo_expiresAt m \<le> t"
      using assms(2) x Inr by (simp add: last_read_def)
    ultimately have "poll_fire deps m t r (\<not> has_exited (rd_status r) \<and> mo_expiresAt m \<le> t) events rest' u = (w', Inr b)"
      using assms(1,3) x Inr by (auto simp: poll_monitor_def Let_def ended_def split: if_splits)
    then show ?thesis
      by (rule poll_fire_disarms) (use \<open>has_exited (rd_status r) \<or> mo_expiresAt m \<le> t\<close> in blast)
  qed
  moreover have "stillLive (m\<lparr>mo_cursor := c, mo_tail := rest\<rparr>) w' = stillLive m w'"
    by (rule not_live_same_id) simp
  ultimately show ?thesis
    by (simp add: poll_not_live)
qed

text \<open>A job that exits while its watcher's turn tries to set the watch back and keep it armed.\<close>

definition demo_monitor :: monitor where
  "demo_monitor =
     \<lparr>tb_id = ''m'', tb_ownerScopeId = ''personal:a@x'', tb_owner = ''a@x'', tb_createdBy = ''a@x'', tb_ownerConsentedAt = None,
      tb_destination = None, tb_enabled = True, tb_createdAt = 1, tb_lastFiredAt = None, tb_recipientConsent = None,
      mo_processId = ''p'', mo_command = ''make'', mo_threadRef = ''t'', mo_instructions = None, mo_pattern = None, mo_cursor = 4,
      mo_tail = None, mo_expiresAt = 100, mo_lastError = None\<rparr>"

definition rearming_poller :: "unit poller_deps" where
  "rearming_poller =
     \<lparr>pd_trigger = \<lparr>tg_idemOptions = idem_options_of None None,
        tg_run = (\<lambda>req w. (on_monitors (\<lambda>st. setTriggerEnabled ''m'' True (mon_update ''m'' None None (Some 0) st)) w,
                          Inr (turn_result_of OkT\<lparr>tr_reply := Some ''done''\<rparr>))),
        tg_currentScopeMembers = None, tg_directory = None\<rparr>,
      pd_sandbox = \<lparr>sb_now = (\<lambda>w. 0), sb_sleep = (\<lambda>k w. w), sb_provision = (\<lambda>sc w. (w, Inr sc)),
        sb_readProcess = (\<lambda>h i ro w. (w, Inr \<lparr>rd_chunks = ''ok'', rd_cursor = 6, rd_status = ProcExited 0\<rparr>)),
        sb_signalProcess = (\<lambda>h i sig w. (w, Inr ())), sb_listProcesses = (\<lambda>h w. (w, Inr [])), sb_teardown = (\<lambda>h w. (w, Inr ()))\<rparr>,
      pd_supports = True, pd_times = (\<lambda>k. demo_times 7 ''d''), pd_maxFiresPerTick = None, pd_heartbeatMs = None,
      pd_minFireIntervalMs = None\<rparr>"

definition watched_world :: "unit watch_world" where
  "watched_world =
     \<lparr>tw_deliveries = empty_delivery_store, tw_idem = idem_start None 0, tw_identity = identity_start [],
      tw_rest = \<lparr>wr_monitors = [(''m'', demo_monitor)], wr_processes = [(''p'', job ''p'' 50)], wr_more = ()\<rparr>\<rparr>"

text \<open>A fire only throws when its turn or the listing of the scope's members does.\<close>

lemma body_returns:
  assumes "\<And>req v. \<exists>v' r. tg_run deps req v = (v', Inr r)"
  shows "\<exists>w' r. trigger_body deps tt cur actorId spec w = (w', Inr r)"
proof -
  obtain v r where "tg_run deps (trigger_request_of deps cur actorId spec) w = (v, Inr r)"
    using assms by blast
  then show ?thesis
    by (cases "sp_message spec") (auto simp: trigger_body_def map_prod_def split: prod.split)
qed

lemma once_returns:
  assumes "\<And>v. \<exists>w' r. body v = (w', Inr r)"
  shows "\<exists>w' r. run_once opts k check finish body w = (w', Inr r)"
proof (cases "once_enter k (tw_idem w)")
  case (Some s)
  obtain s' b where c: "isCommitted opts k check s = (s', b)"
    by fastforce
  obtain w' r where "body (w\<lparr>tw_idem := s'\<rparr>) = (w', Inr r)"
    using assms by blast
  then show ?thesis
    using Some c by (cases b) (simp_all add: run_once_def)
qed (simp add: run_once_def)

lemma fire_returns:
  assumes "tg_currentScopeMembers (pd_trigger deps) = None" "\<And>req v. \<exists>v' r. tg_run (pd_trigger deps) req v = (v', Inr r)"
  shows "\<exists>w' o'. fire_monitor deps m k out ev b w = (w', Inr o')"
proof -
  let ?spec = "monitor_spec m k out ev b" and ?tt = "pd_times deps k"
  let ?w = "w\<lparr>tw_identity := refresh (tt_refresh ?tt) (tt_refreshed ?tt) (tw_identity w)\<rparr>"
  show ?thesis
  proof (cases "trigger_actor (tw_identity ?w) None ?spec")
    case (Inl o')
    then show ?thesis
      using assms(1) by (simp add: fire_monitor_def runTrigger_def Let_def)
  next
    case (Inr actorId)
    obtain v r where "run_once (tg_idemOptions (pd_trigger deps)) (sp_fireKey ?spec) (tt_check ?tt) (tt_done ?tt)
        (trigger_body (pd_trigger deps) ?tt None actorId ?spec) ?w = (v, Inr r)"
      using once_returns body_returns [OF assms(2)] by meson
    then show ?thesis
      using assms(1) Inr by (simp add: fire_monitor_def runTrigger_def Let_def)
  qed
qed

lemma poll_fire_returns:
  assumes "tg_currentScopeMembers (pd_trigger deps) = None" "\<And>req v. \<exists>v' r. tg_run (pd_trigger deps) req v = (v', Inr r)"
  shows "snd (poll_fire deps m t r expired events rest w) = Inr True"
proof -
  obtain ev k where ek: "event_of r expired m = (ev, k)"
    by fastforce
  obtain u o' where "fire_monitor deps m k events ev True w = (u, Inr o')"
    using fire_returns [OF assms] by blast
  then show ?thesis
    using ek by (simp add: poll_fire_def Let_def)
qed

lemma watch_ends_witness:
  "snd (poll_monitor rearming_poller ''h'' demo_monitor 9 watched_world) = Inr True \<and>
   \<not> stillLive demo_monitor (fst (poll_monitor rearming_poller ''h'' demo_monitor 9 watched_world))"
proof -
  let ?p = "poll_monitor rearming_poller ''h'' demo_monitor 9 watched_world"
  have read: "stillLive demo_monitor watched_world" "last_read rearming_poller ''h'' demo_monitor 9 watched_world"
    by (simp_all add: stillLive_def last_read_def watched_world_def demo_monitor_def rearming_poller_def dm_get_def)
  have "snd (poll_fire rearming_poller demo_monitor 9 r x events rest w) = Inr True" for r x events rest w
    by (rule poll_fire_returns) (simp_all add: rearming_poller_def)
  then have ok: "snd ?p = Inr True"
    using read(1) by (simp add: poll_monitor_def split_events_def demo_monitor_def rearming_poller_def Let_def)
  then show ?thesis
    using watch_ends [OF read, of "fst ?p" True] by (simp add: prod_eq_iff)
qed

section \<open>What a poll loses\<close>

lemma fire_known_key:
  assumes "fire_monitor deps m k out ev b w = (w', Inr o')" "\<not> to_authzFailed o'"
    and "map_get (is_done (tw_idem w)) k = Some t0"
    and "tt_check (pd_times deps k) - io_retentionMs (tg_idemOptions (pd_trigger deps)) \<le> t0"
  shows "\<not> to_ran o' \<and> to_note o' = None \<and> tw_rest w' = tw_rest w \<and> tw_deliveries w' = tw_deliveries w"
  using assms(1) unfolding fire_monitor_def
proof (cases rule: runTrigger_cases)
  case (refused cur)
  then show ?thesis
    using assms(2) by (auto simp: trigger_actor_def authz_failed_def Let_def split: if_splits list.splits)
next
  case (acts cur actorId v r)
  let ?w = "w\<lparr>tw_identity := known_identity (pd_times deps k) w\<rparr>"
  obtain s where "fire_once (pd_trigger deps) (pd_times deps k) cur actorId (monitor_spec m k out ev b) w = (?w\<lparr>tw_idem := s\<rparr>, Inr None)"
    using run_once_skips [of ?w k t0] assms(3,4) unfolding fire_once_def by (fastforce simp: monitor_spec_def)
  then have "r = None" "v = ?w\<lparr>tw_idem := s\<rparr>"
    using acts(3) by auto
  then show ?thesis
    using acts(4,5) by (auto simp: trigger_outcome_of_def no_notes_def error_notice_def isTriggerFailure_def split: option.splits)
qed

text \<open>The key of an output update is the cursor it starts at. A watch set back to the cursor of an earlier update, as
  \<open>watch\<close> does on request, reuses its key: nothing is run or sent, and yet the cursor moves past the output.\<close>

lemma rewound_watch_skips_output:
  assumes "rd_status r = ProcRunning" "map_get (is_done (tw_idem w)) (monitor_key m (js_of_int (mo_cursor m))) = Some t0"
    and "tt_check (pd_times deps (monitor_key m (js_of_int (mo_cursor m)))) - io_retentionMs (tg_idemOptions (pd_trigger deps)) \<le> t0"
    and "poll_fire deps m t r False events rest w = (w', Inr True)" "dm_get (tb_id m) (monitors_of w) = Some m0"
    and "stillLive m w'"
  shows "tw_deliveries w' = tw_deliveries w \<and>
    dm_get (tb_id m) (monitors_of w') = Some (m0\<lparr>mo_cursor := rd_cursor r, mo_tail := rest, tb_lastFiredAt := Some t\<rparr>)"
proof -
  let ?k = "monitor_key m (js_of_int (mo_cursor m))"
  obtain u x where f: "fire_monitor deps m ?k events OutputEv True w = (u, x)"
    by fastforce
  then obtain o' where o': "x = Inr o'" "\<not> to_authzFailed o'"
    using assms(1,4,6) by (auto simp: poll_fire_def event_of_def Let_def disarmed split: sum.splits if_splits)
  note known = fire_known_key [OF f [unfolded o'(1)] o'(2) assms(2,3)]
  then have "record_note m o' u = u" "dm_get (tb_id m) (monitors_of u) = Some m0"
    using assms(5) by (simp_all add: record_note_def)
  then have "w' = on_monitors (mon_advance (tb_id m) (rd_cursor r) rest (Some t)) u"
    using assms(1,4) f o' by (simp add: poll_fire_def event_of_def Let_def)
  then show ?thesis
    using known \<open>dm_get (tb_id m) (monitors_of u) = Some m0\<close>
    by (simp add: mon_advance_def get_merge) (simp add: on_monitors_def)
qed

text \<open>The turn of an update may set its own watch back; the cursor it asked for is overwritten when the update is over.\<close>

lemma own_update_overwrites_cursor:
  assumes "rd_status r = ProcRunning" "fire_monitor deps m (monitor_key m (js_of_int (mo_cursor m))) events OutputEv True w = (u, Inr o')"
    and "\<not> to_authzFailed o'" "to_note o' = None" "dm_get (tb_id m) (monitors_of u) = Some m1"
  shows "dm_get (tb_id m) (monitors_of (fst (poll_fire deps m t r False events rest w))) =
    Some (m1\<lparr>mo_cursor := rd_cursor r, mo_tail := rest, tb_lastFiredAt := Some t\<rparr>)"
  using assms by (simp add: poll_fire_def event_of_def Let_def record_note_def mon_advance_def get_merge)

text \<open>A monitor without a process record whose update throws ends the tick for every monitor created after it, and stays
  first in line.\<close>

lemma lost_monitor_ends_tick:
  assumes "fires < max_fires deps" "get_process (mo_processId m) (wr_processes (tw_rest w)) = None"
    and "fire_monitor deps m (monitor_key m ''lost'') (case mo_tail m of None \<Rightarrow> [] | Some x \<Rightarrow> x) LostEv False w = (w', Inl e)"
  shows "poll_monitors deps t (m # ms) handles fires w = (w', handles, Inl e)"
  using assms by (simp add: reportLost_def)

section \<open>One watch per process and thread\<close>

definition same_watch :: "monitor \<Rightarrow> monitor \<Rightarrow> bool" where
  "same_watch m m' \<longleftrightarrow>
     tb_enabled m \<and> tb_enabled m' \<and> mo_processId m = mo_processId m' \<and> mo_threadRef m = mo_threadRef m'"

definition one_watch :: "monitor_store \<Rightarrow> bool" where
  "one_watch st \<longleftrightarrow> (\<forall>i j m m'. dm_get i st = Some m \<and> dm_get j st = Some m' \<and> same_watch m m' \<longrightarrow> i = j)"

lemma one_watchD: "one_watch st \<Longrightarrow> dm_get i st = Some m \<Longrightarrow> dm_get j st = Some m' \<Longrightarrow> same_watch m m' \<Longrightarrow> i = j"
  unfolding one_watch_def by blast

text \<open>A monitor that comes from another and is enabled only if that was.\<close>

definition narrows :: "monitor \<Rightarrow> monitor \<Rightarrow> bool" where
  "narrows m0 m \<longleftrightarrow> mo_processId m = mo_processId m0 \<and> mo_threadRef m = mo_threadRef m0 \<and> (tb_enabled m \<longrightarrow> tb_enabled m0)"

lemma same_watch_narrows: "same_watch m m' \<Longrightarrow> narrows m0 m \<Longrightarrow> narrows m0' m' \<Longrightarrow> same_watch m0 m0'"
  by (simp add: same_watch_def narrows_def)

lemma one_watch_narrows:
  assumes "one_watch st" "\<And>i m. dm_get i st' = Some m \<Longrightarrow> \<exists>m0. dm_get i st = Some m0 \<and> narrows m0 m"
  shows "one_watch st'"
  unfolding one_watch_def
proof (intro allI impI, elim conjE)
  fix i j m m'
  assume m: "dm_get i st' = Some m" "dm_get j st' = Some m'" "same_watch m m'"
  obtain n where "dm_get i st = Some n" "narrows n m"
    using assms(2) m(1) by blast
  moreover obtain n' where "dm_get j st = Some n'" "narrows n' m'"
    using assms(2) m(2) by blast
  ultimately show "i = j"
    using one_watchD [OF assms(1)] same_watch_narrows [OF m(3)] by blast
qed

lemma one_watch_merge: "one_watch st \<Longrightarrow> (\<And>m. narrows m (f m)) \<Longrightarrow> one_watch (fst (dm_merge i f st))"
  by (erule one_watch_narrows) (auto simp: get_merge narrows_def split: if_splits)

lemma one_watch_changes:
  assumes "one_watch st"
  shows "one_watch (mon_advance i c rest t st)" "one_watch (mon_update i a b d st)" "one_watch (mon_recordError i e st)"
    "one_watch (setTriggerEnabled i False st)" "one_watch (dm_delete i st)"
proof -
  show "one_watch (dm_delete i st)"
    by (rule one_watch_narrows [OF assms]) (auto simp: dm_delete_def dm_get_def narrows_def split: if_splits)
qed (auto simp: mon_advance_def mon_update_def mon_recordError_def setTriggerEnabled_def assms narrows_def
  intro!: one_watch_merge)

lemma mon_create_stores:
  "fst (mon_create inp uuid now st) = st \<or>
     (\<exists>m. fst (mon_create inp uuid now st) = dm_put (tb_id m) m st \<and> mo_processId m = cm_processId inp \<and>
        mo_threadRef m = cm_threadRef inp)"
proof (cases "assertNoEscalation (create_trigger.truncate inp)")
  case (Inr u)
  define m where "m = trigger_base.extend (buildTriggerBase (create_trigger.truncate inp) uuid now)
    \<lparr>mo_processId = cm_processId inp, mo_command = cm_command inp, mo_threadRef = cm_threadRef inp,
     mo_instructions = cm_instructions inp, mo_pattern = cm_pattern inp,
     mo_cursor = (case cm_cursor inp of None \<Rightarrow> 0 | Some c \<Rightarrow> c), mo_tail = None,
     mo_expiresAt = cm_expiresAt inp, mo_lastError = None\<rparr>"
  have "fst (mon_create inp uuid now st) = dm_put (tb_id m) m st"
    using Inr by (simp add: mon_create_def Let_def m_def)
  moreover have "mo_processId m = cm_processId inp" "mo_threadRef m = cm_threadRef inp"
    by (simp_all add: m_def trigger_base.extend_def)
  ultimately show ?thesis by blast
qed (simp add: mon_create_def)

lemma watch_cases:
  obtains (same) "fst (watch b reg pid opts uuid now st) = st"
  | (updates) m where "List.find (watched_by b pid) (dm_all st) = Some m"
      "fst (watch b reg pid opts uuid now st) =
         mon_update (tb_id m) (wo_instructions opts) (wo_pattern opts) (wo_sinceCursor opts) st"
  | (creates) inp where "List.find (watched_by b pid) (dm_all st) = None" "cm_processId inp = pid"
      "cm_threadRef inp = mb_threadRef b" "fst (watch b reg pid opts uuid now st) = fst (mon_create inp uuid now st)"
proof (cases "get_process pid reg")
  case (Some r)
  note none = same and found = updates and new = creates
  let ?ok = "pr_scopeId r = mb_scopeId b \<and> pr_kind r = ''background'' \<and> pr_status r = RunningP"
  let ?pat = "case wo_pattern opts of None \<Rightarrow> Inr () | Some pat \<Rightarrow> map_sum id (\<lambda>_. ()) (compileMonitorPattern pat)"
  show ?thesis
  proof (cases "?ok \<and> \<not> isl ?pat")
    case False
    then have "fst (watch b reg pid opts uuid now st) = st"
      using Some by (cases ?pat) (auto simp: watch_def)
    then show ?thesis by (rule none)
  next
    case True
    then obtain u where ok: "?pat = Inr u" ?ok
      by (cases ?pat) auto
    show ?thesis
    proof (cases "List.find (watched_by b pid) (dm_all st)")
      case f: (Some m)
      then show ?thesis
        using Some ok by (intro found [OF f]) (simp add: watch_def)
    next
      case f: None
      then show ?thesis
        using Some ok by (intro new [OF f, of "watch_input b pid r opts"])
          (auto simp: watch_def watch_input_def split: prod.split sum.split)
    qed
  qed
qed (auto simp: watch_def intro: same)

text \<open>Watching a process never leaves two armed monitors on it in one thread.\<close>

lemma watch_keeps_one:
  assumes "one_watch st" "map_wf st"
  shows "one_watch (fst (watch b reg pid opts uuid now st))"
proof (cases rule: watch_cases [of b reg pid opts uuid now st])
  case same
  then show ?thesis using assms by simp
next
  case (updates m)
  then show ?thesis using one_watch_changes(2) [OF assms(1)] by simp
next
  case (creates inp)
  from mon_create_stores [of inp uuid now st] show ?thesis
  proof (elim disjE exE conjE)
    assume "fst (mon_create inp uuid now st) = st"
    then show ?thesis using creates(4) assms by simp
  next
    fix m
    assume m: "fst (mon_create inp uuid now st) = dm_put (tb_id m) m st" "mo_processId m = cm_processId inp"
      "mo_threadRef m = cm_threadRef inp"
    have none: "\<not> watched_by b pid m'" if "dm_get j st = Some m'" for j m'
      using that find_NoneD [OF creates(1)] memory_map.all_values [OF assms(2), of m'] by blast
    have "\<not> same_watch m m'" "\<not> same_watch m' m" if "dm_get j st = Some m'" for j m'
      using none [OF that] m(2,3) creates(2,3) by (auto simp: watched_by_def same_watch_def)
    then show ?thesis
      using one_watchD [OF assms(1)] unfolding one_watch_def m(1) creates(4)
      by (auto simp: dm_put_def dm_get_def split: if_splits)
  qed
qed

end
