(* ===== verification/Spec2Isabelle.thy ===== *)
theory Spec2Isabelle
  imports Run_Queue Run_Worker Run_Recovery Session_Props Durable_Map Directory Identity
    Access_Control Scope_Membership Audience Egress Security_Posture
    Tape_Fold Tape_Images Budget Idempotency Cron_Scheduler Command_Policy
    Admin_Service Project_Store Resolution Task_Store Turn_Intake Monitors
begin

text \<open>
  \<^bold>\<open>The program.\<close> qmLOS runs agents for an organisation. A message, cron, webhook or monitor becomes a
  run of a session; a worker leases the run, replays the session's tape to a model and appends what
  happened; answers leave through an outbox. Every step asks who the actor is, which scopes the actor
  may read and write, what the audience of a conversation may see, and whether a budget allows it. The
  code is TypeScript under \<open>src/src/\<close>; this library models the core that takes those decisions, on the
  in-memory stores, which the PostgreSQL stores mirror.

  \<^bold>\<open>Conventions.\<close> A class or closure with mutable maps is a record of its state and its methods are
  functions that return the new state; \<open>Date.now()\<close>, \<open>randomUUID()\<close> and what an awaited collaborator
  answers are arguments. A thrown error is \<open>Inl (Error message)\<close> of the sum \<open>outcome\<close>, \<open>undefined\<close> and \<open>null\<close>
  are \<open>None\<close>. A JavaScript \<open>Map\<close> is an association list in insertion order (\<open>jsmap\<close> in \<open>LOS_Prelude\<close>), a
  string a list of code units. Times are integers (\<open>ms\<close>), money is rational. Where asynchronous calls
  interleave, the model is a sequence of steps, one for each stretch between two awaits.

  \<^bold>\<open>Theories and the code they model.\<close>

  \<^item> \<open>LOS_Prelude\<close>: JavaScript strings, truthiness, stable sorting, insertion-ordered maps, outcomes.
  \<^item> \<open>Core_Types\<close>: \<open>types.ts\<close>, \<open>directory/person.ts\<close>, \<open>acl/resource-ref.ts\<close>.
  \<^item> \<open>Run_Store\<close>, \<open>Run_Invariant\<close>, \<open>Run_Queue\<close>: \<open>runs/run-store.ts\<close> and \<open>runs/memory-run-store.ts\<close>; the store's
    operations, their invariant, and the reachable stores. The locale \<open>run_lease\<close> is what a worker needs
    of a lease. \<open>Run_Worker\<close>: \<open>runs/worker.ts\<close>, the heartbeat loop and the processing of one run.
    \<open>Run_Recovery\<close>: \<open>runs/reaper.ts\<close>, \<open>runs/drain.ts\<close>, \<open>runs/run-signal-store.ts\<close> and the release of runs.
  \<^item> \<open>Session_Types\<close>, \<open>Session_Store\<close>, \<open>Session_Queries\<close>, \<open>Session_Props\<close>: \<open>sessions/session-store.ts\<close> and
    \<open>sessions/memory-session-store.ts\<close>; leases, logs, tapes, participants, listings and statistics.
  \<^item> \<open>Durable_Map\<close>: \<open>persistence/durable-map.ts\<close> with its contract as the locale \<open>durable_map\<close>.
  \<^item> \<open>Directory\<close>: \<open>directory/directory-store.ts\<close>, \<open>visibility.ts\<close>, \<open>team-store.ts\<close>, \<open>resolution/scope-reach.ts\<close>.
    \<open>Identity\<close>: \<open>identity/identity-service.ts\<close>, \<open>directory/roster-overrides.ts\<close>.
  \<^item> \<open>Access_Control\<close>: \<open>acl/acl-store.ts\<close> over the locale \<open>grant_persistence\<close>. \<open>Scope_Membership\<close>:
    \<open>resolution/scope-membership.ts\<close>, its collaborators as a record, the locale \<open>agreeing_directory\<close> for a
    directory whose single and listed lookups agree. \<open>Audience\<close>: \<open>resolution/context-filter.ts\<close>,
    \<open>audience-floor.ts\<close>, \<open>publish-audience.ts\<close>. \<open>Egress\<close>: \<open>resolution/egress-policy.ts\<close>.
    \<open>Security_Posture\<close>: \<open>security/security-posture.ts\<close>, postures as a linear order.
  \<^item> \<open>Tape_Fold\<close>, \<open>Tape_Images\<close>: \<open>harness/tape-fold.ts\<close>, from the tape to the model's transcript.
  \<^item> \<open>Token_Ledger\<close>, \<open>Budget\<close>: \<open>ratelimit/token-ledger.ts\<close>, \<open>budget.ts\<close>, \<open>rate-limiter.ts\<close>, \<open>allocation-store.ts\<close>,
    \<open>allocation-budget.ts\<close>. \<open>Idempotency\<close>: \<open>idempotency/idempotency-store.ts\<close>, its calls interleaved.
  \<^item> \<open>Delivery\<close>: \<open>delivery/delivery-store.ts\<close>. \<open>Reach\<close>: \<open>reach/reach.ts\<close> over the locale \<open>reach_source\<close>, interpreted
    on the workspace directory. \<open>Run_Trigger\<close>: \<open>triggers/run-trigger.ts\<close> over both, the identity service and
    the idempotency store.
  \<^item> \<open>Triggers\<close>, \<open>Cron_Schedule\<close>, \<open>Cron_Store\<close>, \<open>Cron_Scheduler\<close>: \<open>triggers/trigger-store.ts\<close> and \<open>cron/\<close>; the
    calendar library is the record \<open>calendar_env\<close>, the scheduler fires through \<open>runTrigger\<close>.

  \<^item> \<open>JS_Regex\<close>: the regular expressions of the language as a backtracking matcher, with what a match takes and
    when a longer text still has it. \<open>Shell_Scan\<close>, \<open>Shell_Payloads\<close>, \<open>Command_Policy\<close>: \<open>policy/command-policy.ts\<close>
    with \<open>util/safe-regex.ts\<close> and \<open>util/shell.ts\<close>; the shell scanner, what a command line makes a shell run, and
    the rules over the unfolded text. The engine of user-given patterns is the parameter \<open>engine\<close>, the
    character for a code unit from 256 on the parameter \<open>cu\<close>.

  \<^item> \<open>Admin_Service\<close>: \<open>admin/admin-grant-store.ts\<close> and \<open>admin/admin-service.ts\<close>. \<open>Project_Store\<close>:
    \<open>projects/project-store.ts\<close> over the locale \<open>versioned_groups\<close>, as the managed groups of the membership checks.
  \<^item> \<open>Config_Cell\<close>, \<open>Soul_Store\<close>, \<open>Config_Store\<close>: \<open>resolution/config-store.ts\<close>; caches over durable rows with queued
    writes, the versioned souls under concurrent processes, and the setters, getters, refreshes and flushes.
    \<open>Resolution\<close>: \<open>resolution/resolution-service.ts\<close>; the locale \<open>scoped_floor\<close> says that scopes only tighten, once for
    the cached and once for the stored answers.

  \<^item> \<open>Process_Registry\<close>: \<open>processes/\<close> with \<open>sandbox/process-poll.ts\<close> and \<open>await-process-exit.ts\<close>; the sandbox is the
    record \<open>process_sandbox\<close>. \<open>Monitors\<close>: \<open>monitors/\<close>, which fire through \<open>runTrigger\<close> on what the processes print.
  \<^item> \<open>Task_Store\<close>: \<open>tasks/task-store.ts\<close> and \<open>tasks/memory-task-store.ts\<close>.
  \<^item> \<open>Turn_Intake\<close>: \<open>core/turn-origin.ts\<close>, \<open>turn-outcome.ts\<close>, \<open>turn-resume.ts\<close>, \<open>turn-error.ts\<close>, \<open>wake/\<close> and
    \<open>triggers/provenance.ts\<close>; where a turn comes from, what it does to a live run and how it ends.

  \<^bold>\<open>What the lemmas show.\<close> Runs: one running run per session, stale workers cannot write, a finished run
  stays finished, nothing is lost between worker, reaper and drain. Sessions: logs are contiguous,
  appends are fenced by the lease, removed participants stay at their window. Access: a guest is
  confined, write implies read, grants change only through a manager, reach stays within the
  directory. Triggers: a fire runs and sends only with authority, consent and visibility, and once per
  key; a cron slot is claimed once, put back exactly, and always recorded or queued. Spending: windows
  hold exactly the recent spending and hard allocations stop it. Configuration: what is set survives a
  restart, no revision of a soul is lost, and no scope loosens what the organisation set. Administration:
  somebody remains who administers, and work runs on the roster it was started with. Processes: polling
  ends, a sweep reaps what it killed, a watch reports every matching line and ends with its process.
  Where the code falls short of its intent, a lemma shows the case: late refreshes and failed writes of
  the configuration, a rewound watch, a lost watch whose update throws, and others named in the theories.

  \<^bold>\<open>Bounds and fuel.\<close> Loops that poll an outside condition are step sequences of any length. The walk up
  the teams (\<open>teamAncestry\<close>) ends by the code's own cycle test and bound \<open>MAX_TEAM_DEPTH\<close>.
  Every recursion is structural or has a measure, but one: \<open>poll_rounds\<close> counts the rounds of polling, and
  \<open>poll_returns\<close> shows that the milliseconds of the deadline and one more suffice.

  \<^bold>\<open>Not modelled.\<close> The PostgreSQL stores, the HTTP routes, the Slack surface, sandboxes, deployments,
  model harnesses, connectors and the plugins under \<open>src/plugins/\<close>: they are input and output over
  outside services. Timers appear as steps; logging and metrics are left out. What a modelled
  component leaves out is said in the note of its theory.
\<close>

end
